(* ===== verification/Prelude.thy ===== *)
theory Prelude
  imports Main "HOL-Library.Word"
begin

text \<open>
  Prelude of the development: the machine-integer types of the C++ code, exceptions as values,
  checked and unchecked byte access, big-endian splitting of words, and the interface every
  wire format of the code implements (locales \<open>codec\<close> and \<open>fixed_codec\<close>).
\<close>

unbundle bit_operations_syntax

section \<open>Types and exceptions\<close>

type_synonym u8 = "8 word"
type_synonym u16 = "16 word"
type_synonym u32 = "32 word"
type_synonym u64 = "64 word"
type_synonym bytes = "u8 list"

text \<open>
  The exceptions the C++ code throws, by their standard class. \<open>Undefined\<close> stands for undefined
  behaviour: an unchecked access outside a container, a front of an empty queue. \<open>Terminated\<close> stands
  for a call of \<open>std::terminate\<close>, which ends the process.
\<close>

datatype exn = Out_of_range | Invalid_argument | Logic_error | Runtime_error | Undefined | Terminated

type_synonym 'a res = "exn + 'a"

fun bindR :: "'e + 'a \<Rightarrow> ('a \<Rightarrow> 'e + 'b) \<Rightarrow> 'e + 'b" where
  "bindR (Inl e) f = Inl e"
| "bindR (Inr x) f = f x"

fun guardR :: "bool \<Rightarrow> 'e \<Rightarrow> 'e + unit" where
  "guardR True e = Inr ()"
| "guardR False e = Inl e"

named_theorems model_defs \<open>definitions to unfold when an operation is evaluated step by step\<close>
named_theorems codec_simps \<open>equations that run an encoder or decoder\<close>
named_theorems word_bytes \<open>splitting words into bytes and joining them again\<close>

lemma bindR_eq_Inr: "bindR r f = Inr y \<longleftrightarrow> (\<exists>x. r = Inr x \<and> f x = Inr y)"
  by (cases r) auto

lemma bindR_eq_Inl: "bindR r f = Inl e \<longleftrightarrow> r = Inl e \<or> (\<exists>x. r = Inr x \<and> f x = Inl e)"
  by (cases r) auto

lemma guardR_eq_Inr [simp]: "guardR b e = Inr u \<longleftrightarrow> b"
  by (cases b) auto

lemma guardR_eq_Inl [simp]: "guardR b e = Inl e' \<longleftrightarrow> \<not> b \<and> e = e'"
  by (cases b) auto

lemma bindR_assoc: "bindR (bindR r f) g = bindR r (\<lambda>x. bindR (f x) g)"
  by (cases r) auto

section \<open>Checked and unchecked access to a byte vector\<close>

text \<open>\<open>at\<close> is \<open>std::vector::at\<close>; \<open>subscript\<close> is the unchecked \<open>operator[]\<close>.\<close>

definition at :: "'a list \<Rightarrow> nat \<Rightarrow> 'a res" where
  "at xs i = (if i < length xs then Inr (xs ! i) else Inl Out_of_range)"

definition subscript :: "'a list \<Rightarrow> nat \<Rightarrow> 'a res" where
  "subscript xs i = (if i < length xs then Inr (xs ! i) else Inl Undefined)"

lemma at_in [simp]: "i < length xs \<Longrightarrow> at xs i = Inr (xs ! i)"
  by (simp add: at_def)

lemma at_out [simp]: "\<not> i < length xs \<Longrightarrow> at xs i = Inl Out_of_range"
  by (simp add: at_def)

lemma subscript_in [simp]: "i < length xs \<Longrightarrow> subscript xs i = Inr (xs ! i)"
  by (simp add: subscript_def)

lemma subscript_out [simp]: "\<not> i < length xs \<Longrightarrow> subscript xs i = Inl Undefined"
  by (simp add: subscript_def)

lemma at_append_skip [codec_simps]:
  "at (pre @ xs) (length pre + k) = at xs k"
  by (simp add: at_def nth_append)

lemma at_append_skip0 [codec_simps]: "at (pre @ xs) (length pre) = at xs 0"
  by (simp add: at_def nth_append)

lemma at_Cons_0 [codec_simps]: "at (x # xs) 0 = Inr x"
  by simp

lemma at_Cons_Suc [codec_simps]: "at (x # xs) (Suc k) = at xs k"
  by (simp add: at_def)

lemma at_Cons_numeral [codec_simps]: "at (x # xs) (numeral k) = at xs (numeral k - 1)"
  by (simp add: at_def nth_Cons')

lemma at_drop: "at v (off + k) = at (drop off v) k"
  by (simp add: at_def nth_drop less_diff_conv add.commute)

text \<open>What a parser sees when the bytes at its offset are known.\<close>

lemma at_take_drop:
  assumes "take n (drop off v) = ys" "length ys = n" "k < n"
  shows "at v (off + k) = Inr (ys ! k)"
proof -
  have "length (take n (drop off v)) = n" using assms(1,2) by simp
  then have "off + k < length v" using assms(3) by simp
  moreover have "v ! (off + k) = ys ! k"
    using assms calculation by (auto simp: nth_take)
  ultimately show ?thesis by simp
qed

lemma reads:
  assumes "take (length ys) (drop off v) = ys" "off \<le> n" "n < off + length ys"
  shows "at v n = Inr (ys ! (n - off))"
  using at_take_drop [OF assms(1) refl, of "n - off"] assms(2,3) by simp

lemma sub_take:
  assumes "take (length ys) (drop off v) = ys" "k + n \<le> length ys" "m = off + k"
  shows "take n (drop m v) = take n (drop k ys)"
proof -
  have "take n (drop k ys) = take n (drop k (take (length ys) (drop off v)))"
    using assms(1) by simp
  also have "\<dots> = take n (drop m v)"
    using assms(2,3) by (simp add: drop_take min_def add.commute)
  finally show ?thesis by simp
qed

section \<open>The interface of a wire format\<close>

text \<open>
  An encoder, a decoder that reads at an offset and returns the new offset (the C++ code passes
  the offset by reference), and the values the encoder accepts. The one law: a decoder that finds
  the encoding of a value at its offset returns that value and steps over it.
\<close>

locale wire_format =
  fixes wf :: "'a \<Rightarrow> bool"
    and enc :: "'a \<Rightarrow> bytes"
    and view :: "'a \<Rightarrow> 'b"
    and dec :: "bytes \<Rightarrow> nat \<Rightarrow> ('b \<times> nat) res"
  assumes dec_view: "\<lbrakk> wf x; take (length (enc x)) (drop off v) = enc x \<rbrakk>
    \<Longrightarrow> dec v off = Inr (view x, off + length (enc x))"
begin

lemma dec_view_at:
  "wf x \<Longrightarrow> dec (pre @ enc x @ suf) (length pre) = Inr (view x, length pre + length (enc x))"
  by (rule dec_view) simp_all

lemma enc_view: "\<lbrakk> wf x; wf y; enc x = enc y \<rbrakk> \<Longrightarrow> view x = view y"
  using dec_view_at [of x "[]" "[]"] dec_view_at [of y "[]" "[]"] by simp

end

text \<open>A format that keeps everything of the value: the decoder is the inverse of the encoder.\<close>

locale codec =
  fixes wf :: "'a \<Rightarrow> bool"
    and enc :: "'a \<Rightarrow> bytes"
    and dec :: "bytes \<Rightarrow> nat \<Rightarrow> ('a \<times> nat) res"
  assumes dec_enc: "\<lbrakk> wf x; take (length (enc x)) (drop off v) = enc x \<rbrakk>
    \<Longrightarrow> dec v off = Inr (x, off + length (enc x))"
begin

lemma dec_enc_at:
  "wf x \<Longrightarrow> dec (pre @ enc x @ suf) (length pre) = Inr (x, length pre + length (enc x))"
  by (rule dec_enc) simp_all

lemma dec_enc_0: "wf x \<Longrightarrow> dec (enc x) 0 = Inr (x, length (enc x))"
  using dec_enc_at [of x "[]" "[]"] by simp

lemma enc_prefix_free:
  assumes "wf x" "wf y" "enc x @ s = enc y @ t"
  shows "x = y \<and> s = t"
proof -
  have "dec (enc x @ s) 0 = Inr (x, length (enc x))"
    using dec_enc_at [OF assms(1), of "[]" s] by simp
  moreover have "dec (enc x @ s) 0 = Inr (y, length (enc y))"
    using dec_enc_at [OF assms(2), of "[]" t] assms(3) by simp
  ultimately have "x = y" by simp
  with assms(3) show ?thesis by simp
qed

lemma enc_inj: "\<lbrakk> wf x; wf y; enc x = enc y \<rbrakk> \<Longrightarrow> x = y"
  using enc_prefix_free [of x y "[]" "[]"] by simp

lemma enc_list_inj:
  "\<lbrakk> list_all wf xs; list_all wf ys; length xs = length ys;
     concat (map enc xs) = concat (map enc ys) \<rbrakk> \<Longrightarrow> xs = ys"
proof (induction xs arbitrary: ys)
  case (Cons x xs)
  then obtain y ys' where ys: "ys = y # ys'" by (cases ys) auto
  with Cons.prems have "enc x @ concat (map enc xs) = enc y @ concat (map enc ys')" by simp
  with Cons.prems ys have "x = y \<and> concat (map enc xs) = concat (map enc ys')"
    by (intro enc_prefix_free) auto
  with Cons ys show ?case by simp
qed simp

end

sublocale codec \<subseteq> whole: wire_format wf enc "\<lambda>x. x" dec
  by unfold_locales (rule dec_enc)

text \<open>A format of fixed width: a buffer that ends inside the value is an exception, not garbage.\<close>

locale fixed_codec = codec +
  fixes width :: nat
  assumes enc_length: "length (enc x) = width"
    and dec_short: "length v < off + width \<Longrightarrow> dec v off = Inl Out_of_range"
begin

lemma dec_fixed: "\<lbrakk> wf x; take width (drop off v) = enc x \<rbrakk> \<Longrightarrow> dec v off = Inr (x, off + width)"
  using dec_enc [of x off v] by (simp add: enc_length)

lemma dec_enc_cut: "n < width \<Longrightarrow> dec (take n (enc x)) 0 = Inl Out_of_range"
  by (rule dec_short) (simp add: enc_length)

end

text \<open>
  A whole message in a receive buffer: the parser starts at the front and leaves what follows the
  message alone.
\<close>

locale message_format =
  fixes wf :: "'a \<Rightarrow> bool"
    and enc :: "'a \<Rightarrow> bytes"
    and parse :: "bytes \<Rightarrow> 'a res"
  assumes parse_enc: "wf m \<Longrightarrow> parse (enc m @ rest) = Inr m"
begin

lemma parse_exact: "wf m \<Longrightarrow> parse (enc m) = Inr m"
  using parse_enc [of m "[]"] by simp

lemma message_unique: "\<lbrakk> wf m; wf m'; enc m @ s = enc m' @ t \<rbrakk> \<Longrightarrow> m = m' \<and> s = t"
  using parse_enc [of m s] parse_enc [of m' t] by auto

end

section \<open>Words and their bytes\<close>

text \<open>The bytes of a word, most significant first, as the shifts of the C++ code produce them.\<close>

definition be16 :: "u16 \<Rightarrow> bytes" where
  "be16 w = [ucast (drop_bit 8 w), ucast w]"

definition be32 :: "u32 \<Rightarrow> bytes" where
  "be32 w = [ucast (drop_bit 24 w), ucast (drop_bit 16 w), ucast (drop_bit 8 w), ucast w]"

definition join16 :: "u8 \<Rightarrow> u8 \<Rightarrow> u16" where
  "join16 b0 b1 = push_bit 8 (ucast b0) OR ucast b1"

definition join32 :: "u8 \<Rightarrow> u8 \<Rightarrow> u8 \<Rightarrow> u8 \<Rightarrow> u32" where
  "join32 b0 b1 b2 b3 =
     push_bit 24 (ucast b0) OR push_bit 16 (ucast b1) OR push_bit 8 (ucast b2) OR ucast b3"

lemma bit_u8_high: "8 \<le> n \<Longrightarrow> \<not> bit (b :: u8) n"
  using bit_imp_le_length [of b n] by auto

lemma bit_u16_high: "16 \<le> n \<Longrightarrow> \<not> bit (w :: u16) n"
  using bit_imp_le_length [of w n] by auto

lemma length_be16 [simp]: "length (be16 w) = 2"
  by (simp add: be16_def)

lemma length_be32 [simp]: "length (be32 w) = 4"
  by (simp add: be32_def)

lemma join16_be16 [word_bytes, simp]: "join16 (ucast (drop_bit 8 w)) (ucast w) = w"
  unfolding join16_def
  by (rule bit_word_eqI) (auto simp: bit_simps)

lemma be16_join16 [word_bytes, simp]: "be16 (join16 b0 b1) = [b0, b1]"
  unfolding be16_def join16_def
  by (auto intro!: bit_word_eqI simp: bit_simps bit_u8_high)

lemma join32_be32 [word_bytes, simp]:
  "join32 (ucast (drop_bit 24 w)) (ucast (drop_bit 16 w)) (ucast (drop_bit 8 w)) (ucast w) = w"
proof (rule bit_word_eqI)
  fix n assume "n < LENGTH(32)"
  then consider "n < 8" | "8 \<le> n" "n < 16" | "16 \<le> n" "n < 24" | "24 \<le> n" "n < 32"
    by fastforce
  then show "bit (join32 (ucast (drop_bit 24 w)) (ucast (drop_bit 16 w)) (ucast (drop_bit 8 w))
      (ucast w)) n = bit w n"
    by cases (auto simp: join32_def bit_simps)
qed

lemma be32_join32 [word_bytes, simp]: "be32 (join32 b0 b1 b2 b3) = [b0, b1, b2, b3]"
  unfolding be32_def join32_def
  by (auto intro!: bit_word_eqI simp: bit_simps bit_u8_high)

text \<open>Fields packed into one byte or word.\<close>

lemma take_bit_small: "unat w < 2 ^ n \<Longrightarrow> take_bit n w = (w :: 'a::len word)"
  by (simp add: word_unat_eq_iff unsigned_take_bit_eq take_bit_nat_eq_self)
lemma bit_small: "unat w < 2 ^ k \<Longrightarrow> k \<le> n \<Longrightarrow> \<not> bit (w :: 'a::len word) n"
  by (metis take_bit_small bit_take_bit_iff not_less)

lemma and_0x0f: "w AND 0x0f = take_bit 4 (w :: u8)"
  by (simp add: take_bit_eq_mask mask_eq_exp_minus_1)

lemma and_0xffffff: "w AND 0xffffff = take_bit 24 (w :: u32)"
  by (simp add: take_bit_eq_mask mask_eq_exp_minus_1)

lemma join_nibbles:
  assumes "unat x < 16" "unat y < 16"
  shows "drop_bit 4 (push_bit 4 x OR y) = (x :: u8)" "(push_bit 4 x OR y) AND 0x0f = y"
proof -
  note hi = bit_small [of x 4, simplified, OF assms(1)] bit_small [of y 4, simplified, OF assms(2)]
  show "drop_bit 4 (push_bit 4 x OR y) = x"
    by (rule bit_word_eqI) (auto simp: bit_simps hi(2), metis hi(1) not_less)
  show "(push_bit 4 x OR y) AND 0x0f = y"
    unfolding and_0x0f by (rule bit_word_eqI) (auto simp: bit_simps hi not_less)
qed

lemma join_version_ttl:
  assumes "unat t < 2 ^ 24"
  shows "ucast (drop_bit 24 (push_bit 24 (ucast m) OR t)) = (m :: u8)"
    and "(push_bit 24 (ucast m) OR t) AND 0xffffff = (t :: u32)"
proof -
  note hi = bit_small [OF assms]
  show "ucast (drop_bit 24 (push_bit 24 (ucast m) OR t)) = m"
    by (rule bit_word_eqI) (auto simp: bit_simps hi)
  show "(push_bit 24 (ucast m) OR t) AND 0xffffff = t"
    unfolding and_0xffffff by (rule bit_word_eqI) (auto simp: bit_simps hi not_less)
qed

section \<open>Characters as bytes\<close>

definition stringBytes :: "string \<Rightarrow> bytes" where
  "stringBytes s = map (\<lambda>c. of_char c) s"

definition bytesString :: "bytes \<Rightarrow> string" where
  "bytesString bs = map (\<lambda>b. char_of (unat b)) bs"

lemma unat_of_char [simp]: "unat (of_char c :: u8) = of_char c"
  by (cases c) (simp add: of_char_def)

lemma bytesString_stringBytes [simp]: "bytesString (stringBytes s) = s"
  by (simp add: bytesString_def stringBytes_def o_def)

lemma of_char_char_of: "of_char (char_of (unat b)) = (b :: u8)"
proof -
  have "unat (of_char (char_of (unat b)) :: u8) = unat b mod 256" by simp
  also have "\<dots> = unat b" using unsigned_less [of b, where ?'a = nat] by simp
  finally show ?thesis by (simp add: word_unat_eq_iff)
qed

lemma stringBytes_bytesString [simp]: "stringBytes (bytesString b) = b"
  by (simp add: bytesString_def stringBytes_def o_def of_char_char_of map_idI)

lemma length_stringBytes [simp]: "length (stringBytes s) = length s"
  by (simp add: stringBytes_def)

lemma length_bytesString [simp]: "length (bytesString b) = length b"
  by (simp add: bytesString_def)

section \<open>Maps in key order\<close>

text \<open>A \<open>std::map\<close> over which the code iterates is the list of its pairs in the order of the keys.\<close>

definition insertSorted :: "'k::linorder \<Rightarrow> 'v \<Rightarrow> ('k \<times> 'v) list \<Rightarrow> ('k \<times> 'v) list" where
  "insertSorted k v xs = insort_key fst (k, v) (filter (\<lambda>p. fst p \<noteq> k) xs)"

lemma map_of_insort:
  "k \<notin> fst ` set xs \<Longrightarrow> map_of (insort_key fst (k, v) xs) = (map_of xs)(k \<mapsto> v)"
  by (induction xs) (auto simp: fun_eq_iff)

lemma map_of_filter_key: "map_of (filter (\<lambda>p. fst p \<noteq> k) xs) = (map_of xs)(k := None)"
  by (induction xs) (auto simp: fun_eq_iff)

lemma map_of_insertSorted [simp]: "map_of (insertSorted k v xs) = (map_of xs)(k \<mapsto> v)"
  by (simp add: insertSorted_def map_of_insort map_of_filter_key image_iff)

lemma sorted_insertSorted: "sorted (map fst xs) \<Longrightarrow> sorted (map fst (insertSorted k v xs))"
  by (simp add: insertSorted_def sorted_insort_key sorted_filter)

lemma set_insertSorted: "set (insertSorted k v xs) = insert (k, v) {p \<in> set xs. fst p \<noteq> k}"
  by (auto simp: insertSorted_def set_insort_key)

end
