(* ===== verification/Core.thy ===== *)
theory Core
  imports Prelude
begin

text \<open>
  \<open>ara/core/optional.h\<close> and \<open>ara/core/result.h\<close>: the wrappers the code returns its values and errors in. An Optional
  owns its value through a raw pointer, so the model has a heap of live objects and the pointer of every Optional.
  The lemmas show when these wrappers behave like the options and sums the other theories use in their place.
\<close>

section \<open>Objects\<close>

text \<open>\<open>'x\<close> are the Optionals of a program, \<open>'a\<close> the values they hold.\<close>

record ('x, 'a) Store =
  liveObjects :: "nat \<rightharpoonup> 'a"
  nextObject :: nat
  mValuePtr :: "'x \<rightharpoonup> nat"

definition setPtr :: "'x \<Rightarrow> nat option \<Rightarrow> ('x, 'a) Store \<Rightarrow> ('x, 'a) Store" where
  "setPtr x p st = st\<lparr> mValuePtr := (mValuePtr st)(x := p) \<rparr>"

text \<open>The pointer of an Optional set to a new object.\<close>

definition newObject :: "'x \<Rightarrow> 'a \<Rightarrow> ('x, 'a) Store \<Rightarrow> ('x, 'a) Store" where
  "newObject x v st =
     setPtr x (Some (nextObject st))
       (st\<lparr> liveObjects := (liveObjects st)(nextObject st \<mapsto> v), nextObject := nextObject st + 1 \<rparr>)"

definition deref :: "nat \<Rightarrow> ('x, 'a) Store \<Rightarrow> 'a res" where
  "deref p st = (case liveObjects st p of Some v \<Rightarrow> Inr v | None \<Rightarrow> Inl Undefined)"

definition deleteObject :: "nat \<Rightarrow> ('x, 'a) Store \<Rightarrow> ('x, 'a) Store res" where
  "deleteObject p st =
     (if liveObjects st p = None then Inl Undefined else Inr (st\<lparr> liveObjects := (liveObjects st)(p := None) \<rparr>))"

section \<open>Optional\<close>

definition Opt_HasValue :: "'x \<Rightarrow> ('x, 'a) Store \<Rightarrow> bool" where
  "Opt_HasValue x st \<longleftrightarrow> mValuePtr st x \<noteq> None"

definition Opt_Empty :: "'x \<Rightarrow> ('x, 'a) Store \<Rightarrow> ('x, 'a) Store" where
  "Opt_Empty x st = setPtr x None st"

definition Opt_Construct :: "'x \<Rightarrow> 'a \<Rightarrow> ('x, 'a) Store \<Rightarrow> ('x, 'a) Store" where
  "Opt_Construct x v st = newObject x v st"

definition Opt_CopyConstruct :: "'x \<Rightarrow> 'x \<Rightarrow> ('x, 'a) Store \<Rightarrow> ('x, 'a) Store res" where
  "Opt_CopyConstruct x other st =
     (case mValuePtr st other of
        Some p \<Rightarrow> bindR (deref p st) (\<lambda>v. Inr (newObject x v st))
      | None \<Rightarrow> Inr (setPtr x None st))"

definition Opt_MoveConstruct :: "'x \<Rightarrow> 'x \<Rightarrow> ('x, 'a) Store \<Rightarrow> ('x, 'a) Store" where
  "Opt_MoveConstruct x other st =
     (if Opt_HasValue other st then setPtr other None (setPtr x (mValuePtr st other) st) else setPtr x None st)"

definition Opt_Reset :: "'x \<Rightarrow> ('x, 'a) Store \<Rightarrow> ('x, 'a) Store res" where
  "Opt_Reset x st =
     (case mValuePtr st x of
        Some p \<Rightarrow> bindR (deleteObject p st) (\<lambda>st. Inr (setPtr x None st))
      | None \<Rightarrow> Inr st)"

definition Opt_Destroy :: "'x \<Rightarrow> ('x, 'a) Store \<Rightarrow> ('x, 'a) Store res" where
  "Opt_Destroy x st = Opt_Reset x st"

definition Opt_CopyAssign :: "'x \<Rightarrow> 'x \<Rightarrow> ('x, 'a) Store \<Rightarrow> ('x, 'a) Store res" where
  "Opt_CopyAssign x other st =
     bindR (Opt_Reset x st) (\<lambda>st.
       case mValuePtr st other of
         Some p \<Rightarrow> bindR (deref p st) (\<lambda>v. Inr (newObject x v st))
       | None \<Rightarrow> Inr st)"

definition Opt_MoveAssign :: "'x \<Rightarrow> 'x \<Rightarrow> ('x, 'a) Store \<Rightarrow> ('x, 'a) Store res" where
  "Opt_MoveAssign x other st =
     bindR (Opt_Reset x st) (\<lambda>st.
       if Opt_HasValue other st then Inr (setPtr other None (setPtr x (mValuePtr st other) st)) else Inr st)"

text \<open>The assigned value, or the arguments of \<open>Emplace\<close>, are taken to be no part of the value that is replaced.\<close>

definition Opt_AssignValue :: "'x \<Rightarrow> 'a \<Rightarrow> ('x, 'a) Store \<Rightarrow> ('x, 'a) Store res" where
  "Opt_AssignValue x v st = bindR (Opt_Reset x st) (\<lambda>st. Inr (newObject x v st))"

definition Opt_Emplace :: "'x \<Rightarrow> 'a \<Rightarrow> ('x, 'a) Store \<Rightarrow> ('x, 'a) Store res" where
  "Opt_Emplace x v st = bindR (Opt_Reset x st) (\<lambda>st. Inr (newObject x v st))"

text \<open>The assignment \<open>x = *x\<close>: the argument refers to the object that is deleted first.\<close>

definition Opt_AssignOwnValue :: "'x \<Rightarrow> ('x, 'a) Store \<Rightarrow> ('x, 'a) Store res" where
  "Opt_AssignOwnValue x st =
     (case mValuePtr st x of
        None \<Rightarrow> Inl Runtime_error
      | Some p \<Rightarrow> bindR (Opt_Reset x st) (\<lambda>st. bindR (deref p st) (\<lambda>v. Inr (newObject x v st))))"

definition Opt_Swap :: "'x \<Rightarrow> 'x \<Rightarrow> ('x, 'a) Store \<Rightarrow> ('x, 'a) Store" where
  "Opt_Swap x other st =
     (if Opt_HasValue x st \<and> Opt_HasValue other st
      then setPtr other (mValuePtr st x) (setPtr x (mValuePtr st other) st)
      else if Opt_HasValue x st \<and> \<not> Opt_HasValue other st then setPtr x None (setPtr other (mValuePtr st x) st)
      else if \<not> Opt_HasValue x st \<and> Opt_HasValue other st then setPtr other None (setPtr x (mValuePtr st other) st)
      else st)"

text \<open>\<open>operator*\<close>, \<open>operator->\<close> and \<open>Value\<close> on an Optional that stays as it is.\<close>

definition Opt_Value :: "'x \<Rightarrow> ('x, 'a) Store \<Rightarrow> 'a res" where
  "Opt_Value x st = (case mValuePtr st x of Some p \<Rightarrow> deref p st | None \<Rightarrow> Inl Runtime_error)"

text \<open>\<open>Value\<close> on a moved Optional gives the object away and deletes it never.\<close>

definition Opt_TakeValue :: "'x \<Rightarrow> ('x, 'a) Store \<Rightarrow> ('a \<times> ('x, 'a) Store) res" where
  "Opt_TakeValue x st =
     (case mValuePtr st x of
        Some p \<Rightarrow> bindR (deref p st) (\<lambda>v. Inr (v, setPtr x None st))
      | None \<Rightarrow> Inl Runtime_error)"

definition Opt_ValueOr :: "'x \<Rightarrow> 'a \<Rightarrow> ('x, 'a) Store \<Rightarrow> 'a res" where
  "Opt_ValueOr x defaultValue st =
     (case mValuePtr st x of Some p \<Rightarrow> deref p st | None \<Rightarrow> Inr defaultValue)"

text \<open>On a moved Optional the value is moved out of its object; \<open>movedFrom\<close> is what that leaves of it.\<close>

definition Opt_TakeValueOr :: "('a \<Rightarrow> 'a) \<Rightarrow> 'x \<Rightarrow> 'a \<Rightarrow> ('x, 'a) Store \<Rightarrow> ('a \<times> ('x, 'a) Store) res" where
  "Opt_TakeValueOr movedFrom x defaultValue st =
     (case mValuePtr st x of
        Some p \<Rightarrow> bindR (deref p st) (\<lambda>v. Inr (v, st\<lparr> liveObjects := (liveObjects st)(p \<mapsto> movedFrom v) \<rparr>))
      | None \<Rightarrow> Inr (defaultValue, st))"

definition Opt_eq :: "'x \<Rightarrow> 'x \<Rightarrow> ('x, 'a) Store \<Rightarrow> bool res" where
  "Opt_eq lhs rhs st =
     (if Opt_HasValue lhs st \<and> Opt_HasValue rhs st
      then bindR (Opt_Value lhs st) (\<lambda>v. bindR (Opt_Value rhs st) (\<lambda>w. Inr (v = w)))
      else if \<not> Opt_HasValue lhs st \<and> \<not> Opt_HasValue rhs st then Inr True
      else Inr False)"

definition Opt_neq :: "'x \<Rightarrow> 'x \<Rightarrow> ('x, 'a) Store \<Rightarrow> bool res" where
  "Opt_neq lhs rhs st =
     (if Opt_HasValue lhs st \<and> Opt_HasValue rhs st
      then bindR (Opt_Value lhs st) (\<lambda>v. bindR (Opt_Value rhs st) (\<lambda>w. Inr (v \<noteq> w)))
      else if \<not> Opt_HasValue lhs st \<and> \<not> Opt_HasValue rhs st then Inr False
      else Inr True)"

text \<open>\<open>std::swap\<close> of two Optionals: a temporary is constructed and assigned by moving.\<close>

definition stdSwap :: "'x \<Rightarrow> 'x \<Rightarrow> ('x, 'a) Store \<Rightarrow> ('x, 'a) Store res" where
  "stdSwap x y st =
     (let tmp = mValuePtr st x
      in bindR (Opt_MoveAssign x y (setPtr x None st)) (\<lambda>st.
         bindR (Opt_Reset y st) (\<lambda>st. Inr (setPtr y tmp st))))"

section \<open>Ownership\<close>

text \<open>Every pointer is to a live object of its own.\<close>

definition wfStore :: "('x, 'a) Store \<Rightarrow> bool" where
  "wfStore st \<longleftrightarrow>
     (\<forall>x p. mValuePtr st x = Some p \<longrightarrow> liveObjects st p \<noteq> None) \<and>
     (\<forall>x y p. mValuePtr st x = Some p \<and> mValuePtr st y = Some p \<longrightarrow> x = y) \<and>
     (\<forall>p. liveObjects st p \<noteq> None \<longrightarrow> p < nextObject st)"

text \<open>The Optionals as options, and the objects without an owner.\<close>

definition absStore :: "('x, 'a) Store \<Rightarrow> 'x \<rightharpoonup> 'a" where
  "absStore st x = (case mValuePtr st x of Some p \<Rightarrow> liveObjects st p | None \<Rightarrow> None)"

definition orphans :: "('x, 'a) Store \<Rightarrow> nat set" where
  "orphans st = {p. liveObjects st p \<noteq> None \<and> (\<forall>x. mValuePtr st x \<noteq> Some p)}"

lemma finite_orphans: "wfStore st \<Longrightarrow> finite (orphans st)"
  by (rule finite_subset [of _ "{..<nextObject st}"]) (auto simp: orphans_def wfStore_def)

lemma absStore_None [simp]: "wfStore st \<Longrightarrow> absStore st x = None \<longleftrightarrow> mValuePtr st x = None"
  by (auto simp: absStore_def wfStore_def split: option.splits)

lemma absStore_ex [simp]: "wfStore st \<Longrightarrow> (\<exists>v. absStore st x = Some v) \<longleftrightarrow> (\<exists>p. mValuePtr st x = Some p)"
  using absStore_None [of st x] by (simp flip: not_None_eq)

lemma absStore_Some: "wfStore st \<Longrightarrow> mValuePtr st x = Some p \<Longrightarrow> deref p st = Inr (the (absStore st x))"
  by (auto simp: absStore_def wfStore_def deref_def split: option.splits)

lemma no_other_owner:
  "mValuePtr st x \<noteq> Some p \<Longrightarrow> (\<forall>y. y \<noteq> x \<longrightarrow> mValuePtr st y \<noteq> Some p) \<longleftrightarrow> (\<forall>y. mValuePtr st y \<noteq> Some p)"
  by metis

lemma owner_transfer:
  "f x = None \<Longrightarrow> (\<forall>z. (f(x := f y, y := None)) z \<noteq> Some p) \<longleftrightarrow> (\<forall>z. f z \<noteq> Some p)"
  by (metis fun_upd_apply option.distinct(1))

lemma owner_swap: "(\<forall>z. (f(x := f y, y := f x)) z \<noteq> Some p) \<longleftrightarrow> (\<forall>z. f z \<noteq> Some p)"
  by (metis fun_upd_apply)

text \<open>A result that stands for the options \<open>m\<close>, with \<open>n\<close> objects lost.\<close>

definition denotes :: "('x, 'a) Store res \<Rightarrow> ('x \<rightharpoonup> 'a) \<Rightarrow> nat \<Rightarrow> bool" where
  "denotes r m n \<longleftrightarrow> (\<exists>st. r = Inr st \<and> wfStore st \<and> absStore st = m \<and> card (orphans st) = n)"

abbreviation stands :: "('x, 'a) Store \<Rightarrow> ('x \<rightharpoonup> 'a) \<Rightarrow> nat \<Rightarrow> bool" where
  "stands st m n \<equiv> denotes (Inr st) m n"

lemma stands_def: "stands st m n \<longleftrightarrow> wfStore st \<and> absStore st = m \<and> card (orphans st) = n"
  by (auto simp: denotes_def)

lemma denotes_bind: "\<lbrakk> denotes r m n; \<And>st. stands st m n \<Longrightarrow> denotes (f st) m' n' \<rbrakk> \<Longrightarrow> denotes (bindR r f) m' n'"
  by (auto simp: denotes_def)

lemma denotes_cases: "denotes r m n \<Longrightarrow> (\<And>st. r = Inr st \<Longrightarrow> stands st m n \<Longrightarrow> P) \<Longrightarrow> P"
  by (auto simp: denotes_def)

lemma newObject_stands:
  assumes "stands st m n" "m x = None"
  shows "stands (newObject x v st) (m(x \<mapsto> v)) n"
proof -
  have w: "wfStore st" "absStore st = m" "card (orphans st) = n" using assms(1) by (simp_all add: stands_def)
  have x: "mValuePtr st x = None" using assms(2) w by auto
  have f: "liveObjects st (nextObject st) = None" "\<And>y. mValuePtr st y \<noteq> Some (nextObject st)"
    using w(1) unfolding wfStore_def by (blast, metis less_irrefl)
  have "wfStore (newObject x v st)"
    using w(1) f by (auto simp: wfStore_def newObject_def setPtr_def less_Suc_eq)
  moreover have "absStore (newObject x v st) = m(x \<mapsto> v)"
  proof
    fix y show "absStore (newObject x v st) y = (m(x \<mapsto> v)) y"
      using f(2) [of y] by (cases "mValuePtr st y") (auto simp: absStore_def newObject_def setPtr_def simp flip: w(2))
  qed
  moreover have "p \<in> orphans (newObject x v st) \<longleftrightarrow> p \<in> orphans st" for p
    using f x no_other_owner [of st x p] by (cases "p = nextObject st") (simp_all add: orphans_def newObject_def setPtr_def)
  then have "orphans (newObject x v st) = orphans st" by blast
  ultimately show ?thesis using w(3) by (simp add: stands_def)
qed

lemma Reset_stands:
  assumes "stands st m n"
  shows "denotes (Opt_Reset x st) (m(x := None)) n"
proof (cases "mValuePtr st x")
  case None
  then have "m x = None" using assms by (auto simp: stands_def)
  then show ?thesis using assms None by (simp add: Opt_Reset_def fun_upd_idem)
next
  case (Some p)
  have w: "wfStore st" "absStore st = m" "card (orphans st) = n" using assms(1) by (simp_all add: stands_def)
  have live: "liveObjects st p \<noteq> None" "\<And>y. mValuePtr st y = Some p \<Longrightarrow> y = x"
    using w(1) Some unfolding wfStore_def by blast+
  let ?st = "setPtr x None (st\<lparr> liveObjects := (liveObjects st)(p := None) \<rparr>)"
  have "wfStore ?st" using w(1) live Some by (auto simp: wfStore_def setPtr_def)
  moreover have "absStore ?st = m(x := None)"
  proof
    fix y show "absStore ?st y = (m(x := None)) y"
      using live(2) [of y] by (cases "mValuePtr st y") (auto simp: absStore_def setPtr_def simp flip: w(2))
  qed
  moreover have "q \<in> orphans ?st \<longleftrightarrow> q \<in> orphans st" for q
    using live(1) Some no_other_owner [of st x q] by (cases "q = p") (auto simp: orphans_def setPtr_def)
  then have "orphans ?st = orphans st" by blast
  ultimately have "stands ?st (m(x := None)) n" using w(3) by (simp add: stands_def)
  then show ?thesis using live(1) Some by (auto simp: Opt_Reset_def deleteObject_def)
qed

text \<open>The object of one Optional handed to another that has none.\<close>

lemma transfer_stands:
  assumes "stands st m n" "m x = None"
  shows "stands (setPtr y None (setPtr x (mValuePtr st y) st)) ((m(x := m y))(y := None)) n"
proof -
  let ?st = "setPtr y None (setPtr x (mValuePtr st y) st)"
  have w: "wfStore st" "absStore st = m" "card (orphans st) = n" using assms(1) by (simp_all add: stands_def)
  have x: "mValuePtr st x = None" using assms(2) w by auto
  have "wfStore ?st" using w(1) x unfolding wfStore_def setPtr_def by (auto split: if_splits)
  moreover have "absStore ?st = (m(x := m y))(y := None)"
    by (simp add: absStore_def setPtr_def fun_eq_iff flip: w(2) split: option.splits)
  moreover have "(\<forall>z. mValuePtr ?st z \<noteq> Some p) \<longleftrightarrow> (\<forall>z. mValuePtr st z \<noteq> Some p)" for p
    using owner_transfer [of "mValuePtr st" x y p] x by (simp add: setPtr_def del: fun_upd_apply)
  then have "orphans ?st = orphans st" by (simp add: orphans_def setPtr_def)
  ultimately show ?thesis using w(3) by (simp add: stands_def)
qed

lemma swap_stands:
  assumes "stands st m n"
  shows "stands (setPtr y (mValuePtr st x) (setPtr x (mValuePtr st y) st)) (m(x := m y, y := m x)) n"
proof -
  let ?st = "setPtr y (mValuePtr st x) (setPtr x (mValuePtr st y) st)"
  have w: "wfStore st" "absStore st = m" "card (orphans st) = n" using assms(1) by (simp_all add: stands_def)
  have "wfStore ?st" using w(1) unfolding wfStore_def setPtr_def by (auto split: if_splits)
  moreover have "absStore ?st = m(x := m y, y := m x)"
    by (simp add: absStore_def setPtr_def fun_eq_iff flip: w(2) split: option.splits)
  moreover have "(\<forall>z. mValuePtr ?st z \<noteq> Some p) \<longleftrightarrow> (\<forall>z. mValuePtr st z \<noteq> Some p)" for p
    using owner_swap [of "mValuePtr st" x y p] by (simp add: setPtr_def del: fun_upd_apply)
  then have "orphans ?st = orphans st" by (simp add: orphans_def setPtr_def)
  ultimately show ?thesis using w(3) by (simp add: stands_def)
qed

text \<open>A pointer dropped without deleting its object.\<close>

lemma drop_stands:
  assumes "stands st m n" "m x \<noteq> None"
  shows "stands (setPtr x None st) (m(x := None)) (n + 1)"
proof -
  have w: "wfStore st" "absStore st = m" "card (orphans st) = n" using assms(1) by (simp_all add: stands_def)
  then obtain p where p: "mValuePtr st x = Some p" using assms(2) by (metis absStore_None not_None_eq)
  have u: "liveObjects st p \<noteq> None" "\<And>y. mValuePtr st y = Some p \<Longrightarrow> y = x"
    using w(1) p unfolding wfStore_def by blast+
  have "wfStore (setPtr x None st)" using w(1) unfolding wfStore_def setPtr_def by (auto split: if_splits)
  moreover have "absStore (setPtr x None st) = m(x := None)"
    by (simp add: absStore_def setPtr_def fun_eq_iff flip: w(2) split: option.splits)
  moreover have orph: "orphans (setPtr x None st) = insert p (orphans st)"
  proof (rule set_eqI)
    fix q show "q \<in> orphans (setPtr x None st) \<longleftrightarrow> q \<in> insert p (orphans st)"
    proof (cases "q = p")
      case True
      then show ?thesis using u by (fastforce simp: orphans_def setPtr_def)
    next
      case False
      then have "mValuePtr st x \<noteq> Some q" using p by simp
      from no_other_owner [OF this] False show ?thesis by (simp add: orphans_def setPtr_def)
    qed
  qed
  moreover have "p \<notin> orphans st" using p by (auto simp: orphans_def)
  ultimately show ?thesis
    unfolding stands_def using card_insert_disjoint [OF finite_orphans [OF w(1)], of p] w(3) by simp
qed

lemma HasValue_stands: "stands st m n \<Longrightarrow> Opt_HasValue x st \<longleftrightarrow> m x \<noteq> None"
  using absStore_None [of st x] by (simp only: stands_def Opt_HasValue_def)

lemma Value_stands: "stands st m n \<Longrightarrow> Opt_Value x st = (case m x of Some v \<Rightarrow> Inr v | None \<Rightarrow> Inl Runtime_error)"
  using absStore_None [of st x] by (auto simp: stands_def Opt_Value_def absStore_Some simp del: absStore_None split: option.splits)

lemma pointer_stands:
  "stands st m n \<Longrightarrow> mValuePtr st x = Some p \<Longrightarrow> deref p st = Inr (the (m x)) \<and> m x \<noteq> None"
  "stands st m n \<Longrightarrow> mValuePtr st x = None \<longleftrightarrow> m x = None"
  by (auto simp: stands_def absStore_Some)

section \<open>Optionals as options\<close>

lemma CopyConstruct_stands:
  "stands st m n \<Longrightarrow> m x = None \<Longrightarrow> denotes (Opt_CopyConstruct x y st) (m(x := m y)) n"
  using newObject_stands [of st m n x "the (m y)"] pointer_stands [of st m n y] pointer_stands(2) [of st m n x]
  by (auto simp: Opt_CopyConstruct_def setPtr_def fun_upd_idem split: option.splits)

lemma MoveConstruct_stands:
  "stands st m n \<Longrightarrow> m x = None \<Longrightarrow> stands (Opt_MoveConstruct x y st) ((m(x := m y))(y := None)) n"
  using transfer_stands [of st m n x y] HasValue_stands [of st m n y] pointer_stands(2) [of st m n x]
  by (auto simp: Opt_MoveConstruct_def setPtr_def fun_upd_idem)

lemma CopyAssign_stands:
  assumes "stands st m n"
  shows "denotes (Opt_CopyAssign x y st) (m(x := if x = y then None else m y)) n"
  unfolding Opt_CopyAssign_def
proof (rule denotes_bind [OF Reset_stands [OF assms, of x]])
  fix st' assume s: "stands st' (m(x := None)) n"
  show "denotes (case mValuePtr st' y of Some p \<Rightarrow> bindR (deref p st') (\<lambda>v. Inr (newObject x v st')) | None \<Rightarrow> Inr st')
      (m(x := if x = y then None else m y)) n"
    using newObject_stands [OF s, of x "the (m y)"] pointer_stands(1) [OF s, of y] pointer_stands(2) [OF s, of y] s
    by (auto split: option.splits if_splits simp: fun_upd_idem)
qed

lemma MoveAssign_stands:
  assumes "stands st m n"
  shows "denotes (Opt_MoveAssign x y st) ((m(x := m y))(y := None)) n"
  unfolding Opt_MoveAssign_def
proof (rule denotes_bind [OF Reset_stands [OF assms, of x]])
  fix st' assume s: "stands st' (m(x := None)) n"
  show "denotes (if Opt_HasValue y st' then Inr (setPtr y None (setPtr x (mValuePtr st' y) st')) else Inr st')
      ((m(x := m y))(y := None)) n"
    using transfer_stands [OF s, of x y] HasValue_stands [OF s, of y] s
    by (auto split: if_splits simp: fun_upd_idem fun_upd_twist)
qed

lemma AssignValue_stands:
  "stands st m n \<Longrightarrow> denotes (Opt_AssignValue x v st) (m(x \<mapsto> v)) n"
  "stands st m n \<Longrightarrow> denotes (Opt_Emplace x v st) (m(x \<mapsto> v)) n"
  unfolding Opt_AssignValue_def Opt_Emplace_def
  by (rule denotes_bind [OF Reset_stands], assumption, drule newObject_stands [of _ _ _ x v], simp_all)+

lemma Swap_stands: "stands st m n \<Longrightarrow> stands (Opt_Swap x y st) (m(x := m y, y := m x)) n"
  using swap_stands [of st m n x y] swap_stands [of st m n y x] pointer_stands(2) [of st m n x]
    pointer_stands(2) [of st m n y]
  by (cases "x = y"; cases "m x"; cases "m y")
    (auto simp: Opt_Swap_def Opt_HasValue_def setPtr_def fun_upd_idem fun_upd_twist split: if_splits)

text \<open>The moves of \<open>std::swap\<close> delete nothing and come to an exchange of the pointers.\<close>

lemma stdSwap_stands:
  assumes "stands st m n"
  shows "denotes (stdSwap x y st) (m(x := m y, y := m x)) n"
proof -
  have "stdSwap x y st = Inr (setPtr y (mValuePtr st x) (setPtr x (mValuePtr st y) st))"
    by (simp add: stdSwap_def Opt_MoveAssign_def Opt_Reset_def Opt_HasValue_def setPtr_def Let_def fun_upd_idem)
  then show ?thesis using swap_stands [OF assms, of y x] by simp
qed

lemma TakeValue_stands:
  assumes "stands st m n"
  shows "case m x of Some v \<Rightarrow> \<exists>st'. Opt_TakeValue x st = Inr (v, st') \<and> stands st' (m(x := None)) (n + 1)
    | None \<Rightarrow> Opt_TakeValue x st = Inl Runtime_error"
  using drop_stands [OF assms, of x] pointer_stands(1) [OF assms, of x] pointer_stands(2) [OF assms, of x]
  by (auto simp: Opt_TakeValue_def split: option.splits)

text \<open>
  A program over Optionals: objects come into scope when they are constructed and leave it when they are destroyed.
\<close>

datatype ('x, 'a) OptionalOp =
  ODefault 'x | OValue 'x 'a | OCopy 'x 'x | OMove 'x 'x | ODestroy 'x
| OAssign 'x 'x | OMoveAssign 'x 'x | OAssignValue 'x 'a | OEmplace 'x 'a | OSwap 'x 'x | OReset 'x | OTake 'x

fun runOptional :: "('x, 'a) OptionalOp \<Rightarrow> ('x, 'a) Store \<Rightarrow> ('x, 'a) Store res" where
  "runOptional (ODefault x) st = Inr (Opt_Empty x st)"
| "runOptional (OValue x v) st = Inr (Opt_Construct x v st)"
| "runOptional (OCopy x y) st = Opt_CopyConstruct x y st"
| "runOptional (OMove x y) st = Inr (Opt_MoveConstruct x y st)"
| "runOptional (ODestroy x) st = Opt_Destroy x st"
| "runOptional (OAssign x y) st = Opt_CopyAssign x y st"
| "runOptional (OMoveAssign x y) st = Opt_MoveAssign x y st"
| "runOptional (OAssignValue x v) st = Opt_AssignValue x v st"
| "runOptional (OEmplace x v) st = Opt_Emplace x v st"
| "runOptional (OSwap x y) st = Inr (Opt_Swap x y st)"
| "runOptional (OReset x) st = Opt_Reset x st"
| "runOptional (OTake x) st = bindR (Opt_TakeValue x st) (\<lambda>(v, st). Inr st)"

fun runOptionals :: "('x, 'a) OptionalOp list \<Rightarrow> ('x, 'a) Store \<Rightarrow> ('x, 'a) Store res" where
  "runOptionals [] st = Inr st"
| "runOptionals (c # cs) st = bindR (runOptional c st) (runOptionals cs)"

fun scopeAfter :: "('x, 'a) OptionalOp \<Rightarrow> 'x list \<Rightarrow> 'x list option" where
  "scopeAfter (ODefault x) scope = (if x \<in> set scope then None else Some (x # scope))"
| "scopeAfter (OValue x v) scope = (if x \<in> set scope then None else Some (x # scope))"
| "scopeAfter (OCopy x y) scope = (if x \<in> set scope \<or> y \<notin> set scope then None else Some (x # scope))"
| "scopeAfter (OMove x y) scope = (if x \<in> set scope \<or> y \<notin> set scope then None else Some (x # scope))"
| "scopeAfter (ODestroy x) scope = (if x \<in> set scope then Some (removeAll x scope) else None)"
| "scopeAfter (OAssign x y) scope = (if x \<in> set scope \<and> y \<in> set scope then Some scope else None)"
| "scopeAfter (OMoveAssign x y) scope = (if x \<in> set scope \<and> y \<in> set scope then Some scope else None)"
| "scopeAfter (OAssignValue x v) scope = (if x \<in> set scope then Some scope else None)"
| "scopeAfter (OEmplace x v) scope = (if x \<in> set scope then Some scope else None)"
| "scopeAfter (OSwap x y) scope = (if x \<in> set scope \<and> y \<in> set scope then Some scope else None)"
| "scopeAfter (OReset x) scope = (if x \<in> set scope then Some scope else None)"
| "scopeAfter (OTake x) scope = (if x \<in> set scope then Some scope else None)"

fun wellScoped :: "('x, 'a) OptionalOp list \<Rightarrow> 'x list \<Rightarrow> bool" where
  "wellScoped [] scope \<longleftrightarrow> True"
| "wellScoped (c # cs) scope \<longleftrightarrow> (case scopeAfter c scope of Some scope \<Rightarrow> wellScoped cs scope | None \<Rightarrow> False)"

text \<open>The same program over options. Assigning an Optional to itself empties it.\<close>

fun optionOp :: "('x, 'a) OptionalOp \<Rightarrow> ('x \<rightharpoonup> 'a) \<Rightarrow> ('x \<rightharpoonup> 'a) res" where
  "optionOp (ODefault x) m = Inr (m(x := None))"
| "optionOp (OValue x v) m = Inr (m(x \<mapsto> v))"
| "optionOp (OCopy x y) m = Inr (m(x := m y))"
| "optionOp (OMove x y) m = Inr (m(x := m y, y := None))"
| "optionOp (ODestroy x) m = Inr (m(x := None))"
| "optionOp (OAssign x y) m = Inr (m(x := if x = y then None else m y))"
| "optionOp (OMoveAssign x y) m = Inr (m(x := m y, y := None))"
| "optionOp (OAssignValue x v) m = Inr (m(x \<mapsto> v))"
| "optionOp (OEmplace x v) m = Inr (m(x \<mapsto> v))"
| "optionOp (OSwap x y) m = Inr (m(x := m y, y := m x))"
| "optionOp (OReset x) m = Inr (m(x := None))"
| "optionOp (OTake x) m = (if m x = None then Inl Runtime_error else Inr (m(x := None)))"

fun optionOps :: "('x, 'a) OptionalOp list \<Rightarrow> ('x \<rightharpoonup> 'a) \<Rightarrow> ('x \<rightharpoonup> 'a) res" where
  "optionOps [] m = Inr m"
| "optionOps (c # cs) m = bindR (optionOp c m) (optionOps cs)"

definition taken :: "('x, 'a) OptionalOp list \<Rightarrow> nat" where
  "taken cs = length (filter (\<lambda>c. case c of OTake x \<Rightarrow> True | _ \<Rightarrow> False) cs)"

definition emptyStore :: "('x, 'a) Store" where
  "emptyStore = \<lparr> liveObjects = Map.empty, nextObject = 0, mValuePtr = Map.empty \<rparr>"

lemma emptyStore_stands: "stands emptyStore Map.empty 0"
  by (auto simp: stands_def emptyStore_def wfStore_def absStore_def orphans_def fun_eq_iff)

lemma runOptional_step:
  assumes "stands st m n" "scopeAfter c scope = Some scope'" "dom m \<subseteq> set scope"
  shows "case optionOp c m of
      Inr m' \<Rightarrow> denotes (runOptional c st) m' (n + taken [c]) \<and> dom m' \<subseteq> set scope'
    | Inl e \<Rightarrow> runOptional c st = Inl e"
proof (cases c)
  case (OTake x)
  then show ?thesis using TakeValue_stands [OF assms(1), of x] assms(2,3)
    by (auto simp: taken_def split: option.splits if_splits)
next
  case (ODefault x)
  then have "m x = None" "mValuePtr st x = None"
    using assms pointer_stands(2) [OF assms(1), of x] by (auto split: if_splits)
  then show ?thesis using ODefault assms
    by (auto simp: taken_def Opt_Empty_def setPtr_def fun_upd_idem split: if_splits)
next
  case (OValue x v)
  then show ?thesis using newObject_stands [OF assms(1), of x v] assms(2,3)
    by (auto simp: taken_def Opt_Construct_def split: if_splits)
next
  case (OCopy x y)
  then have "m x = None" using assms(2,3) by (auto split: if_splits)
  then show ?thesis using CopyConstruct_stands [OF assms(1), of x y] OCopy assms(2,3)
    by (auto simp: taken_def split: if_splits)
next
  case (OMove x y)
  then have "m x = None" using assms(2,3) by (auto split: if_splits)
  then show ?thesis using MoveConstruct_stands [OF assms(1), of x y] OMove assms(2,3)
    by (auto simp: taken_def split: if_splits)
qed (use assms CopyAssign_stands [OF assms(1)] MoveAssign_stands [OF assms(1)] AssignValue_stands [OF assms(1)]
    Swap_stands [OF assms(1)] Reset_stands [OF assms(1)] in \<open>auto simp: taken_def Opt_Destroy_def split: if_splits\<close>)

text \<open>C21: Optional implements an option: a program that respects scopes never touches or deletes a dead object,
  throws exactly when a value is taken from an empty Optional, and otherwise leaves every Optional with the
  value its option has. The heap then holds the values of the Optionals and one lost object for every value taken
  out of a moved Optional, and nothing else.\<close>

theorem optional_refines_option:
  assumes "wellScoped cs []"
  shows "case optionOps cs Map.empty of
      Inr m \<Rightarrow> \<exists>st. runOptionals cs emptyStore = Inr st \<and> wfStore st \<and> absStore st = m \<and> card (orphans st) = taken cs
    | Inl e \<Rightarrow> e = Runtime_error \<and> runOptionals cs emptyStore = Inl e"
proof -
  have "case optionOps cs m of
      Inr m' \<Rightarrow> denotes (runOptionals cs st) m' (n + taken cs)
    | Inl e \<Rightarrow> e = Runtime_error \<and> runOptionals cs st = Inl e"
    if "stands st m n" "wellScoped cs scope" "dom m \<subseteq> set scope" for st m n scope
    using that
  proof (induction cs arbitrary: st m n scope)
    case Nil
    then show ?case by (simp add: taken_def)
  next
    case (Cons c cs)
    obtain scope' where s: "scopeAfter c scope = Some scope'" "wellScoped cs scope'"
      using Cons.prems(2) by (auto split: option.splits)
    note step = runOptional_step [OF Cons.prems(1) s(1) Cons.prems(3)]
    show ?case
    proof (cases "optionOp c m")
      case (Inl e)
      moreover have "e = Runtime_error" using Inl by (cases c) (auto split: if_splits)
      ultimately show ?thesis using step by simp
    next
      case (Inr m1)
      then obtain st1 where st1: "runOptional c st = Inr st1" "stands st1 m1 (n + taken [c])" "dom m1 \<subseteq> set scope'"
        using step by (auto simp: denotes_def)
      have "taken (c # cs) = taken [c] + taken cs" by (simp add: taken_def)
      then show ?thesis using Cons.IH [OF st1(2) s(2) st1(3)] Inr st1(1) by (auto simp: add.assoc split: sum.splits)
    qed
  qed
  from this [OF emptyStore_stands assms] show ?thesis by (auto simp: denotes_def split: sum.splits)
qed

theorem optional_refines_option_witness:
  "\<exists>st. runOptionals [OValue ''a'' (1 :: int), OCopy ''b'' ''a'', OTake ''b'', OMoveAssign ''b'' ''a'', OValue ''c'' 2,
       OSwap ''b'' ''c''] emptyStore = Inr st \<and>
     wfStore st \<and> absStore st = [''b'' \<mapsto> 2, ''c'' \<mapsto> 1] \<and> card (orphans st) = 1"
  using optional_refines_option [of "[OValue ''a'' (1 :: int), OCopy ''b'' ''a'', OTake ''b'', OMoveAssign ''b'' ''a'',
      OValue ''c'' 2, OSwap ''b'' ''c'']"]
  by (simp add: taken_def fun_upd_twist fun_upd_idem)

text \<open>Assigning its own value to an Optional reads a deleted object.\<close>

lemma own_value_dangles: "wfStore st \<Longrightarrow> Opt_HasValue x st \<Longrightarrow> Opt_AssignOwnValue x st = Inl Undefined"
  by (auto simp: Opt_AssignOwnValue_def Opt_HasValue_def Opt_Reset_def deleteObject_def deref_def setPtr_def wfStore_def)

end
