(* ===== verification/Result.thy ===== *)
theory Result
  imports Core
begin

text \<open>
  \<open>ara/core/result.h\<close>: Result, of an Optional value and an Optional error, and the Result of functions without a
  value, of an Optional error alone. Both are proved to behave like a sum as long as they are not moved from or
  assigned to themselves.
\<close>

section \<open>Result\<close>

record ('x, 't, 'e) ResultStore =
  mValue :: "('x, 't) Store"
  mError :: "('x, 'e) Store"

definition onValue ::
    "(('x, 't) Store \<Rightarrow> ('x, 't) Store res) \<Rightarrow> ('x, 't, 'e) ResultStore \<Rightarrow> ('x, 't, 'e) ResultStore res" where
  "onValue f s = bindR (f (mValue s)) (\<lambda>st. Inr (s\<lparr> mValue := st \<rparr>))"

definition onError ::
    "(('x, 'e) Store \<Rightarrow> ('x, 'e) Store res) \<Rightarrow> ('x, 't, 'e) ResultStore \<Rightarrow> ('x, 't, 'e) ResultStore res" where
  "onError f s = bindR (f (mError s)) (\<lambda>st. Inr (s\<lparr> mError := st \<rparr>))"

definition Result_HasValue :: "'x \<Rightarrow> ('x, 't, 'e) ResultStore \<Rightarrow> bool" where
  "Result_HasValue x s \<longleftrightarrow> Opt_HasValue x (mValue s)"

definition Result_FromValue :: "'x \<Rightarrow> 't \<Rightarrow> ('x, 't, 'e) ResultStore \<Rightarrow> ('x, 't, 'e) ResultStore" where
  "Result_FromValue x t s = s\<lparr> mValue := Opt_Construct x t (mValue s), mError := Opt_Empty x (mError s) \<rparr>"

definition Result_FromError :: "'x \<Rightarrow> 'e \<Rightarrow> ('x, 't, 'e) ResultStore \<Rightarrow> ('x, 't, 'e) ResultStore" where
  "Result_FromError x e s = s\<lparr> mValue := Opt_Empty x (mValue s), mError := Opt_Construct x e (mError s) \<rparr>"

definition bothEmpty :: "'x \<Rightarrow> ('x, 't, 'e) ResultStore \<Rightarrow> ('x, 't, 'e) ResultStore" where
  "bothEmpty x s = s\<lparr> mValue := Opt_Empty x (mValue s), mError := Opt_Empty x (mError s) \<rparr>"

definition Result_CopyConstruct :: "'x \<Rightarrow> 'x \<Rightarrow> ('x, 't, 'e) ResultStore \<Rightarrow> ('x, 't, 'e) ResultStore res" where
  "Result_CopyConstruct x other s =
     (let s = bothEmpty x s
      in if Result_HasValue other s then onValue (Opt_CopyAssign x other) s else onError (Opt_CopyAssign x other) s)"

definition Result_MoveConstruct :: "'x \<Rightarrow> 'x \<Rightarrow> ('x, 't, 'e) ResultStore \<Rightarrow> ('x, 't, 'e) ResultStore res" where
  "Result_MoveConstruct x other s =
     (let s = bothEmpty x s
      in if Result_HasValue other s then onValue (Opt_MoveAssign x other) s else onError (Opt_MoveAssign x other) s)"

definition Result_Destroy :: "'x \<Rightarrow> ('x, 't, 'e) ResultStore \<Rightarrow> ('x, 't, 'e) ResultStore res" where
  "Result_Destroy x s = bindR (onError (Opt_Destroy x) s) (onValue (Opt_Destroy x))"

definition Result_CopyAssign :: "'x \<Rightarrow> 'x \<Rightarrow> ('x, 't, 'e) ResultStore \<Rightarrow> ('x, 't, 'e) ResultStore res" where
  "Result_CopyAssign x other s =
     (if Result_HasValue other s then bindR (onValue (Opt_CopyAssign x other) s) (onError (Opt_Reset x))
      else bindR (onError (Opt_CopyAssign x other) s) (onValue (Opt_Reset x)))"

definition Result_MoveAssign :: "'x \<Rightarrow> 'x \<Rightarrow> ('x, 't, 'e) ResultStore \<Rightarrow> ('x, 't, 'e) ResultStore res" where
  "Result_MoveAssign x other s =
     (if Result_HasValue other s then bindR (onValue (Opt_MoveAssign x other) s) (onError (Opt_Reset x))
      else bindR (onError (Opt_MoveAssign x other) s) (onValue (Opt_Reset x)))"

definition Result_EmplaceValue :: "'x \<Rightarrow> 't \<Rightarrow> ('x, 't, 'e) ResultStore \<Rightarrow> ('x, 't, 'e) ResultStore res" where
  "Result_EmplaceValue x t s = bindR (onValue (Opt_AssignValue x t) s) (onError (Opt_Reset x))"

definition Result_EmplaceError :: "'x \<Rightarrow> 'e \<Rightarrow> ('x, 't, 'e) ResultStore \<Rightarrow> ('x, 't, 'e) ResultStore res" where
  "Result_EmplaceError x e s = bindR (onError (Opt_AssignValue x e) s) (onValue (Opt_Reset x))"

definition Result_Swap :: "'x \<Rightarrow> 'x \<Rightarrow> ('x, 't, 'e) ResultStore \<Rightarrow> ('x, 't, 'e) ResultStore res" where
  "Result_Swap x other s =
     (if Result_HasValue x s \<and> Result_HasValue other s then onValue (stdSwap x other) s
      else if Result_HasValue x s \<and> \<not> Result_HasValue other s
      then bindR (onError (Opt_MoveAssign x other) s) (onValue (Opt_MoveAssign other x))
      else if \<not> Result_HasValue x s \<and> Result_HasValue other s
      then bindR (onValue (Opt_MoveAssign x other) s) (onError (Opt_MoveAssign other x))
      else onError (stdSwap x other) s)"

text \<open>\<open>operator*\<close>, \<open>operator->\<close>, \<open>Value\<close> and \<open>ValueOrThrow\<close> are the same.\<close>

definition Result_Value :: "'x \<Rightarrow> ('x, 't, 'e) ResultStore \<Rightarrow> 't res" where
  "Result_Value x s = Opt_Value x (mValue s)"

definition Result_TakeValue :: "'x \<Rightarrow> ('x, 't, 'e) ResultStore \<Rightarrow> ('t \<times> ('x, 't, 'e) ResultStore) res" where
  "Result_TakeValue x s = bindR (Opt_TakeValue x (mValue s)) (\<lambda>(t, st). Inr (t, s\<lparr> mValue := st \<rparr>))"

definition Result_Error :: "'x \<Rightarrow> ('x, 't, 'e) ResultStore \<Rightarrow> 'e res" where
  "Result_Error x s = Opt_Value x (mError s)"

definition Result_TakeError :: "'x \<Rightarrow> ('x, 't, 'e) ResultStore \<Rightarrow> ('e \<times> ('x, 't, 'e) ResultStore) res" where
  "Result_TakeError x s = bindR (Opt_TakeValue x (mError s)) (\<lambda>(e, st). Inr (e, s\<lparr> mError := st \<rparr>))"

text \<open>The Optional that is returned is constructed in \<open>y\<close>.\<close>

definition Result_Ok :: "'x \<Rightarrow> 'x \<Rightarrow> ('x, 't, 'e) ResultStore \<Rightarrow> ('x, 't, 'e) ResultStore res" where
  "Result_Ok y x s = onValue (Opt_CopyConstruct y x) s"

definition Result_TakeOk :: "'x \<Rightarrow> 'x \<Rightarrow> ('x, 't, 'e) ResultStore \<Rightarrow> ('x, 't, 'e) ResultStore" where
  "Result_TakeOk y x s = s\<lparr> mValue := Opt_MoveConstruct y x (mValue s) \<rparr>"

definition Result_Err :: "'x \<Rightarrow> 'x \<Rightarrow> ('x, 't, 'e) ResultStore \<Rightarrow> ('x, 't, 'e) ResultStore res" where
  "Result_Err y x s = onError (Opt_CopyConstruct y x) s"

definition Result_TakeErr :: "'x \<Rightarrow> 'x \<Rightarrow> ('x, 't, 'e) ResultStore \<Rightarrow> ('x, 't, 'e) ResultStore" where
  "Result_TakeErr y x s = s\<lparr> mError := Opt_MoveConstruct y x (mError s) \<rparr>"

definition Result_ValueOr :: "'x \<Rightarrow> 't \<Rightarrow> ('x, 't, 'e) ResultStore \<Rightarrow> 't res" where
  "Result_ValueOr x defaultValue s = Opt_ValueOr x defaultValue (mValue s)"

definition Result_ErrorOr :: "'x \<Rightarrow> 'e \<Rightarrow> ('x, 't, 'e) ResultStore \<Rightarrow> 'e res" where
  "Result_ErrorOr x defaultError s = Opt_ValueOr x defaultError (mError s)"

definition Result_CheckError :: "'x \<Rightarrow> 'e \<Rightarrow> ('x, 't, 'e) ResultStore \<Rightarrow> bool res" where
  "Result_CheckError x e s =
     (if Result_HasValue x s then Inr False else bindR (Opt_Value x (mError s)) (\<lambda>own. Inr (own = e)))"

definition Result_Resolve :: "'x \<Rightarrow> ('e \<Rightarrow> 't) \<Rightarrow> ('x, 't, 'e) ResultStore \<Rightarrow> 't res" where
  "Result_Resolve x f s =
     (if Result_HasValue x s then Result_Value x s else bindR (Result_Error x s) (\<lambda>e. Inr (f e)))"

text \<open>The new Result is a temporary; it is given as the sum it holds.\<close>

definition Result_Bind :: "'x \<Rightarrow> ('t \<Rightarrow> 'u) \<Rightarrow> ('x, 't, 'e) ResultStore \<Rightarrow> ('e + 'u) res" where
  "Result_Bind x f s =
     (if Result_HasValue x s then bindR (Result_Value x s) (\<lambda>t. Inr (Inr (f t)))
      else bindR (Result_Error x s) (\<lambda>e. Inr (Inl e)))"

definition Result_eq :: "'x \<Rightarrow> 'x \<Rightarrow> ('x, 't, 'e) ResultStore \<Rightarrow> bool res" where
  "Result_eq lhs rhs s =
     (if Result_HasValue lhs s \<and> Result_HasValue rhs s
      then bindR (Result_Value lhs s) (\<lambda>v. bindR (Result_Value rhs s) (\<lambda>w. Inr (v = w)))
      else if \<not> Result_HasValue lhs s \<and> \<not> Result_HasValue rhs s
      then bindR (Result_Error lhs s) (\<lambda>d. bindR (Result_Error rhs s) (\<lambda>e. Inr (d = e)))
      else Inr False)"

definition Result_neq :: "'x \<Rightarrow> 'x \<Rightarrow> ('x, 't, 'e) ResultStore \<Rightarrow> bool res" where
  "Result_neq lhs rhs s =
     (if Result_HasValue lhs s \<and> Result_HasValue rhs s
      then bindR (Result_Value lhs s) (\<lambda>v. bindR (Result_Value rhs s) (\<lambda>w. Inr (v \<noteq> w)))
      else if \<not> Result_HasValue lhs s \<and> \<not> Result_HasValue rhs s
      then bindR (Result_Error lhs s) (\<lambda>d. bindR (Result_Error rhs s) (\<lambda>e. Inr (d \<noteq> e)))
      else Inr True)"

definition Result_eqValue :: "'x \<Rightarrow> 't \<Rightarrow> ('x, 't, 'e) ResultStore \<Rightarrow> bool res" where
  "Result_eqValue x t s = (if Result_HasValue x s then bindR (Result_Value x s) (\<lambda>v. Inr (v = t)) else Inr False)"

definition Result_neqValue :: "'x \<Rightarrow> 't \<Rightarrow> ('x, 't, 'e) ResultStore \<Rightarrow> bool res" where
  "Result_neqValue x t s = (if Result_HasValue x s then bindR (Result_Value x s) (\<lambda>v. Inr (v \<noteq> t)) else Inr True)"

definition Result_eqError :: "'x \<Rightarrow> 'e \<Rightarrow> ('x, 't, 'e) ResultStore \<Rightarrow> bool res" where
  "Result_eqError x e s = (if Result_HasValue x s then Inr False else bindR (Result_Error x s) (\<lambda>d. Inr (d = e)))"

definition Result_neqError :: "'x \<Rightarrow> 'e \<Rightarrow> ('x, 't, 'e) ResultStore \<Rightarrow> bool res" where
  "Result_neqError x e s = (if Result_HasValue x s then Inr True else bindR (Result_Error x s) (\<lambda>d. Inr (d \<noteq> e)))"

section \<open>Results as sums\<close>

text \<open>What a Result holds. \<open>Vacant\<close> is neither: a result that was moved from, or that does not exist.\<close>

datatype ('t, 'e) Outcome = Good 't | Bad 'e | Vacant

fun asValue :: "('t, 'e) Outcome \<Rightarrow> 't option" where
  "asValue (Good t) = Some t"
| "asValue (Bad e) = None"
| "asValue Vacant = None"

fun asError :: "('t, 'e) Outcome \<Rightarrow> 'e option" where
  "asError (Good t) = None"
| "asError (Bad e) = Some e"
| "asError Vacant = None"

definition goodOf :: "('x \<Rightarrow> ('t, 'e) Outcome) \<Rightarrow> 'x \<rightharpoonup> 't" where
  "goodOf M x = asValue (M x)"

definition badOf :: "('x \<Rightarrow> ('t, 'e) Outcome) \<Rightarrow> 'x \<rightharpoonup> 'e" where
  "badOf M x = asError (M x)"

lemma goodOf_upd [simp]: "goodOf (M(x := v)) = (goodOf M)(x := asValue v)"
  and badOf_upd [simp]: "badOf (M(x := v)) = (badOf M)(x := asError v)"
  by (auto simp: goodOf_def badOf_def)

lemma good_bad: "asValue v \<noteq> None \<Longrightarrow> asError v = None"
  by (cases v) simp_all

text \<open>The two stores of a set of results, with the numbers of objects lost from them.\<close>

definition holdsBoth ::
    "('x, 't, 'e) ResultStore \<Rightarrow> ('x \<rightharpoonup> 't) \<Rightarrow> ('x \<rightharpoonup> 'e) \<Rightarrow> nat \<Rightarrow> nat \<Rightarrow> bool" where
  "holdsBoth s mv me nv ne \<longleftrightarrow> stands (mValue s) mv nv \<and> stands (mError s) me ne"

definition yields ::
    "('x, 't, 'e) ResultStore res \<Rightarrow> ('x \<rightharpoonup> 't) \<Rightarrow> ('x \<rightharpoonup> 'e) \<Rightarrow> nat \<Rightarrow> nat \<Rightarrow> bool" where
  "yields r mv me nv ne \<longleftrightarrow> (\<exists>s. r = Inr s \<and> holdsBoth s mv me nv ne)"

lemma yields_Inr [simp]: "yields (Inr s) mv me nv ne \<longleftrightarrow> holdsBoth s mv me nv ne"
  by (simp add: yields_def)

lemma yields_bind:
  "yields r mv me nv ne \<Longrightarrow> (\<And>s. holdsBoth s mv me nv ne \<Longrightarrow> yields (f s) mv' me' nv' ne') \<Longrightarrow>
     yields (bindR r f) mv' me' nv' ne'"
  by (auto simp: yields_def)

lemma yields_onValue:
  assumes "holdsBoth s mv me nv ne" "\<And>st. stands st mv nv \<Longrightarrow> denotes (f st) mv' nv'"
  shows "yields (onValue f s) mv' me nv' ne"
proof -
  have "denotes (f (mValue s)) mv' nv'" by (rule assms(2)) (use assms(1) in \<open>simp only: holdsBoth_def\<close>)
  then show ?thesis
    by (rule denotes_cases) (use assms(1) in \<open>simp add: onValue_def holdsBoth_def\<close>)
qed

lemma yields_onError:
  assumes "holdsBoth s mv me nv ne" "\<And>st. stands st me ne \<Longrightarrow> denotes (f st) me' ne'"
  shows "yields (onError f s) mv me' nv ne'"
proof -
  have "denotes (f (mError s)) me' ne'" by (rule assms(2)) (use assms(1) in \<open>simp only: holdsBoth_def\<close>)
  then show ?thesis
    by (rule denotes_cases) (use assms(1) in \<open>simp add: onError_def holdsBoth_def\<close>)
qed

lemma yields_both:
  assumes "holdsBoth s mv me nv ne" "\<And>st. stands st mv nv \<Longrightarrow> denotes (f st) mv' nv" "\<And>st. stands st me ne \<Longrightarrow> denotes (g st) me' ne"
  shows "yields (bindR (onValue f s) (onError g)) mv' me' nv ne" "yields (bindR (onError g s) (onValue f)) mv' me' nv ne"
proof -
  show "yields (bindR (onValue f s) (onError g)) mv' me' nv ne"
    by (rule yields_bind, rule yields_onValue [OF assms(1,2)], assumption) (rule yields_onError, assumption, rule assms(3), assumption)
  show "yields (bindR (onError g s) (onValue f)) mv' me' nv ne"
    by (rule yields_bind, rule yields_onError [OF assms(1,3)], assumption) (rule yields_onValue, assumption, rule assms(2), assumption)
qed

lemma Result_HasValue_holds: "holdsBoth s mv me nv ne \<Longrightarrow> Result_HasValue x s \<longleftrightarrow> mv x \<noteq> None"
  unfolding holdsBoth_def Result_HasValue_def by (rule HasValue_stands [OF conjunct1])

lemma Opt_Empty_stands: "stands st m n \<Longrightarrow> m x = None \<Longrightarrow> stands (Opt_Empty x st) m n"
  using pointer_stands(2) [of st m n x] by (simp add: Opt_Empty_def setPtr_def fun_upd_idem)

lemma bothEmpty_holds:
  "holdsBoth s mv me nv ne \<Longrightarrow> mv x = None \<Longrightarrow> me x = None \<Longrightarrow> holdsBoth (bothEmpty x s) mv me nv ne"
  by (simp add: holdsBoth_def bothEmpty_def Opt_Empty_stands)

text \<open>A program over results.\<close>

datatype ('x, 't, 'e) ResultOp =
  RValue 'x 't | RError 'x 'e | RCopy 'x 'x | RMove 'x 'x | RDestroy 'x | RAssign 'x 'x | RMoveAssign 'x 'x
| REmplaceValue 'x 't | REmplaceError 'x 'e | RSwap 'x 'x | RTakeValue 'x | RTakeError 'x

fun runResult :: "('x, 't, 'e) ResultOp \<Rightarrow> ('x, 't, 'e) ResultStore \<Rightarrow> ('x, 't, 'e) ResultStore res" where
  "runResult (RValue x t) s = Inr (Result_FromValue x t s)"
| "runResult (RError x e) s = Inr (Result_FromError x e s)"
| "runResult (RCopy x y) s = Result_CopyConstruct x y s"
| "runResult (RMove x y) s = Result_MoveConstruct x y s"
| "runResult (RDestroy x) s = Result_Destroy x s"
| "runResult (RAssign x y) s = Result_CopyAssign x y s"
| "runResult (RMoveAssign x y) s = Result_MoveAssign x y s"
| "runResult (REmplaceValue x t) s = Result_EmplaceValue x t s"
| "runResult (REmplaceError x e) s = Result_EmplaceError x e s"
| "runResult (RSwap x y) s = Result_Swap x y s"
| "runResult (RTakeValue x) s = bindR (Result_TakeValue x s) (\<lambda>(t, s). Inr s)"
| "runResult (RTakeError x) s = bindR (Result_TakeError x s) (\<lambda>(e, s). Inr s)"

fun runResults :: "('x, 't, 'e) ResultOp list \<Rightarrow> ('x, 't, 'e) ResultStore \<Rightarrow> ('x, 't, 'e) ResultStore res" where
  "runResults [] s = Inr s"
| "runResults (c # cs) s = bindR (runResult c s) (runResults cs)"

text \<open>The name an operation brings into scope, the one it takes out of scope and the ones it uses.\<close>

fun opScope :: "('x, 't, 'e) ResultOp \<Rightarrow> 'x list \<times> 'x list \<times> 'x list" where
  "opScope (RValue x t) = ([x], [], [])"
| "opScope (RError x e) = ([x], [], [])"
| "opScope (RCopy x y) = ([x], [], [y])"
| "opScope (RMove x y) = ([x], [], [y])"
| "opScope (RDestroy x) = ([], [x], [x])"
| "opScope (RAssign x y) = ([], [], [x, y])"
| "opScope (RMoveAssign x y) = ([], [], [x, y])"
| "opScope (REmplaceValue x t) = ([], [], [x])"
| "opScope (REmplaceError x e) = ([], [], [x])"
| "opScope (RSwap x y) = ([], [], [x, y])"
| "opScope (RTakeValue x) = ([], [], [x])"
| "opScope (RTakeError x) = ([], [], [x])"

fun scopedResults :: "('x, 't, 'e) ResultOp list \<Rightarrow> 'x list \<Rightarrow> 'x list option" where
  "scopedResults [] scope = Some scope"
| "scopedResults (c # cs) scope =
     (case opScope c of
        (new, old, uses) \<Rightarrow>
          if list_all (\<lambda>x. x \<notin> set scope) new \<and> list_all (\<lambda>x. x \<in> set scope) uses
          then scopedResults cs (new @ filter (\<lambda>x. x \<notin> set old) scope) else None)"

text \<open>The same program over outcomes. A result that is moved from or assigned to itself is vacant.\<close>

fun outcomeOp :: "('x, 't, 'e) ResultOp \<Rightarrow> ('x \<Rightarrow> ('t, 'e) Outcome) \<Rightarrow> ('x \<Rightarrow> ('t, 'e) Outcome) res" where
  "outcomeOp (RValue x t) M = Inr (M(x := Good t))"
| "outcomeOp (RError x e) M = Inr (M(x := Bad e))"
| "outcomeOp (RCopy x y) M = Inr (M(x := M y))"
| "outcomeOp (RMove x y) M = Inr (M(x := M y, y := Vacant))"
| "outcomeOp (RDestroy x) M = Inr (M(x := Vacant))"
| "outcomeOp (RAssign x y) M = Inr (M(x := if x = y then Vacant else M y))"
| "outcomeOp (RMoveAssign x y) M = Inr (M(x := M y, y := Vacant))"
| "outcomeOp (REmplaceValue x t) M = Inr (M(x := Good t))"
| "outcomeOp (REmplaceError x e) M = Inr (M(x := Bad e))"
| "outcomeOp (RSwap x y) M = Inr (M(x := M y, y := M x))"
| "outcomeOp (RTakeValue x) M = (case M x of Good t \<Rightarrow> Inr (M(x := Vacant)) | _ \<Rightarrow> Inl Runtime_error)"
| "outcomeOp (RTakeError x) M = (case M x of Bad e \<Rightarrow> Inr (M(x := Vacant)) | _ \<Rightarrow> Inl Runtime_error)"

fun outcomeOps :: "('x, 't, 'e) ResultOp list \<Rightarrow> ('x \<Rightarrow> ('t, 'e) Outcome) \<Rightarrow> ('x \<Rightarrow> ('t, 'e) Outcome) res" where
  "outcomeOps [] M = Inr M"
| "outcomeOps (c # cs) M = bindR (outcomeOp c M) (outcomeOps cs)"

text \<open>Each operation, with the results before it as \<open>M\<close>.\<close>

abbreviation outcomes :: "('x, 't, 'e) ResultStore \<Rightarrow> ('x \<Rightarrow> ('t, 'e) Outcome) \<Rightarrow> nat \<Rightarrow> nat \<Rightarrow> bool" where
  "outcomes s M nv ne \<equiv> holdsBoth s (goodOf M) (badOf M) nv ne"

abbreviation results :: "('x, 't, 'e) ResultStore res \<Rightarrow> ('x \<Rightarrow> ('t, 'e) Outcome) \<Rightarrow> nat \<Rightarrow> nat \<Rightarrow> bool" where
  "results r M nv ne \<equiv> yields r (goodOf M) (badOf M) nv ne"

lemma constructed_outcomes:
  assumes "outcomes s M nv ne" "M x = Vacant"
  shows "outcomes (Result_FromValue x t s) (M(x := Good t)) nv ne" "outcomes (Result_FromError x e s) (M(x := Bad e)) nv ne"
    "outcomes (bothEmpty x s) M nv ne"
proof -
  have "goodOf M x = None" "badOf M x = None" using assms(2) by (simp_all add: goodOf_def badOf_def)
  then show "outcomes (Result_FromValue x t s) (M(x := Good t)) nv ne" "outcomes (Result_FromError x e s) (M(x := Bad e)) nv ne"
    "outcomes (bothEmpty x s) M nv ne"
    using assms(1) newObject_stands [of "mValue s" "goodOf M" nv x t] newObject_stands [of "mError s" "badOf M" ne x e]
      Opt_Empty_stands [of "mValue s" "goodOf M" nv x] Opt_Empty_stands [of "mError s" "badOf M" ne x]
    by (simp_all add: holdsBoth_def Result_FromValue_def Result_FromError_def bothEmpty_def Opt_Construct_def fun_upd_idem)
qed

text \<open>The laws of Optional with the map after the operation given by an equation.\<close>

lemma CopyAssign_to: "stands st m n \<Longrightarrow> m' = m(x := if x = y then None else m y) \<Longrightarrow> denotes (Opt_CopyAssign x y st) m' n"
  by hypsubst (rule CopyAssign_stands)

lemma MoveAssign_to: "stands st m n \<Longrightarrow> m' = m(x := m y, y := None) \<Longrightarrow> denotes (Opt_MoveAssign x y st) m' n"
  by hypsubst (rule MoveAssign_stands)

lemma Reset_to: "stands st m n \<Longrightarrow> m' = m(x := None) \<Longrightarrow> denotes (Opt_Reset x st) m' n"
  by hypsubst (rule Reset_stands)

lemma AssignValue_to: "stands st m n \<Longrightarrow> m' = m(x \<mapsto> v) \<Longrightarrow> denotes (Opt_AssignValue x v st) m' n"
  by hypsubst (rule AssignValue_stands)

lemma stdSwap_to: "stands st m n \<Longrightarrow> m' = m(x := m y, y := m x) \<Longrightarrow> denotes (stdSwap x y st) m' n"
  by hypsubst (rule stdSwap_stands)

lemmas to_rules = CopyAssign_to MoveAssign_to Reset_to AssignValue_to stdSwap_to

lemmas maps_eq = fun_eq_iff goodOf_def badOf_def

lemma same_goods: "yields r mv me nv ne \<Longrightarrow> mv' = mv \<Longrightarrow> me' = me \<Longrightarrow> yields r mv' me' nv ne"
  by simp

lemma copy_outcomes:
  assumes "outcomes s M nv ne" "M x = Vacant" "x \<noteq> y"
  shows "results (Result_CopyConstruct x y s) (M(x := M y)) nv ne"
proof -
  note b = constructed_outcomes(3) [OF assms(1,2)]
  note has = Result_HasValue_holds [OF b, of y, unfolded goodOf_def]
  show ?thesis
  proof (cases "asValue (M y) = None")
    case True
    have "results (onError (Opt_CopyAssign x y) (bothEmpty x s)) (M(x := M y)) nv ne"
      by (rule same_goods, rule yields_onError [OF b], erule CopyAssign_stands)
        (use True assms(2,3) in \<open>auto simp: maps_eq\<close>)
    then show ?thesis using True has by (simp add: Result_CopyConstruct_def Let_def)
  next
    case False
    have "results (onValue (Opt_CopyAssign x y) (bothEmpty x s)) (M(x := M y)) nv ne"
      by (rule same_goods, rule yields_onValue [OF b], erule CopyAssign_stands)
        (use good_bad [OF False] assms(2,3) in \<open>auto simp: maps_eq\<close>)
    then show ?thesis using False has by (simp add: Result_CopyConstruct_def Let_def)
  qed
qed

lemma move_outcomes:
  assumes "outcomes s M nv ne" "M x = Vacant" "x \<noteq> y"
  shows "results (Result_MoveConstruct x y s) (M(x := M y, y := Vacant)) nv ne"
proof -
  note b = constructed_outcomes(3) [OF assms(1,2)]
  note has = Result_HasValue_holds [OF b, of y, unfolded goodOf_def]
  show ?thesis
  proof (cases "asValue (M y) = None")
    case True
    have "results (onError (Opt_MoveAssign x y) (bothEmpty x s)) (M(x := M y, y := Vacant)) nv ne"
      by (rule same_goods, rule yields_onError [OF b], erule MoveAssign_stands)
        (use True assms(2,3) in \<open>auto simp: maps_eq\<close>)
    then show ?thesis using True has by (simp add: Result_MoveConstruct_def Let_def)
  next
    case False
    have "results (onValue (Opt_MoveAssign x y) (bothEmpty x s)) (M(x := M y, y := Vacant)) nv ne"
      by (rule same_goods, rule yields_onValue [OF b], erule MoveAssign_stands)
        (use good_bad [OF False] assms(2,3) in \<open>auto simp: maps_eq\<close>)
    then show ?thesis using False has by (simp add: Result_MoveConstruct_def Let_def)
  qed
qed

lemma assign_outcomes:
  assumes "outcomes s M nv ne"
  shows "results (Result_CopyAssign x y s) (M(x := if x = y then Vacant else M y)) nv ne"
proof (cases "asValue (M y) = None")
  case True
  have "results (bindR (onError (Opt_CopyAssign x y) s) (onValue (Opt_Reset x))) (M(x := if x = y then Vacant else M y)) nv ne"
    by (rule yields_both [OF assms]; erule to_rules) (use True in \<open>auto simp: maps_eq\<close>)
  then show ?thesis
    using True Result_HasValue_holds [OF assms, of y, unfolded goodOf_def] by (simp add: Result_CopyAssign_def)
next
  case False
  have "results (bindR (onValue (Opt_CopyAssign x y) s) (onError (Opt_Reset x))) (M(x := if x = y then Vacant else M y)) nv ne"
    by (rule yields_both [OF assms]; erule to_rules) (use good_bad [OF False] in \<open>auto simp: maps_eq\<close>)
  then show ?thesis
    using False Result_HasValue_holds [OF assms, of y, unfolded goodOf_def] by (simp add: Result_CopyAssign_def)
qed

lemma move_assign_outcomes:
  assumes "outcomes s M nv ne"
  shows "results (Result_MoveAssign x y s) (M(x := M y, y := Vacant)) nv ne"
proof (cases "asValue (M y) = None")
  case True
  have "results (bindR (onError (Opt_MoveAssign x y) s) (onValue (Opt_Reset x))) (M(x := M y, y := Vacant)) nv ne"
    by (rule yields_both [OF assms]; erule to_rules) (use True in \<open>auto simp: maps_eq\<close>)
  then show ?thesis
    using True Result_HasValue_holds [OF assms, of y, unfolded goodOf_def] by (simp add: Result_MoveAssign_def)
next
  case False
  have "results (bindR (onValue (Opt_MoveAssign x y) s) (onError (Opt_Reset x))) (M(x := M y, y := Vacant)) nv ne"
    by (rule yields_both [OF assms]; erule to_rules) (use good_bad [OF False] in \<open>auto simp: maps_eq\<close>)
  then show ?thesis
    using False Result_HasValue_holds [OF assms, of y, unfolded goodOf_def] by (simp add: Result_MoveAssign_def)
qed

lemma emplace_outcomes:
  assumes "outcomes s M nv ne"
  shows "results (Result_EmplaceValue x t s) (M(x := Good t)) nv ne" "results (Result_EmplaceError x e s) (M(x := Bad e)) nv ne"
    "results (Result_Destroy x s) (M(x := Vacant)) nv ne"
  unfolding Result_EmplaceValue_def Result_EmplaceError_def Result_Destroy_def Opt_Destroy_def [abs_def]
  by (rule yields_both [OF assms]; erule to_rules; auto simp: maps_eq)+

lemma swap_outcomes:
  assumes "outcomes s M nv ne"
  shows "results (Result_Swap x y s) (M(x := M y, y := M x)) nv ne"
proof -
  note has = Result_HasValue_holds [OF assms, unfolded goodOf_def]
  consider "asValue (M x) \<noteq> None" "asValue (M y) \<noteq> None" | "asValue (M x) \<noteq> None" "asValue (M y) = None"
    | "asValue (M x) = None" "asValue (M y) \<noteq> None" | "asValue (M x) = None" "asValue (M y) = None" by blast
  then show ?thesis
  proof cases
    case 1
    have "results (onValue (stdSwap x y) s) (M(x := M y, y := M x)) nv ne"
      by (rule same_goods, rule yields_onValue [OF assms], erule stdSwap_stands)
        (use good_bad [OF 1(1)] good_bad [OF 1(2)] in \<open>auto simp: maps_eq\<close>)
    then show ?thesis using 1 has by (simp add: Result_Swap_def)
  next
    case 2
    have "results (bindR (onError (Opt_MoveAssign x y) s) (onValue (Opt_MoveAssign y x))) (M(x := M y, y := M x)) nv ne"
      by (rule yields_both [OF assms]; erule to_rules) (use 2 good_bad [OF 2(1)] in \<open>auto simp: maps_eq\<close>)
    then show ?thesis using 2 has by (simp add: Result_Swap_def)
  next
    case 3
    have "results (bindR (onValue (Opt_MoveAssign x y) s) (onError (Opt_MoveAssign y x))) (M(x := M y, y := M x)) nv ne"
      by (rule yields_both [OF assms]; erule to_rules) (use 3 good_bad [OF 3(2)] in \<open>auto simp: maps_eq\<close>)
    then show ?thesis using 3 has by (simp add: Result_Swap_def)
  next
    case 4
    have "results (onError (stdSwap x y) s) (M(x := M y, y := M x)) nv ne"
      by (rule same_goods, rule yields_onError [OF assms], erule stdSwap_stands) (use 4 in \<open>auto simp: maps_eq\<close>)
    then show ?thesis using 4 has by (simp add: Result_Swap_def)
  qed
qed

lemma take_outcomes:
  assumes "outcomes s M nv ne"
  shows "M x = Good t \<Longrightarrow> results (runResult (RTakeValue x) s) (M(x := Vacant)) (nv + 1) ne"
    "asValue (M x) = None \<Longrightarrow> runResult (RTakeValue x) s = Inl Runtime_error"
    "M x = Bad e \<Longrightarrow> results (runResult (RTakeError x) s) (M(x := Vacant)) nv (ne + 1)"
    "asError (M x) = None \<Longrightarrow> runResult (RTakeError x) s = Inl Runtime_error"
proof -
  have h: "stands (mValue s) (goodOf M) nv" "stands (mError s) (badOf M) ne" using assms by (simp_all only: holdsBoth_def)
  note v = TakeValue_stands [OF h(1), of x] and e = TakeValue_stands [OF h(2), of x]
  show "M x = Good t \<Longrightarrow> results (runResult (RTakeValue x) s) (M(x := Vacant)) (nv + 1) ne"
    using v h(2) by (auto simp: Result_TakeValue_def holdsBoth_def goodOf_def badOf_def fun_upd_idem [of "badOf M"])
  show "asValue (M x) = None \<Longrightarrow> runResult (RTakeValue x) s = Inl Runtime_error"
    using v by (simp add: Result_TakeValue_def goodOf_def)
  show "M x = Bad e \<Longrightarrow> results (runResult (RTakeError x) s) (M(x := Vacant)) nv (ne + 1)"
    using e h(1) by (auto simp: Result_TakeError_def holdsBoth_def goodOf_def badOf_def fun_upd_idem [of "goodOf M"])
  show "asError (M x) = None \<Longrightarrow> runResult (RTakeError x) s = Inl Runtime_error"
    using e by (simp add: Result_TakeError_def badOf_def)
qed

text \<open>The objects that taking values and errors has lost.\<close>

definition takenFrom :: "('x, 't, 'e) ResultOp list \<Rightarrow> nat" where
  "takenFrom cs = length (filter (\<lambda>c. case c of RTakeValue x \<Rightarrow> True | RTakeError x \<Rightarrow> True | _ \<Rightarrow> False) cs)"

definition represents :: "('x, 't, 'e) ResultStore \<Rightarrow> ('x \<Rightarrow> ('t, 'e) Outcome) \<Rightarrow> nat \<Rightarrow> bool" where
  "represents s M n \<longleftrightarrow> (\<exists>nv ne. outcomes s M nv ne \<and> nv + ne = n)"

lemma represents_of: "results r M nv ne \<Longrightarrow> \<exists>s. r = Inr s \<and> represents s M (nv + ne)"
  by (auto simp: yields_def represents_def)

lemma runResult_step:
  assumes "represents s M n" "opScope c = (new, old, uses)" "list_all (\<lambda>x. x \<notin> set scope) new"
    and "list_all (\<lambda>x. x \<in> set scope) uses" "\<And>x. x \<notin> set scope \<Longrightarrow> M x = Vacant"
  shows "case outcomeOp c M of
      Inr M' \<Rightarrow> \<exists>s'. runResult c s = Inr s' \<and> represents s' M' (n + takenFrom [c])
    | Inl e \<Rightarrow> e = Runtime_error \<and> runResult c s = Inl e"
proof -
  obtain nv ne where o: "outcomes s M nv ne" "n = nv + ne" using assms(1) by (auto simp: represents_def)
  note r = represents_of [OF assign_outcomes [OF o(1)]] represents_of [OF move_assign_outcomes [OF o(1)]]
    represents_of [OF emplace_outcomes(1) [OF o(1)]] represents_of [OF emplace_outcomes(2) [OF o(1)]]
    represents_of [OF emplace_outcomes(3) [OF o(1)]] represents_of [OF swap_outcomes [OF o(1)]]
  show ?thesis
  proof (cases c)
    case (RValue x t)
    then have "M x = Vacant" using assms(2,3,5) by auto
    then show ?thesis
      using RValue constructed_outcomes(1) [OF o(1)] o(2) by (auto simp: represents_def takenFrom_def)
  next
    case (RError x e)
    then have "M x = Vacant" using assms(2,3,5) by auto
    then show ?thesis
      using RError constructed_outcomes(2) [OF o(1)] o(2) by (auto simp: represents_def takenFrom_def)
  next
    case (RCopy x y)
    then have "M x = Vacant" "x \<noteq> y" using assms(2-5) by auto
    then show ?thesis
      using RCopy represents_of [OF copy_outcomes [OF o(1)]] o(2) by (simp add: takenFrom_def)
  next
    case (RMove x y)
    then have "M x = Vacant" "x \<noteq> y" using assms(2-5) by auto
    then show ?thesis
      using RMove represents_of [OF move_outcomes [OF o(1)]] o(2) by (simp add: takenFrom_def)
  next
    case (RTakeValue x)
    then show ?thesis
      using take_outcomes(1,2) [OF o(1), of x] represents_of o(2)
      by (cases "M x") (fastforce simp: takenFrom_def simp del: runResult.simps)+
  next
    case (RTakeError x)
    then show ?thesis
      using take_outcomes(3,4) [OF o(1), of x] represents_of o(2)
      by (cases "M x") (fastforce simp: takenFrom_def simp del: runResult.simps)+
  qed (use r o(2) in \<open>simp_all add: takenFrom_def\<close>)
qed

lemma outcomeOp_scope:
  assumes "outcomeOp c M = Inr M'" "opScope c = (new, old, uses)" "list_all (\<lambda>x. x \<in> set scope) uses"
    and "\<And>x. x \<notin> set scope \<Longrightarrow> M x = Vacant" "x \<notin> set (new @ filter (\<lambda>x. x \<notin> set old) scope)"
  shows "M' x = Vacant"
  using assms by (cases c) (auto split: if_splits Outcome.splits)

lemma results_run:
  assumes "scopedResults cs [] = Some scope"
  shows "case outcomeOps cs (\<lambda>_. Vacant) of
      Inr M \<Rightarrow> \<exists>s. runResults cs \<lparr> mValue = emptyStore, mError = emptyStore \<rparr> = Inr s \<and> represents s M (takenFrom cs)
    | Inl e \<Rightarrow> e = Runtime_error \<and> runResults cs \<lparr> mValue = emptyStore, mError = emptyStore \<rparr> = Inl e"
proof -
  have run: "case outcomeOps cs M of
      Inr M' \<Rightarrow> \<exists>s'. runResults cs s = Inr s' \<and> represents s' M' (n + takenFrom cs)
    | Inl e \<Rightarrow> e = Runtime_error \<and> runResults cs s = Inl e"
    if "represents s M n" "scopedResults cs scope0 = Some scope" "\<And>x. x \<notin> set scope0 \<Longrightarrow> M x = Vacant" for s M n scope0
    using that
  proof (induction cs arbitrary: s M n scope0)
    case Nil
    then show ?case by (simp add: takenFrom_def)
  next
    case (Cons c cs)
    obtain new old uses where p: "opScope c = (new, old, uses)" by (metis prod_cases3)
    let ?scope = "new @ filter (\<lambda>x. x \<notin> set old) scope0"
    have sc: "list_all (\<lambda>x. x \<notin> set scope0) new" "list_all (\<lambda>x. x \<in> set scope0) uses"
      "scopedResults cs ?scope = Some scope"
      using Cons.prems(2) p by (auto split: if_splits)
    note step = runResult_step [OF Cons.prems(1) p sc(1,2) Cons.prems(3)]
    show ?case
    proof (cases "outcomeOp c M")
      case (Inl e)
      then show ?thesis using step by simp
    next
      case (Inr M1)
      obtain s1 where s1: "runResult c s = Inr s1" "represents s1 M1 (n + takenFrom [c])" using step Inr by auto
      have v: "\<And>x. x \<notin> set ?scope \<Longrightarrow> M1 x = Vacant"
        by (rule outcomeOp_scope [OF Inr p sc(2) Cons.prems(3)])
      have "takenFrom (c # cs) = takenFrom [c] + takenFrom cs" by (simp add: takenFrom_def)
      then show ?thesis
        using Cons.IH [OF s1(2) sc(3) v] Inr s1(1) by (auto simp: add.assoc split: sum.splits)
    qed
  qed
  have init: "represents \<lparr> mValue = emptyStore, mError = emptyStore \<rparr> (\<lambda>_. Vacant) 0"
    using emptyStore_stands unfolding represents_def holdsBoth_def goodOf_def [abs_def] badOf_def [abs_def]
    by (simp add: emptyStore_stands)
  show ?thesis using run [OF init assms] by (simp split: sum.splits)
qed

text \<open>C14: Result implements a sum of value and error: in a program that respects scopes no result ever holds both,
  no dead object is touched or deleted twice, and an exception is thrown exactly when a value or error is taken
  that is not there. A result that is not moved from and not assigned to itself holds what the sum holds; one that
  is holds neither. Objects are lost by taking values and errors only.\<close>

theorem result_refines_sum:
  assumes "scopedResults cs [] = Some scope"
  shows "case outcomeOps cs (\<lambda>_. Vacant) of
      Inr M \<Rightarrow> \<exists>s. runResults cs \<lparr> mValue = emptyStore, mError = emptyStore \<rparr> = Inr s \<and> represents s M (takenFrom cs)
    | Inl e \<Rightarrow> e = Runtime_error \<and> runResults cs \<lparr> mValue = emptyStore, mError = emptyStore \<rparr> = Inl e"
  by (rule results_run [OF assms])

theorem result_refines_sum_witness:
  "\<exists>s. runResults [RValue ''a'' (1 :: nat), RError ''b'' ''e'', RSwap ''a'' ''b'', RMove ''c'' ''b'', RTakeError ''a'',
       RAssign ''c'' ''c''] \<lparr> mValue = emptyStore, mError = emptyStore \<rparr> = Inr s \<and> represents s (\<lambda>_. Vacant) 1"
proof -
  let ?cs = "[RValue ''a'' (1 :: nat), RError ''b'' ''e'', RSwap ''a'' ''b'', RMove ''c'' ''b'', RTakeError ''a'',
       RAssign ''c'' ''c'']"
  have "scopedResults ?cs [] = Some [''c'', ''b'', ''a'']" by simp
  from result_refines_sum [OF this] show ?thesis by (simp add: takenFrom_def fun_upd_idem fun_upd_twist)
qed

text \<open>
  Programs that copy, assign and swap results but move nothing and assign no result to itself: every result in scope
  holds a value or an error.
\<close>

fun plainOp :: "('x, 't, 'e) ResultOp \<Rightarrow> bool" where
  "plainOp (RMove x y) \<longleftrightarrow> False"
| "plainOp (RMoveAssign x y) \<longleftrightarrow> False"
| "plainOp (RAssign x y) \<longleftrightarrow> x \<noteq> y"
| "plainOp (RTakeValue x) \<longleftrightarrow> False"
| "plainOp (RTakeError x) \<longleftrightarrow> False"
| "plainOp c \<longleftrightarrow> True"

lemma plain_outcomes:
  "\<lbrakk> list_all plainOp cs; scopedResults cs scope0 = Some scope; \<And>x. x \<in> set scope0 \<Longrightarrow> M x \<noteq> Vacant \<rbrakk> \<Longrightarrow>
     \<exists>M'. outcomeOps cs M = Inr M' \<and> (\<forall>x \<in> set scope. M' x \<noteq> Vacant)"
proof (induction cs arbitrary: M scope0)
  case (Cons c cs)
  obtain new old uses where p: "opScope c = (new, old, uses)" by (metis prod_cases3)
  let ?scope = "new @ filter (\<lambda>x. x \<notin> set old) scope0"
  have sc: "list_all (\<lambda>x. x \<in> set scope0) uses" "scopedResults cs ?scope = Some scope"
    using Cons.prems(2) p by (auto split: if_splits)
  obtain M1 where m1: "outcomeOp c M = Inr M1" using Cons.prems(1) by (cases c) auto
  have "M1 x \<noteq> Vacant" if "x \<in> set ?scope" for x
    using that m1 p sc(1) Cons.prems(1,3) by (cases c) (auto split: if_splits)
  then show ?case using Cons.IH [OF _ sc(2)] Cons.prems(1) m1 by simp
qed simp

text \<open>C28: a result has the type of a sum: in programs that pass results by value, every result in scope holds exactly
  one of a value and an error, so that reading the one that \<open>HasValue\<close> announces never throws.\<close>

theorem result_holds_exactly_one:
  assumes "scopedResults cs [] = Some scope" "list_all plainOp cs" "x \<in> set scope"
  shows "\<exists>s. runResults cs \<lparr> mValue = emptyStore, mError = emptyStore \<rparr> = Inr s \<and>
    (if Result_HasValue x s then (\<exists>t. Result_Value x s = Inr t) \<and> Result_Error x s = Inl Runtime_error
     else (\<exists>e. Result_Error x s = Inr e) \<and> Result_Value x s = Inl Runtime_error)"
proof -
  obtain M where m: "outcomeOps cs (\<lambda>_. Vacant) = Inr M" "M x \<noteq> Vacant"
    using plain_outcomes [OF assms(2,1), of "\<lambda>_. Vacant"] assms(3) by auto
  obtain s nv ne where s: "runResults cs \<lparr> mValue = emptyStore, mError = emptyStore \<rparr> = Inr s" "outcomes s M nv ne"
    using results_run [OF assms(1)] m(1) by (auto simp: represents_def)
  then have h: "stands (mValue s) (goodOf M) nv" "stands (mError s) (badOf M) ne" by (simp_all only: holdsBoth_def)
  show ?thesis
    using s(1) m(2) HasValue_stands [OF h(1), of x] Value_stands [OF h(1), of x] Value_stands [OF h(2), of x]
    by (cases "M x") (auto simp: Result_HasValue_def Result_Value_def Result_Error_def goodOf_def badOf_def)
qed

theorem result_holds_exactly_one_witness:
  "\<exists>s. runResults [RValue ''a'' (1 :: nat), RError ''b'' (2 :: int), RCopy ''c'' ''a'', RSwap ''a'' ''b'', RAssign ''c'' ''a'']
       \<lparr> mValue = emptyStore, mError = emptyStore \<rparr> = Inr s \<and>
     (if Result_HasValue ''c'' s then (\<exists>t. Result_Value ''c'' s = Inr t) \<and> Result_Error ''c'' s = Inl Runtime_error
      else (\<exists>e. Result_Error ''c'' s = Inr e) \<and> Result_Value ''c'' s = Inl Runtime_error)"
  by (rule result_holds_exactly_one [where scope = "[''c'', ''b'', ''a'']"]) simp_all

text \<open>What the reading operations return for a result that holds a sum.\<close>

definition asSum :: "('t, 'e) Outcome \<Rightarrow> ('e + 't) res" where
  "asSum v = (case v of Good t \<Rightarrow> Inr (Inr t) | Bad e \<Rightarrow> Inr (Inl e) | Vacant \<Rightarrow> Inl Runtime_error)"

lemma result_reads:
  assumes "outcomes s M nv ne"
  shows "Result_ValueOr x d s = Inr (case M x of Good t \<Rightarrow> t | _ \<Rightarrow> d)"
    "Result_ErrorOr x e s = Inr (case M x of Bad e \<Rightarrow> e | _ \<Rightarrow> e)"
    "Result_Resolve x f s = bindR (asSum (M x)) (\<lambda>v. Inr (case v of Inr t \<Rightarrow> t | Inl e \<Rightarrow> f e))"
    "Result_Bind x g s = bindR (asSum (M x)) (\<lambda>v. Inr (map_sum id g v))"
    "Result_CheckError x e s = bindR (asSum (M x)) (\<lambda>v. Inr (v = Inl e))"
    "Result_eqValue x t s = Inr (M x = Good t)" "Result_neqValue x t s = Inr (M x \<noteq> Good t)"
    "Result_eqError x e s = bindR (asSum (M x)) (\<lambda>v. Inr (v = Inl e))"
    "Result_neqError x e s = bindR (asSum (M x)) (\<lambda>v. Inr (v \<noteq> Inl e))"
proof -
  have h: "stands (mValue s) (goodOf M) nv" "stands (mError s) (badOf M) ne" using assms by (simp_all only: holdsBoth_def)
  note r = HasValue_stands [OF h(1), of x] Value_stands [OF h(1), of x] Value_stands [OF h(2), of x]
  have o: "Opt_ValueOr x d (mValue s) = Inr (case goodOf M x of Some t \<Rightarrow> t | None \<Rightarrow> d)"
    "Opt_ValueOr x e (mError s) = Inr (case badOf M x of Some e \<Rightarrow> e | None \<Rightarrow> e)"
    using pointer_stands [OF h(1), of x] pointer_stands [OF h(2), of x]
    by (auto simp: Opt_ValueOr_def split: option.splits)
  show "Result_ValueOr x d s = Inr (case M x of Good t \<Rightarrow> t | _ \<Rightarrow> d)"
    "Result_ErrorOr x e s = Inr (case M x of Bad e \<Rightarrow> e | _ \<Rightarrow> e)"
    by (cases "M x"; simp add: o Result_ValueOr_def Result_ErrorOr_def goodOf_def badOf_def)+
  show "Result_Resolve x f s = bindR (asSum (M x)) (\<lambda>v. Inr (case v of Inr t \<Rightarrow> t | Inl e \<Rightarrow> f e))"
    "Result_Bind x g s = bindR (asSum (M x)) (\<lambda>v. Inr (map_sum id g v))"
    "Result_CheckError x e s = bindR (asSum (M x)) (\<lambda>v. Inr (v = Inl e))"
    "Result_eqValue x t s = Inr (M x = Good t)" "Result_neqValue x t s = Inr (M x \<noteq> Good t)"
    "Result_eqError x e s = bindR (asSum (M x)) (\<lambda>v. Inr (v = Inl e))"
    "Result_neqError x e s = bindR (asSum (M x)) (\<lambda>v. Inr (v \<noteq> Inl e))"
    using r by (cases "M x"; simp add: Result_Resolve_def Result_Bind_def Result_CheckError_def Result_eqValue_def
        Result_neqValue_def Result_eqError_def Result_neqError_def Result_HasValue_def Result_Value_def Result_Error_def
        goodOf_def badOf_def asSum_def)+
qed

lemma result_compared:
  assumes "outcomes s M nv ne" "M x \<noteq> Vacant" "M y \<noteq> Vacant"
  shows "Result_eq x y s = Inr (M x = M y)" "Result_neq x y s = Inr (M x \<noteq> M y)"
proof -
  have h: "stands (mValue s) (goodOf M) nv" "stands (mError s) (badOf M) ne" using assms by (simp_all only: holdsBoth_def)
  note r = HasValue_stands [OF h(1)] Value_stands [OF h(1)] Value_stands [OF h(2)]
  show "Result_eq x y s = Inr (M x = M y)" "Result_neq x y s = Inr (M x \<noteq> M y)"
    using assms(2,3)
    by (cases "M x"; cases "M y"; simp add: r Result_eq_def Result_neq_def Result_HasValue_def Result_Value_def
        Result_Error_def goodOf_def badOf_def)+
qed

text \<open>The Optionals that \<open>Ok\<close> and \<open>Err\<close> construct, by copying or from a moved result.\<close>

lemma result_as_optional:
  assumes "outcomes s M nv ne" "M y = Vacant"
  shows "yields (Result_Ok y x s) ((goodOf M)(y := asValue (M x))) (badOf M) nv ne"
    "yields (Result_Err y x s) (goodOf M) ((badOf M)(y := asError (M x))) nv ne"
    "holdsBoth (Result_TakeOk y x s) ((goodOf M)(y := asValue (M x), x := None)) (badOf M) nv ne"
    "holdsBoth (Result_TakeErr y x s) (goodOf M) ((badOf M)(y := asError (M x), x := None)) nv ne"
proof -
  have h: "stands (mValue s) (goodOf M) nv" "stands (mError s) (badOf M) ne"
    using assms(1) by (simp_all only: holdsBoth_def)
  have v: "goodOf M y = None" "badOf M y = None" using assms(2) by (simp_all add: goodOf_def badOf_def)
  show "yields (Result_Ok y x s) ((goodOf M)(y := asValue (M x))) (badOf M) nv ne"
    unfolding Result_Ok_def
    by (rule yields_onValue [OF assms(1)]) (use CopyConstruct_stands [where m = "goodOf M" and x = y and y = x, OF _ v(1)] in \<open>simp add: goodOf_def\<close>)
  show "yields (Result_Err y x s) (goodOf M) ((badOf M)(y := asError (M x))) nv ne"
    unfolding Result_Err_def
    by (rule yields_onError [OF assms(1)]) (use CopyConstruct_stands [where m = "badOf M" and x = y and y = x, OF _ v(2)] in \<open>simp add: badOf_def\<close>)
  show "holdsBoth (Result_TakeOk y x s) ((goodOf M)(y := asValue (M x), x := None)) (badOf M) nv ne"
    using MoveConstruct_stands [OF h(1) v(1), of x] h(2) by (simp add: holdsBoth_def Result_TakeOk_def goodOf_def [of M x])
  show "holdsBoth (Result_TakeErr y x s) (goodOf M) ((badOf M)(y := asError (M x), x := None)) nv ne"
    using MoveConstruct_stands [OF h(2) v(2), of x] h(1) by (simp add: holdsBoth_def Result_TakeErr_def badOf_def [of M x])
qed

section \<open>Results without a value\<close>

definition hasError :: "'x \<Rightarrow> ('x, 'e) Store \<Rightarrow> bool" where
  "hasError x st \<longleftrightarrow> Opt_HasValue x st"

definition Void_HasValue :: "'x \<Rightarrow> ('x, 'e) Store \<Rightarrow> bool" where
  "Void_HasValue x st \<longleftrightarrow> \<not> hasError x st"

definition Void_FromValue :: "'x \<Rightarrow> ('x, 'e) Store \<Rightarrow> ('x, 'e) Store" where
  "Void_FromValue x st = Opt_Empty x st"

definition Void_FromError :: "'x \<Rightarrow> 'e \<Rightarrow> ('x, 'e) Store \<Rightarrow> ('x, 'e) Store" where
  "Void_FromError x e st = Opt_Construct x e st"

definition Void_CopyConstruct :: "'x \<Rightarrow> 'x \<Rightarrow> ('x, 'e) Store \<Rightarrow> ('x, 'e) Store res" where
  "Void_CopyConstruct x other st =
     (let st = Opt_Empty x st in if hasError other st then Opt_CopyAssign x other st else Inr st)"

definition Void_MoveConstruct :: "'x \<Rightarrow> 'x \<Rightarrow> ('x, 'e) Store \<Rightarrow> ('x, 'e) Store res" where
  "Void_MoveConstruct x other st =
     (let st = Opt_Empty x st in if hasError other st then Opt_MoveAssign x other st else Inr st)"

definition Void_CopyAssign :: "'x \<Rightarrow> 'x \<Rightarrow> ('x, 'e) Store \<Rightarrow> ('x, 'e) Store res" where
  "Void_CopyAssign x other st = (if hasError other st then Opt_CopyAssign x other st else Opt_Reset x st)"

definition Void_EmplaceError :: "'x \<Rightarrow> 'e \<Rightarrow> ('x, 'e) Store \<Rightarrow> ('x, 'e) Store res" where
  "Void_EmplaceError x e st = Opt_AssignValue x e st"

definition Void_Swap :: "'x \<Rightarrow> 'x \<Rightarrow> ('x, 'e) Store \<Rightarrow> ('x, 'e) Store res" where
  "Void_Swap x other st =
     (if hasError x st \<and> hasError other st then stdSwap x other st
      else if hasError x st \<and> \<not> hasError other st then Opt_MoveAssign other x st
      else if \<not> hasError x st \<and> hasError other st then Opt_MoveAssign x other st
      else Inr st)"

definition Void_Error :: "'x \<Rightarrow> ('x, 'e) Store \<Rightarrow> 'e res" where
  "Void_Error x st = Opt_Value x st"

definition Void_TakeError :: "'x \<Rightarrow> ('x, 'e) Store \<Rightarrow> ('e \<times> ('x, 'e) Store) res" where
  "Void_TakeError x st = Opt_TakeValue x st"

definition Void_ErrorOr :: "'x \<Rightarrow> 'e \<Rightarrow> ('x, 'e) Store \<Rightarrow> 'e res" where
  "Void_ErrorOr x defaultError st = Opt_ValueOr x defaultError st"

definition Void_CheckError :: "'x \<Rightarrow> 'e \<Rightarrow> ('x, 'e) Store \<Rightarrow> bool res" where
  "Void_CheckError x e st = (if hasError x st then bindR (Opt_Value x st) (\<lambda>own. Inr (own = e)) else Inr False)"

definition Void_ValueOrThrow :: "'x \<Rightarrow> ('x, 'e) Store \<Rightarrow> unit res" where
  "Void_ValueOrThrow x st = Inl Runtime_error"

text \<open>The arguments \<open>f\<close> is called with.\<close>

definition Void_Resolve :: "'x \<Rightarrow> ('x, 'e) Store \<Rightarrow> 'e list res" where
  "Void_Resolve x st = (if hasError x st then bindR (Void_Error x st) (\<lambda>e. Inr [e]) else Inr [])"

definition Void_Bind :: "'x \<Rightarrow> (unit \<Rightarrow> 'u) \<Rightarrow> ('x, 'e) Store \<Rightarrow> ('e + 'u) res" where
  "Void_Bind x f st = (if hasError x st then bindR (Void_Error x st) (\<lambda>e. Inr (Inl e)) else Inr (Inr (f ())))"

definition Void_eq :: "'x \<Rightarrow> 'x \<Rightarrow> ('x, 'e) Store \<Rightarrow> bool res" where
  "Void_eq lhs rhs st =
     (if Void_HasValue lhs st \<and> Void_HasValue rhs st then Inr True
      else if \<not> Void_HasValue lhs st \<and> \<not> Void_HasValue rhs st
      then bindR (Void_Error lhs st) (\<lambda>d. bindR (Void_Error rhs st) (\<lambda>e. Inr (d = e)))
      else Inr False)"

definition Void_neq :: "'x \<Rightarrow> 'x \<Rightarrow> ('x, 'e) Store \<Rightarrow> bool res" where
  "Void_neq lhs rhs st =
     (if Void_HasValue lhs st \<and> Void_HasValue rhs st then Inr False
      else if \<not> Void_HasValue lhs st \<and> \<not> Void_HasValue rhs st
      then bindR (Void_Error lhs st) (\<lambda>d. bindR (Void_Error rhs st) (\<lambda>e. Inr (d \<noteq> e)))
      else Inr True)"

lemma void_stands:
  assumes "stands st m n"
  shows "Void_HasValue x st \<longleftrightarrow> m x = None"
    "denotes (Void_CopyAssign x y st) (m(x := if x = y then None else m y)) n"
    "denotes (Void_Swap x y st) (m(x := m y, y := m x)) n"
    "Void_Resolve x st = Inr (case m x of Some e \<Rightarrow> [e] | None \<Rightarrow> [])"
    "Void_Bind x f st = Inr (case m x of Some e \<Rightarrow> Inl e | None \<Rightarrow> Inr (f ()))"
    "Void_CheckError x e st = Inr (m x = Some e)"
    "Void_eq x y st = Inr (m x = m y)" "Void_neq x y st = Inr (m x \<noteq> m y)"
proof -
  note has = HasValue_stands [OF assms] and val = Value_stands [OF assms]
  show "Void_HasValue x st \<longleftrightarrow> m x = None" by (simp add: Void_HasValue_def hasError_def has)
  show "denotes (Void_CopyAssign x y st) (m(x := if x = y then None else m y)) n"
    using CopyAssign_stands [OF assms, of x y] Reset_stands [OF assms, of x]
    by (auto simp: Void_CopyAssign_def hasError_def has)
  show "denotes (Void_Swap x y st) (m(x := m y, y := m x)) n"
  proof (cases "m x = None \<or> m y = None")
    case True
    then show ?thesis
      using MoveAssign_stands [OF assms, of x y] MoveAssign_stands [OF assms, of y x] assms
      by (cases "x = y") (auto simp: Void_Swap_def hasError_def has fun_upd_idem fun_upd_twist)
  qed (use stdSwap_stands [OF assms, of x y] in \<open>simp add: Void_Swap_def hasError_def has\<close>)
  show "Void_Resolve x st = Inr (case m x of Some e \<Rightarrow> [e] | None \<Rightarrow> [])"
    "Void_Bind x f st = Inr (case m x of Some e \<Rightarrow> Inl e | None \<Rightarrow> Inr (f ()))"
    "Void_CheckError x e st = Inr (m x = Some e)"
    by (cases "m x"; simp add: Void_Resolve_def Void_Bind_def Void_CheckError_def hasError_def Void_Error_def has val)+
  show "Void_eq x y st = Inr (m x = m y)" "Void_neq x y st = Inr (m x \<noteq> m y)"
    by (cases "m x"; cases "m y"; simp add: Void_eq_def Void_neq_def Void_HasValue_def hasError_def Void_Error_def has val)+
qed

text \<open>An error that is lost turns the result into a success: by assigning it to itself, by moving from it, and by
  taking the error out of it.\<close>

lemma void_error_forgotten:
  assumes "stands st m n" "m x = Some e"
  shows "\<exists>st'. Void_CopyAssign x x st = Inr st' \<and> Void_HasValue x st'"
    "m y = None \<Longrightarrow> x \<noteq> y \<Longrightarrow> \<exists>st'. Void_MoveConstruct y x st = Inr st' \<and> Void_HasValue x st'"
    "\<exists>st'. Void_TakeError x st = Inr (e, st') \<and> Void_HasValue x st'"
proof -
  show "\<exists>st'. Void_CopyAssign x x st = Inr st' \<and> Void_HasValue x st'"
    using void_stands(2) [OF assms(1), of x x] by (rule denotes_cases) (simp add: void_stands(1))
  show "\<exists>st'. Void_TakeError x st = Inr (e, st') \<and> Void_HasValue x st'"
    using TakeValue_stands [OF assms(1), of x] assms(2) by (auto simp: Void_TakeError_def void_stands(1))
  assume y: "m y = None" "x \<noteq> y"
  have e: "stands (Opt_Empty y st) m n" by (rule Opt_Empty_stands [OF assms(1) y(1)])
  obtain st1 where "Opt_MoveAssign y x (Opt_Empty y st) = Inr st1" "stands st1 (m(y := m x, x := None)) n"
    by (rule denotes_cases [OF MoveAssign_stands [OF e, of y x]])
  then show "\<exists>st'. Void_MoveConstruct y x st = Inr st' \<and> Void_HasValue x st'"
    using HasValue_stands [OF e, of x] assms(2)
    by (simp add: Void_MoveConstruct_def hasError_def Let_def void_stands(1))
qed

end
