(* ===== verification/Payload.thy ===== *)
theory Payload
  imports Prelude
begin

text \<open>
  \<open>ara/com/helper/payload_helper.cpp\<close> and \<open>ara/com/helper/ipv4_address.{h,cpp}\<close>: the big-endian
  injection and extraction every message format is made of, and the IPv4 address as a value, as
  four bytes on the wire and as dotted text. The three wire formats interpret \<open>fixed_codec\<close>.
\<close>

section \<open>Payload helper\<close>

definition Inject16 :: "bytes \<Rightarrow> u16 \<Rightarrow> bytes" where
  "Inject16 vector val = (vector @ [ucast (drop_bit 8 val)]) @ [ucast val]"

definition Inject32 :: "bytes \<Rightarrow> u32 \<Rightarrow> bytes" where
  "Inject32 vector val =
     (((vector @ [ucast (drop_bit 24 val)]) @ [ucast (drop_bit 16 val)])
        @ [ucast (drop_bit 8 val)]) @ [ucast val]"

definition Concat :: "bytes \<Rightarrow> bytes \<Rightarrow> bytes" where
  "Concat vector1 vector2 = vector1 @ vector2"

definition ExtractByte :: "bytes \<Rightarrow> nat \<Rightarrow> (u8 \<times> nat) res" where
  "ExtractByte vector offset = bindR (at vector offset) (\<lambda>b. Inr (b, offset + 1))"

definition ExtractShort :: "bytes \<Rightarrow> nat \<Rightarrow> (u16 \<times> nat) res" where
  "ExtractShort vector offset =
     bindR (at vector offset) (\<lambda>b0.
     bindR (at vector (offset + 1)) (\<lambda>b1.
       Inr (push_bit 8 (ucast b0) OR ucast b1, offset + 2)))"

definition ExtractInteger :: "bytes \<Rightarrow> nat \<Rightarrow> (u32 \<times> nat) res" where
  "ExtractInteger vector offset =
     bindR (at vector offset) (\<lambda>b0.
     bindR (at vector (offset + 1)) (\<lambda>b1.
     bindR (at vector (offset + 2)) (\<lambda>b2.
     bindR (at vector (offset + 3)) (\<lambda>b3.
       Inr (push_bit 24 (ucast b0) OR push_bit 16 (ucast b1) OR push_bit 8 (ucast b2) OR ucast b3,
            offset + 4)))))"

lemma Inject16_be16: "Inject16 v w = v @ be16 w"
  by (simp add: Inject16_def be16_def)

lemma Inject32_be32: "Inject32 v w = v @ be32 w"
  by (simp add: Inject32_def be32_def)

lemma ExtractShort_join:
  "ExtractShort v off =
     bindR (at v off) (\<lambda>b0. bindR (at v (off + 1)) (\<lambda>b1. Inr (join16 b0 b1, off + 2)))"
  by (simp add: ExtractShort_def join16_def)

lemma ExtractInteger_join:
  "ExtractInteger v off =
     bindR (at v off) (\<lambda>b0. bindR (at v (off + 1)) (\<lambda>b1.
     bindR (at v (off + 2)) (\<lambda>b2. bindR (at v (off + 3)) (\<lambda>b3.
       Inr (join32 b0 b1 b2 b3, off + 4)))))"
  by (simp add: ExtractInteger_def join32_def)

text \<open>Reading behind an offset, when the next bytes are known.\<close>

lemma at_take_drop1: "take 1 (drop off v) = [a] \<Longrightarrow> at v off = Inr a"
  using at_take_drop [of 1 off v "[a]" 0] by simp

lemma at_take_drop2:
  "take 2 (drop off v) = [a, b] \<Longrightarrow> at v off = Inr a \<and> at v (off + 1) = Inr b"
  using at_take_drop [of 2 off v "[a, b]" 0] at_take_drop [of 2 off v "[a, b]" 1] by simp

lemma at_take_drop4:
  "take 4 (drop off v) = [a, b, c, d] \<Longrightarrow>
     at v off = Inr a \<and> at v (off + 1) = Inr b \<and> at v (off + 2) = Inr c \<and> at v (off + 3) = Inr d"
  using at_take_drop [of 4 off v "[a, b, c, d]" 0] at_take_drop [of 4 off v "[a, b, c, d]" 1]
    at_take_drop [of 4 off v "[a, b, c, d]" 2] at_take_drop [of 4 off v "[a, b, c, d]" 3]
  by simp

interpretation byte: fixed_codec "\<lambda>_. True" "\<lambda>b. [b]" ExtractByte 1
proof unfold_locales
  fix x :: u8 and off v assume "take (length [x]) (drop off v) = [x]"
  then show "ExtractByte v off = Inr (x, off + length [x])"
    using at_take_drop1 [of off v x] by (simp add: ExtractByte_def)
qed (auto simp: ExtractByte_def at_def)

interpretation short: fixed_codec "\<lambda>_. True" be16 ExtractShort 2
proof unfold_locales
  fix x off v assume "take (length (be16 x)) (drop off v) = be16 x"
  from at_take_drop2 [OF this [unfolded length_be16, unfolded be16_def]]
  show "ExtractShort v off = Inr (x, off + length (be16 x))"
    unfolding ExtractShort_join length_be16 by simp
qed (auto simp: ExtractShort_def at_def)

interpretation integer: fixed_codec "\<lambda>_. True" be32 ExtractInteger 4
proof unfold_locales
  fix x off v assume "take (length (be32 x)) (drop off v) = be32 x"
  from at_take_drop4 [OF this [unfolded length_be32, unfolded be32_def]]
  show "ExtractInteger v off = Inr (x, off + length (be32 x))"
    unfolding ExtractInteger_join length_be32 by simp
qed (auto simp: ExtractInteger_def at_def)

lemma ExtractByte_total: "off + 1 \<le> length v \<Longrightarrow> ExtractByte v off = Inr (v ! off, off + 1)"
  by (simp add: ExtractByte_def)

lemma ExtractShort_total:
  "off + 2 \<le> length v \<Longrightarrow> ExtractShort v off = Inr (join16 (v ! off) (v ! (off + 1)), off + 2)"
  by (simp add: ExtractShort_join)

lemma ExtractInteger_total:
  "off + 4 \<le> length v \<Longrightarrow>
     ExtractInteger v off =
       Inr (join32 (v ! off) (v ! (off + 1)) (v ! (off + 2)) (v ! (off + 3)), off + 4)"
  by (simp add: ExtractInteger_join)

section \<open>IPv4 address\<close>

record Ipv4Address =
  octet0 :: u8
  octet1 :: u8
  octet2 :: u8
  octet3 :: u8

definition mkIpv4 :: "u8 \<Rightarrow> u8 \<Rightarrow> u8 \<Rightarrow> u8 \<Rightarrow> Ipv4Address" where
  "mkIpv4 a b c d = \<lparr> octet0 = a, octet1 = b, octet2 = c, octet3 = d \<rparr>"

definition Ipv4_eq :: "Ipv4Address \<Rightarrow> Ipv4Address \<Rightarrow> bool" where
  "Ipv4_eq address1 address2 \<longleftrightarrow>
     octet0 address1 = octet0 address2 \<and> octet1 address1 = octet1 address2 \<and>
     octet2 address1 = octet2 address2 \<and> octet3 address1 = octet3 address2"

definition Ipv4_Inject :: "bytes \<Rightarrow> Ipv4Address \<Rightarrow> bytes" where
  "Ipv4_Inject vector ip = vector @ [octet0 ip, octet1 ip, octet2 ip, octet3 ip]"

definition Ipv4_Extract :: "bytes \<Rightarrow> nat \<Rightarrow> (Ipv4Address \<times> nat) res" where
  "Ipv4_Extract vector offset =
     bindR (at vector offset) (\<lambda>b0.
     bindR (at vector (offset + 1)) (\<lambda>b1.
     bindR (at vector (offset + 2)) (\<lambda>b2.
     bindR (at vector (offset + 3)) (\<lambda>b3.
       Inr (mkIpv4 b0 b1 b2 b3, offset + 4)))))"

abbreviation ipBytes :: "Ipv4Address \<Rightarrow> bytes" where
  "ipBytes ip \<equiv> Ipv4_Inject [] ip"

lemma Ipv4_eq_iff: "Ipv4_eq a b \<longleftrightarrow> a = b"
  by (cases a, cases b) (simp add: Ipv4_eq_def)

lemma length_ipBytes [simp]: "length (ipBytes ip) = 4"
  by (simp add: Ipv4_Inject_def)

lemma Ipv4_Inject_append: "Ipv4_Inject v ip = v @ ipBytes ip"
  by (simp add: Ipv4_Inject_def)

interpretation ipv4: fixed_codec "\<lambda>_. True" ipBytes Ipv4_Extract 4
proof unfold_locales
  fix x off v assume "take (length (ipBytes x)) (drop off v) = ipBytes x"
  from at_take_drop4 [OF this [unfolded length_ipBytes, unfolded Ipv4_Inject_def append_Nil]]
  show "Ipv4_Extract v off = Inr (x, off + length (ipBytes x))"
    unfolding Ipv4_Extract_def length_ipBytes by (simp add: mkIpv4_def)
qed (auto simp: Ipv4_Extract_def at_def)

section \<open>IPv4 address as text\<close>

text \<open>
  \<open>ToString\<close> prints the octets with \<open>std::to_string\<close>; the constructor from text reads them back with
  \<open>operator>>\<close> on an \<open>istringstream\<close>. A stream is \<open>Some\<close> of the characters left, or \<open>None\<close> once its
  fail bit is set, after which an extraction leaves its variable as it was: uninitialised here,
  and a read of it is undefined.
\<close>

definition digitChar :: "nat \<Rightarrow> char" where
  "digitChar d = char_of (48 + d)"

fun to_string :: "nat \<Rightarrow> string" where
  "to_string n =
     (if n < 10 then [digitChar n] else to_string (n div 10) @ [digitChar (n mod 10)])"

declare to_string.simps [simp del]

definition isDigit :: "char \<Rightarrow> bool" where
  "isDigit c \<longleftrightarrow> 48 \<le> (of_char c :: nat) \<and> (of_char c :: nat) \<le> 57"

definition isSpace :: "char \<Rightarrow> bool" where
  "isSpace c \<longleftrightarrow> (of_char c :: nat) = 32 \<or> 9 \<le> (of_char c :: nat) \<and> (of_char c :: nat) \<le> 13"

definition digitsValue :: "string \<Rightarrow> int" where
  "digitsValue ds = foldl (\<lambda>n c. n * 10 + (int (of_char c) - 48)) 0 ds"

fun readInt :: "string option \<Rightarrow> int option \<times> string option" where
  "readInt None = (None, None)"
| "readInt (Some s) =
     (case dropWhile isSpace s of
        [] \<Rightarrow> (None, None)
      | c # cs \<Rightarrow>
          let neg = (c = CHR ''-'');
              body = (if c = CHR ''-'' \<or> c = CHR ''+'' then cs else c # cs);
              ds = takeWhile isDigit body;
              val = (if neg then - digitsValue ds else digitsValue ds)
          in if ds = [] then (Some 0, None)
             else if val > 2 ^ 31 - 1 then (Some (2 ^ 31 - 1), None)
             else if val < - (2 ^ 31) then (Some (- (2 ^ 31)), None)
             else (Some val, Some (dropWhile isDigit body)))"

fun readChar :: "string option \<Rightarrow> string option" where
  "readChar None = None"
| "readChar (Some s) = (case dropWhile isSpace s of [] \<Rightarrow> None | c # cs \<Rightarrow> Some cs)"

text \<open>\<open>std::stoul\<close>: a negative number wraps around.\<close>

definition stoul :: "string \<Rightarrow> u64 res" where
  "stoul s =
     (case dropWhile isSpace s of
        [] \<Rightarrow> Inl Invalid_argument
      | c # cs \<Rightarrow>
          let body = (if c = CHR ''-'' \<or> c = CHR ''+'' then cs else c # cs);
              ds = takeWhile isDigit body
          in if ds = [] then Inl Invalid_argument
             else if digitsValue ds > 2 ^ 64 - 1 then Inl Out_of_range
             else Inr (if c = CHR ''-'' then - word_of_int (digitsValue ds) else word_of_int (digitsValue ds)))"

definition Ipv4_ToString :: "Ipv4Address \<Rightarrow> string" where
  "Ipv4_ToString ip =
     to_string (unat (octet0 ip)) @ ''.'' @ to_string (unat (octet1 ip)) @ ''.'' @
     to_string (unat (octet2 ip)) @ ''.'' @ to_string (unat (octet3 ip))"

definition Ipv4_ofString :: "string \<Rightarrow> Ipv4Address res" where
  "Ipv4_ofString ipAddress =
     (let stream0 = Some (takeWhile (\<lambda>c. of_char c \<noteq> (0 :: nat)) ipAddress);
          (octetInt0, stream1) = readInt stream0;
          (octetInt1, stream2) = readInt (readChar stream1);
          (octetInt2, stream3) = readInt (readChar stream2);
          (octetInt3, stream4) = readInt (readChar stream3)
      in case (octetInt0, octetInt1, octetInt2, octetInt3) of
           (Some a, Some b, Some c, Some d) \<Rightarrow>
             Inr (mkIpv4 (word_of_int a) (word_of_int b) (word_of_int c) (word_of_int d))
         | _ \<Rightarrow> Inl Undefined)"

lemma of_char_digitChar: "d < 10 \<Longrightarrow> (of_char (digitChar d) :: nat) = 48 + d"
  by (simp add: digitChar_def)

lemma digitChar_digit [simp]: "d < 10 \<Longrightarrow> isDigit (digitChar d)"
  by (simp add: isDigit_def of_char_digitChar)

lemma digit_not: "isDigit c \<Longrightarrow> \<not> isSpace c \<and> c \<noteq> CHR ''-'' \<and> c \<noteq> CHR ''+'' \<and> of_char c \<noteq> (0 :: nat)"
  by (auto simp: isDigit_def isSpace_def)

lemma to_string_digits: "\<forall>c\<in>set (to_string n). isDigit c"
  by (induction n rule: to_string.induct) (subst to_string.simps, auto)

lemma to_string_ne [simp]: "to_string n \<noteq> []"
  by (subst to_string.simps) simp

lemma digitsValue_snoc: "digitsValue (ds @ [c]) = digitsValue ds * 10 + (int (of_char c) - 48)"
  by (simp add: digitsValue_def)

lemma digitsValue_to_string [simp]: "digitsValue (to_string n) = int n"
proof (induction n rule: to_string.induct)
  case (1 n)
  show ?case
  proof (cases "n < 10")
    case True then show ?thesis
      by (subst to_string.simps) (simp add: digitsValue_def of_char_digitChar)
  next
    case False
    have "int (n div 10) * 10 + int (n mod 10) = int n"
      by (metis div_mult_mod_eq of_nat_add of_nat_mult of_nat_numeral)
    with False 1 show ?thesis
      by (subst to_string.simps) (simp add: digitsValue_snoc of_char_digitChar)
  qed
qed

lemma readInt_to_string:
  assumes "int n \<le> 2 ^ 31 - 1" "r = [] \<or> \<not> isDigit (hd r)"
  shows "readInt (Some (to_string n @ r)) = (Some (int n), Some r)"
proof -
  obtain c cs where c: "to_string n = c # cs" by (cases "to_string n") auto
  then have cd: "isDigit c" "\<forall>c\<in>set cs. isDigit c" using to_string_digits [of n] by auto
  have d: "dropWhile isSpace (to_string n @ r) = c # cs @ r"
    using c cd digit_not by simp
  have ne: "c \<noteq> CHR ''-''" "c \<noteq> CHR ''+''" using cd digit_not by auto
  have t: "takeWhile isDigit (c # cs @ r) = to_string n"
    using cd assms(2) c by (cases r) (auto simp: takeWhile_append)
  have w: "dropWhile isDigit (c # cs @ r) = r"
    using cd assms(2) c by (cases r) (auto simp: dropWhile_append)
  show ?thesis
    using assms(1) by (simp only: readInt.simps d list.case ne simp_thms if_False Let_def t w
        digitsValue_to_string to_string_ne) simp
qed

lemma Ipv4_noNul:
  "takeWhile (\<lambda>c. of_char c \<noteq> (0 :: nat)) (Ipv4_ToString ip) = Ipv4_ToString ip"
  using to_string_digits digit_not
  by (auto simp: takeWhile_eq_all_conv Ipv4_ToString_def)

lemma unat_u8_int: "int (unat (b :: u8)) \<le> 2 ^ 31 - 1"
proof -
  have "unat b < 256" using unsigned_less [of b] by simp
  then have "int (unat b) < 256" by linarith
  moreover have "(256 :: int) \<le> 2 ^ 31 - 1" by simp
  ultimately show ?thesis by linarith
qed

lemma Ipv4_ofString_ToString: "Ipv4_ofString (Ipv4_ToString ip) = Inr ip"
proof -
  have dot: "\<not> isDigit CHR ''.''" "\<not> isSpace CHR ''.''" by (simp_all add: isDigit_def isSpace_def)
  have rd: "readInt (Some (to_string (unat (b :: u8)) @ CHR ''.'' # r))
      = (Some (int (unat b)), Some (CHR ''.'' # r))" for b r
    by (rule readInt_to_string) (use dot unat_u8_int in auto)
  have rl: "readInt (Some (to_string (unat (b :: u8)))) = (Some (int (unat b)), Some [])" for b
    using readInt_to_string [of "unat b" "[]"] unat_u8_int [of b] by simp
  have rc: "readChar (Some (CHR ''.'' # r)) = Some r" for r using dot by simp
  show ?thesis
    unfolding Ipv4_ofString_def Ipv4_noNul
    by (simp add: Ipv4_ToString_def rd rl rc mkIpv4_def del: readInt.simps readChar.simps)
qed

end
