(* ===== verification/E2E.thy ===== *)
theory E2E
  imports Prelude
begin

text \<open>
  \<open>ara/com/e2e/profile.h\<close> and \<open>ara/com/e2e/profile11.{h,cpp}\<close>: the end-to-end protection of event
  data. The CRC table is computed by the code's own shift loop. Two interfaces: \<open>table_crc\<close>
  (a byte-wise checksum through a table that is a permutation) and \<open>e2e_profile\<close> (the contract
  of the abstract class Profile between the protecting and the checking side).
\<close>

section \<open>Profile 11\<close>

datatype CheckStatusType = kOk | kWrongCrc | kRepeated | kNoNewData | kWrongSequence

record Profile11 =
  mProtectingCounter :: u8
  mCheckingCounter :: u8

definition cCounterMax :: u8 where "cCounterMax = 0x0e"

definition Profile11_init :: Profile11 where
  "Profile11_init = \<lparr> mProtectingCounter = 0, mCheckingCounter = 0 \<rparr>"

definition crcShift :: "u8 \<Rightarrow> u8 \<Rightarrow> u8" where
  "crcShift crcPoly crc =
     (if crc AND 0x80 \<noteq> 0 then push_bit 1 crc XOR crcPoly else push_bit 1 crc)"

definition initializeCrcTable :: "u8 \<Rightarrow> u8 list" where
  "initializeCrcTable crcPoly = map (\<lambda>i. (crcShift crcPoly ^^ 8) (word_of_nat i)) [0..<256]"

definition mCrcTable :: "u8 list" where
  "mCrcTable = initializeCrcTable 0x1d"

definition crcLoop :: "u8 list \<Rightarrow> u8 \<Rightarrow> bytes \<Rightarrow> u8" where
  "crcLoop table start elements = foldl (\<lambda>r e. table ! unat (r XOR e)) start elements"

definition calculateCrc :: "bytes \<Rightarrow> nat \<Rightarrow> u8" where
  "calculateCrc xs offset = NOT (crcLoop mCrcTable 0xff (drop offset xs))"

definition TryProtect :: "Profile11 \<Rightarrow> bytes \<Rightarrow> Profile11 \<times> bytes option" where
  "TryProtect p unprotectedData =
     (if length unprotectedData > 0
      then let counter = (if mProtectingCounter p < cCounterMax then mProtectingCounter p + 1 else 0);
               protectedData = (counter OR 0xf0) # unprotectedData
           in (p\<lparr> mProtectingCounter := counter \<rparr>,
               Some (calculateCrc protectedData 0 # protectedData))
      else (p, None))"

definition TryForward :: "Profile11 \<Rightarrow> bytes \<Rightarrow> bytes res" where
  "TryForward p unprotectedData = Inl Logic_error"

definition CheckE2E :: "Profile11 \<Rightarrow> bytes \<Rightarrow> Profile11 \<times> CheckStatusType" where
  "CheckE2E p protectedData =
     (if length protectedData < 3 then (p, kNoNewData)
      else if protectedData ! 0 \<noteq> calculateCrc protectedData 1 then (p, kWrongCrc)
      else let received = protectedData ! 1 AND 0x0f;
               delta = sint (received - mCheckingCounter p);
               result = (if delta = 0 then kRepeated
                         else if mCheckingCounter p < cCounterMax \<and> delta < 0 then kWrongSequence
                         else kOk)
           in (p\<lparr> mCheckingCounter := received \<rparr>, result))"

section \<open>A checksum through a permutation table\<close>

locale table_crc =
  fixes table :: "u8 list"
  assumes table_length: "length table = 256"
    and table_distinct: "distinct table"
begin

lemma step_inj: "table ! unat (r XOR e) = table ! unat (r' XOR e') \<longleftrightarrow> r XOR e = (r' XOR e' :: u8)"
proof -
  have "unat (w :: u8) < length table" for w
    using unsigned_less [of w] by (simp add: table_length)
  then have "table ! unat x = table ! unat y \<longleftrightarrow> unat x = unat y" for x y :: u8
    by (simp only: nth_eq_iff_index_eq [OF table_distinct])
  then show ?thesis by (simp only: word_unat_eq_iff)
qed

lemma crcLoop_start_inj: "crcLoop table r es = crcLoop table r' es \<longleftrightarrow> r = r'"
proof (induction es arbitrary: r r')
  case (Cons e es)
  have "crcLoop table r (e # es) = crcLoop table r' (e # es) \<longleftrightarrow>
      crcLoop table (table ! unat (r XOR e)) es = crcLoop table (table ! unat (r' XOR e)) es"
    by (simp add: crcLoop_def)
  also have "\<dots> \<longleftrightarrow> r XOR e = r' XOR e" by (simp only: Cons.IH step_inj)
  also have "\<dots> \<longleftrightarrow> r = r'" by (metis bit.xor_cancel_right bit.xor_left_self xor.commute xor.assoc)
  finally show ?case .
qed (simp add: crcLoop_def)

text \<open>Two byte strings that differ in one position never have the same checksum.\<close>

lemma crcLoop_one_byte:
  "crcLoop table r (xs @ a # ys) = crcLoop table r (xs @ b # ys) \<longleftrightarrow> a = b"
proof -
  define s where "s = crcLoop table r xs"
  have e: "crcLoop table r (xs @ c # ys) = crcLoop table (table ! unat (s XOR c)) ys" for c
    by (simp add: crcLoop_def s_def)
  have "crcLoop table r (xs @ a # ys) = crcLoop table r (xs @ b # ys) \<longleftrightarrow> s XOR a = s XOR b"
    by (simp only: e crcLoop_start_inj step_inj)
  also have "\<dots> \<longleftrightarrow> a = b" by (metis bit.xor_left_self)
  finally show ?thesis .
qed

end

lemma length_mCrcTable: "length mCrcTable = 256"
  by (simp add: mCrcTable_def initializeCrcTable_def)

lemma and_0x80_bit: "(c AND 0x80 \<noteq> 0) \<longleftrightarrow> bit (c :: u8) 7"
  using and_exp_eq_0_iff_not_bit [of c 7] by simp

lemma crcShift_eq: "crcShift p c = push_bit 1 c XOR (if bit c 7 then p else 0)"
  by (simp add: crcShift_def and_0x80_bit)

lemma bit_shl1: "bit (push_bit 1 (c :: u8)) n \<longleftrightarrow> 1 \<le> n \<and> n < 8 \<and> bit c (n - 1)"
  by (simp only: bit_push_bit_iff possible_bit_word) auto

lemma xor_right_cancel8: "a XOR c = b XOR (c :: u8) \<longleftrightarrow> a = b"
  by (metis xor.assoc xor.right_neutral xor_self_eq)

lemma crcShift_inj:
  assumes "bit p 0" "crcShift p a = crcShift p b"
  shows "a = b"
proof -
  have c7: "bit (crcShift p c) 0 \<longleftrightarrow> bit c 7" for c
    unfolding crcShift_eq bit_xor_iff bit_shl1 using assms(1) by auto
  have s: "bit a 7 \<longleftrightarrow> bit b 7" using c7 [of a] c7 [of b] assms(2) by simp
  then have eq: "push_bit 1 a = push_bit 1 b"
    using assms(2) by (cases "bit b 7") (simp_all only: crcShift_eq if_True if_False
        xor.right_neutral xor_right_cancel8)
  have lo: "bit a n \<longleftrightarrow> bit b n" if "n < 7" for n
  proof -
    have "bit (push_bit 1 a) (n + 1) \<longleftrightarrow> bit (push_bit 1 b) (n + 1)" by (simp only: eq)
    with that show ?thesis by (simp only: bit_shl1) simp
  qed
  show ?thesis
  proof (rule bit_word_eqI)
    fix n assume "n < LENGTH(8)"
    then have "n < 7 \<or> n = 7" by auto
    then show "bit a n = bit b n" using lo s by auto
  qed
qed

lemma crcShift_funpow_inj: "bit p 0 \<Longrightarrow> (crcShift p ^^ k) a = (crcShift p ^^ k) b \<Longrightarrow> a = b"
  by (induction k) (auto dest: crcShift_inj)

lemma mCrcTable_distinct: "distinct mCrcTable"
proof -
  have "inj_on (\<lambda>i. (crcShift 0x1d ^^ 8) (word_of_nat i :: u8)) {0..<256}"
  proof (rule inj_onI)
    fix i j :: nat
    assume ij: "i \<in> {0..<256}" "j \<in> {0..<256}"
      and eq: "(crcShift 0x1d ^^ 8) (word_of_nat i) = (crcShift 0x1d ^^ 8) (word_of_nat j)"
    have "(word_of_nat i :: u8) = word_of_nat j"
      by (rule crcShift_funpow_inj [OF _ eq]) (simp add: bit_0)
    then have "i mod 2 ^ 8 = j mod 2 ^ 8"
      by (simp only: word_of_nat_eq_iff take_bit_eq_mod len_num1 len_bit0 mult_1_right mult_1) simp
    with ij show "i = j" by simp
  qed
  then show ?thesis
    unfolding mCrcTable_def initializeCrcTable_def distinct_map
    by (simp only: distinct_upt set_upt simp_thms)
qed

interpretation crc11: table_crc mCrcTable
  by unfold_locales (rule length_mCrcTable mCrcTable_distinct)+

section \<open>The protecting and the checking side\<close>

lemma length_protected:
  "TryProtect p d = (p', Some m) \<Longrightarrow> length m = length d + 2 \<and> 3 \<le> length m"
  by (cases d) (auto simp: TryProtect_def Let_def)

lemma TryProtect_frame:
  assumes "TryProtect p d = (p', Some m)"
  shows "m = calculateCrc (tl m) 0 # (mProtectingCounter p' OR 0xf0) # d"
    and "mProtectingCounter p' =
      (if mProtectingCounter p < cCounterMax then mProtectingCounter p + 1 else 0)"
  using assms by (cases d; auto simp: TryProtect_def Let_def)+

lemma calculateCrc_tl: "calculateCrc m 1 = calculateCrc (tl m) 0"
  by (simp add: calculateCrc_def drop_Suc)

lemma calculateCrc_one_byte:
  assumes "i < length m"
  shows "calculateCrc (m[i := b]) 0 = calculateCrc m 0 \<longleftrightarrow> b = m ! i"
proof -
  have m: "m = take i m @ m ! i # drop (Suc i) m" using assms by (rule id_take_nth_drop)
  have u: "m[i := b] = take i m @ b # drop (Suc i) m" using assms by (rule upd_conv_take_nth_drop)
  have "crcLoop mCrcTable 0xff (m[i := b]) = crcLoop mCrcTable 0xff m \<longleftrightarrow> b = m ! i"
    by (subst u, subst (2) m) (rule crc11.crcLoop_one_byte)
  then show ?thesis by (simp add: calculateCrc_def)
qed

lemma CheckE2E_wrong_crc:
  "\<lbrakk> 3 \<le> length m; m ! 0 \<noteq> calculateCrc (tl m) 0 \<rbrakk> \<Longrightarrow> CheckE2E c m = (c, kWrongCrc)"
  unfolding CheckE2E_def calculateCrc_tl by (simp only: not_less [symmetric] if_False if_True simp_thms)

text \<open>
  The contract of the abstract class Profile: whatever a peer protects, a checking side that has
  seen everything before accepts, and it reports a frame that comes twice as repeated.
\<close>

locale e2e_profile =
  fixes protect :: "'s \<Rightarrow> bytes \<Rightarrow> 's \<times> bytes option"
    and check :: "'r \<Rightarrow> bytes \<Rightarrow> 'r \<times> CheckStatusType"
    and sync :: "'s \<Rightarrow> 'r \<Rightarrow> bool"
  assumes protects: "d \<noteq> [] \<Longrightarrow> \<exists>s' m. protect s d = (s', Some m)"
    and skips: "protect s [] = (s, None)"
    and accepts: "\<lbrakk> sync s r; protect s d = (s', Some m) \<rbrakk>
      \<Longrightarrow> \<exists>r'. check r m = (r', kOk) \<and> sync s' r' \<and> check r' m = (r', kRepeated)"
begin

text \<open>The statuses a receiver reports for a sequence of data sent over a faultless channel.\<close>

primrec channel :: "'s \<Rightarrow> 'r \<Rightarrow> bytes list \<Rightarrow> CheckStatusType list" where
  "channel s r [] = []"
| "channel s r (d # ds) =
     (case protect s d of
        (s', None) \<Rightarrow> channel s' r ds
      | (s', Some m) \<Rightarrow> (case check r m of (r', st) \<Rightarrow> st # channel s' r' ds))"

lemma channel_ok: "sync s r \<Longrightarrow> set (channel s r ds) \<subseteq> {kOk}"
proof (induction ds arbitrary: s r)
  case (Cons d ds)
  show ?case
  proof (cases "d = []")
    case True then show ?thesis using Cons by (simp add: skips)
  next
    case False
    then obtain s' m where p: "protect s d = (s', Some m)" using protects by blast
    from accepts [OF Cons.prems p] obtain r' where "check r m = (r', kOk)" "sync s' r'" by blast
    with p Cons.IH show ?thesis by simp
  qed
qed simp

end

definition inSync11 :: "Profile11 \<Rightarrow> Profile11 \<Rightarrow> bool" where
  "inSync11 sender receiver \<longleftrightarrow>
     mProtectingCounter sender = mCheckingCounter receiver \<and> mProtectingCounter sender \<le> cCounterMax"

lemma u8_upto_14: "(k :: u8) \<le> 14 \<Longrightarrow> k \<in> {0, 1, 2, 3, 4, 5, 6, 7, 8, 9, 10, 11, 12, 13, 14}"
proof -
  assume "k \<le> 14"
  then have "unat k \<le> 14" by (simp add: word_le_nat_alt)
  then show ?thesis by (simp add: word_unat_eq_iff) presburger
qed

lemma counter_delta:
  fixes k l :: u8
  assumes "k \<le> 14" "l \<le> 14"
  shows "(sint (k - l) = 0 \<longleftrightarrow> k = l) \<and> (sint (k - l) < 0 \<longleftrightarrow> k < l)"
  using u8_upto_14 [OF assms(1)] u8_upto_14 [OF assms(2)]
  by - (elim insertE emptyE; simp)

text \<open>What the checking side makes of a frame with an intact CRC, by the two counters.\<close>

lemma CheckE2E_counter:
  assumes "TryProtect p d = (p', Some m)" "mProtectingCounter p' \<le> cCounterMax"
    "mCheckingCounter c \<le> cCounterMax"
  shows "CheckE2E c m =
    (c\<lparr> mCheckingCounter := mProtectingCounter p' \<rparr>,
     if mProtectingCounter p' = mCheckingCounter c then kRepeated
     else if mProtectingCounter p' < mCheckingCounter c \<and> mCheckingCounter c \<noteq> cCounterMax
     then kWrongSequence else kOk)"
proof -
  note fr = TryProtect_frame [OF assms(1)] length_protected [OF assms(1)]
  have m0: "m ! 0 = calculateCrc m 1" "m ! 1 = mProtectingCounter p' OR 0xf0"
    using fr(1) by (metis calculateCrc_tl nth_Cons_0, metis One_nat_def nth_Cons_0 nth_Cons_Suc)
  have msk: "(k OR 0xf0) AND 0x0f = k" if "k \<le> cCounterMax" for k :: u8
    using u8_upto_14 [of k] that by (auto simp: cCounterMax_def)
  have delta: "(sint (k - l) = 0 \<longleftrightarrow> k = l) \<and> (sint (k - l) < 0 \<longleftrightarrow> k < l)"
    if "k \<le> cCounterMax" "l \<le> cCounterMax" for k l :: u8
    using that by (simp only: cCounterMax_def counter_delta)
  have "mCheckingCounter c < cCounterMax \<longleftrightarrow> mCheckingCounter c \<noteq> cCounterMax"
    using assms(3) by auto
  moreover have "\<not> length m < 3" using length_protected [OF assms(1)] by linarith
  ultimately show ?thesis
    using delta [OF assms(2,3)] unfolding CheckE2E_def
    by (simp add: m0 msk [OF assms(2)] Let_def del: One_nat_def)
qed

lemma inSync11_step:
  assumes "inSync11 p c" "TryProtect p d = (p', Some m)"
  shows "\<exists>c'. CheckE2E c m = (c', kOk) \<and> inSync11 p' c' \<and> CheckE2E c' m = (c', kRepeated)"
proof -
  have nx: "l \<le> cCounterMax \<Longrightarrow>
      (if l < cCounterMax then l + 1 else 0) \<le> cCounterMax \<and>
      (if l < cCounterMax then l + 1 else 0) \<noteq> l \<and>
      ((if l < cCounterMax then l + 1 else 0) < l \<longrightarrow> l = cCounterMax)" for l :: u8
    using u8_upto_14 [of l] by (auto simp: cCounterMax_def)
  note fr = TryProtect_frame(2) [OF assms(2)]
  have c: "mCheckingCounter c \<le> cCounterMax" "mProtectingCounter p = mCheckingCounter c"
    using assms(1) by (auto simp: inSync11_def)
  have p': "mProtectingCounter p' \<le> cCounterMax"
    unfolding fr c(2) using nx [OF c(1)] by (rule conjunct1)
  note nx' = nx [OF c(1), folded c(2), folded fr, unfolded c(2)]
  show ?thesis
    using CheckE2E_counter [OF assms(2) p' c(1)] nx' c p'
      CheckE2E_counter [OF assms(2) p', of "c\<lparr> mCheckingCounter := mProtectingCounter p' \<rparr>"]
    by (simp add: inSync11_def)
qed

interpretation profile11: e2e_profile TryProtect CheckE2E inSync11
proof unfold_locales
  fix d :: bytes and s assume "d \<noteq> []"
  then show "\<exists>s' m. TryProtect s d = (s', Some m)" by (cases d) (simp_all add: TryProtect_def Let_def)
next
  fix s show "TryProtect s [] = (s, None)" by (simp add: TryProtect_def)
qed (rule inSync11_step)

lemma inSync11_init: "inSync11 Profile11_init Profile11_init"
  by (simp add: inSync11_def Profile11_init_def cCounterMax_def)

text \<open>
  The same pair of sides with a frame store between them: frames go out in order, the channel may
  drop or repeat a frame or corrupt one byte of it.
\<close>

text \<open>C2: a frame protected by Profile 11 that arrives with exactly one byte changed, be it the
  checksum, the counter or the data, is reported as a wrong CRC by every checking side, and the
  checking side keeps its state.\<close>

theorem e2e_one_byte_corruption:
  assumes "TryProtect p d = (p', Some m)" "i < length m" "b \<noteq> m ! i"
  shows "CheckE2E c (m[i := b]) = (c, kWrongCrc)"
proof -
  note fr = TryProtect_frame(1) [OF assms(1)] length_protected [OF assms(1)]
  have m0: "m ! 0 = calculateCrc (tl m) 0" using fr(1) by (metis nth_Cons_0)
  have "(m[i := b]) ! 0 \<noteq> calculateCrc (tl (m[i := b])) 0"
  proof (cases i)
    case 0
    with assms fr(2) m0 show ?thesis by (cases m) auto
  next
    case (Suc k)
    with assms(2) have k: "k < length (tl m)" "tl m ! k = m ! i" by (cases m; simp)+
    have t: "tl (m[i := b]) = (tl m)[k := b]" using Suc by (cases m) auto
    from Suc have h: "(m[i := b]) ! 0 = m ! 0" by simp
    show ?thesis unfolding h t m0 using calculateCrc_one_byte [OF k(1), of b] assms(3) k(2) by metis
  qed
  moreover have "3 \<le> length (m[i := b])" using fr(2) by simp
  ultimately show ?thesis by (rule CheckE2E_wrong_crc [rotated])
qed

theorem e2e_one_byte_corruption_witness:
  "\<exists>p' m. TryProtect Profile11_init [1, 2] = (p', Some m) \<and>
     CheckE2E Profile11_init (m[3 := 7]) = (Profile11_init, kWrongCrc)"
proof -
  obtain p' m where pm: "TryProtect Profile11_init [1, 2] = (p', Some m)"
    using profile11.protects [of "[1, 2]"] by blast
  then have m: "m ! 3 = 2" "length m = 4"
    by (auto simp: TryProtect_def Let_def Profile11_init_def)
  then have "CheckE2E Profile11_init (m[3 := 7]) = (Profile11_init, kWrongCrc)"
    by (intro e2e_one_byte_corruption [OF pm]) auto
  with pm show ?thesis by blast
qed

text \<open>Over a channel that delivers in order, a Profile 11 receiver started with its sender
  accepts every frame of every sequence of data, across the wrap-around of the counter, and keeps
  in step with the sender.\<close>

lemma e2e_in_order_all_ok:
  "set (profile11.channel Profile11_init Profile11_init ds) \<subseteq> {kOk}"
  by (rule profile11.channel_ok [OF inSync11_init])

end
