(* ===== verification/SdOption.thy ===== *)
theory SdOption
  imports Payload
begin

text \<open>
  \<open>ara/com/option\<close>: the options of SOME/IP service discovery. The class hierarchy Option,
  Ipv4EndpointOption, LoadBalancingOption is one datatype; \<open>Option_Length\<close> and \<open>Option_Payload\<close> are
  the virtual functions, \<open>OptionDeserialize\<close> the static ones. The wire format is a \<open>codec\<close>
  on the options the factories build.
\<close>

section \<open>Option types and layer-4 protocols\<close>

text \<open>
  An enumeration of the code with a fixed underlying type holds any byte a \<open>static_cast\<close> puts in
  it; the last constructor stands for the bytes that name no enumerator.
\<close>

datatype OptionType = Configuration | LoadBalancing | IPv4Endpoint | IPv6Endpoint
  | IPv4Multicast | IPv6Multicast | IPv4SdEndpoint | IPv6SdEndpoint | OptionTypeOther u8

fun OptionType_byte :: "OptionType \<Rightarrow> u8" where
  "OptionType_byte Configuration = 0x01"
| "OptionType_byte LoadBalancing = 0x02"
| "OptionType_byte IPv4Endpoint = 0x04"
| "OptionType_byte IPv6Endpoint = 0x06"
| "OptionType_byte IPv4Multicast = 0x14"
| "OptionType_byte IPv6Multicast = 0x16"
| "OptionType_byte IPv4SdEndpoint = 0x24"
| "OptionType_byte IPv6SdEndpoint = 0x26"
| "OptionType_byte (OptionTypeOther b) = b"

definition OptionType_cast :: "u8 \<Rightarrow> OptionType" where
  "OptionType_cast b =
     (if b = 0x01 then Configuration else if b = 0x02 then LoadBalancing
      else if b = 0x04 then IPv4Endpoint else if b = 0x06 then IPv6Endpoint
      else if b = 0x14 then IPv4Multicast else if b = 0x16 then IPv6Multicast
      else if b = 0x24 then IPv4SdEndpoint else if b = 0x26 then IPv6SdEndpoint
      else OptionTypeOther b)"

datatype Layer4ProtocolType = Tcp | Udp | L4Other u8

fun L4_byte :: "Layer4ProtocolType \<Rightarrow> u8" where
  "L4_byte Tcp = 0x06"
| "L4_byte Udp = 0x11"
| "L4_byte (L4Other b) = b"

definition L4_cast :: "u8 \<Rightarrow> Layer4ProtocolType" where
  "L4_cast b = (if b = 0x06 then Tcp else if b = 0x11 then Udp else L4Other b)"

definition wfL4 :: "Layer4ProtocolType \<Rightarrow> bool" where
  "wfL4 p \<longleftrightarrow> L4_cast (L4_byte p) = p"

lemma wfL4_cast [simp]: "wfL4 (L4_cast b)"
  by (simp add: wfL4_def L4_cast_def)

lemma wfL4_enum [simp]: "wfL4 Tcp" "wfL4 Udp"
  by (simp_all add: wfL4_def L4_cast_def)

lemma OptionType_byte_cast [simp]: "OptionType_byte (OptionType_cast b) = b"
  by (simp add: OptionType_cast_def)

section \<open>Options\<close>

datatype Opt =
    Ipv4EndpointOption (ipType: OptionType) (mDiscardable: bool) (mIpAddress: Ipv4Address)
      (mL4Proto: Layer4ProtocolType) (mPort: u16)
  | LoadBalancingOption (mDiscardable: bool) (mPriority: u16) (mWeight: u16)

fun Option_Type :: "Opt \<Rightarrow> OptionType" where
  "Option_Type (Ipv4EndpointOption t d ip proto port) = t"
| "Option_Type (LoadBalancingOption d pr w) = LoadBalancing"

fun Option_Length :: "Opt \<Rightarrow> u16" where
  "Option_Length (Ipv4EndpointOption t d ip proto port) = 9"
| "Option_Length (LoadBalancingOption d pr w) = 5"

definition Option_BasePayload :: "Opt \<Rightarrow> bytes" where
  "Option_BasePayload opt =
     (Inject16 [] (Option_Length opt) @ [OptionType_byte (Option_Type opt)])
       @ [of_bool (mDiscardable opt)]"

fun Option_Payload :: "Opt \<Rightarrow> bytes" where
  "Option_Payload (Ipv4EndpointOption t d ip proto port) =
     Inject16
       ((Ipv4_Inject (Option_BasePayload (Ipv4EndpointOption t d ip proto port)) ip @ [0x00])
          @ [L4_byte proto]) port"
| "Option_Payload (LoadBalancingOption d pr w) =
     Inject16 (Inject16 (Option_BasePayload (LoadBalancingOption d pr w)) pr) w"

definition CreateUnitcastEndpoint ::
    "bool \<Rightarrow> Ipv4Address \<Rightarrow> Layer4ProtocolType \<Rightarrow> u16 \<Rightarrow> Opt" where
  "CreateUnitcastEndpoint discardable ip protocol port =
     Ipv4EndpointOption IPv4Endpoint discardable ip protocol port"

definition CreateMulticastEndpoint :: "bool \<Rightarrow> Ipv4Address \<Rightarrow> u16 \<Rightarrow> Opt res" where
  "CreateMulticastEndpoint discardable ip port =
     (if octet0 ip < 224 \<or> octet0 ip > 239 then Inl Invalid_argument
      else Inr (Ipv4EndpointOption IPv4Multicast discardable ip Udp port))"

definition CreateSdEndpoint ::
    "bool \<Rightarrow> Ipv4Address \<Rightarrow> Layer4ProtocolType \<Rightarrow> u16 \<Rightarrow> Opt" where
  "CreateSdEndpoint discardable ip protocol port =
     Ipv4EndpointOption IPv4SdEndpoint discardable ip protocol port"

definition Ipv4EndpointOption_Deserialize ::
    "bytes \<Rightarrow> nat \<Rightarrow> OptionType \<Rightarrow> bool \<Rightarrow> (Opt \<times> nat) res" where
  "Ipv4EndpointOption_Deserialize payload offset type discardable =
     bindR (Ipv4_Extract payload offset) (\<lambda>(ip, offset).
     let offset = offset + 1 in
     bindR (at payload offset) (\<lambda>protocolByte.
     let protocol = L4_cast protocolByte; offset = offset + 1 in
     bindR (ExtractShort payload offset) (\<lambda>(port, offset).
       case type of
         IPv4Endpoint \<Rightarrow> Inr (CreateUnitcastEndpoint discardable ip protocol port, offset)
       | IPv4Multicast \<Rightarrow>
           bindR (CreateMulticastEndpoint discardable ip port) (\<lambda>opt. Inr (opt, offset))
       | IPv4SdEndpoint \<Rightarrow> Inr (CreateSdEndpoint discardable ip protocol port, offset)
       | _ \<Rightarrow> Inl Out_of_range)))"

definition LoadBalancingOption_Deserialize ::
    "bytes \<Rightarrow> nat \<Rightarrow> bool \<Rightarrow> (Opt \<times> nat) res" where
  "LoadBalancingOption_Deserialize payload offset discardable =
     bindR (ExtractShort payload offset) (\<lambda>(priority, offset).
     bindR (ExtractShort payload offset) (\<lambda>(weight, offset).
       Inr (LoadBalancingOption discardable priority weight, offset)))"

definition OptionDeserialize :: "bytes \<Rightarrow> nat \<Rightarrow> (Opt \<times> nat) res" where
  "OptionDeserialize payload offset =
     (let offset = offset + 2 in
      bindR (at payload offset) (\<lambda>typeByte.
      let type = OptionType_cast typeByte; offset = offset + 1 in
      bindR (at payload offset) (\<lambda>discardableByte.
      let discardable = (discardableByte \<noteq> 0); offset = offset + 1 in
        case type of
          IPv4Endpoint \<Rightarrow> Ipv4EndpointOption_Deserialize payload offset type discardable
        | IPv4Multicast \<Rightarrow> Ipv4EndpointOption_Deserialize payload offset type discardable
        | IPv4SdEndpoint \<Rightarrow> Ipv4EndpointOption_Deserialize payload offset type discardable
        | LoadBalancing \<Rightarrow> LoadBalancingOption_Deserialize payload offset discardable
        | _ \<Rightarrow> Inl Out_of_range)))"

section \<open>The options the factories build\<close>

fun wfOption :: "Opt \<Rightarrow> bool" where
  "wfOption (Ipv4EndpointOption t d ip proto port) \<longleftrightarrow>
     wfL4 proto \<and> t \<in> {IPv4Endpoint, IPv4Multicast, IPv4SdEndpoint} \<and>
     (t = IPv4Multicast \<longrightarrow> 224 \<le> octet0 ip \<and> octet0 ip \<le> 239 \<and> proto = Udp)"
| "wfOption (LoadBalancingOption d pr w) \<longleftrightarrow> True"

lemma Create_wf:
  "wfL4 proto \<Longrightarrow> wfOption (CreateUnitcastEndpoint d ip proto port)"
  "wfL4 proto \<Longrightarrow> wfOption (CreateSdEndpoint d ip proto port)"
  "CreateMulticastEndpoint d ip port = Inr opt \<Longrightarrow> wfOption opt"
  by (auto simp: CreateUnitcastEndpoint_def CreateSdEndpoint_def CreateMulticastEndpoint_def
      split: if_splits)

lemma Option_Payload_bytes:
  "Option_Payload (Ipv4EndpointOption t d ip proto port) =
     [0, 9, OptionType_byte t, of_bool d, octet0 ip, octet1 ip, octet2 ip, octet3 ip, 0, L4_byte proto,
      ucast (drop_bit 8 port), ucast port]"
  "Option_Payload (LoadBalancingOption d pr w) =
     [0, 5, 2, of_bool d, ucast (drop_bit 8 pr), ucast pr, ucast (drop_bit 8 w), ucast w]"
  by (simp_all add: Option_BasePayload_def Inject16_def Ipv4_Inject_def)

lemma length_Option_Payload: "length (Option_Payload opt) = unat (Option_Length opt) + 3"
  by (cases opt) (simp_all only: Option_Payload_bytes, simp_all)

lemmas option_dec = OptionDeserialize_def Ipv4EndpointOption_Deserialize_def
  LoadBalancingOption_Deserialize_def Ipv4_Extract_def ExtractShort_join Let_def
  CreateUnitcastEndpoint_def CreateMulticastEndpoint_def CreateSdEndpoint_def

lemma OptionDeserialize_enc:
  assumes "wfOption opt" "take (length (Option_Payload opt)) (drop off v) = Option_Payload opt"
  shows "OptionDeserialize v off = Inr (opt, off + length (Option_Payload opt))"
proof (cases opt)
  case (Ipv4EndpointOption t d ip proto port)
  note rd = reads [OF assms(2) [unfolded Ipv4EndpointOption], unfolded Option_Payload_bytes(1)]
  have "t \<in> {IPv4Endpoint, IPv4Multicast, IPv4SdEndpoint}" "L4_cast (L4_byte proto) = proto"
    using assms(1) Ipv4EndpointOption by (auto simp: wfL4_def)
  then show ?thesis
    using assms(1) unfolding Ipv4EndpointOption Option_Payload_bytes(1)
    by (auto simp: option_dec rd OptionType_cast_def mkIpv4_def)
next
  case (LoadBalancingOption d pr w)
  note rd = reads [OF assms(2) [unfolded LoadBalancingOption], unfolded Option_Payload_bytes(2)]
  show ?thesis
    unfolding LoadBalancingOption Option_Payload_bytes(2)
    by (simp add: option_dec rd OptionType_cast_def)
qed

interpretation opt: codec wfOption Option_Payload OptionDeserialize
  by unfold_locales (rule OptionDeserialize_enc)

text \<open>Whatever bytes arrive, an option the deserializer returns is one a factory could have built.\<close>

lemma OptionDeserialize_wf:
  "OptionDeserialize v off = Inr (opt, off') \<Longrightarrow> wfOption opt \<and> off < off' \<and> off' \<le> length v"
  by (auto simp: option_dec bindR_eq_Inr at_def split: if_splits OptionType.splits)

text \<open>Every service-discovery option a factory builds is read back unchanged from its bytes,
  wherever they stand in a message; its length field counts the bytes after the first three.\<close>

lemma option_roundtrip:
  assumes "wfOption opt"
  shows "OptionDeserialize (pre @ Option_Payload opt @ suf) (length pre) =
      Inr (opt, length pre + unat (Option_Length opt) + 3)"
  using opt.dec_enc_at [OF assms] by (simp add: length_Option_Payload)

end
