(* ===== verification/SdEntry.thy ===== *)
theory SdEntry
  imports SdOption
begin

text \<open>
  \<open>ara/com/entry\<close>: the entries of SOME/IP service discovery. The base class Entry is the record
  \<open>EntryBase\<close>, its two subclasses are the constructors of \<open>Entry\<close>. \<open>Entry_Payload\<close> threads the
  option index the C++ code passes by reference; \<open>EntryDeserialize\<close> returns the entry without its
  options and the two option counts, as the code does.
\<close>

section \<open>Entries\<close>

datatype EntryType = Finding | Offering | Subscribing | Acknowledging | EntryTypeOther u8

fun EntryType_byte :: "EntryType \<Rightarrow> u8" where
  "EntryType_byte Finding = 0x00"
| "EntryType_byte Offering = 0x01"
| "EntryType_byte Subscribing = 0x06"
| "EntryType_byte Acknowledging = 0x07"
| "EntryType_byte (EntryTypeOther b) = b"

definition EntryType_cast :: "u8 \<Rightarrow> EntryType" where
  "EntryType_cast b =
     (if b = 0x00 then Finding else if b = 0x01 then Offering
      else if b = 0x06 then Subscribing else if b = 0x07 then Acknowledging
      else EntryTypeOther b)"

record EntryBase =
  eType :: EntryType
  mFirstOptions :: "Opt list"
  mSecondOptions :: "Opt list"
  mServiceId :: u16
  mInstanceId :: u16
  mMajorVersion :: u8
  mTTL :: u32

datatype Entry =
    ServiceEntry (base: EntryBase) (mMinorVersion: u32)
  | EventgroupEntry (base: EntryBase) (mCounter: u8) (mEventgroupId: u16)

definition mkEntryBase :: "EntryType \<Rightarrow> u16 \<Rightarrow> u16 \<Rightarrow> u32 \<Rightarrow> u8 \<Rightarrow> EntryBase" where
  "mkEntryBase type serviceId instanceId ttl majorVersion =
     \<lparr> eType = type, mFirstOptions = [], mSecondOptions = [], mServiceId = serviceId,
       mInstanceId = instanceId, mMajorVersion = majorVersion, mTTL = ttl \<rparr>"

definition mkEventgroupEntry ::
    "EntryType \<Rightarrow> u16 \<Rightarrow> u16 \<Rightarrow> u32 \<Rightarrow> u8 \<Rightarrow> u8 \<Rightarrow> u16 \<Rightarrow> Entry res" where
  "mkEventgroupEntry type serviceId instanceId ttl majorVersion counter eventgroupId =
     (if counter > 0x0f then Inl Out_of_range
      else Inr (EventgroupEntry (mkEntryBase type serviceId instanceId ttl majorVersion)
                  counter eventgroupId))"

section \<open>Factories\<close>

definition CreateFindServiceEntry :: "u16 \<Rightarrow> u32 \<Rightarrow> u16 \<Rightarrow> u8 \<Rightarrow> u32 \<Rightarrow> Entry res" where
  "CreateFindServiceEntry serviceId ttl instanceId majorVersion minorVersion =
     (if ttl = 0 then Inl Invalid_argument
      else Inr (ServiceEntry (mkEntryBase Finding serviceId instanceId ttl majorVersion)
                  minorVersion))"

definition CreateOfferServiceEntry :: "u16 \<Rightarrow> u16 \<Rightarrow> u8 \<Rightarrow> u32 \<Rightarrow> u32 \<Rightarrow> Entry res" where
  "CreateOfferServiceEntry serviceId instanceId majorVersion minorVersion ttl =
     (if ttl = 0 then Inl Invalid_argument
      else Inr (ServiceEntry (mkEntryBase Offering serviceId instanceId ttl majorVersion)
                  minorVersion))"

definition CreateStopOfferEntry :: "u16 \<Rightarrow> u16 \<Rightarrow> u8 \<Rightarrow> u32 \<Rightarrow> Entry" where
  "CreateStopOfferEntry serviceId instanceId majorVersion minorVersion =
     ServiceEntry (mkEntryBase Offering serviceId instanceId 0 majorVersion) minorVersion"

definition CreateSubscribeEventEntry :: "u16 \<Rightarrow> u16 \<Rightarrow> u8 \<Rightarrow> u8 \<Rightarrow> u16 \<Rightarrow> Entry res" where
  "CreateSubscribeEventEntry serviceId instanceId majorVersion counter eventgroupId =
     mkEventgroupEntry Subscribing serviceId instanceId 0xffffff majorVersion counter eventgroupId"

definition CreateUnsubscribeEventEntry :: "u16 \<Rightarrow> u16 \<Rightarrow> u8 \<Rightarrow> u8 \<Rightarrow> u16 \<Rightarrow> Entry res" where
  "CreateUnsubscribeEventEntry serviceId instanceId majorVersion counter eventgroupId =
     mkEventgroupEntry Subscribing serviceId instanceId 0 majorVersion counter eventgroupId"

text \<open>The two factories of an acknowledgement read the eventgroup entry they answer.\<close>

definition CreateAcknowledgeEntry :: "EntryBase \<Rightarrow> u8 \<Rightarrow> u16 \<Rightarrow> Entry res" where
  "CreateAcknowledgeEntry b counter eventgroupId =
     mkEventgroupEntry Acknowledging (mServiceId b) (mInstanceId b) (mTTL b) (mMajorVersion b)
       counter eventgroupId"

definition CreateNegativeAcknowledgeEntry :: "EntryBase \<Rightarrow> u8 \<Rightarrow> u16 \<Rightarrow> Entry res" where
  "CreateNegativeAcknowledgeEntry b counter eventgroupId =
     mkEventgroupEntry Acknowledging (mServiceId b) (mInstanceId b) 0 (mMajorVersion b)
       counter eventgroupId"

section \<open>Adding options\<close>

definition ContainsOption :: "EntryBase \<Rightarrow> OptionType \<Rightarrow> bool" where
  "ContainsOption b t \<longleftrightarrow>
     list_ex (\<lambda>opt. Option_Type opt = t) (mFirstOptions b) \<or>
     list_ex (\<lambda>opt. Option_Type opt = t) (mSecondOptions b)"

definition Entry_ValidateOption :: "EntryBase \<Rightarrow> Opt \<Rightarrow> bool" where
  "Entry_ValidateOption b opt =
     (case Option_Type opt of
        Configuration \<Rightarrow> \<not> ContainsOption b Configuration
      | LoadBalancing \<Rightarrow> \<not> ContainsOption b LoadBalancing
      | IPv4SdEndpoint \<Rightarrow> False
      | IPv6SdEndpoint \<Rightarrow> False
      | _ \<Rightarrow> True)"

definition isAcknowledge :: "EntryBase \<Rightarrow> bool" where
  "isAcknowledge b \<longleftrightarrow> eType b = Acknowledging \<and> mTTL b > 0"

fun ValidateOption :: "Entry \<Rightarrow> Opt \<Rightarrow> bool" where
  "ValidateOption (ServiceEntry b minor) opt \<longleftrightarrow>
     Entry_ValidateOption b opt \<and>
     Option_Type opt \<noteq> IPv4Multicast \<and> Option_Type opt \<noteq> IPv6Multicast"
| "ValidateOption (EventgroupEntry b counter eventgroupId) opt \<longleftrightarrow>
     (if Entry_ValidateOption b opt
      then (case Option_Type opt of
              IPv4Endpoint \<Rightarrow> eType b = Subscribing
            | IPv6Endpoint \<Rightarrow> eType b = Subscribing
            | IPv4Multicast \<Rightarrow>
                if isAcknowledge b then \<not> ContainsOption b (Option_Type opt) else False
            | IPv6Multicast \<Rightarrow>
                if isAcknowledge b then \<not> ContainsOption b (Option_Type opt) else False
            | _ \<Rightarrow> False)
      else False)"

fun mapBase :: "(EntryBase \<Rightarrow> EntryBase) \<Rightarrow> Entry \<Rightarrow> Entry" where
  "mapBase f (ServiceEntry b minor) = ServiceEntry (f b) minor"
| "mapBase f (EventgroupEntry b counter eventgroupId) = EventgroupEntry (f b) counter eventgroupId"

definition AddFirstOption :: "Entry \<Rightarrow> Opt \<Rightarrow> Entry res" where
  "AddFirstOption e opt =
     (if ValidateOption e opt
      then Inr (mapBase (\<lambda>b. b\<lparr> mFirstOptions := mFirstOptions b @ [opt] \<rparr>) e)
      else Inl Invalid_argument)"

definition AddSecondOption :: "Entry \<Rightarrow> Opt \<Rightarrow> Entry res" where
  "AddSecondOption e opt =
     (if ValidateOption e opt
      then Inr (mapBase (\<lambda>b. b\<lparr> mSecondOptions := mSecondOptions b @ [opt] \<rparr>) e)
      else Inl Invalid_argument)"

section \<open>Wire format\<close>

definition Entry_BasePayload :: "EntryBase \<Rightarrow> u8 \<Rightarrow> bytes \<times> u8" where
  "Entry_BasePayload b optionIndex =
     (let result = [EntryType_byte (eType b)];
          result = result @ [optionIndex];
          firstOptionsSize = (word_of_nat (length (mFirstOptions b)) :: u8);
          optionIndex = optionIndex + firstOptionsSize;
          result = result @ [optionIndex];
          secondOptionsSize = (word_of_nat (length (mSecondOptions b)) :: u8);
          optionIndex = optionIndex + secondOptionsSize;
          firstOptionsSize = push_bit 4 firstOptionsSize OR secondOptionsSize;
          result = result @ [firstOptionsSize];
          result = Inject16 result (mServiceId b);
          result = Inject16 result (mInstanceId b);
          majorVersion = push_bit 24 (ucast (mMajorVersion b)) OR mTTL b
      in (Inject32 result majorVersion, optionIndex))"

fun Entry_Payload :: "Entry \<Rightarrow> u8 \<Rightarrow> bytes \<times> u8" where
  "Entry_Payload (ServiceEntry b minor) optionIndex =
     (case Entry_BasePayload b optionIndex of (result, optionIndex) \<Rightarrow>
        (Inject32 result minor, optionIndex))"
| "Entry_Payload (EventgroupEntry b counter eventgroupId) optionIndex =
     (case Entry_BasePayload b optionIndex of (result, optionIndex) \<Rightarrow>
        (Inject16 (Inject16 result (ucast counter)) eventgroupId, optionIndex))"

definition ServiceEntry_Deserialize ::
    "bytes \<Rightarrow> nat \<Rightarrow> EntryType \<Rightarrow> u16 \<Rightarrow> u16 \<Rightarrow> u32 \<Rightarrow> u8 \<Rightarrow> (Entry \<times> nat) res" where
  "ServiceEntry_Deserialize payload offset type serviceId instanceId ttl majorVersion =
     bindR (ExtractInteger payload offset) (\<lambda>(minorVersion, offset).
       case type of
         Finding \<Rightarrow>
           bindR (CreateFindServiceEntry serviceId ttl instanceId majorVersion minorVersion)
             (\<lambda>e. Inr (e, offset))
       | Offering \<Rightarrow>
           if ttl > 0
           then bindR (CreateOfferServiceEntry serviceId instanceId majorVersion minorVersion ttl)
                  (\<lambda>e. Inr (e, offset))
           else Inr (CreateStopOfferEntry serviceId instanceId majorVersion minorVersion, offset)
       | _ \<Rightarrow> Inl Out_of_range)"

definition EventgroupEntry_Deserialize ::
    "bytes \<Rightarrow> nat \<Rightarrow> EntryType \<Rightarrow> u16 \<Rightarrow> u16 \<Rightarrow> u32 \<Rightarrow> u8 \<Rightarrow> (Entry \<times> nat) res" where
  "EventgroupEntry_Deserialize payload offset type serviceId instanceId ttl majorVersion =
     (let offset = offset + 1 in
      bindR (at payload offset) (\<lambda>counter.
      bindR (ExtractShort payload (offset + 1)) (\<lambda>(eventgroupId, offset).
        case type of
          Subscribing \<Rightarrow>
            if ttl > 0
            then bindR (CreateSubscribeEventEntry serviceId instanceId majorVersion counter eventgroupId)
                   (\<lambda>e. Inr (e, offset))
            else bindR (CreateUnsubscribeEventEntry serviceId instanceId majorVersion counter eventgroupId)
                   (\<lambda>e. Inr (e, offset))
        | Acknowledging \<Rightarrow>
            bindR (mkEventgroupEntry type serviceId instanceId ttl majorVersion counter eventgroupId)
              (\<lambda>e. Inr (e, offset))
        | _ \<Rightarrow> Inl Out_of_range)))"

definition EntryDeserialize :: "bytes \<Rightarrow> nat \<Rightarrow> ((Entry \<times> u8 \<times> u8) \<times> nat) res" where
  "EntryDeserialize payload offset =
     bindR (at payload offset) (\<lambda>typeByte.
     let type = EntryType_cast typeByte; offset = offset + 1 + 2 in
     bindR (at payload offset) (\<lambda>optionsNumbers.
     let numberOfFirstOptions = drop_bit 4 optionsNumbers;
         numberOfSecondOptions = optionsNumbers AND 0x0f in
     bindR (ExtractShort payload (offset + 1)) (\<lambda>(serviceId, offset).
     bindR (ExtractShort payload offset) (\<lambda>(instanceId, offset).
     bindR (ExtractInteger payload offset) (\<lambda>(combinedMajorVersionTtl, offset).
     let majorVersion = ucast (drop_bit 24 combinedMajorVersionTtl);
         ttl = combinedMajorVersionTtl AND 0x00ffffff;
         withNumbers = (\<lambda>(e, offset). Inr ((e, numberOfFirstOptions, numberOfSecondOptions), offset))
     in case type of
          Finding \<Rightarrow>
            bindR (ServiceEntry_Deserialize payload offset type serviceId instanceId ttl majorVersion)
              withNumbers
        | Offering \<Rightarrow>
            bindR (ServiceEntry_Deserialize payload offset type serviceId instanceId ttl majorVersion)
              withNumbers
        | Subscribing \<Rightarrow>
            bindR (EventgroupEntry_Deserialize payload offset type serviceId instanceId ttl majorVersion)
              withNumbers
        | Acknowledging \<Rightarrow>
            bindR (EventgroupEntry_Deserialize payload offset type serviceId instanceId ttl majorVersion)
              withNumbers
        | _ \<Rightarrow> Inl Out_of_range)))))"

section \<open>Round trip of an entry\<close>

definition stripOptions :: "Entry \<Rightarrow> Entry" where
  "stripOptions e = mapBase (\<lambda>b. b\<lparr> mFirstOptions := [], mSecondOptions := [] \<rparr>) e"

definition wfBase :: "EntryBase \<Rightarrow> bool" where
  "wfBase b \<longleftrightarrow> length (mFirstOptions b) \<le> 15 \<and> length (mSecondOptions b) \<le> 15 \<and>
     mTTL b \<le> 0xffffff"

fun wfEntry :: "Entry \<Rightarrow> bool" where
  "wfEntry (ServiceEntry b minor) \<longleftrightarrow>
     wfBase b \<and> (eType b = Finding \<and> mTTL b \<noteq> 0 \<or> eType b = Offering)"
| "wfEntry (EventgroupEntry b counter eventgroupId) \<longleftrightarrow>
     wfBase b \<and> counter \<le> 0x0f \<and>
     (eType b = Subscribing \<and> mTTL b \<in> {0, 0xffffff} \<or> eType b = Acknowledging)"

definition optionNumbers :: "Entry \<Rightarrow> u8 \<times> u8" where
  "optionNumbers e =
     (word_of_nat (length (mFirstOptions (base e))), word_of_nat (length (mSecondOptions (base e))))"

lemma Entry_Payload_bytes:
  "fst (Entry_Payload (ServiceEntry b minor) i) =
     [EntryType_byte (eType b), i, i + word_of_nat (length (mFirstOptions b)),
      push_bit 4 (word_of_nat (length (mFirstOptions b))) OR word_of_nat (length (mSecondOptions b))]
     @ be16 (mServiceId b) @ be16 (mInstanceId b)
     @ be32 (push_bit 24 (ucast (mMajorVersion b)) OR mTTL b) @ be32 minor"
  "fst (Entry_Payload (EventgroupEntry b counter eg) i) =
     [EntryType_byte (eType b), i, i + word_of_nat (length (mFirstOptions b)),
      push_bit 4 (word_of_nat (length (mFirstOptions b))) OR word_of_nat (length (mSecondOptions b))]
     @ be16 (mServiceId b) @ be16 (mInstanceId b)
     @ be32 (push_bit 24 (ucast (mMajorVersion b)) OR mTTL b) @ [0, counter] @ be16 eg"
proof -
  have "ucast (drop_bit 8 (ucast counter :: u16)) = (0 :: u8)" "ucast (ucast counter :: u16) = counter"
    by (auto intro!: bit_word_eqI simp: bit_simps bit_u8_high)
  then show "fst (Entry_Payload (EventgroupEntry b counter eg) i) =
     [EntryType_byte (eType b), i, i + word_of_nat (length (mFirstOptions b)),
      push_bit 4 (word_of_nat (length (mFirstOptions b))) OR word_of_nat (length (mSecondOptions b))]
     @ be16 (mServiceId b) @ be16 (mInstanceId b)
     @ be32 (push_bit 24 (ucast (mMajorVersion b)) OR mTTL b) @ [0, counter] @ be16 eg"
    by (simp add: Entry_BasePayload_def Let_def Inject16_be16 Inject32_be32 be16_def)
qed (simp add: Entry_BasePayload_def Let_def Inject16_be16 Inject32_be32)

lemma Entry_Payload_index:
  "snd (Entry_Payload e i) =
     i + word_of_nat (length (mFirstOptions (base e))) + word_of_nat (length (mSecondOptions (base e)))"
  by (cases e) (simp_all add: Entry_BasePayload_def Let_def)

lemma length_Entry_Payload [simp]: "length (fst (Entry_Payload e i)) = 16"
  by (cases e) (simp_all only: Entry_Payload_bytes length_append length_be16 length_be32, simp_all)

lemmas entry_factories = CreateFindServiceEntry_def CreateOfferServiceEntry_def
  CreateStopOfferEntry_def CreateSubscribeEventEntry_def CreateUnsubscribeEventEntry_def
  CreateAcknowledgeEntry_def CreateNegativeAcknowledgeEntry_def mkEventgroupEntry_def

lemma strip_base:
  "b\<lparr> mFirstOptions := [], mSecondOptions := [] \<rparr> =
     mkEntryBase (eType b) (mServiceId b) (mInstanceId b) (mTTL b) (mMajorVersion b)"
  by (cases b) (simp add: mkEntryBase_def)

lemma wfBase_fields:
  assumes "wfBase b"
  shows "unat (word_of_nat (length (mFirstOptions b)) :: u8) < 16"
    and "unat (word_of_nat (length (mSecondOptions b)) :: u8) < 16"
    and "unat (mTTL b) < 2 ^ 24"
  using assms by (simp_all add: wfBase_def unat_of_nat word_le_nat_alt)

text \<open>What the deserializers read from the sixteen bytes of an entry.\<close>

definition entryWire :: "u8 \<Rightarrow> u8 \<Rightarrow> u8 \<Rightarrow> u8 \<Rightarrow> u16 \<Rightarrow> u16 \<Rightarrow> u32 \<Rightarrow> bytes \<Rightarrow> bytes" where
  "entryWire t i j nb sid iid vt rest =
     [t, i, j, nb] @ be16 sid @ be16 iid @ be32 vt @ rest"

lemma entryWire_reads:
  assumes "take (length (entryWire t i j nb sid iid vt rest)) (drop off v)
      = entryWire t i j nb sid iid vt rest"
  shows "n = off \<Longrightarrow> at v n = Inr t"
    and "n = off + 3 \<Longrightarrow> at v n = Inr nb"
    and "n = off + 4 \<Longrightarrow> ExtractShort v n = Inr (sid, off + 6)"
    and "n = off + 6 \<Longrightarrow> ExtractShort v n = Inr (iid, off + 8)"
    and "n = off + 8 \<Longrightarrow> ExtractInteger v n = Inr (vt, off + 12)"
    and "n = off + 12 \<Longrightarrow> take (length rest) (drop n v) = rest"
proof -
  have l: "length (entryWire t i j nb sid iid vt rest) = length rest + 12"
    by (simp add: entryWire_def)
  have s4: "n = off + 4 \<Longrightarrow> take 2 (drop n v) = be16 sid"
    and s6: "n = off + 6 \<Longrightarrow> take 2 (drop n v) = be16 iid"
    and s8: "n = off + 8 \<Longrightarrow> take 4 (drop n v) = be32 vt"
    using sub_take [OF assms, of 4 2 n] sub_take [OF assms, of 6 2 n] sub_take [OF assms, of 8 4 n]
    unfolding l by (simp_all add: entryWire_def be16_def be32_def)
  show "n = off \<Longrightarrow> at v n = Inr t"
    using reads [OF assms, of n] unfolding l by (simp add: entryWire_def)
  show "n = off + 3 \<Longrightarrow> at v n = Inr nb"
    using reads [OF assms, of n] unfolding l by (simp add: entryWire_def)
  show "n = off + 4 \<Longrightarrow> ExtractShort v n = Inr (sid, off + 6)"
    using short.dec_fixed [OF _ s4] by simp
  show "n = off + 6 \<Longrightarrow> ExtractShort v n = Inr (iid, off + 8)"
    using short.dec_fixed [OF _ s6] by simp
  show "n = off + 8 \<Longrightarrow> ExtractInteger v n = Inr (vt, off + 12)"
    using integer.dec_fixed [OF _ s8] by simp
  show "n = off + 12 \<Longrightarrow> take (length rest) (drop n v) = rest"
    using sub_take [OF assms, of 12 "length rest" n] unfolding l
    by (simp add: entryWire_def be16_def be32_def)
qed

lemma EntryDeserialize_enc:
  assumes "wfEntry e" "take (length (fst (Entry_Payload e i))) (drop off v) = fst (Entry_Payload e i)"
  shows "EntryDeserialize v off =
    Inr ((stripOptions e, optionNumbers e), off + length (fst (Entry_Payload e i)))"
proof (cases e)
  case (ServiceEntry b minor)
  note rd = entryWire_reads [OF assms(2) [unfolded ServiceEntry Entry_Payload_bytes(1)
        entryWire_def [symmetric]]]
  have mi: "n = off + 12 \<Longrightarrow> ExtractInteger v n = Inr (minor, off + 16)" for n
    using integer.dec_fixed [of n v minor] rd(6) [of n] by simp
  have "wfBase b" using assms(1) ServiceEntry by simp
  note jn = join_nibbles [OF wfBase_fields(1,2) [OF this]] join_version_ttl [OF wfBase_fields(3) [OF this]]
  show ?thesis
    using assms(1) unfolding ServiceEntry length_Entry_Payload wfEntry.simps
    by (elim conjE disjE; simp add: EntryDeserialize_def ServiceEntry_Deserialize_def rd(1-5) mi jn
        EntryType_cast_def entry_factories stripOptions_def strip_base optionNumbers_def word_gt_0
        Let_def del: drop_bit_or)
next
  case (EventgroupEntry b counter eg)
  note rd = entryWire_reads [OF assms(2) [unfolded EventgroupEntry Entry_Payload_bytes(2)
        entryWire_def [symmetric]]]
  have co: "n = off + 13 \<Longrightarrow> at v n = Inr counter" for n
    using reads [OF rd(6) [of "off + 12"], of n] by simp
  have "n = off + 14 \<Longrightarrow> take 2 (drop n v) = be16 eg" for n
    using sub_take [OF rd(6) [of "off + 12"], of 2 2 n] by (simp add: be16_def)
  then have ev: "n = off + 14 \<Longrightarrow> ExtractShort v n = Inr (eg, off + 16)" for n
    using short.dec_fixed [of n v eg] by simp
  have "wfBase b" using assms(1) EventgroupEntry by simp
  note jn = join_nibbles [OF wfBase_fields(1,2) [OF this]] join_version_ttl [OF wfBase_fields(3) [OF this]]
  have jn0: "ucast (drop_bit 24 (push_bit 24 (ucast m :: u32))) = m" for m :: u8
    using join_version_ttl(1) [of 0 m] by simp
  show ?thesis
    using assms(1) unfolding EventgroupEntry length_Entry_Payload wfEntry.simps
    by (elim conjE disjE; auto simp: EntryDeserialize_def EventgroupEntry_Deserialize_def rd(1-5) co ev jn jn0
        EntryType_cast_def entry_factories stripOptions_def strip_base optionNumbers_def word_gt_0
        Let_def simp del: drop_bit_or)
qed

interpretation entry: wire_format wfEntry "\<lambda>e. fst (Entry_Payload e i)"
    "\<lambda>e. (stripOptions e, optionNumbers e)" EntryDeserialize for i
  by unfold_locales (rule EntryDeserialize_enc)

section \<open>Which options an entry can hold\<close>

text \<open>The entries a program can build: a factory, then any accepted additions of options.\<close>

inductive builtEntry :: "Entry \<Rightarrow> bool" where
  find: "CreateFindServiceEntry sid ttl iid maj minor = Inr e \<Longrightarrow> builtEntry e"
| offer: "CreateOfferServiceEntry sid iid maj minor ttl = Inr e \<Longrightarrow> builtEntry e"
| stopOffer: "builtEntry (CreateStopOfferEntry sid iid maj minor)"
| subscribe: "CreateSubscribeEventEntry sid iid maj counter eg = Inr e \<Longrightarrow> builtEntry e"
| unsubscribe: "CreateUnsubscribeEventEntry sid iid maj counter eg = Inr e \<Longrightarrow> builtEntry e"
| acknowledge: "CreateAcknowledgeEntry b counter eg = Inr e \<Longrightarrow> builtEntry e"
| nack: "CreateNegativeAcknowledgeEntry b counter eg = Inr e \<Longrightarrow> builtEntry e"
| first: "\<lbrakk> builtEntry e; AddFirstOption e opt = Inr e' \<rbrakk> \<Longrightarrow> builtEntry e'"
| second: "\<lbrakk> builtEntry e; AddSecondOption e opt = Inr e' \<rbrakk> \<Longrightarrow> builtEntry e'"

definition entryOptions :: "EntryBase \<Rightarrow> Opt list" where
  "entryOptions b = mFirstOptions b @ mSecondOptions b"

definition atMostOne :: "OptionType \<Rightarrow> EntryBase \<Rightarrow> bool" where
  "atMostOne t b \<longleftrightarrow> length (filter (\<lambda>opt. Option_Type opt = t) (entryOptions b)) \<le> 1"

definition hasNo :: "OptionType \<Rightarrow> EntryBase \<Rightarrow> bool" where
  "hasNo t b \<longleftrightarrow> t \<notin> Option_Type ` set (entryOptions b)"

fun optionsAllowed :: "Entry \<Rightarrow> bool" where
  "optionsAllowed (ServiceEntry b minor) \<longleftrightarrow>
     atMostOne LoadBalancing b \<and> hasNo IPv4SdEndpoint b \<and> hasNo IPv4Multicast b"
| "optionsAllowed (EventgroupEntry b counter eg) \<longleftrightarrow>
     counter \<le> 0x0f \<and> hasNo LoadBalancing b \<and> hasNo IPv4SdEndpoint b \<and>
     atMostOne IPv4Multicast b \<and> (hasNo IPv4Endpoint b \<or> eType b = Subscribing) \<and>
     (hasNo IPv4Multicast b \<or> isAcknowledge b)"

lemma ContainsOption_hasNo: "ContainsOption b t \<longleftrightarrow> \<not> hasNo t b"
  by (auto simp: ContainsOption_def hasNo_def entryOptions_def list_ex_iff)

lemma hasNo_new [simp]: "hasNo t (mkEntryBase et sid iid ttl maj)"
  by (simp add: hasNo_def mkEntryBase_def entryOptions_def)

lemma atMostOne_new [simp]: "atMostOne t (mkEntryBase et sid iid ttl maj)"
  by (simp add: atMostOne_def mkEntryBase_def entryOptions_def)

lemma hasNo_add [simp]:
  "hasNo t (b\<lparr> mFirstOptions := mFirstOptions b @ [opt] \<rparr>) \<longleftrightarrow> hasNo t b \<and> Option_Type opt \<noteq> t"
  "hasNo t (b\<lparr> mSecondOptions := mSecondOptions b @ [opt] \<rparr>) \<longleftrightarrow> hasNo t b \<and> Option_Type opt \<noteq> t"
  by (auto simp: hasNo_def entryOptions_def)

lemma hasNo_filter: "hasNo t b \<longleftrightarrow> filter (\<lambda>opt. Option_Type opt = t) (entryOptions b) = []"
  by (auto simp: hasNo_def filter_empty_conv)

lemma atMostOne_add [simp]:
  "atMostOne t (b\<lparr> mFirstOptions := mFirstOptions b @ [opt] \<rparr>) \<longleftrightarrow>
     (if Option_Type opt = t then hasNo t b else atMostOne t b)"
  "atMostOne t (b\<lparr> mSecondOptions := mSecondOptions b @ [opt] \<rparr>) \<longleftrightarrow>
     (if Option_Type opt = t then hasNo t b else atMostOne t b)"
  by (auto simp: hasNo_filter atMostOne_def entryOptions_def)

lemma isAcknowledge_add [simp]:
  "isAcknowledge (b\<lparr> mFirstOptions := os \<rparr>) = isAcknowledge b"
  "isAcknowledge (b\<lparr> mSecondOptions := os \<rparr>) = isAcknowledge b"
  by (simp_all add: isAcknowledge_def)

text \<open>Both adders preserve the discipline, for the same reason.\<close>

lemma optionsAllowed_add:
  assumes "optionsAllowed e" "ValidateOption e opt"
  shows "optionsAllowed (mapBase (\<lambda>b. b\<lparr> mFirstOptions := mFirstOptions b @ [opt] \<rparr>) e)"
    and "optionsAllowed (mapBase (\<lambda>b. b\<lparr> mSecondOptions := mSecondOptions b @ [opt] \<rparr>) e)"
  using assms
  by (cases e; auto simp: Entry_ValidateOption_def ContainsOption_hasNo
      split: OptionType.splits if_splits)+

lemma Create_optionsAllowed:
  "CreateFindServiceEntry sid ttl iid maj minor = Inr e \<Longrightarrow> optionsAllowed e"
  "CreateOfferServiceEntry sid iid maj minor ttl = Inr e \<Longrightarrow> optionsAllowed e"
  "optionsAllowed (CreateStopOfferEntry sid iid maj minor)"
  "CreateSubscribeEventEntry sid iid maj counter eg = Inr e \<Longrightarrow> optionsAllowed e"
  "CreateUnsubscribeEventEntry sid iid maj counter eg = Inr e \<Longrightarrow> optionsAllowed e"
  "CreateAcknowledgeEntry b counter eg = Inr e \<Longrightarrow> optionsAllowed e"
  "CreateNegativeAcknowledgeEntry b counter eg = Inr e \<Longrightarrow> optionsAllowed e"
  by (auto simp: entry_factories split: if_splits)

section \<open>Properties\<close>

text \<open>An entry built with a time to live that fits its 24-bit field and at most fifteen options
  in each run is read back, without its options but with their exact numbers, from its sixteen
  bytes wherever they stand and whatever the option index is.\<close>

lemma entry_roundtrip:
  assumes "wfEntry e"
  shows "EntryDeserialize (pre @ fst (Entry_Payload e i) @ suf) (length pre) =
    Inr ((stripOptions e, optionNumbers e), length pre + 16)"
  using entry.dec_view_at [OF assms, of pre i suf] by simp

text \<open>In every entry a program can build, service entries hold at most one load-balancing option
  and no multicast or service-discovery endpoint, eventgroup entries hold endpoints only when
  subscribing and at most one multicast endpoint only when acknowledging, and counters fit four
  bits.\<close>

lemma built_entry_options:
  assumes "builtEntry e"
  shows "optionsAllowed e"
  using assms
proof (induction rule: builtEntry.induct)
  case (first e opt e') then show ?case
    by (auto simp: AddFirstOption_def intro: optionsAllowed_add split: if_splits)
next
  case (second e opt e') then show ?case
    by (auto simp: AddSecondOption_def intro: optionsAllowed_add split: if_splits)
qed (auto intro: Create_optionsAllowed)

end
