(* ===== verification/SomeIp.thy ===== *)
theory SomeIp
  imports Payload
begin

text \<open>
  \<open>ara/com/someip/someip_message.{h,cpp}\<close> and \<open>ara/com/someip/rpc/someip_rpc_message.{h,cpp}\<close>: the
  SOME/IP header all messages share and the RPC message. Derived message classes extend the record
  of the base class; the virtual \<open>Length\<close> is an argument of the base class payload.
\<close>

section \<open>Message types and return codes\<close>

datatype SomeIpMessageType = Request | RequestNoReturn | Notification | Response | Error
  | TpRequest | TpRequestNoReturn | TpNotification | TpResponse | TpError | MessageTypeOther u8

fun MessageType_byte :: "SomeIpMessageType \<Rightarrow> u8" where
  "MessageType_byte Request = 0x00"
| "MessageType_byte RequestNoReturn = 0x01"
| "MessageType_byte Notification = 0x02"
| "MessageType_byte Response = 0x80"
| "MessageType_byte Error = 0x81"
| "MessageType_byte TpRequest = 0x20"
| "MessageType_byte TpRequestNoReturn = 0x21"
| "MessageType_byte TpNotification = 0x22"
| "MessageType_byte TpResponse = 0xa0"
| "MessageType_byte TpError = 0xa1"
| "MessageType_byte (MessageTypeOther b) = b"

definition MessageType_cast :: "u8 \<Rightarrow> SomeIpMessageType" where
  "MessageType_cast b =
     (if b = 0x00 then Request else if b = 0x01 then RequestNoReturn
      else if b = 0x02 then Notification else if b = 0x80 then Response
      else if b = 0x81 then Error else if b = 0x20 then TpRequest
      else if b = 0x21 then TpRequestNoReturn else if b = 0x22 then TpNotification
      else if b = 0xa0 then TpResponse else if b = 0xa1 then TpError
      else MessageTypeOther b)"

datatype SomeIpReturnCode = eOK | eNotOk | eUnknownService | eUnknownMethod | eNotReady
  | eNotReachable | eTimeout | eWrongProtocolVersion | eWrongInterfaceVersion | eMalformedMessage
  | eWrongMessageType | eE2eRepeated | eE2eWrongSequnece | eE2e | eE2eNotAvailable | eE2eNoNewData
  | ReturnCodeOther u8

fun ReturnCode_byte :: "SomeIpReturnCode \<Rightarrow> u8" where
  "ReturnCode_byte eOK = 0"
| "ReturnCode_byte eNotOk = 1"
| "ReturnCode_byte eUnknownService = 2"
| "ReturnCode_byte eUnknownMethod = 3"
| "ReturnCode_byte eNotReady = 4"
| "ReturnCode_byte eNotReachable = 5"
| "ReturnCode_byte eTimeout = 6"
| "ReturnCode_byte eWrongProtocolVersion = 7"
| "ReturnCode_byte eWrongInterfaceVersion = 8"
| "ReturnCode_byte eMalformedMessage = 9"
| "ReturnCode_byte eWrongMessageType = 10"
| "ReturnCode_byte eE2eRepeated = 11"
| "ReturnCode_byte eE2eWrongSequnece = 12"
| "ReturnCode_byte eE2e = 13"
| "ReturnCode_byte eE2eNotAvailable = 14"
| "ReturnCode_byte eE2eNoNewData = 15"
| "ReturnCode_byte (ReturnCodeOther b) = b"

definition ReturnCode_cast :: "u8 \<Rightarrow> SomeIpReturnCode" where
  "ReturnCode_cast b =
     (if b < 16
      then [eOK, eNotOk, eUnknownService, eUnknownMethod, eNotReady, eNotReachable, eTimeout,
            eWrongProtocolVersion, eWrongInterfaceVersion, eMalformedMessage, eWrongMessageType,
            eE2eRepeated, eE2eWrongSequnece, eE2e, eE2eNotAvailable, eE2eNoNewData] ! unat b
      else ReturnCodeOther b)"

section \<open>The base message\<close>

record SomeIpMessage =
  mMessageId :: u32
  mClientId :: u16
  mSessionId :: u16
  mProtocolVersion :: u8
  mInterfaceVersion :: u8
  mMessageType :: SomeIpMessageType
  mReturnCode :: SomeIpReturnCode

definition mkSomeIpMessage ::
    "u32 \<Rightarrow> u16 \<Rightarrow> u16 \<Rightarrow> u8 \<Rightarrow> u8 \<Rightarrow> SomeIpMessageType \<Rightarrow> SomeIpReturnCode \<Rightarrow> SomeIpMessage" where
  "mkSomeIpMessage messageId clientId sessionId protocolVersion interfaceVersion messageType returnCode =
     \<lparr> mMessageId = messageId, mClientId = clientId, mSessionId = sessionId,
       mProtocolVersion = protocolVersion, mInterfaceVersion = interfaceVersion,
       mMessageType = messageType, mReturnCode = returnCode \<rparr>"

text \<open>The constructor of a request or notification, then the one of a response.\<close>

definition newSomeIpRequest ::
    "u32 \<Rightarrow> u16 \<Rightarrow> u8 \<Rightarrow> u8 \<Rightarrow> SomeIpMessageType \<Rightarrow> u16 \<Rightarrow> SomeIpMessage res" where
  "newSomeIpRequest messageId clientId protocolVersion interfaceVersion messageType sessionId =
     (if messageType \<noteq> Request \<and> messageType \<noteq> Notification then Inl Invalid_argument
      else Inr (mkSomeIpMessage messageId clientId sessionId protocolVersion interfaceVersion
                  messageType eOK))"

definition newSomeIpResponse ::
    "u32 \<Rightarrow> u16 \<Rightarrow> u8 \<Rightarrow> u8 \<Rightarrow> SomeIpMessageType \<Rightarrow> SomeIpReturnCode \<Rightarrow> u16 \<Rightarrow> SomeIpMessage res" where
  "newSomeIpResponse messageId clientId protocolVersion interfaceVersion messageType returnCode sessionId =
     (if messageType = Request \<or> messageType = Notification then Inl Invalid_argument
      else if messageType = Error \<and> returnCode = eOK then Inl Invalid_argument
      else Inr (mkSomeIpMessage messageId clientId sessionId protocolVersion interfaceVersion
                  messageType returnCode))"

definition SomeIpMessage_Payload :: "'a SomeIpMessage_scheme \<Rightarrow> u32 \<Rightarrow> bytes" where
  "SomeIpMessage_Payload m len =
     (let result = Inject32 [] (mMessageId m);
          result = Inject32 result len;
          result = Inject16 result (mClientId m);
          result = Inject16 result (mSessionId m);
          result = result @ [mProtocolVersion m];
          result = result @ [mInterfaceVersion m];
          result = result @ [MessageType_byte (mMessageType m)]
      in result @ [ReturnCode_byte (mReturnCode m)])"

definition SomeIpMessage_Deserialize ::
    "'a SomeIpMessage_scheme \<Rightarrow> bytes \<Rightarrow> 'a SomeIpMessage_scheme res" where
  "SomeIpMessage_Deserialize m payload =
     bindR (ExtractInteger payload 0) (\<lambda>(messageId, offset).
     let offset = offset + 4 in
     bindR (ExtractShort payload offset) (\<lambda>(clientId, offset).
     bindR (ExtractShort payload offset) (\<lambda>(sessionId, offset).
     bindR (subscript payload offset) (\<lambda>protocolVersion.
     bindR (subscript payload (offset + 1)) (\<lambda>interfaceVersion.
     bindR (subscript payload (offset + 2)) (\<lambda>messageTypeByte.
     bindR (subscript payload (offset + 3)) (\<lambda>returnCodeByte.
       Inr (m\<lparr> mMessageId := messageId, mClientId := clientId, mSessionId := sessionId,
               mProtocolVersion := protocolVersion, mInterfaceVersion := interfaceVersion,
               mMessageType := MessageType_cast messageTypeByte,
               mReturnCode := ReturnCode_cast returnCodeByte \<rparr>))))))))"

definition IncrementSessionId :: "'a SomeIpMessage_scheme \<Rightarrow> bool \<times> 'a SomeIpMessage_scheme" where
  "IncrementSessionId m =
     (if mSessionId m = 0xffff then (True, m\<lparr> mSessionId := 1 \<rparr>)
      else (False, m\<lparr> mSessionId := mSessionId m + 1 \<rparr>))"

definition wfHeader :: "'a SomeIpMessage_scheme \<Rightarrow> bool" where
  "wfHeader m \<longleftrightarrow> MessageType_cast (MessageType_byte (mMessageType m)) = mMessageType m \<and>
     ReturnCode_cast (ReturnCode_byte (mReturnCode m)) = mReturnCode m"

lemma length_SomeIpMessage_Payload [simp]: "length (SomeIpMessage_Payload m len) = 16"
  by (simp add: SomeIpMessage_Payload_def Let_def Inject16_be16 Inject32_be32)

lemma SomeIpMessage_Payload_bytes:
  "SomeIpMessage_Payload m len =
     be32 (mMessageId m) @ be32 len @ be16 (mClientId m) @ be16 (mSessionId m) @
     [mProtocolVersion m, mInterfaceVersion m, MessageType_byte (mMessageType m),
      ReturnCode_byte (mReturnCode m)]"
  by (simp add: SomeIpMessage_Payload_def Let_def Inject16_be16 Inject32_be32)

lemma SomeIpMessage_Deserialize_Payload:
  assumes "wfHeader m"
  shows "SomeIpMessage_Deserialize m0 (SomeIpMessage_Payload m len @ rest) =
    Inr (m0\<lparr> mMessageId := mMessageId m, mClientId := mClientId m, mSessionId := mSessionId m,
      mProtocolVersion := mProtocolVersion m, mInterfaceVersion := mInterfaceVersion m,
      mMessageType := mMessageType m, mReturnCode := mReturnCode m \<rparr>)"
  using assms
  by (simp add: SomeIpMessage_Deserialize_def SomeIpMessage_Payload_bytes ExtractInteger_join
      ExtractShort_join be32_def be16_def wfHeader_def at_def subscript_def)

lemma MessageLength_Payload:
  "ExtractInteger (SomeIpMessage_Payload m len @ rest) 4 = Inr (len, 8)"
  by (simp add: SomeIpMessage_Payload_bytes ExtractInteger_join be32_def be16_def at_def)

text \<open>A header that ends early: the first twelve bytes are checked, the last four are not.\<close>

lemma SomeIpMessage_Deserialize_short:
  "length payload < 12 \<Longrightarrow> SomeIpMessage_Deserialize m payload = Inl Out_of_range"
  "\<lbrakk> 12 \<le> length payload; length payload < 16 \<rbrakk>
     \<Longrightarrow> SomeIpMessage_Deserialize m payload = Inl Undefined"
  by (auto simp: SomeIpMessage_Deserialize_def ExtractInteger_join ExtractShort_join at_def
      subscript_def)

lemma SomeIpMessage_Deserialize_total:
  "16 \<le> length payload \<Longrightarrow> \<exists>m'. SomeIpMessage_Deserialize m payload = Inr m'"
  by (auto simp: SomeIpMessage_Deserialize_def ExtractInteger_total ExtractShort_total)

text \<open>The session identifier counts from 1 to 65535 and never becomes zero.\<close>

lemma IncrementSessionId_nonzero: "mSessionId (snd (IncrementSessionId m)) \<noteq> 0"
proof -
  have "w + 1 = 0 \<Longrightarrow> w = 0xffff" for w :: u16
    using eq_neg_iff_add_eq_0 [of w 1] by simp
  then show ?thesis by (auto simp: IncrementSessionId_def)
qed

section \<open>The RPC message\<close>

record SomeIpRpcMessage = SomeIpMessage +
  mRpcPayload :: bytes

definition withRpcPayload :: "SomeIpMessage \<Rightarrow> bytes \<Rightarrow> SomeIpRpcMessage" where
  "withRpcPayload m rpcPayload = SomeIpMessage.extend m \<lparr> mRpcPayload = rpcPayload \<rparr>"

definition emptyRpcMessage :: "SomeIpRpcMessage res" where
  "emptyRpcMessage =
     bindR (newSomeIpRequest 0 0 1 1 Request 1) (\<lambda>m. Inr (withRpcPayload m []))"

definition newRpcRequest :: "u32 \<Rightarrow> u16 \<Rightarrow> u16 \<Rightarrow> u8 \<Rightarrow> u8 \<Rightarrow> bytes \<Rightarrow> SomeIpRpcMessage res" where
  "newRpcRequest messageId clientId sessionId protocolVersion interfaceVersion rpcPayload =
     bindR (newSomeIpRequest messageId clientId protocolVersion interfaceVersion Request sessionId)
       (\<lambda>m. Inr (withRpcPayload m rpcPayload))"

definition newRpcResponse ::
    "u32 \<Rightarrow> u16 \<Rightarrow> u16 \<Rightarrow> u8 \<Rightarrow> u8 \<Rightarrow> SomeIpReturnCode \<Rightarrow> bytes \<Rightarrow> SomeIpRpcMessage res" where
  "newRpcResponse messageId clientId sessionId protocolVersion interfaceVersion returnCode rpcPayload =
     bindR (newSomeIpResponse messageId clientId protocolVersion interfaceVersion
              (if returnCode = eOK then Response else Error) returnCode sessionId)
       (\<lambda>m. Inr (withRpcPayload m rpcPayload))"

definition Rpc_Length :: "SomeIpRpcMessage \<Rightarrow> u32" where
  "Rpc_Length m = word_of_nat (8 + length (mRpcPayload m))"

definition Rpc_Payload :: "SomeIpRpcMessage \<Rightarrow> bytes" where
  "Rpc_Payload m = SomeIpMessage_Payload m (Rpc_Length m) @ mRpcPayload m"

text \<open>
  \<open>Deserialize\<close> copies the iterator range from 16 to 16 + length - 8; a range that ends before it
  begins or beyond the buffer is undefined behaviour.
\<close>

definition Rpc_Deserialize :: "bytes \<Rightarrow> SomeIpRpcMessage res" where
  "Rpc_Deserialize payload =
     bindR (ExtractInteger payload 4) (\<lambda>(lengthInt, lengthOffset).
     let len = unat lengthInt in
     bindR emptyRpcMessage (\<lambda>result.
     bindR (SomeIpMessage_Deserialize result payload) (\<lambda>result.
       if lengthOffset \<le> len \<and> 16 + len - lengthOffset \<le> length payload
       then Inr (result\<lparr> mRpcPayload := take (len - lengthOffset) (drop 16 payload) \<rparr>)
       else Inl Undefined)))"

lemma emptyRpcMessage_ok:
  "emptyRpcMessage = Inr (withRpcPayload (mkSomeIpMessage 0 0 1 1 1 Request eOK) [])"
  by (simp add: emptyRpcMessage_def newSomeIpRequest_def)

lemma newRpcRequest_ok:
  "newRpcRequest i c s p v xs =
     Inr (withRpcPayload (mkSomeIpMessage i c s p v Request eOK) xs)"
  by (simp add: newRpcRequest_def newSomeIpRequest_def)

lemma newRpcResponse_ok:
  "newRpcResponse i c s p v rc xs =
     Inr (withRpcPayload (mkSomeIpMessage i c s p v (if rc = eOK then Response else Error) rc) xs)"
  by (simp add: newRpcResponse_def newSomeIpResponse_def)

lemmas rpc_fields = withRpcPayload_def mkSomeIpMessage_def SomeIpMessage.defs

text \<open>The RPC messages whose length field can be exact.\<close>

definition wfRpc :: "SomeIpRpcMessage \<Rightarrow> bool" where
  "wfRpc m \<longleftrightarrow> wfHeader m \<and> 8 + length (mRpcPayload m) < 2 ^ 32"

lemma length_Rpc_Payload: "length (Rpc_Payload m) = 16 + length (mRpcPayload m)"
  by (simp add: Rpc_Payload_def)

lemma unat_Rpc_Length: "wfRpc m \<Longrightarrow> unat (Rpc_Length m) = 8 + length (mRpcPayload m)"
  unfolding Rpc_Length_def wfRpc_def unat_of_nat by (simp add: take_bit_nat_eq_self)

lemma Rpc_Deserialize_Payload:
  assumes "wfRpc m"
  shows "Rpc_Deserialize (Rpc_Payload m @ rest) = Inr m"
proof -
  have "wfHeader m" using assms by (simp add: wfRpc_def)
  note hd = SomeIpMessage_Deserialize_Payload [OF this, of _ "Rpc_Length m" "mRpcPayload m @ rest"]
    MessageLength_Payload [of m "Rpc_Length m" "mRpcPayload m @ rest"]
  show ?thesis
    unfolding Rpc_Deserialize_def Rpc_Payload_def append_assoc
    by (simp add: hd emptyRpcMessage_def newSomeIpRequest_def unat_Rpc_Length [OF assms] rpc_fields
        Let_def)
qed

interpretation rpc: message_format wfRpc Rpc_Payload Rpc_Deserialize
  by unfold_locales (rule Rpc_Deserialize_Payload)

text \<open>What arrives and is accepted was announced: header and announced length fit the buffer.\<close>

lemma Rpc_Deserialize_Inr:
  assumes "Rpc_Deserialize payload = Inr m"
  shows "16 \<le> length payload \<and> 16 + length (mRpcPayload m) \<le> length payload"
proof -
  have "12 \<le> length payload"
    using assms SomeIpMessage_Deserialize_short(1) [of payload]
    by (auto simp: Rpc_Deserialize_def bindR_eq_Inr Let_def split: if_splits)
  moreover have "16 \<le> length payload"
    using assms SomeIpMessage_Deserialize_short [of payload]
    by (auto simp: Rpc_Deserialize_def bindR_eq_Inr Let_def not_le split: if_splits)
  moreover have "16 + length (mRpcPayload m) \<le> length payload"
    using assms by (auto simp: Rpc_Deserialize_def bindR_eq_Inr Let_def split: if_splits)
  ultimately show ?thesis by simp
qed

lemma Rpc_Deserialize_length:
  assumes "16 \<le> length payload"
  shows "Rpc_Deserialize payload = Inl Undefined \<longleftrightarrow>
      unat (join32 (payload ! 4) (payload ! 5) (payload ! 6) (payload ! 7)) < 8 \<or>
      length payload < 8 + unat (join32 (payload ! 4) (payload ! 5) (payload ! 6) (payload ! 7))"
proof -
  obtain r where "SomeIpMessage_Deserialize
      (withRpcPayload (mkSomeIpMessage 0 0 1 1 1 Request eOK) []) payload = Inr r"
    using SomeIpMessage_Deserialize_total [OF assms] by blast
  then show ?thesis
    using assms
    by (auto simp: Rpc_Deserialize_def ExtractInteger_total emptyRpcMessage_ok Let_def)
qed

section \<open>Properties\<close>

text \<open>C32: an RPC message with enumerated type and return code whose payload fits the length field is
  read back unchanged, also when more bytes follow it in the buffer.\<close>

theorem rpc_message_roundtrip:
  assumes "wfRpc m"
  shows "Rpc_Deserialize (Rpc_Payload m @ rest) = Inr m"
  using assms by (rule rpc.parse_enc)

theorem rpc_message_roundtrip_witness:
  "Rpc_Deserialize (Rpc_Payload (withRpcPayload (mkSomeIpMessage 0x10001 2 3 1 1 Error eTimeout) [5, 6]) @ [1]) =
     Inr (withRpcPayload (mkSomeIpMessage 0x10001 2 3 1 1 Error eTimeout) [5, 6])"
  by (rule rpc_message_roundtrip)
    (simp add: wfRpc_def wfHeader_def rpc_fields MessageType_cast_def ReturnCode_cast_def)

text \<open>On a buffer that holds at least a header, RPC deserialization is undefined behaviour exactly
  when the length field is below eight or announces more bytes than the buffer has; no exception
  reports it.\<close>

lemma rpc_message_length_unchecked:
  "Rpc_Deserialize (h @ be32 len @ t) = Inl Undefined \<longleftrightarrow>
     unat len < 8 \<or> length t < unat len" if "length h = 4" "8 \<le> length t"
proof -
  have nth: "(h @ be32 len @ t) ! (4 + k) = be32 len ! k" if "k < 4" for k
    using that \<open>length h = 4\<close> by (simp add: nth_append)
  have "join32 ((h @ be32 len @ t) ! 4) ((h @ be32 len @ t) ! 5) ((h @ be32 len @ t) ! 6)
      ((h @ be32 len @ t) ! 7) = len"
    using nth [of 0] nth [of 1] nth [of 2] nth [of 3] by (simp add: be32_def)
  with Rpc_Deserialize_length [of "h @ be32 len @ t"] that show ?thesis by simp
qed

end
