(* ===== verification/SdMessage.thy ===== *)
theory SdMessage
  imports SdEntry SomeIp
begin

text \<open>
  \<open>ara/com/someip/sd/someip_sd_message.{h,cpp}\<close>: the service-discovery message, its serialization
  (entries first, then the options of all entries in order) and the parsing loop that hands each
  entry its options back.
\<close>

section \<open>The message\<close>

record SomeIpSdMessage = SomeIpMessage +
  mRebooted :: bool
  mEntries :: "Entry list"

definition cRebootedFlag :: u32 where "cRebootedFlag = 0xc0000000"
definition cNotRebootedFlag :: u32 where "cNotRebootedFlag = 0x40000000"

definition newSdMessage :: "SomeIpSdMessage res" where
  "newSdMessage =
     bindR (newSomeIpRequest 0xffff8100 0 0x01 0x01 Notification 1)
       (\<lambda>m. Inr (SomeIpMessage.extend m \<lparr> mRebooted = True, mEntries = [] \<rparr>))"

definition AddEntry :: "SomeIpSdMessage \<Rightarrow> Entry \<Rightarrow> SomeIpSdMessage" where
  "AddEntry m e = m\<lparr> mEntries := mEntries m @ [e] \<rparr>"

definition getEntriesLength :: "SomeIpSdMessage \<Rightarrow> u32" where
  "getEntriesLength m = word_of_nat (length (mEntries m)) * 16"

definition addOptionLength :: "u32 \<Rightarrow> Opt \<Rightarrow> u32" where
  "addOptionLength result opt = result + (3 + ucast (Option_Length opt))"

definition getOptionsLength :: "SomeIpSdMessage \<Rightarrow> u32" where
  "getOptionsLength m =
     foldl (\<lambda>result e. foldl addOptionLength
                        (foldl addOptionLength result (mFirstOptions (base e)))
                        (mSecondOptions (base e)))
       0 (mEntries m)"

definition Sd_Length :: "SomeIpSdMessage \<Rightarrow> u32" where
  "Sd_Length m = 8 + 4 + (4 + getEntriesLength m) + (4 + getOptionsLength m)"

definition Sd_SetSessionId :: "SomeIpSdMessage \<Rightarrow> u16 \<Rightarrow> SomeIpSdMessage res" where
  "Sd_SetSessionId m sessionId =
     (if sessionId = 0 then Inl Invalid_argument else Inr (m\<lparr> mSessionId := sessionId \<rparr>))"

definition Sd_IncrementSessionId :: "SomeIpSdMessage \<Rightarrow> bool \<times> SomeIpSdMessage" where
  "Sd_IncrementSessionId m =
     (case IncrementSessionId m of (wrapped, m) \<Rightarrow>
        (wrapped, m\<lparr> mRebooted := mRebooted m \<and> \<not> wrapped \<rparr>))"

section \<open>Serialization\<close>

definition putOption :: "Opt \<Rightarrow> bytes \<times> u8 \<Rightarrow> bytes \<times> u8" where
  "putOption opt st =
     (case st of (optionsPayload, lastOptionIndex) \<Rightarrow>
        (Concat optionsPayload (Option_Payload opt), lastOptionIndex + 1))"

definition putEntry :: "Entry \<Rightarrow> bytes \<times> bytes \<times> u8 \<Rightarrow> bytes \<times> bytes \<times> u8" where
  "putEntry e st =
     (case st of (entriesPayload, optionsPayload, lastOptionIndex) \<Rightarrow>
      case Entry_Payload e lastOptionIndex of (entryPayload, lastOptionIndex) \<Rightarrow>
        (Concat entriesPayload entryPayload,
         fold putOption (mSecondOptions (base e))
           (fold putOption (mFirstOptions (base e)) (optionsPayload, lastOptionIndex))))"

definition Sd_Payload :: "SomeIpSdMessage \<Rightarrow> bytes" where
  "Sd_Payload m =
     (let result = SomeIpMessage_Payload m (Sd_Length m);
          result = (if mRebooted m then Inject32 result cRebootedFlag
                    else Inject32 result cNotRebootedFlag);
          (entriesPayload, optionsPayload, lastOptionIndex) = fold putEntry (mEntries m) ([], [], 0);
          result = Inject32 result (getEntriesLength m);
          result = Concat result entriesPayload;
          result = Inject32 result (getOptionsLength m)
      in Concat result optionsPayload)"

section \<open>Deserialization\<close>

fun readOptions ::
    "(Entry \<Rightarrow> Opt \<Rightarrow> Entry res) \<Rightarrow> bytes \<Rightarrow> nat \<Rightarrow> Entry \<Rightarrow> nat \<Rightarrow> (Entry \<times> nat) res" where
  "readOptions add payload 0 e optionOffset = Inr (e, optionOffset)"
| "readOptions add payload (Suc n) e optionOffset =
     bindR (OptionDeserialize payload optionOffset) (\<lambda>(opt, optionOffset).
     bindR (add e opt) (\<lambda>e. readOptions add payload n e optionOffset))"

lemma EntryDeserialize_offset:
  "EntryDeserialize v off = Inr (x, off') \<Longrightarrow> off < off' \<and> off' \<le> length v"
  by (auto simp: EntryDeserialize_def ServiceEntry_Deserialize_def EventgroupEntry_Deserialize_def
      ExtractShort_def ExtractInteger_def at_def bindR_eq_Inr Let_def
      split: if_splits EntryType.splits)

function readEntries ::
    "bytes \<Rightarrow> nat \<Rightarrow> nat \<Rightarrow> nat \<Rightarrow> SomeIpSdMessage \<Rightarrow> SomeIpSdMessage res" where
  "readEntries payload entryOffset entryOffsetMax optionOffset result =
     (if entryOffset < entryOffsetMax
      then (case EntryDeserialize payload entryOffset of
              Inl x \<Rightarrow> Inl x
            | Inr ((e, numberOfFirstOptions, numberOfSecondOptions), entryOffset') \<Rightarrow>
      (case readOptions AddFirstOption payload (unat numberOfFirstOptions) e optionOffset of
         Inl x \<Rightarrow> Inl x
       | Inr (e, optionOffset) \<Rightarrow>
      (case readOptions AddSecondOption payload (unat numberOfSecondOptions) e optionOffset of
         Inl x \<Rightarrow> Inl x
       | Inr (e, optionOffset) \<Rightarrow>
           readEntries payload entryOffset' entryOffsetMax optionOffset (AddEntry result e))))
      else Inr result)"
  by pat_completeness auto
termination
  by (relation "measure (\<lambda>(payload, entryOffset, _). length payload - entryOffset)")
    (auto dest: EntryDeserialize_offset intro: diff_less_mono2 less_le_trans)

declare readEntries.simps [simp del]

definition Sd_Deserialize :: "bytes \<Rightarrow> SomeIpSdMessage res" where
  "Sd_Deserialize payload =
     bindR newSdMessage (\<lambda>result.
     bindR (SomeIpMessage_Deserialize result payload) (\<lambda>result.
     bindR (ExtractInteger payload 16) (\<lambda>(rebootFlag, entryOffset).
     bindR (if rebootFlag = cRebootedFlag then Inr (result\<lparr> mRebooted := True \<rparr>)
            else if rebootFlag = cNotRebootedFlag then Inr (result\<lparr> mRebooted := False \<rparr>)
            else Inl Out_of_range) (\<lambda>result.
     bindR (ExtractInteger payload entryOffset) (\<lambda>(entriesLength, entryOffset).
     let entryOffsetMax = (entryOffset + unat entriesLength) mod 2 ^ 32;
         optionOffset = entryOffset + unat entriesLength + 4
     in readEntries payload entryOffset entryOffsetMax optionOffset result)))))"

section \<open>What serialization puts where\<close>

definition optionsOf :: "Entry \<Rightarrow> Opt list" where
  "optionsOf e = mFirstOptions (base e) @ mSecondOptions (base e)"

definition optionBytes :: "Opt list \<Rightarrow> bytes" where
  "optionBytes os = concat (map Option_Payload os)"

text \<open>The option index after an entry: \<open>BasePayload\<close> advances it, and so do the option loops.\<close>

definition nextIndex :: "Entry \<Rightarrow> u8 \<Rightarrow> u8" where
  "nextIndex e i = snd (Entry_Payload e i) + word_of_nat (length (optionsOf e))"

primrec entryBytes :: "Entry list \<Rightarrow> u8 \<Rightarrow> bytes" where
  "entryBytes [] i = []"
| "entryBytes (e # es) i = fst (Entry_Payload e i) @ entryBytes es (nextIndex e i)"

lemma optionBytes_simps [simp]:
  "optionBytes [] = []"
  "optionBytes (opt # os) = Option_Payload opt @ optionBytes os"
  "optionBytes (os @ os') = optionBytes os @ optionBytes os'"
  by (simp_all add: optionBytes_def)

lemma length_entryBytes [simp]: "length (entryBytes es i) = 16 * length es"
  by (induction es arbitrary: i) simp_all

lemma fold_putOption:
  "fold putOption os (op, i) = (op @ optionBytes os, i + word_of_nat (length os))"
  by (induction os arbitrary: op i) (simp_all add: putOption_def Concat_def algebra_simps)

lemma fold_putEntry:
  "\<exists>i'. fold putEntry es (ep, op, i) =
     (ep @ entryBytes es i, op @ optionBytes (concat (map optionsOf es)), i')"
proof (induction es arbitrary: ep op i)
  case (Cons e es)
  have "putEntry e (ep, op, i) =
      (ep @ fst (Entry_Payload e i), op @ optionBytes (optionsOf e), nextIndex e i)"
    by (simp add: putEntry_def fold_putOption Concat_def optionsOf_def nextIndex_def
        split_beta add.assoc)
  with Cons.IH [of "ep @ fst (Entry_Payload e i)" "op @ optionBytes (optionsOf e)" "nextIndex e i"]
  show ?case by simp
qed simp

lemma Sd_Payload_bytes:
  "Sd_Payload m =
     SomeIpMessage_Payload m (Sd_Length m)
     @ be32 (if mRebooted m then cRebootedFlag else cNotRebootedFlag)
     @ be32 (getEntriesLength m) @ entryBytes (mEntries m) 0
     @ be32 (getOptionsLength m) @ optionBytes (concat (map optionsOf (mEntries m)))"
proof -
  obtain i where "fold putEntry (mEntries m) ([], [], 0) =
      (entryBytes (mEntries m) 0, optionBytes (concat (map optionsOf (mEntries m))), i)"
    using fold_putEntry [of "mEntries m" "[]" "[]" 0] by auto
  then show ?thesis by (simp add: Sd_Payload_def Let_def Inject32_be32 Concat_def)
qed

section \<open>Reading the options back\<close>

definition addFirst :: "Opt list \<Rightarrow> Entry \<Rightarrow> Entry" where
  "addFirst os e = mapBase (\<lambda>b. b\<lparr> mFirstOptions := mFirstOptions b @ os \<rparr>) e"

definition addSecond :: "Opt list \<Rightarrow> Entry \<Rightarrow> Entry" where
  "addSecond os e = mapBase (\<lambda>b. b\<lparr> mSecondOptions := mSecondOptions b @ os \<rparr>) e"

lemma add_Nil [simp]: "addFirst [] e = e" "addSecond [] e = e"
  by (cases e; simp add: addFirst_def addSecond_def)+

lemma add_add [simp]:
  "addFirst os' (addFirst os e) = addFirst (os @ os') e"
  "addSecond os' (addSecond os e) = addSecond (os @ os') e"
  by (cases e; simp add: addFirst_def addSecond_def)+

lemma add_strip:
  "addSecond (mSecondOptions (base e)) (addFirst (mFirstOptions (base e)) (stripOptions e)) = e"
  by (cases e) (simp_all add: addFirst_def addSecond_def stripOptions_def)

text \<open>An option that is part of an allowed entry is accepted when its turn comes.\<close>

lemma wfOption_Type:
  "wfOption opt \<Longrightarrow> Option_Type opt \<in> {IPv4Endpoint, IPv4Multicast, IPv4SdEndpoint, LoadBalancing}"
  by (cases opt) auto

lemma ValidateOption_first:
  "\<lbrakk> optionsAllowed (addFirst (opt # os) e); wfOption opt \<rbrakk> \<Longrightarrow> ValidateOption e opt"
  by (cases e; drule wfOption_Type; auto simp: addFirst_def Entry_ValidateOption_def isAcknowledge_def
      ContainsOption_hasNo hasNo_filter atMostOne_def entryOptions_def split: OptionType.splits if_splits)

lemma ValidateOption_second:
  "\<lbrakk> optionsAllowed (addSecond (opt # os) e); wfOption opt \<rbrakk> \<Longrightarrow> ValidateOption e opt"
  by (cases e; drule wfOption_Type; auto simp: addSecond_def Entry_ValidateOption_def isAcknowledge_def
      ContainsOption_hasNo hasNo_filter atMostOne_def entryOptions_def split: OptionType.splits if_splits)

lemma optionsAllowed_addFirst: "optionsAllowed (addSecond os e) \<Longrightarrow> optionsAllowed e"
  by (cases e) (auto simp: addSecond_def isAcknowledge_def hasNo_filter atMostOne_def entryOptions_def)

text \<open>
  Both option loops of the parser: an adder that accepts each option in turn reads the whole run.
\<close>

locale option_run =
  fixes add :: "Entry \<Rightarrow> Opt \<Rightarrow> Entry res"
    and put :: "Opt list \<Rightarrow> Entry \<Rightarrow> Entry"
  assumes put_Nil: "put [] e = e"
    and put_put: "put os' (put os e) = put (os @ os') e"
    and add_ok: "\<lbrakk> optionsAllowed (put (opt # os) e); wfOption opt \<rbrakk>
      \<Longrightarrow> add e opt = Inr (put [opt] e)"
begin

lemma readOptions_run:
  "\<lbrakk> list_all wfOption os; optionsAllowed (put os e);
     take (length (optionBytes os)) (drop off v) = optionBytes os \<rbrakk>
   \<Longrightarrow> readOptions add v (length os) e off = Inr (put os e, off + length (optionBytes os))"
proof (induction os arbitrary: e off)
  case (Cons opt os)
  have rd: "OptionDeserialize v off = Inr (opt, off + length (Option_Payload opt))"
    using Cons.prems sub_take [OF Cons.prems(3), of 0 "length (Option_Payload opt)" off]
    by (intro OptionDeserialize_enc) auto
  have tl: "take (length (optionBytes os)) (drop (off + length (Option_Payload opt)) v) = optionBytes os"
    using sub_take [OF Cons.prems(3) _ refl, of "length (Option_Payload opt)" "length (optionBytes os)"]
    by simp
  have "add e opt = Inr (put [opt] e)" using Cons.prems by (auto intro: add_ok)
  moreover have "optionsAllowed (put os (put [opt] e))" using Cons.prems by (simp add: put_put)
  ultimately show ?case
    using Cons.IH [OF _ _ tl, of "put [opt] e"] Cons.prems rd by (simp add: put_put)
qed (simp add: put_Nil)

end

lemma AddFirstOption_ok:
  "\<lbrakk> optionsAllowed (addFirst (opt # os) e); wfOption opt \<rbrakk>
     \<Longrightarrow> AddFirstOption e opt = Inr (addFirst [opt] e)"
  using ValidateOption_first by (simp add: AddFirstOption_def addFirst_def)

lemma AddSecondOption_ok:
  "\<lbrakk> optionsAllowed (addSecond (opt # os) e); wfOption opt \<rbrakk>
     \<Longrightarrow> AddSecondOption e opt = Inr (addSecond [opt] e)"
  using ValidateOption_second by (simp add: AddSecondOption_def addSecond_def)

interpretation first: option_run AddFirstOption addFirst
  by unfold_locales (simp_all add: AddFirstOption_ok)

interpretation second: option_run AddSecondOption addSecond
  by unfold_locales (simp_all add: AddSecondOption_ok)

section \<open>Round trip\<close>

definition wfSdEntry :: "Entry \<Rightarrow> bool" where
  "wfSdEntry e \<longleftrightarrow> wfEntry e \<and> optionsAllowed e \<and> list_all wfOption (optionsOf e)"

definition wfSd :: "SomeIpSdMessage \<Rightarrow> bool" where
  "wfSd m \<longleftrightarrow> wfHeader m \<and> list_all wfSdEntry (mEntries m) \<and> 24 + 16 * length (mEntries m) < 2 ^ 32"

lemma unat_optionNumbers:
  assumes "wfEntry e"
  shows "unat (fst (optionNumbers e)) = length (mFirstOptions (base e))"
    and "unat (snd (optionNumbers e)) = length (mSecondOptions (base e))"
proof -
  have "wfBase (base e)" using assms by (cases e) auto
  then show "unat (fst (optionNumbers e)) = length (mFirstOptions (base e))"
    and "unat (snd (optionNumbers e)) = length (mSecondOptions (base e))"
    by (simp_all add: optionNumbers_def wfBase_def unat_of_nat take_bit_nat_eq_self)
qed

text \<open>One round of the loop reads an entry and both of its option runs.\<close>

lemma readEntries_step:
  assumes wf: "wfSdEntry e"
    and en: "take 16 (drop eoff v) = fst (Entry_Payload e i)"
    and op: "take (length (optionBytes (optionsOf e))) (drop ooff v) = optionBytes (optionsOf e)"
    and lt: "eoff < emax"
  shows "readEntries v eoff emax ooff m =
    readEntries v (eoff + 16) emax (ooff + length (optionBytes (optionsOf e))) (AddEntry m e)"
proof -
  define fs where "fs = mFirstOptions (base e)"
  define ss where "ss = mSecondOptions (base e)"
  have e: "wfEntry e" "optionsAllowed e" "list_all wfOption fs" "list_all wfOption ss"
    using wf by (simp_all add: wfSdEntry_def optionsOf_def fs_def ss_def)
  have ob: "optionBytes (optionsOf e) = optionBytes fs @ optionBytes ss"
    by (simp add: optionsOf_def fs_def ss_def)
  note op' = op [unfolded ob]
  have e2: "addSecond ss (addFirst fs (stripOptions e)) = e" by (simp add: fs_def ss_def add_strip)
  then have al: "optionsAllowed (addFirst fs (stripOptions e))"
    using e(2) optionsAllowed_addFirst by metis
  have ed: "EntryDeserialize v eoff = Inr ((stripOptions e, optionNumbers e), eoff + 16)"
    using EntryDeserialize_enc [OF e(1), of i eoff v] en by simp
  have r1: "readOptions AddFirstOption v (unat (fst (optionNumbers e))) (stripOptions e) ooff =
      Inr (addFirst fs (stripOptions e), ooff + length (optionBytes fs))"
    using first.readOptions_run [OF e(3) al, of ooff v] sub_take [OF op', of 0 "length (optionBytes fs)" ooff]
    by (simp add: unat_optionNumbers [OF e(1)] fs_def [symmetric])
  have r2: "readOptions AddSecondOption v (unat (snd (optionNumbers e))) (addFirst fs (stripOptions e))
        (ooff + length (optionBytes fs)) =
      Inr (e, ooff + length (optionBytes fs) + length (optionBytes ss))"
    using second.readOptions_run [OF e(4), of "addFirst fs (stripOptions e)" "ooff + length (optionBytes fs)" v]
      sub_take [OF op', of "length (optionBytes fs)" "length (optionBytes ss)" "ooff + length (optionBytes fs)"]
      e(2) by (simp add: e2 unat_optionNumbers [OF e(1)] ss_def [symmetric])
  show ?thesis
    by (subst readEntries.simps) (simp add: lt ed r1 r2 ob add.assoc split_beta)
qed

lemma readEntries_run:
  "\<lbrakk> list_all wfSdEntry es;
     take (16 * length es) (drop eoff v) = entryBytes es i;
     take (length (optionBytes (concat (map optionsOf es)))) (drop ooff v) = optionBytes (concat (map optionsOf es)) \<rbrakk>
   \<Longrightarrow> readEntries v eoff (eoff + 16 * length es) ooff m = Inr (m\<lparr> mEntries := mEntries m @ es \<rparr>)"
proof (induction es arbitrary: eoff ooff i m)
  case Nil then show ?case by (subst readEntries.simps) simp
next
  case (Cons e es)
  let ?n = "length (optionBytes (optionsOf e))"
  have tk: "take (length (entryBytes (e # es) i)) (drop eoff v) = entryBytes (e # es) i"
    using Cons.prems(2) by (simp only: length_entryBytes)
  have en: "take 16 (drop eoff v) = fst (Entry_Payload e i)"
    using sub_take [OF tk, of 0 16 eoff] by simp
  have es: "take (16 * length es) (drop (eoff + 16) v) = entryBytes es (nextIndex e i)"
    using sub_take [OF tk, of 16 "16 * length es" "eoff + 16"] by simp
  have op: "take ?n (drop ooff v) = optionBytes (optionsOf e)"
    using sub_take [OF Cons.prems(3), of 0 ?n ooff] by simp
  have os: "take (length (optionBytes (concat (map optionsOf es)))) (drop (ooff + ?n) v)
      = optionBytes (concat (map optionsOf es))"
    using sub_take [OF Cons.prems(3) _ refl, of ?n "length (optionBytes (concat (map optionsOf es)))"]
    by simp
  have "readEntries v eoff (eoff + 16 * length (e # es)) ooff m =
      readEntries v (eoff + 16) (eoff + 16 + 16 * length es) (ooff + ?n) (AddEntry m e)"
    using readEntries_step [OF _ en op, of "eoff + 16 * length (e # es)" m] Cons.prems(1)
    by (simp add: add.assoc)
  with Cons.IH [OF _ es os, of "AddEntry m e"] Cons.prems(1) show ?case by (simp add: AddEntry_def)
qed

lemma unat_getEntriesLength:
  "wfSd m \<Longrightarrow> unat (getEntriesLength m) = 16 * length (mEntries m)"
proof -
  assume "wfSd m"
  then have "16 * length (mEntries m) < 2 ^ 32" by (simp add: wfSd_def)
  moreover have "getEntriesLength m = word_of_nat (16 * length (mEntries m))"
    by (simp add: getEntriesLength_def mult.commute)
  ultimately show ?thesis by (simp only: unat_of_nat take_bit_nat_eq_self len_bit0 len_num1) simp
qed

lemma newSdMessage_ok:
  "newSdMessage = Inr (SomeIpMessage.extend (mkSomeIpMessage 0xffff8100 0 1 1 1 Notification eOK)
     \<lparr> mRebooted = True, mEntries = [] \<rparr>)"
  by (simp add: newSdMessage_def newSomeIpRequest_def)

lemma Sd_Deserialize_Payload:
  assumes "wfSd m"
  shows "Sd_Deserialize (Sd_Payload m @ rest) = Inr m"
proof -
  define flag where "flag = (if mRebooted m then cRebootedFlag else cNotRebootedFlag)"
  define eb where "eb = entryBytes (mEntries m) 0"
  define ob where "ob = optionBytes (concat (map optionsOf (mEntries m)))"
  define hd where "hd = SomeIpMessage_Payload m (Sd_Length m)"
  define v where "v = Sd_Payload m @ rest"
  have v: "v = hd @ be32 flag @ be32 (getEntriesLength m) @ eb @ be32 (getOptionsLength m) @ ob @ rest"
    by (simp add: v_def Sd_Payload_bytes flag_def eb_def ob_def hd_def)
  have lh: "length hd = 16" by (simp add: hd_def)
  have le: "length eb = 16 * length (mEntries m)" by (simp add: eb_def)
  have wh: "wfHeader m" using assms by (simp add: wfSd_def)
  have x1: "ExtractInteger v 16 = Inr (flag, 20)"
    using integer.dec_fixed [of 16 v flag] lh by (simp add: v)
  have x2: "ExtractInteger v 20 = Inr (getEntriesLength m, 24)"
    using integer.dec_fixed [of 20 v "getEntriesLength m"] lh by (simp add: v)
  have fl: "flag = cRebootedFlag \<longleftrightarrow> mRebooted m" "flag = cNotRebootedFlag \<longleftrightarrow> \<not> mRebooted m"
    by (auto simp: flag_def cRebootedFlag_def cNotRebootedFlag_def)
  have en: "take (16 * length (mEntries m)) (drop 24 v) = entryBytes (mEntries m) 0"
    using lh le by (simp add: v flip: eb_def)
  have op: "take (length ob) (drop (24 + 16 * length (mEntries m) + 4) v) = ob"
    using lh le by (simp add: v)
  have rd: "readEntries v 24 (24 + 16 * length (mEntries m)) (24 + 16 * length (mEntries m) + 4) m0 =
      Inr (m0\<lparr> mEntries := mEntries m0 @ mEntries m \<rparr>)" for m0
    using readEntries_run [OF _ en, of "24 + 16 * length (mEntries m) + 4" m0] op assms
    by (simp add: wfSd_def ob_def)
  have md: "(24 + 16 * length (mEntries m)) mod 2 ^ 32 = 24 + 16 * length (mEntries m)"
    using assms by (simp add: wfSd_def)
  have "Sd_Deserialize v = Inr m"
    unfolding Sd_Deserialize_def newSdMessage_ok bindR.simps
    by (subst (1) v, unfold hd_def)
      (simp add: SomeIpMessage_Deserialize_Payload [OF wh] x1 x2 fl unat_getEntriesLength [OF assms] md [simplified]
        rd [simplified] SomeIpMessage.defs mkSomeIpMessage_def)
  then show ?thesis by (simp add: v_def)
qed

interpretation sd: message_format wfSd Sd_Payload Sd_Deserialize
  by unfold_locales (rule Sd_Deserialize_Payload)

section \<open>Lengths, session identifier and option index\<close>

lemma foldl_addOptionLength:
  "foldl addOptionLength r os = r + word_of_nat (length (optionBytes os))"
proof (induction os arbitrary: r)
  case (Cons opt os)
  have "(3 + ucast (Option_Length opt) :: u32) = word_of_nat (length (Option_Payload opt))"
    unfolding length_Option_Payload by (cases opt) simp_all
  with Cons show ?case by (simp add: addOptionLength_def)
qed simp

lemma getOptionsLength_bytes:
  "getOptionsLength m = word_of_nat (length (optionBytes (concat (map optionsOf (mEntries m)))))"
proof -
  have "foldl (\<lambda>result e. foldl addOptionLength
        (foldl addOptionLength result (mFirstOptions (base e))) (mSecondOptions (base e))) r es
      = r + word_of_nat (length (optionBytes (concat (map optionsOf es))))" for r :: u32 and es
    by (induction es arbitrary: r) (simp_all add: foldl_addOptionLength optionsOf_def)
  then show ?thesis by (simp add: getOptionsLength_def)
qed

lemma Sd_Length_bytes: "Sd_Length m + 8 = word_of_nat (length (Sd_Payload m))"
  by (simp add: Sd_Length_def getOptionsLength_bytes getEntriesLength_def Sd_Payload_bytes)

section \<open>Properties\<close>

text \<open>C1: a service-discovery message whose entries carry allowed options is read back with every
  entry and every option in its place, also when more bytes follow it.\<close>

theorem sd_message_roundtrip:
  assumes "wfSd m"
  shows "Sd_Deserialize (Sd_Payload m @ rest) = Inr m"
  using assms by (rule sd.parse_enc)

theorem sd_message_roundtrip_witness:
  "\<exists>m. newSdMessage = Inr m \<and>
     Sd_Deserialize (Sd_Payload (AddEntry m
       (addFirst [LoadBalancingOption True 1 2, CreateUnitcastEndpoint False (mkIpv4 10 0 0 1) Tcp 80]
         (CreateStopOfferEntry 1 2 3 4))) @ []) =
     Inr (AddEntry m
       (addFirst [LoadBalancingOption True 1 2, CreateUnitcastEndpoint False (mkIpv4 10 0 0 1) Tcp 80]
         (CreateStopOfferEntry 1 2 3 4)))"
proof -
  obtain m where m: "newSdMessage = Inr m" using newSdMessage_ok by blast
  have "wfSd (AddEntry m
      (addFirst [LoadBalancingOption True 1 2, CreateUnitcastEndpoint False (mkIpv4 10 0 0 1) Tcp 80]
        (CreateStopOfferEntry 1 2 3 4)))"
    using m unfolding newSdMessage_ok
    by (auto simp: wfSd_def wfSdEntry_def AddEntry_def addFirst_def CreateStopOfferEntry_def mkEntryBase_def
        CreateUnitcastEndpoint_def wfHeader_def SomeIpMessage.defs mkSomeIpMessage_def optionsOf_def
        wfBase_def MessageType_cast_def ReturnCode_cast_def atMostOne_def hasNo_def entryOptions_def)
  from sd_message_roundtrip [OF this, of "[]"] m show ?thesis by blast
qed

text \<open>The length field of a service-discovery message counts exactly the bytes after the first
  eight, entries and options of every entry included (modulo the 32 bits of the field).\<close>

theorem sd_length_exact: "Sd_Length m + 8 = word_of_nat (length (Sd_Payload m))"
  by (rule Sd_Length_bytes)

text \<open>Serialization advances the option index of the entries twice, once in the entry and once
  in the loop over its options: the second entry of a message states twice the number of options that
  stand before its own.\<close>

lemma sd_option_index_doubled:
  assumes "mEntries m = e1 # e2 # es"
  shows "at (Sd_Payload m) 41 = Inr (2 * word_of_nat (length (optionsOf e1)))"
proof -
  have fb: "length p = 16 \<Longrightarrow> at (p @ fst (Entry_Payload e i) @ q) 17 = Inr i" for p e i q
    by (cases e; simp only: Entry_Payload_bytes; simp add: at_def nth_append)
  have "at (Sd_Payload m) 41 = at (entryBytes (e1 # e2 # es) 0 @ be32 (getOptionsLength m)
      @ optionBytes (concat (map optionsOf (mEntries m)))) 17"
    by (simp add: Sd_Payload_bytes assms at_def nth_append)
  also have "\<dots> = Inr (nextIndex e1 0)"
    using fb [of "fst (Entry_Payload e1 0)" e2 "nextIndex e1 0"] by simp
  also have "nextIndex e1 0 = 2 * word_of_nat (length (optionsOf e1))"
    by (simp add: nextIndex_def Entry_Payload_index optionsOf_def)
  finally show ?thesis .
qed

text \<open>The session identifier of a service-discovery message stays nonzero, and the reboot flag falls
  exactly when the identifier wraps.\<close>

lemma Sd_IncrementSessionId_flag:
  "Sd_IncrementSessionId m = (w, m') \<Longrightarrow>
     mSessionId m' \<noteq> 0 \<and> w = (mSessionId m = 0xffff) \<and> mRebooted m' = (mRebooted m \<and> \<not> w)
     \<and> mEntries m' = mEntries m"
  using IncrementSessionId_nonzero [of m]
  by (auto simp: Sd_IncrementSessionId_def IncrementSessionId_def split: if_splits)

end
