(* ===== verification/ConcurrentQueue.thy ===== *)
theory ConcurrentQueue
  imports Prelude
begin

text \<open>
  \<open>ara/com/helper/concurrent_queue.h\<close>: the queue between a communication callback and the sender.
  \<open>mLocked\<close> says whether another thread holds the mutex when an operation is called, so that
  \<open>try_lock\<close> fails; the queue's own operations release the mutex before they return.
\<close>

record 'a ConcurrentQueue =
  mLocked :: bool
  mQueue :: "'a list"
  mSize :: nat

definition newQueue :: "'a ConcurrentQueue" where
  "newQueue = \<lparr> mLocked = False, mQueue = [], mSize = 0 \<rparr>"

definition Empty :: "'a ConcurrentQueue \<Rightarrow> bool" where
  "Empty q \<longleftrightarrow> mSize q = 0"

definition TryEnqueue :: "'a ConcurrentQueue \<Rightarrow> 'a \<Rightarrow> bool \<times> 'a ConcurrentQueue" where
  "TryEnqueue q element =
     (if \<not> mLocked q then (True, q\<lparr> mQueue := mQueue q @ [element], mSize := mSize q + 1 \<rparr>)
      else (False, q))"

text \<open>\<open>front\<close> and \<open>pop\<close> of an empty \<open>std::queue\<close> are undefined behaviour.\<close>

definition TryDequeue :: "'a ConcurrentQueue \<Rightarrow> ('a option \<times> 'a ConcurrentQueue) res" where
  "TryDequeue q =
     (if \<not> mLocked q
      then (case mQueue q of
              [] \<Rightarrow> Inl Undefined
            | x # xs \<Rightarrow> Inr (Some x, q\<lparr> mQueue := xs, mSize := mSize q - 1 \<rparr>))
      else Inr (None, q))"

definition queueInv :: "'a ConcurrentQueue \<Rightarrow> bool" where
  "queueInv q \<longleftrightarrow> mSize q = length (mQueue q)"

text \<open>
  What a user of the queue relies on: first in, first out, a failed attempt changes nothing, and
  a queue that does not report itself empty can be read.
\<close>

locale fifo =
  fixes inv :: "'q \<Rightarrow> bool"
    and items :: "'q \<Rightarrow> 'a list"
    and locked :: "'q \<Rightarrow> bool"
    and isEmpty :: "'q \<Rightarrow> bool"
    and enq :: "'q \<Rightarrow> 'a \<Rightarrow> bool \<times> 'q"
    and deq :: "'q \<Rightarrow> ('a option \<times> 'q) res"
  assumes enq_inv: "\<lbrakk> inv q; enq q x = (b, q') \<rbrakk> \<Longrightarrow> inv q' \<and> locked q' = locked q"
    and enq_items: "\<lbrakk> inv q; enq q x = (b, q') \<rbrakk>
      \<Longrightarrow> b = (\<not> locked q) \<and> items q' = (if b then items q @ [x] else items q)"
    and deq_ok: "\<lbrakk> inv q; \<not> isEmpty q \<rbrakk> \<Longrightarrow>
      deq q = Inr r \<Longrightarrow> inv (snd r) \<and> locked (snd r) = locked q \<and>
        (case fst r of None \<Rightarrow> locked q \<and> items (snd r) = items q
                     | Some x \<Rightarrow> items q = x # items (snd r))"
    and deq_total: "\<lbrakk> inv q; \<not> isEmpty q \<rbrakk> \<Longrightarrow> \<exists>r. deq q = Inr r"
    and isEmpty_items: "inv q \<Longrightarrow> isEmpty q \<longleftrightarrow> items q = []"
begin

lemma enq_all:
  "\<lbrakk> inv q; \<not> locked q \<rbrakk> \<Longrightarrow>
     let q' = fold (\<lambda>x q. snd (enq q x)) xs q in inv q' \<and> \<not> locked q' \<and> items q' = items q @ xs"
proof (induction xs arbitrary: q)
  case (Cons x xs)
  obtain b q' where e: "enq q x = (b, q')" by fastforce
  with enq_inv [OF Cons.prems(1) e] enq_items [OF Cons.prems(1) e] Cons.prems
  have q': "inv q'" "\<not> locked q'" "items q' = items q @ [x]" by auto
  from Cons.IH [OF q'(1,2)] e q'(3) show ?case by (simp add: Let_def)
qed simp

lemma deq_head:
  assumes "inv q" "\<not> locked q" "items q = x # xs"
  obtains q' where "deq q = Inr (Some x, q')" "inv q'" "\<not> locked q'" "items q' = xs"
proof -
  have ne: "\<not> isEmpty q" using assms isEmpty_items by simp
  from deq_total [OF assms(1) ne] obtain r where r: "deq q = Inr r" by blast
  with deq_ok [OF assms(1) ne r] assms that [of "snd r"] show ?thesis
    by (cases r; cases "fst r") auto
qed

end

interpretation cq: fifo queueInv mQueue mLocked Empty TryEnqueue TryDequeue
  by unfold_locales
    (auto simp: queueInv_def TryEnqueue_def TryDequeue_def Empty_def split: if_splits list.splits)

definition idleQueue :: "'a ConcurrentQueue \<Rightarrow> bool" where
  "idleQueue q \<longleftrightarrow> queueInv q \<and> \<not> mLocked q \<and> mQueue q = []"

lemma idleQueue_new: "idleQueue newQueue"
  by (simp add: idleQueue_def newQueue_def queueInv_def)

section \<open>Sending in packets of one size\<close>

text \<open>
  The send callbacks of the packet-oriented channels: a message longer than a packet is dropped, a shorter one leaves
  what the buffer on the stack held before (\<open>former\<close>) behind it. While the queue is locked the loop spins.
\<close>

partial_function (option) sendPackets ::
    "nat \<Rightarrow> bytes \<Rightarrow> bytes ConcurrentQueue \<Rightarrow> bytes list \<Rightarrow> (bytes list \<times> bytes ConcurrentQueue) res option" where
  "sendPackets packetSize former q sent =
     (if Empty q then Some (Inr (sent, q))
      else (case TryDequeue q of
              Inl e \<Rightarrow> Some (Inl e)
            | Inr (None, q) \<Rightarrow> sendPackets packetSize former q sent
            | Inr (Some sendData, q) \<Rightarrow>
                sendPackets packetSize former q
                  (if length sendData \<le> packetSize then sent @ [sendData @ drop (length sendData) former] else sent)))"

declare sendPackets.simps [simp del]

lemma sendPackets_all:
  assumes "queueInv q" "\<not> mLocked q"
  shows "\<exists>q'. sendPackets n former q sent =
      Some (Inr (sent @ map (\<lambda>x. x @ drop (length x) former) (filter (\<lambda>x. length x \<le> n) (mQueue q)), q')) \<and>
    idleQueue q'"
  using assms
proof (induction "mQueue q" arbitrary: q sent)
  case Nil
  then show ?case using cq.isEmpty_items [of q] by (subst sendPackets.simps) (simp add: idleQueue_def)
next
  case (Cons x xs)
  from cq.deq_head [OF Cons.prems Cons.hyps(2) [symmetric]] obtain q' where
    q': "TryDequeue q = Inr (Some x, q')" "queueInv q'" "\<not> mLocked q'" "mQueue q' = xs" .
  have ne: "\<not> Empty q" using cq.isEmpty_items [OF Cons.prems(1)] Cons.hyps(2) by auto
  let ?sent = "if length x \<le> n then sent @ [x @ drop (length x) former] else sent"
  from Cons.hyps(1) [OF q'(4) [symmetric] q'(2,3), of ?sent] ne q'(1,4) show ?case
    by (subst sendPackets.simps) (auto simp: Cons.hyps(2) [symmetric])
qed

lemma sendPackets_after_enqueue:
  assumes "idleQueue q"
  shows "\<exists>q'. sendPackets n former (fold (\<lambda>x q. snd (TryEnqueue q x)) xs q) [] =
      Some (Inr (map (\<lambda>x. x @ drop (length x) former) (filter (\<lambda>x. length x \<le> n) xs), q')) \<and> idleQueue q'"
  using cq.enq_all [of q xs] sendPackets_all [of "fold (\<lambda>x q. snd (TryEnqueue q x)) xs q" n former "[]"] assms
  by (simp add: idleQueue_def Let_def)

text \<open>A queue that nobody filled is read out of bounds when its size is not asked first.\<close>

lemma TryDequeue_empty: "TryDequeue newQueue = Inl Undefined"
  by (simp add: TryDequeue_def newQueue_def)

end
