(* ===== verification/Rpc.thy ===== *)
theory Rpc
  imports SomeIp ConcurrentQueue
begin

text \<open>
  \<open>ara/com/someip/rpc\<close>: dispatch of requests in RpcServer, session handling of RpcClient, and the
  reassembly loops of SocketRpcServer and SocketRpcClient. A handler is a function of the payload
  and of a state of type \<open>'s\<close> that stands for everything the handlers of the program change; it
  may throw. Sockets, poller and \<open>::send\<close> belong to a library outside the repository: a receive
  callback is given the bytes it received, a send callback returns the payloads it sends.
\<close>

section \<open>The server\<close>

type_synonym 's handler = "bytes \<Rightarrow> 's \<Rightarrow> (bool \<times> bytes) res \<times> 's"

record 's RpcServer =
  sProtocolVersion :: u8
  sInterfaceVersion :: u8
  mServices :: "u16 set"
  sHandlers :: "u32 \<rightharpoonup> 's handler"

definition newRpcServer :: "u8 \<Rightarrow> u8 \<Rightarrow> 's RpcServer" where
  "newRpcServer protocolVersion interfaceVersion =
     \<lparr> sProtocolVersion = protocolVersion, sInterfaceVersion = interfaceVersion, mServices = {},
       sHandlers = Map.empty \<rparr>"

definition mkMessageId :: "u16 \<Rightarrow> u16 \<Rightarrow> u32" where
  "mkMessageId serviceId methodId = push_bit 16 (ucast serviceId) OR ucast methodId"

definition Server_SetHandler :: "'s RpcServer \<Rightarrow> u16 \<Rightarrow> u16 \<Rightarrow> 's handler \<Rightarrow> 's RpcServer" where
  "Server_SetHandler srv serviceId methodId handler =
     srv\<lparr> sHandlers := (sHandlers srv)(mkMessageId serviceId methodId \<mapsto> handler),
          mServices := insert serviceId (mServices srv) \<rparr>"

definition validate :: "'s RpcServer \<Rightarrow> SomeIpRpcMessage \<Rightarrow> SomeIpReturnCode" where
  "validate srv request =
     (if mMessageType request \<noteq> Request then eWrongMessageType
      else if mProtocolVersion request \<noteq> sProtocolVersion srv then eWrongProtocolVersion
      else if mInterfaceVersion request \<noteq> sInterfaceVersion srv then eWrongInterfaceVersion
      else if ucast (drop_bit 16 (mMessageId request)) \<notin> mServices srv then eUnknownService
      else eOK)"

definition getResponsePayload ::
    "'s RpcServer \<Rightarrow> SomeIpRpcMessage \<Rightarrow> SomeIpReturnCode \<Rightarrow> bytes \<Rightarrow> bytes res" where
  "getResponsePayload srv request returnCode rpcPayload =
     bindR (newRpcResponse (mMessageId request) (mClientId request) (mSessionId request)
              (sProtocolVersion srv) (sInterfaceVersion srv) returnCode rpcPayload)
       (\<lambda>m. Inr (Rpc_Payload m))"

text \<open>The part of \<open>TryInvokeHandler\<close> after the request is parsed.\<close>

definition answer :: "'s RpcServer \<Rightarrow> SomeIpRpcMessage \<Rightarrow> 's \<Rightarrow> bytes res \<times> 's" where
  "answer srv request st =
     (let returnCode = validate srv request in
      if returnCode \<noteq> eOK then (getResponsePayload srv request returnCode [], st)
      else (case sHandlers srv (mMessageId request) of
              Some handler \<Rightarrow>
                (case handler (mRpcPayload request) st of
                   (Inl e, st) \<Rightarrow> (Inl e, st)
                 | (Inr (handled, rpcResponsePdu), st) \<Rightarrow>
                     (getResponsePayload srv request (if handled then eOK else eNotOk)
                        rpcResponsePdu, st))
            | None \<Rightarrow> (getResponsePayload srv request eUnknownMethod [], st)))"

definition TryInvokeHandler :: "'s RpcServer \<Rightarrow> bytes \<Rightarrow> 's \<Rightarrow> bytes option res \<times> 's" where
  "TryInvokeHandler srv requestPayload st =
     (case Rpc_Deserialize requestPayload of
        Inl e \<Rightarrow> (if e = Out_of_range then Inr None else Inl e, st)
      | Inr request \<Rightarrow>
          (case answer srv request st of
             (Inl e, st) \<Rightarrow> (if e = Out_of_range then Inr None else Inl e, st)
           | (Inr responsePayload, st) \<Rightarrow> (Inr (Some responsePayload), st)))"

section \<open>The reassembly loop\<close>

text \<open>
  \<open>while (true)\<close> of both \<open>onReceive\<close> functions: a frame is complete when the buffer holds 8 + Length
  bytes; it is cut off before it is handled.
\<close>

function receiveLoop ::
    "(bytes \<Rightarrow> 's \<Rightarrow> 's res) \<Rightarrow> bytes \<Rightarrow> 's \<Rightarrow> (bytes \<times> 's) res" where
  "receiveLoop process buf st =
     (if length buf < 8 then Inr (buf, st)
      else (case ExtractInteger buf 4 of
              Inl e \<Rightarrow> Inl e
            | Inr (len, _) \<Rightarrow>
                (let totalSize = 8 + unat len in
                 if length buf < totalSize then Inr (buf, st)
                 else (case process (take totalSize buf) st of
                         Inl e \<Rightarrow> Inl e
                       | Inr st \<Rightarrow> receiveLoop process (drop totalSize buf) st))))"
  by pat_completeness auto
termination
  by (relation "measure (\<lambda>(process, buf, st). length buf)") auto

declare receiveLoop.simps [simp del]

record 's SocketRpcServer =
  rpcServer :: "'s RpcServer"
  sReceiveBuffer :: bytes
  sSendingQueue :: "bytes ConcurrentQueue"
  mDisconnectHandler :: "('s \<Rightarrow> 's) option"
  environment :: 's

definition serverProcess ::
    "'s RpcServer \<Rightarrow> bytes \<Rightarrow> bytes ConcurrentQueue \<times> 's \<Rightarrow> (bytes ConcurrentQueue \<times> 's) res" where
  "serverProcess srv message st =
     (case st of (queue, env) \<Rightarrow>
      case TryInvokeHandler srv message env of
        (Inl e, env) \<Rightarrow> Inl e
      | (Inr None, env) \<Rightarrow> Inr (queue, env)
      | (Inr (Some responsePayload), env) \<Rightarrow> Inr (snd (TryEnqueue queue responsePayload), env))"

definition Server_onReceive :: "'s SocketRpcServer \<Rightarrow> bytes \<Rightarrow> 's SocketRpcServer res" where
  "Server_onReceive s received =
     (if received = []
      then Inr (case mDisconnectHandler s of
                  Some handler \<Rightarrow> s\<lparr> environment := handler (environment s) \<rparr>
                | None \<Rightarrow> s)
      else bindR (receiveLoop (serverProcess (rpcServer s)) (sReceiveBuffer s @ received)
                    (sSendingQueue s, environment s))
             (\<lambda>(buf, queue, env).
                Inr (s\<lparr> sReceiveBuffer := buf, sSendingQueue := queue, environment := env \<rparr>)))"

text \<open>
  \<open>onSend\<close> drains the queue; while another thread holds the mutex it spins, so the loop need not
  end. The result is the list of payloads handed to \<open>::send\<close>.
\<close>

partial_function (option) drainQueue ::
    "bytes ConcurrentQueue \<Rightarrow> bytes list \<Rightarrow> (bytes list \<times> bytes ConcurrentQueue) res option" where
  "drainQueue q sent =
     (if Empty q then Some (Inr (sent, q))
      else (case TryDequeue q of
              Inl e \<Rightarrow> Some (Inl e)
            | Inr (None, q) \<Rightarrow> drainQueue q sent
            | Inr (Some payload, q) \<Rightarrow>
                drainQueue q (if payload \<noteq> [] then sent @ [payload] else sent)))"

section \<open>The client\<close>

record 'h RpcClient =
  cProtocolVersion :: u8
  cInterfaceVersion :: u8
  mSessionIds :: "u32 \<rightharpoonup> u16"
  cHandlers :: "u32 \<rightharpoonup> 'h"

definition newRpcClient :: "u8 \<Rightarrow> u8 \<Rightarrow> 'h RpcClient" where
  "newRpcClient protocolVersion interfaceVersion =
     \<lparr> cProtocolVersion = protocolVersion, cInterfaceVersion = interfaceVersion,
       mSessionIds = Map.empty, cHandlers = Map.empty \<rparr>"

definition Client_SetHandler :: "'h RpcClient \<Rightarrow> u16 \<Rightarrow> u16 \<Rightarrow> 'h \<Rightarrow> 'h RpcClient" where
  "Client_SetHandler c serviceId methodId handler =
     c\<lparr> cHandlers := (cHandlers c)(mkMessageId serviceId methodId \<mapsto> handler) \<rparr>"

text \<open>The handler that is called, with its message, or none.\<close>

definition Client_InvokeHandler :: "'h RpcClient \<Rightarrow> bytes \<Rightarrow> ('h \<times> SomeIpRpcMessage) option res" where
  "Client_InvokeHandler c payload =
     (case Rpc_Deserialize payload of
        Inl e \<Rightarrow> if e = Out_of_range then Inr None else Inl e
      | Inr message \<Rightarrow>
          (case cHandlers c (mMessageId message) of
             Some handler \<Rightarrow> Inr (Some (handler, message))
           | None \<Rightarrow> Inr None))"

definition Client_Send ::
    "'h RpcClient \<Rightarrow> u16 \<Rightarrow> u16 \<Rightarrow> u16 \<Rightarrow> bytes \<Rightarrow> (bytes \<times> 'h RpcClient) res" where
  "Client_Send c serviceId methodId clientId rpcPayload =
     (let messageId = mkMessageId serviceId methodId;
          sessionId = (case mSessionIds c messageId of Some i \<Rightarrow> i | None \<Rightarrow> 1)
      in bindR (newRpcRequest messageId clientId sessionId (cProtocolVersion c) (cInterfaceVersion c)
                  rpcPayload)
           (\<lambda>request.
              let payload = Rpc_Payload request;
                  request = snd (IncrementSessionId request)
              in Inr (payload, c\<lparr> mSessionIds := (mSessionIds c)(messageId \<mapsto> mSessionId request) \<rparr>)))"

definition clientProcess ::
    "'h RpcClient \<Rightarrow> bytes \<Rightarrow> ('h \<times> SomeIpRpcMessage) list \<Rightarrow> ('h \<times> SomeIpRpcMessage) list res" where
  "clientProcess c message calls =
     bindR (Client_InvokeHandler c message)
       (\<lambda>call. Inr (case call of Some hm \<Rightarrow> calls @ [hm] | None \<Rightarrow> calls))"

definition Client_onReceive ::
    "'h RpcClient \<Rightarrow> bytes \<Rightarrow> bytes \<Rightarrow> (bytes \<times> ('h \<times> SomeIpRpcMessage) list) res" where
  "Client_onReceive c receiveBuffer received =
     (if received = [] then Inr (receiveBuffer, [])
      else receiveLoop (clientProcess c) (receiveBuffer @ received) [])"

section \<open>Reassembly does not depend on how the stream is cut\<close>

lemma Extract_length_append:
  "8 \<le> length buf \<Longrightarrow> ExtractInteger (buf @ rest) 4 = ExtractInteger buf 4"
  by (simp add: ExtractInteger_total nth_append)

lemma receiveLoop_append:
  "receiveLoop f buf st = Inr (buf', st') \<Longrightarrow>
     receiveLoop f (buf @ rest) st = receiveLoop f (buf' @ rest) st'"
proof (induction f buf st arbitrary: buf' st' rule: receiveLoop.induct)
  case (1 f buf st)
  show ?case
  proof (cases "length buf < 8")
    case True
    with "1.prems" show ?thesis by (simp add: receiveLoop.simps [of f buf])
  next
    case False
    define len where "len = join32 (buf ! 4) (buf ! 5) (buf ! 6) (buf ! 7)"
    have ex: "ExtractInteger buf 4 = Inr (len, 8)"
      using False by (simp add: ExtractInteger_total len_def)
    show ?thesis
    proof (cases "length buf < 8 + unat len")
      case True
      with "1.prems" False ex show ?thesis by (simp add: receiveLoop.simps [of f buf])
    next
      case big: False
      from "1.prems" False ex big obtain st1 where
        p: "f (take (8 + unat len) buf) st = Inr st1"
        and r: "receiveLoop f (drop (8 + unat len) buf) st1 = Inr (buf', st')"
        by (auto simp: receiveLoop.simps [of f buf] Let_def split: sum.splits)
      have "receiveLoop f (buf @ rest) st = receiveLoop f (drop (8 + unat len) buf @ rest) st1"
        using False big ex p
        by (subst receiveLoop.simps) (simp add: Extract_length_append Let_def)
      also have "\<dots> = receiveLoop f (buf' @ rest) st'"
        using "1.IH" [OF False ex refl refl _ p r] big by simp
      finally show ?thesis .
    qed
  qed
qed

lemma receiveLoop_Inl_append:
  "receiveLoop f b s = Inl e \<Longrightarrow> \<exists>e. receiveLoop f (b @ d) s = Inl e"
proof (induction f b s rule: receiveLoop.induct)
  case (1 f b s)
  then have l8: "\<not> length b < 8" by (auto simp: receiveLoop.simps [of f b])
  define len where "len = join32 (b ! 4) (b ! 5) (b ! 6) (b ! 7)"
  have ex: "ExtractInteger b 4 = Inr (len, 8)"
    using l8 by (simp add: ExtractInteger_total len_def)
  from "1.prems" l8 ex have big: "\<not> length b < 8 + unat len"
    by (auto simp: receiveLoop.simps [of f b] Let_def split: if_splits)
  have st: "receiveLoop f (b @ d) s = (case f (take (8 + unat len) b) s of Inl e \<Rightarrow> Inl e
      | Inr s \<Rightarrow> receiveLoop f (drop (8 + unat len) b @ d) s)"
    using l8 big ex by (subst receiveLoop.simps)
      (simp add: Extract_length_append Let_def split: sum.splits)
  show ?case
  proof (cases "f (take (8 + unat len) b) s")
    case (Inl x) then show ?thesis by (simp add: st)
  next
    case (Inr s1)
    with "1.prems" l8 ex big have "receiveLoop f (drop (8 + unat len) b) s1 = Inl e"
      by (auto simp: receiveLoop.simps [of f b] Let_def)
    with "1.IH" [OF l8 ex refl refl big Inr] Inr show ?thesis by (simp add: st)
  qed
qed

text \<open>The loop fed with several chunks, one callback after the other.\<close>

primrec feed :: "(bytes \<Rightarrow> 's \<Rightarrow> 's res) \<Rightarrow> bytes list \<Rightarrow> bytes \<Rightarrow> 's \<Rightarrow> (bytes \<times> 's) res" where
  "feed f [] buf st = Inr (buf, st)"
| "feed f (c # cs) buf st =
     bindR (receiveLoop f (buf @ c) st) (\<lambda>(buf, st). feed f cs buf st)"

lemma feed_concat:
  assumes "receiveLoop f buf st = Inr (buf, st)"
    and "receiveLoop f (buf @ concat cs) st = Inr (buf', st')"
  shows "feed f cs buf st = Inr (buf', st')"
  using assms
proof (induction cs arbitrary: buf st)
  case (Cons c cs)
  show ?case
  proof (cases "receiveLoop f (buf @ c) st")
    case (Inl e)
    from receiveLoop_Inl_append [OF Inl, of "concat cs"] Cons.prems(2) show ?thesis by auto
  next
    case (Inr r)
    obtain b1 s1 where r: "r = (b1, s1)" by fastforce
    from receiveLoop_append [OF Inr [unfolded r], of "[]"] Inr r
    have fixp: "receiveLoop f b1 s1 = Inr (b1, s1)" by simp
    have "receiveLoop f (b1 @ concat cs) s1 = Inr (buf', st')"
      using receiveLoop_append [OF Inr [unfolded r], of "concat cs"] Cons.prems(2) by simp
    from Cons.IH [OF fixp this] Inr r show ?thesis by simp
  qed
qed simp

lemma receiveLoop_Nil: "receiveLoop f [] st = Inr ([], st)"
  by (subst receiveLoop.simps) simp

lemma receiveLoop_frame:
  assumes "wfRpc m"
  shows "receiveLoop f (Rpc_Payload m @ rest) st =
    bindR (f (Rpc_Payload m) st) (\<lambda>st. receiveLoop f rest st)"
proof -
  have "ExtractInteger (Rpc_Payload m @ rest) 4 = Inr (Rpc_Length m, 8)"
    using MessageLength_Payload [of m "Rpc_Length m" "mRpcPayload m @ rest"] by (simp add: Rpc_Payload_def)
  moreover have "8 + unat (Rpc_Length m) = length (Rpc_Payload m)"
    using unat_Rpc_Length [OF assms] by (simp add: length_Rpc_Payload)
  ultimately show ?thesis
    by (subst receiveLoop.simps) (cases "f (Rpc_Payload m) st"; simp add: Let_def length_Rpc_Payload)
qed

section \<open>What the server sends back\<close>

text \<open>The responses to a sequence of requests, in order; a handler that throws out_of_range gives none.\<close>

primrec respondAll :: "'s RpcServer \<Rightarrow> SomeIpRpcMessage list \<Rightarrow> 's \<Rightarrow> (bytes list \<times> 's) res" where
  "respondAll srv [] st = Inr ([], st)"
| "respondAll srv (m # ms) st =
     (case answer srv m st of
        (Inl e, st) \<Rightarrow> if e = Out_of_range then respondAll srv ms st else Inl e
      | (Inr resp, st) \<Rightarrow> bindR (respondAll srv ms st) (\<lambda>(resps, st). Inr (resp # resps, st)))"

primrec Server_receives :: "'s SocketRpcServer \<Rightarrow> bytes list \<Rightarrow> 's SocketRpcServer res" where
  "Server_receives s [] = Inr s"
| "Server_receives s (c # cs) = bindR (Server_onReceive s c) (\<lambda>s. Server_receives s cs)"

lemma receiveLoop_partial:
  assumes "wfRpc m" "k < length (Rpc_Payload m)"
  shows "receiveLoop f (take k (Rpc_Payload m)) st = Inr (take k (Rpc_Payload m), st)"
proof (cases "k < 8")
  case True
  then show ?thesis using assms(2) by (subst receiveLoop.simps) simp
next
  case False
  have "ExtractInteger (take k (Rpc_Payload m)) 4 = ExtractInteger (Rpc_Payload m) 4"
    using Extract_length_append [of "take k (Rpc_Payload m)" "drop k (Rpc_Payload m)"] False assms(2) by simp
  moreover have "ExtractInteger (Rpc_Payload m) 4 = Inr (Rpc_Length m, 8)"
    using MessageLength_Payload [of m "Rpc_Length m" "mRpcPayload m"] by (simp add: Rpc_Payload_def)
  moreover have "length (Rpc_Payload m) = 8 + unat (Rpc_Length m)"
    using unat_Rpc_Length [OF assms(1)] by (simp add: length_Rpc_Payload)
  ultimately show ?thesis using False assms(2) by (subst receiveLoop.simps) (simp add: Let_def)
qed

lemma serverProcess_wf:
  "wfRpc m \<Longrightarrow> serverProcess srv (Rpc_Payload m) (q, st) =
     (case answer srv m st of
        (Inl e, st) \<Rightarrow> if e = Out_of_range then Inr (q, st) else Inl e
      | (Inr resp, st) \<Rightarrow> Inr (snd (TryEnqueue q resp), st))"
  by (auto simp: serverProcess_def TryInvokeHandler_def rpc.parse_exact split: sum.splits prod.splits)

lemma receiveLoop_requests:
  "\<lbrakk> list_all wfRpc ms; respondAll srv ms st = Inr (resps, st') \<rbrakk> \<Longrightarrow>
     receiveLoop (serverProcess srv) (concat (map Rpc_Payload ms)) (q, st) =
       Inr ([], fold (\<lambda>x q. snd (TryEnqueue q x)) resps q, st')"
proof (induction ms arbitrary: q st resps)
  case (Cons m ms)
  obtain a st1 where an: "answer srv m st = (a, st1)" by fastforce
  have fr: "receiveLoop (serverProcess srv) (concat (map Rpc_Payload (m # ms))) (q, st) =
      bindR (serverProcess srv (Rpc_Payload m) (q, st))
        (receiveLoop (serverProcess srv) (concat (map Rpc_Payload ms)))"
    using Cons.prems(1) by (simp add: receiveLoop_frame)
  have sp: "serverProcess srv (Rpc_Payload m) (q, st) =
      (case a of Inl e \<Rightarrow> if e = Out_of_range then Inr (q, st1) else Inl e
               | Inr resp \<Rightarrow> Inr (snd (TryEnqueue q resp), st1))"
    using Cons.prems(1) by (simp add: serverProcess_wf an)
  show ?case
  proof (cases a)
    case (Inl e)
    with Cons.prems an have "e = Out_of_range" "respondAll srv ms st1 = Inr (resps, st')"
      by (auto split: if_splits)
    with Cons.IH [of st1 resps q] Cons.prems(1) Inl show ?thesis unfolding fr sp by simp
  next
    case (Inr resp)
    with Cons.prems an obtain resps1 where
      r: "respondAll srv ms st1 = Inr (resps1, st')" "resps = resp # resps1"
      by (auto simp: bindR_eq_Inr)
    with Cons.IH [of st1 resps1 "snd (TryEnqueue q resp)"] Cons.prems(1) Inr
    show ?thesis unfolding fr sp by simp
  qed
qed (simp add: receiveLoop_Nil)

lemma Server_receives_feed:
  assumes "feed (serverProcess (rpcServer s)) cs (sReceiveBuffer s) (sSendingQueue s, environment s)
      = Inr (buf, q, env)"
    and "[] \<notin> set cs"
  shows "Server_receives s cs =
    Inr (s\<lparr> sReceiveBuffer := buf, sSendingQueue := q, environment := env \<rparr>)"
  using assms
proof (induction cs arbitrary: s)
  case (Cons c cs)
  from Cons.prems obtain b1 q1 e1 where
    l: "receiveLoop (serverProcess (rpcServer s)) (sReceiveBuffer s @ c) (sSendingQueue s, environment s)
        = Inr (b1, q1, e1)"
    and f: "feed (serverProcess (rpcServer s)) cs b1 (q1, e1) = Inr (buf, q, env)"
    by (auto simp: bindR_eq_Inr)
  define s1 where "s1 = s\<lparr> sReceiveBuffer := b1, sSendingQueue := q1, environment := e1 \<rparr>"
  have o: "Server_onReceive s c = Inr s1"
    using Cons.prems(2) l by (auto simp: Server_onReceive_def s1_def)
  have "Server_receives s1 cs =
      Inr (s1\<lparr> sReceiveBuffer := buf, sSendingQueue := q, environment := env \<rparr>)"
    by (rule Cons.IH) (use f Cons.prems(2) in \<open>simp_all add: s1_def\<close>)
  then show ?case by (simp add: o) (simp add: s1_def)
qed simp

section \<open>Properties\<close>

text \<open>C3: however TCP cuts the stream of requests into chunks, a server that starts with an empty
  reassembly buffer enqueues exactly the responses to the requests, in their order, runs the handlers
  once per request in that order, and ends with an empty buffer.\<close>

theorem rpc_stream_any_chunks:
  assumes "list_all wfRpc ms" "[] \<notin> set chunks"
    and "concat chunks = concat (map Rpc_Payload ms)"
    and "sReceiveBuffer s = []" "queueInv (sSendingQueue s)" "\<not> mLocked (sSendingQueue s)"
    and "respondAll (rpcServer s) ms (environment s) = Inr (resps, env)"
  shows "\<exists>s'. Server_receives s chunks = Inr s' \<and> sReceiveBuffer s' = [] \<and> environment s' = env \<and>
    mQueue (sSendingQueue s') = mQueue (sSendingQueue s) @ resps"
proof -
  define q' where "q' = fold (\<lambda>x q. snd (TryEnqueue q x)) resps (sSendingQueue s)"
  have "receiveLoop (serverProcess (rpcServer s)) ([] @ concat chunks) (sSendingQueue s, environment s)
      = Inr ([], q', env)"
    using receiveLoop_requests [OF assms(1,7), of "sSendingQueue s"] assms(3) by (simp add: q'_def)
  from feed_concat [OF receiveLoop_Nil this]
  have "Server_receives s chunks = Inr (s\<lparr> sReceiveBuffer := [], sSendingQueue := q', environment := env \<rparr>)"
    using assms(2,4) by (intro Server_receives_feed) simp_all
  moreover have "mQueue q' = mQueue (sSendingQueue s) @ resps"
    using cq.enq_all [OF assms(5,6), of resps] by (simp add: q'_def Let_def)
  ultimately show ?thesis by simp
qed

definition echoServer :: "nat RpcServer" where
  "echoServer = Server_SetHandler (newRpcServer 1 1) 0x10 1 (\<lambda>xs n. (Inr (True, xs), n + 1))"

lemma echoServer_validate:
  "mMessageType m = Request \<Longrightarrow> mProtocolVersion m = 1 \<Longrightarrow> mInterfaceVersion m = 1 \<Longrightarrow>
     mMessageId m = 0x100001 \<Longrightarrow> answer echoServer m n =
       (getResponsePayload echoServer m eOK (mRpcPayload m), n + 1)"
  by (simp add: answer_def validate_def echoServer_def Server_SetHandler_def newRpcServer_def
      mkMessageId_def)

theorem rpc_stream_any_chunks_witness:
  "\<exists>s' resps. Server_receives \<lparr> rpcServer = echoServer, sReceiveBuffer = [], sSendingQueue = newQueue,
       mDisconnectHandler = None, environment = 0 \<rparr>
     [take 5 (Rpc_Payload (withRpcPayload (mkSomeIpMessage 0x100001 2 3 1 1 Request eOK) [9])),
      drop 5 (Rpc_Payload (withRpcPayload (mkSomeIpMessage 0x100001 2 3 1 1 Request eOK) [9]))] = Inr s' \<and>
     sReceiveBuffer s' = [] \<and> environment s' = 1 \<and> mQueue (sSendingQueue s') = resps \<and> length resps = 1"
proof -
  define m where "m = withRpcPayload (mkSomeIpMessage 0x100001 2 3 1 1 Request eOK) [9 :: u8]"
  have wf: "list_all wfRpc [m]"
    by (simp add: m_def wfRpc_def wfHeader_def rpc_fields MessageType_cast_def ReturnCode_cast_def)
  have l: "length (Rpc_Payload m) = 17" by (simp add: length_Rpc_Payload m_def rpc_fields)
  obtain resp where "getResponsePayload echoServer m eOK (mRpcPayload m) = Inr resp"
    by (simp add: getResponsePayload_def newRpcResponse_ok)
  then have r: "respondAll echoServer [m] 0 = Inr ([resp], 1)"
    using echoServer_validate [of m 0] by (simp add: m_def rpc_fields)
  show ?thesis
    using rpc_stream_any_chunks [of "[m]" "[take 5 (Rpc_Payload m), drop 5 (Rpc_Payload m)]"
        "\<lparr> rpcServer = echoServer, sReceiveBuffer = [], sSendingQueue = newQueue,
           mDisconnectHandler = None, environment = 0 \<rparr>" "[resp]" 1] wf l r
    unfolding m_def [symmetric] by (force simp: newQueue_def queueInv_def)
qed

text \<open>C33: a response the server produces for a request it could parse is itself a well-formed RPC
  message that echoes message, client and session identifier, carries the server's versions, is of
  type Error exactly when its return code is not eOK, and its code is eOK exactly when the request
  passed validation and its handler accepted it; a request that fails validation never reaches a
  handler.\<close>

theorem rpc_server_response:
  assumes "Rpc_Deserialize payload = Inr req"
    and "TryInvokeHandler srv payload st = (Inr (Some resp), st')"
    and "length resp < 2 ^ 32"
  shows "\<exists>r. Rpc_Deserialize resp = Inr r \<and>
    mMessageId r = mMessageId req \<and> mClientId r = mClientId req \<and> mSessionId r = mSessionId req \<and>
    mProtocolVersion r = sProtocolVersion srv \<and> mInterfaceVersion r = sInterfaceVersion srv \<and>
    mMessageType r = (if mReturnCode r = eOK then Response else Error) \<and>
    (mReturnCode r = eOK \<longleftrightarrow> validate srv req = eOK \<and>
       (\<exists>h pdu. sHandlers srv (mMessageId req) = Some h \<and> h (mRpcPayload req) st = (Inr (True, pdu), st'))) \<and>
    (validate srv req \<noteq> eOK \<longrightarrow> mReturnCode r = validate srv req \<and> st' = st)"
proof -
  have an: "answer srv req st = (Inr resp, st')"
    using assms(1,2) by (auto simp: TryInvokeHandler_def split: sum.splits prod.splits if_splits)
  have wfc: "ReturnCode_cast (ReturnCode_byte (validate srv req)) = validate srv req"
    by (simp add: validate_def ReturnCode_cast_def)
  have parse: "\<exists>r. Rpc_Deserialize resp = Inr r \<and> r = withRpcPayload (mkSomeIpMessage (mMessageId req)
        (mClientId req) (mSessionId req) (sProtocolVersion srv) (sInterfaceVersion srv)
        (if rc = eOK then Response else Error) rc) pdu"
    if "getResponsePayload srv req rc pdu = Inr resp"
      "rc \<in> {validate srv req, eOK, eNotOk, eUnknownMethod}" for rc pdu
  proof -
    define m where "m = withRpcPayload (mkSomeIpMessage (mMessageId req) (mClientId req)
        (mSessionId req) (sProtocolVersion srv) (sInterfaceVersion srv)
        (if rc = eOK then Response else Error) rc) pdu"
    have rm: "resp = Rpc_Payload m"
      using that(1) by (simp add: getResponsePayload_def newRpcResponse_ok m_def)
    have "wfHeader m" using that(2) wfc
      by (auto simp: m_def wfHeader_def rpc_fields MessageType_cast_def ReturnCode_cast_def)
    then have "wfRpc m" using assms(3) by (simp add: wfRpc_def rm length_Rpc_Payload)
    then show ?thesis using rpc.parse_exact by (simp add: rm m_def)
  qed
  show ?thesis
  proof (cases "validate srv req = eOK")
    case False
    then have "getResponsePayload srv req (validate srv req) [] = Inr resp" "st' = st"
      using an by (simp_all add: answer_def Let_def)
    with parse [OF this(1)] False show ?thesis by (auto simp: rpc_fields)
  next
    case True
    show ?thesis
    proof (cases "sHandlers srv (mMessageId req)")
      case None
      then have "getResponsePayload srv req eUnknownMethod [] = Inr resp"
        using an True by (simp add: answer_def Let_def)
      with parse [OF this] True None show ?thesis by (auto simp: rpc_fields)
    next
      case (Some h)
      then obtain handled pdu where h: "h (mRpcPayload req) st = (Inr (handled, pdu), st')"
        and g: "getResponsePayload srv req (if handled then eOK else eNotOk) pdu = Inr resp"
        using an True by (auto simp: answer_def Let_def split: prod.splits sum.splits)
      show ?thesis using parse [OF g] True Some h by (cases handled) (auto simp: rpc_fields)
    qed
  qed
qed

theorem rpc_server_response_witness:
  "\<exists>resp r. TryInvokeHandler echoServer
       (Rpc_Payload (withRpcPayload (mkSomeIpMessage 0x100001 2 3 9 1 Request eOK) [9])) 0
       = (Inr (Some resp), 0) \<and>
     Rpc_Deserialize resp = Inr r \<and> mReturnCode r = eWrongProtocolVersion \<and> mSessionId r = 3"
proof -
  define m where "m = withRpcPayload (mkSomeIpMessage 0x100001 2 3 9 1 Request eOK) [9 :: u8]"
  have "wfRpc m"
    by (simp add: m_def wfRpc_def wfHeader_def rpc_fields MessageType_cast_def ReturnCode_cast_def)
  then have p: "Rpc_Deserialize (Rpc_Payload m) = Inr m" by (rule rpc.parse_exact)
  have v: "validate echoServer m = eWrongProtocolVersion"
    by (simp add: validate_def m_def rpc_fields echoServer_def Server_SetHandler_def newRpcServer_def)
  obtain resp where g: "getResponsePayload echoServer m eWrongProtocolVersion [] = Inr resp"
    and l: "length resp = 16"
    by (simp add: getResponsePayload_def newRpcResponse_ok length_Rpc_Payload rpc_fields)
  have t: "TryInvokeHandler echoServer (Rpc_Payload m) 0 = (Inr (Some resp), 0)"
    by (simp add: TryInvokeHandler_def p answer_def v g)
  from rpc_server_response [OF p t] l v show ?thesis
    unfolding m_def [symmetric] using t by (auto simp: m_def rpc_fields)
qed

section \<open>Session identifiers of a client\<close>

text \<open>A sequence of calls: service, method, client identifier and payload of each.\<close>

type_synonym rpcCall = "u16 \<times> u16 \<times> u16 \<times> bytes"

primrec sendAll :: "'h RpcClient \<Rightarrow> rpcCall list \<Rightarrow> bytes list res" where
  "sendAll c [] = Inr []"
| "sendAll c (x # xs) =
     (case x of (serviceId, methodId, clientId, rpcPayload) \<Rightarrow>
      bindR (Client_Send c serviceId methodId clientId rpcPayload) (\<lambda>(payload, c).
      bindR (sendAll c xs) (\<lambda>payloads. Inr (payload # payloads))))"

definition callId :: "rpcCall \<Rightarrow> u32" where
  "callId x = mkMessageId (fst x) (fst (snd x))"

definition sessionOf :: "'h RpcClient \<Rightarrow> u32 \<Rightarrow> u16" where
  "sessionOf c i = (case mSessionIds c i of Some n \<Rightarrow> n | None \<Rightarrow> 1)"

definition nthSession :: "nat \<Rightarrow> u16" where
  "nthSession k = word_of_nat (k mod 65535 + 1)"

lemma unat_nthSession: "unat (nthSession k) = k mod 65535 + 1"
proof -
  have "k mod 65535 < 65535" by simp
  then have "k mod 65535 + 1 < 2 ^ 16" by simp
  then show ?thesis
    by (simp only: nthSession_def unat_of_nat take_bit_nat_eq_self len_num1 len_bit0) simp
qed

lemma nthSession_Suc:
  "nthSession (Suc k) = (if nthSession k = 0xffff then 1 else nthSession k + 1)"
proof -
  have b: "k mod 65535 < 65535" by simp
  have "nthSession k = 0xffff \<longleftrightarrow> k mod 65535 = 65534"
    by (simp add: word_unat_eq_iff unat_nthSession)
  moreover have "Suc k mod 65535 = (if k mod 65535 = 65534 then 0 else k mod 65535 + 1)"
    using b by (simp add: mod_Suc)
  ultimately show ?thesis by (simp add: nthSession_def)
qed

lemma Client_Send_session:
  assumes "8 + length xs < 2 ^ 32"
  obtains p c' where "Client_Send c sid mid cid xs = Inr (p, c')"
    and "Rpc_Deserialize p = Inr (withRpcPayload (mkSomeIpMessage (mkMessageId sid mid) cid
      (sessionOf c (mkMessageId sid mid)) (cProtocolVersion c) (cInterfaceVersion c) Request eOK) xs)"
    and "\<And>i. sessionOf c' i = (if i = mkMessageId sid mid
      then (if sessionOf c i = 0xffff then 1 else sessionOf c i + 1) else sessionOf c i)"
proof -
  define m where "m = withRpcPayload (mkSomeIpMessage (mkMessageId sid mid) cid
      (sessionOf c (mkMessageId sid mid)) (cProtocolVersion c) (cInterfaceVersion c) Request eOK) xs"
  have "wfRpc m"
    using assms by (simp add: m_def wfRpc_def wfHeader_def rpc_fields MessageType_cast_def ReturnCode_cast_def)
  then have "Rpc_Deserialize (Rpc_Payload m) = Inr m" by (rule rpc.parse_exact)
  moreover have "Client_Send c sid mid cid xs = Inr (Rpc_Payload m, c\<lparr> mSessionIds := (mSessionIds c)
      (mkMessageId sid mid \<mapsto> mSessionId (snd (IncrementSessionId m))) \<rparr>)"
    by (simp add: Client_Send_def newRpcRequest_ok m_def sessionOf_def Let_def)
  ultimately show thesis
    by (intro that [of "Rpc_Payload m" "c\<lparr> mSessionIds := (mSessionIds c)
      (mkMessageId sid mid \<mapsto> mSessionId (snd (IncrementSessionId m))) \<rparr>"])
      (auto simp: m_def rpc_fields sessionOf_def IncrementSessionId_def)
qed

lemma sendAll_sessions:
  "\<lbrakk> \<And>i. sessionOf c i = nthSession (k i); \<forall>x\<in>set xs. 8 + length (snd (snd (snd x))) < 2 ^ 32;
     n < length xs \<rbrakk> \<Longrightarrow>
   \<exists>ps r. sendAll c xs = Inr ps \<and> length ps = length xs \<and> Rpc_Deserialize (ps ! n) = Inr r \<and>
     mMessageId r = callId (xs ! n) \<and>
     mSessionId r = nthSession (k (callId (xs ! n))
       + length (filter (\<lambda>x. callId x = callId (xs ! n)) (take n xs)))"
proof (induction xs arbitrary: c k n)
  case (Cons x xs)
  obtain sid mid cid pl where x: "x = (sid, mid, cid, pl)" by (cases x)
  let ?i = "mkMessageId sid mid"
  have "8 + length pl < 2 ^ 32" using Cons.prems(2) x by simp
  from Client_Send_session [OF this, of c sid mid cid] obtain p c' where
    snd: "Client_Send c sid mid cid pl = Inr (p, c')"
    and rd: "Rpc_Deserialize p = Inr (withRpcPayload (mkSomeIpMessage ?i cid (sessionOf c ?i)
      (cProtocolVersion c) (cInterfaceVersion c) Request eOK) pl)"
    and so: "\<And>i. sessionOf c' i = (if i = ?i
      then (if sessionOf c i = 0xffff then 1 else sessionOf c i + 1) else sessionOf c i)"
    by metis
  have k': "sessionOf c' i = nthSession ((k(?i := Suc (k ?i))) i)" for i
    using so [of i] Cons.prems(1) by (simp add: nthSession_Suc)
  have id: "callId x = ?i" by (simp add: x callId_def)
  have IH: "n' < length xs \<Longrightarrow> \<exists>ps r. sendAll c' xs = Inr ps \<and> length ps = length xs \<and>
      Rpc_Deserialize (ps ! n') = Inr r \<and> mMessageId r = callId (xs ! n') \<and>
      mSessionId r = nthSession ((k(?i := Suc (k ?i))) (callId (xs ! n'))
        + length (filter (\<lambda>x. callId x = callId (xs ! n')) (take n' xs)))" for n'
    using Cons.prems(2) by (intro Cons.IH k') simp_all
  have "\<exists>ps. sendAll c' xs = Inr ps \<and> length ps = length xs"
  proof (cases xs)
    case (Cons y ys) then show ?thesis using IH [of 0] by auto
  qed simp
  then obtain ps where ps: "sendAll c' xs = Inr ps" "length ps = length xs" by blast
  show ?case
  proof (cases n)
    case 0
    then show ?thesis using snd rd ps id Cons.prems(1) by (simp add: x rpc_fields)
  next
    case (Suc n')
    then show ?thesis using IH [of n'] Cons.prems(3) snd ps id by (auto simp: x)
  qed
qed simp

text \<open>In any interleaving of calls to any methods, the n-th call of a fresh client carries as its
  session identifier one plus the number of earlier calls of the same method modulo 65535: methods
  count independently, identifiers wrap from 65535 to 1 and are never zero.\<close>

lemma client_session_ids:
  assumes "\<forall>x\<in>set calls. 8 + length (snd (snd (snd x))) < 2 ^ 32" "n < length calls"
  shows "\<exists>ps r. sendAll (newRpcClient pv iv) calls = Inr ps \<and> Rpc_Deserialize (ps ! n) = Inr r \<and>
    mMessageId r = callId (calls ! n) \<and>
    unat (mSessionId r) =
      length (filter (\<lambda>x. callId x = callId (calls ! n)) (take n calls)) mod 65535 + 1"
proof -
  have "sessionOf (newRpcClient pv iv) i = nthSession ((\<lambda>_. 0) i)" for i
    by (simp add: sessionOf_def newRpcClient_def nthSession_def)
  from sendAll_sessions [of "newRpcClient pv iv" "\<lambda>_. 0", OF this assms] show ?thesis
    by (auto simp: unat_nthSession)
qed

section \<open>A call from the client to the server and back\<close>

text \<open>
  A call of an RPC method: the request the client sends, the response of the server, and the payload the
  handler of the client is given.
\<close>

definition rpcExchange ::
    "'s RpcServer \<Rightarrow> 'h RpcClient \<Rightarrow> u16 \<Rightarrow> u16 \<Rightarrow> u16 \<Rightarrow> bytes \<Rightarrow> 's \<Rightarrow> bytes option \<times> 's" where
  "rpcExchange srv c serviceId methodId clientId rpcPayload st =
     (case Client_Send c serviceId methodId clientId rpcPayload of
        Inl _ \<Rightarrow> (None, st)
      | Inr (request, c') \<Rightarrow>
          (case TryInvokeHandler srv request st of
             (Inr (Some response), st') \<Rightarrow>
               (case Client_InvokeHandler c' response of
                  Inr (Some (_, message)) \<Rightarrow> (Some (mRpcPayload message), st')
                | _ \<Rightarrow> (None, st'))
           | (_, st') \<Rightarrow> (None, st')))"

definition requestMessage :: "'h RpcClient \<Rightarrow> u16 \<Rightarrow> u16 \<Rightarrow> u16 \<Rightarrow> bytes \<Rightarrow> SomeIpRpcMessage" where
  "requestMessage c serviceId methodId clientId rpcPayload =
     withRpcPayload (mkSomeIpMessage (mkMessageId serviceId methodId) clientId
       (case mSessionIds c (mkMessageId serviceId methodId) of Some i \<Rightarrow> i | None \<Rightarrow> 1)
       (cProtocolVersion c) (cInterfaceVersion c) Request eOK) rpcPayload"

lemma requestMessage_fields [simp]:
  "mMessageId (requestMessage c s m i p) = mkMessageId s m" "mRpcPayload (requestMessage c s m i p) = p"
  "mProtocolVersion (requestMessage c s m i p) = cProtocolVersion c"
  "mInterfaceVersion (requestMessage c s m i p) = cInterfaceVersion c"
  "mMessageType (requestMessage c s m i p) = Request"
  by (simp_all add: requestMessage_def rpc_fields)

lemma wfRpc_requestMessage: "8 + length p < 2 ^ 32 \<Longrightarrow> wfRpc (requestMessage c s m i p)"
  by (simp add: wfRpc_def wfHeader_def requestMessage_def rpc_fields MessageType_cast_def ReturnCode_cast_def)

lemma Client_Send_requestMessage:
  "Client_Send c s m i p = Inr (Rpc_Payload (requestMessage c s m i p),
     c\<lparr> mSessionIds := (mSessionIds c)(mkMessageId s m \<mapsto>
          mSessionId (snd (IncrementSessionId (requestMessage c s m i p)))) \<rparr>)"
  by (simp add: Client_Send_def newRpcRequest_ok requestMessage_def Let_def)

text \<open>The answer to a well-formed request is a well-formed response with the same identifier.\<close>

lemma request_answered:
  assumes "wfRpc q" "answer srv q st = (getResponsePayload srv q rc pdu, st')"
    and "ReturnCode_cast (ReturnCode_byte rc) = rc" "8 + length pdu < 2 ^ 32"
  obtains r where "TryInvokeHandler srv (Rpc_Payload q) st = (Inr (Some (Rpc_Payload r)), st')" "wfRpc r"
    "mMessageId r = mMessageId q" "mRpcPayload r = pdu"
proof
  let ?r = "withRpcPayload (mkSomeIpMessage (mMessageId q) (mClientId q) (mSessionId q)
      (sProtocolVersion srv) (sInterfaceVersion srv) (if rc = eOK then Response else Error) rc) pdu"
  have "Rpc_Deserialize (Rpc_Payload q) = Inr q" by (rule rpc.parse_exact [OF assms(1)])
  then show "TryInvokeHandler srv (Rpc_Payload q) st = (Inr (Some (Rpc_Payload ?r)), st')"
    using assms(2) by (simp add: TryInvokeHandler_def getResponsePayload_def newRpcResponse_ok)
  show "wfRpc ?r" using assms(3,4) by (simp add: wfRpc_def wfHeader_def rpc_fields MessageType_cast_def)
qed (simp_all add: rpc_fields)

text \<open>An answer that is the payload of a well-formed response reaches the handler of the client.\<close>

lemma rpcExchange_answer:
  assumes "8 + length p < 2 ^ 32" "cHandlers c (mkMessageId s m) \<noteq> None"
    and "answer srv (requestMessage c s m i p) st = (getResponsePayload srv (requestMessage c s m i p) rc pdu, st')"
    and "ReturnCode_cast (ReturnCode_byte rc) = rc" "8 + length pdu < 2 ^ 32"
  shows "rpcExchange srv c s m i p st = (Some pdu, st')"
proof -
  obtain r where "TryInvokeHandler srv (Rpc_Payload (requestMessage c s m i p)) st =
      (Inr (Some (Rpc_Payload r)), st')" "wfRpc r" "mMessageId r = mkMessageId s m" "mRpcPayload r = pdu"
    using request_answered [OF wfRpc_requestMessage [OF assms(1)] assms(3-5)] by auto
  then show ?thesis
    using assms(2) by (auto simp: rpcExchange_def Client_Send_requestMessage Client_InvokeHandler_def rpc.parse_exact)
qed

section \<open>Draining the sending queue\<close>

lemma drainQueue_all:
  assumes "queueInv q" "\<not> mLocked q"
  shows "\<exists>q'. drainQueue q sent = Some (Inr (sent @ filter (\<lambda>p. p \<noteq> []) (mQueue q), q')) \<and>
    queueInv q' \<and> mQueue q' = []"
  using assms
proof (induction "mQueue q" arbitrary: q sent)
  case Nil
  then show ?case using cq.isEmpty_items [of q] by (subst drainQueue.simps) simp
next
  case (Cons x xs)
  from cq.deq_head [OF Cons.prems Cons.hyps(2) [symmetric]] obtain q' where
    d: "TryDequeue q = Inr (Some x, q')" "queueInv q'" "\<not> mLocked q'" "mQueue q' = xs" by blast
  have "\<not> Empty q" using cq.isEmpty_items [OF Cons.prems(1)] Cons.hyps(2) by auto
  with d Cons.hyps(1) [of q' "if x \<noteq> [] then sent @ [x] else sent"] show ?case
    by (subst drainQueue.simps) (auto simp: Cons.hyps(2) [symmetric])
qed

text \<open>A send callback that finds the queue consistent and its mutex free returns, hands every
  nonempty payload of the queue to the socket in the order it was enqueued, and leaves the queue
  empty.\<close>

lemma on_send_drains:
  assumes "queueInv q" "\<not> mLocked q"
  shows "\<exists>q'. drainQueue q [] = Some (Inr (filter (\<lambda>p. p \<noteq> []) (mQueue q), q')) \<and> mQueue q' = []"
  using drainQueue_all [OF assms, of "[]"] by auto

end
