(* ===== verification/PubSub.thy ===== *)
theory PubSub
  imports SdMessage ConcurrentQueue
begin

text \<open>
  \<open>ara/com/helper/{finite_state_machine,machine_state}.h\<close> and \<open>ara/com/someip/pubsub\<close>: the publisher
  with its three-state machine and subscription counter, the notification it puts on the wire, the
  event network layer that sends it and the event receiver that unpacks it. Operations return the
  new state beside the messages they hand to the network layer; an exception keeps the state the
  code had reached.
\<close>

section \<open>The state machine\<close>

text \<open>
  \<open>Transit\<close> of FiniteStateMachine: only the current state can leave for another one, whose
  \<open>Activate\<close> then runs.
\<close>

definition fsmTransit :: "('st \<Rightarrow> 'st \<Rightarrow> 'm \<Rightarrow> 'm) \<Rightarrow> 'st \<Rightarrow> 'st \<Rightarrow> 'st \<times> 'm \<Rightarrow> 'st \<times> 'm" where
  "fsmTransit activate previousState nextState machine =
     (if previousState = fst machine
      then (nextState, activate nextState previousState (snd machine))
      else machine)"

datatype PubSubState = ServiceDown | NotSubscribed | Subscribed

record PubSubServer =
  pMachine :: "PubSubState \<times> int"
  pEventLayer :: "bytes ConcurrentQueue option"
  pSessionId :: u16
  pServiceId :: u16
  pInstanceId :: u16
  pMajorVersion :: u8
  pEventgroupId :: u16
  pEndpointIp :: Ipv4Address
  pEndpointPort :: u16

text \<open>The second component of the machine is \<open>mSubscriptionCounter\<close>, an \<open>int32_t\<close>.\<close>

definition pubActivate :: "PubSubState \<Rightarrow> PubSubState \<Rightarrow> int \<Rightarrow> int" where
  "pubActivate nextState previousState counter = (if nextState = Subscribed then 1 else counter)"

definition Pub_GetState :: "PubSubServer \<Rightarrow> PubSubState" where
  "Pub_GetState srv = fst (pMachine srv)"

definition pubTransit :: "PubSubState \<Rightarrow> PubSubState \<Rightarrow> PubSubServer \<Rightarrow> PubSubServer" where
  "pubTransit previousState nextState srv =
     srv\<lparr> pMachine := fsmTransit pubActivate previousState nextState (pMachine srv) \<rparr>"

definition newPubSubServer ::
    "u16 \<Rightarrow> u16 \<Rightarrow> u8 \<Rightarrow> u16 \<Rightarrow> Ipv4Address \<Rightarrow> u16 \<Rightarrow> int \<Rightarrow> PubSubServer" where
  "newPubSubServer serviceId instanceId majorVersion eventgroupId ip port uninitialised =
     \<lparr> pMachine = (ServiceDown, pubActivate ServiceDown ServiceDown uninitialised), pEventLayer = None,
       pSessionId = 1, pServiceId = serviceId, pInstanceId = instanceId, pMajorVersion = majorVersion,
       pEventgroupId = eventgroupId, pEndpointIp = ip, pEndpointPort = port \<rparr>"

text \<open>\<open>SubscribedState\<close>: the counter is a signed 32-bit integer, its overflow is undefined.\<close>

definition Subscribed_Subscribed :: "PubSubServer \<Rightarrow> PubSubServer res" where
  "Subscribed_Subscribed srv =
     (if snd (pMachine srv) = 2 ^ 31 - 1 then Inl Undefined
      else Inr (srv\<lparr> pMachine := (fst (pMachine srv), snd (pMachine srv) + 1) \<rparr>))"

definition Subscribed_Unsubscribed :: "PubSubServer \<Rightarrow> PubSubServer" where
  "Subscribed_Unsubscribed srv =
     (let srv = srv\<lparr> pMachine := (fst (pMachine srv), snd (pMachine srv) - 1) \<rparr>
      in if snd (pMachine srv) \<le> 0 then pubTransit Subscribed NotSubscribed srv else srv)"

definition Pub_Start :: "PubSubServer \<Rightarrow> PubSubServer" where
  "Pub_Start srv =
     (if Pub_GetState srv = ServiceDown then pubTransit ServiceDown NotSubscribed srv else srv)"

definition Pub_Stop :: "PubSubServer \<Rightarrow> PubSubServer" where
  "Pub_Stop srv =
     (if Pub_GetState srv = NotSubscribed then pubTransit NotSubscribed ServiceDown srv
      else if Pub_GetState srv = Subscribed then pubTransit Subscribed ServiceDown srv
      else srv)"

section \<open>Subscriptions\<close>

definition acknowledgement :: "PubSubServer \<Rightarrow> PubSubState \<Rightarrow> EntryBase \<Rightarrow> u8 \<Rightarrow> u16 \<Rightarrow> SomeIpSdMessage res" where
  "acknowledgement srv state b counter eventgroupId =
     bindR newSdMessage (\<lambda>acknowledgeMessage.
     bindR (if state = ServiceDown then CreateNegativeAcknowledgeEntry b counter eventgroupId
            else CreateAcknowledgeEntry b counter eventgroupId) (\<lambda>acknowledgeEntry.
     bindR (if state \<noteq> ServiceDown
            then bindR (CreateMulticastEndpoint True (pEndpointIp srv) (pEndpointPort srv))
                   (AddFirstOption acknowledgeEntry)
            else Inr acknowledgeEntry) (\<lambda>acknowledgeEntry.
       Inr (AddEntry acknowledgeMessage acknowledgeEntry))))"

definition processEntry ::
    "PubSubServer \<Rightarrow> EntryBase \<Rightarrow> u8 \<Rightarrow> u16 \<Rightarrow> PubSubServer \<times> SomeIpSdMessage list res" where
  "processEntry srv b counter eventgroupId =
     (let state = Pub_GetState srv in
      case (if state = NotSubscribed then Inr (pubTransit NotSubscribed Subscribed srv)
            else if state = Subscribed then Subscribed_Subscribed srv
            else Inr srv) of
        Inl e \<Rightarrow> (srv, Inl e)
      | Inr srv \<Rightarrow>
          (srv, bindR (acknowledgement srv state b counter eventgroupId) (\<lambda>m. Inr [m])))"

definition matchesSubscription :: "PubSubServer \<Rightarrow> EntryBase \<Rightarrow> u16 \<Rightarrow> bool" where
  "matchesSubscription srv b eventgroupId \<longleftrightarrow>
     mServiceId b = pServiceId srv \<and>
     (mInstanceId b = 0xffff \<or> mInstanceId b = pInstanceId srv) \<and>
     (mMajorVersion b = 0xff \<or> mMajorVersion b = pMajorVersion srv) \<and>
     eventgroupId = pEventgroupId srv"

fun pubEntries :: "PubSubServer \<Rightarrow> Entry list \<Rightarrow> PubSubServer \<times> SomeIpSdMessage list res" where
  "pubEntries srv [] = (srv, Inr [])"
| "pubEntries srv (ServiceEntry b minor # es) = pubEntries srv es"
| "pubEntries srv (EventgroupEntry b counter eventgroupId # es) =
     (if eType b = Subscribing \<and> matchesSubscription srv b eventgroupId
      then (if mTTL b > 0 then processEntry srv b counter eventgroupId
            else (if Pub_GetState srv = Subscribed then Subscribed_Unsubscribed srv else srv, Inr []))
      else pubEntries srv es)"

definition Pub_onMessageReceived ::
    "PubSubServer \<Rightarrow> SomeIpSdMessage \<Rightarrow> PubSubServer \<times> SomeIpSdMessage list res" where
  "Pub_onMessageReceived srv message = pubEntries srv (mEntries message)"

section \<open>Notifications\<close>

definition notification :: "PubSubServer \<Rightarrow> u16 \<Rightarrow> bytes \<Rightarrow> bytes" where
  "notification srv eventId payload =
     (let messageId = push_bit 16 (ucast (pServiceId srv)) OR ucast eventId;
          len = word_of_nat (8 + length payload);
          result = Inject32 [] messageId;
          result = Inject32 result len;
          result = Inject16 result 0;
          result = Inject16 result (pSessionId srv);
          result = result @ [1];
          result = result @ [pMajorVersion srv];
          result = result @ [0x02];
          result = result @ [0x00]
      in result @ payload)"

definition Publish :: "PubSubServer \<Rightarrow> u16 \<Rightarrow> bytes \<Rightarrow> PubSubServer" where
  "Publish srv eventId payload =
     (case pEventLayer srv of
        None \<Rightarrow> srv
      | Some queue \<Rightarrow>
          if Pub_GetState srv \<noteq> Subscribed then srv
          else (let n = notification srv eventId payload;
                    sessionId = (if pSessionId srv + 1 = 0 then 1 else pSessionId srv + 1)
                in srv\<lparr> pSessionId := sessionId, pEventLayer := Some (snd (TryEnqueue queue n)) \<rparr>))"

definition SetEventLayer :: "PubSubServer \<Rightarrow> bytes ConcurrentQueue option \<Rightarrow> PubSubServer" where
  "SetEventLayer srv eventLayer = srv\<lparr> pEventLayer := eventLayer \<rparr>"

text \<open>
  The event network layer copies a queued notification into a zeroed buffer of 256 bytes and sends
  the whole buffer; a longer notification is copied beyond the buffer.
\<close>

definition cEventBufferSize :: nat where "cEventBufferSize = 256"

definition eventDatagram :: "bytes \<Rightarrow> bytes res" where
  "eventDatagram payload =
     (if length payload \<le> cEventBufferSize
      then Inr (payload @ replicate (cEventBufferSize - length payload) 0)
      else Inl Undefined)"

text \<open>
  The event receiver: what \<open>Receive\<close> put in its buffer, cut to the received size, is passed on without
  the header unless it is a service-discovery message.
\<close>

definition Event_onReceive :: "bytes \<Rightarrow> bytes option" where
  "Event_onReceive received =
     (if length received > 16
      then (if (push_bit 8 (ucast (received ! 0)) OR ucast (received ! 1) :: u16) = 0xffff then None
            else Some (drop 16 received))
      else None)"

section \<open>What the publisher counts\<close>

text \<open>
  The abstract view: \<open>None\<close> while the service is down, otherwise the number of subscribers. Of a
  message only the first subscription that matches the server counts.
\<close>

definition subscribers :: "PubSubServer \<Rightarrow> nat option" where
  "subscribers srv =
     (case Pub_GetState srv of
        ServiceDown \<Rightarrow> None
      | NotSubscribed \<Rightarrow> Some 0
      | Subscribed \<Rightarrow> Some (nat (snd (pMachine srv))))"

definition pubInv :: "PubSubServer \<Rightarrow> bool" where
  "pubInv srv \<longleftrightarrow> (Pub_GetState srv = Subscribed \<longrightarrow> 1 \<le> snd (pMachine srv))"

datatype PubSubEvent = EvStart | EvStop | EvMessage SomeIpSdMessage | EvPublish u16 bytes

fun pubStep :: "PubSubEvent \<Rightarrow> PubSubServer \<Rightarrow> PubSubServer" where
  "pubStep EvStart srv = Pub_Start srv"
| "pubStep EvStop srv = Pub_Stop srv"
| "pubStep (EvMessage m) srv = fst (Pub_onMessageReceived srv m)"
| "pubStep (EvPublish eventId payload) srv = Publish srv eventId payload"

fun isSubscription :: "PubSubServer \<Rightarrow> Entry \<Rightarrow> bool" where
  "isSubscription srv (ServiceEntry b minor) \<longleftrightarrow> False"
| "isSubscription srv (EventgroupEntry b counter eventgroupId) \<longleftrightarrow>
     eType b = Subscribing \<and> matchesSubscription srv b eventgroupId"

fun countStep :: "PubSubServer \<Rightarrow> PubSubEvent \<Rightarrow> nat option \<Rightarrow> nat option" where
  "countStep srv EvStart n = (case n of None \<Rightarrow> Some 0 | Some k \<Rightarrow> Some k)"
| "countStep srv EvStop n = None"
| "countStep srv (EvMessage m) n =
     (case find (isSubscription srv) (mEntries m) of
        None \<Rightarrow> n
      | Some e \<Rightarrow> map_option (\<lambda>k. if mTTL (base e) > 0 then k + 1 else k - 1) n)"
| "countStep srv (EvPublish eventId payload) n = n"

text \<open>The identity of the server, which no operation changes.\<close>

definition sameServer :: "PubSubServer \<Rightarrow> PubSubServer \<Rightarrow> bool" where
  "sameServer a b \<longleftrightarrow> pServiceId a = pServiceId b \<and> pInstanceId a = pInstanceId b \<and>
     pMajorVersion a = pMajorVersion b \<and> pEventgroupId a = pEventgroupId b"

lemmas pub_defs = Pub_GetState_def pubTransit_def fsmTransit_def pubActivate_def
  Subscribed_Subscribed_def Subscribed_Unsubscribed_def Pub_Start_def Pub_Stop_def processEntry_def

lemma sameServer_isSubscription: "sameServer a b \<Longrightarrow> isSubscription a e = isSubscription b e"
  by (cases e) (auto simp: sameServer_def matchesSubscription_def)

lemma sameServer_countStep: "sameServer a b \<Longrightarrow> countStep a ev n = countStep b ev n"
  using sameServer_isSubscription [of a b]
  by (cases ev) (simp_all add: fun_eq_iff cong: find_cong)

lemma processEntry_abs:
  assumes "pubInv srv" "subscribers srv \<noteq> Some (2 ^ 31 - 1)"
  shows "subscribers (fst (processEntry srv b counter eg)) = map_option Suc (subscribers srv) \<and>
    pubInv (fst (processEntry srv b counter eg)) \<and> sameServer (fst (processEntry srv b counter eg)) srv"
proof (cases "Pub_GetState srv")
  case Subscribed
  then have "snd (pMachine srv) \<noteq> 2 ^ 31 - 1" "1 \<le> snd (pMachine srv)"
    using assms by (auto simp: subscribers_def pubInv_def)
  with Subscribed show ?thesis
    by (auto simp: pub_defs subscribers_def pubInv_def sameServer_def Let_def nat_add_distrib)
qed (auto simp: pub_defs subscribers_def pubInv_def sameServer_def Let_def)

lemma Unsubscribed_abs:
  assumes "pubInv srv"
  shows "let srv' = (if Pub_GetState srv = Subscribed then Subscribed_Unsubscribed srv else srv) in
    subscribers srv' = map_option (\<lambda>k. k - 1) (subscribers srv) \<and> pubInv srv' \<and> sameServer srv' srv"
  using assms
  by (cases "Pub_GetState srv")
    (auto simp: pub_defs subscribers_def pubInv_def sameServer_def Let_def nat_diff_distrib)

lemma pubEntries_abs:
  assumes "pubInv srv" "subscribers srv \<noteq> Some (2 ^ 31 - 1)"
  shows "subscribers (fst (pubEntries srv es)) =
      (case find (isSubscription srv) es of
         None \<Rightarrow> subscribers srv
       | Some e \<Rightarrow> map_option (\<lambda>k. if mTTL (base e) > 0 then k + 1 else k - 1) (subscribers srv)) \<and>
    pubInv (fst (pubEntries srv es)) \<and> sameServer (fst (pubEntries srv es)) srv"
  using assms
proof (induction srv es rule: pubEntries.induct)
  case (3 srv b counter eg es)
  show ?case
  proof (cases "eType b = Subscribing \<and> matchesSubscription srv b eg")
    case True
    then show ?thesis
      using processEntry_abs [OF "3.prems", of b counter eg] Unsubscribed_abs [OF "3.prems"(1)]
      by (simp add: Let_def)
  next
    case False
    then show ?thesis using 3 by auto
  qed
qed (simp_all add: sameServer_def)

lemma pubStep_abs:
  assumes "pubInv srv" "subscribers srv \<noteq> Some (2 ^ 31 - 1)"
  shows "subscribers (pubStep ev srv) = countStep srv ev (subscribers srv) \<and>
    pubInv (pubStep ev srv) \<and> sameServer (pubStep ev srv) srv"
proof (cases ev)
  case (EvMessage m)
  then show ?thesis using pubEntries_abs [OF assms] by (simp add: Pub_onMessageReceived_def)
next
  case (EvPublish i p)
  then show ?thesis
    using assms by (auto simp: Publish_def subscribers_def pubInv_def sameServer_def Pub_GetState_def
        Let_def split: option.splits)
qed (use assms in \<open>auto simp: pub_defs subscribers_def pubInv_def sameServer_def split: PubSubState.splits\<close>)

lemma countStep_bound: "countStep srv ev n = Some k \<Longrightarrow> (case n of None \<Rightarrow> 0 | Some m \<Rightarrow> m) + 1 \<ge> k"
  by (cases ev; cases n) (auto split: option.splits if_splits)

lemma pubRun_abs:
  "\<lbrakk> pubInv srv; (case subscribers srv of None \<Rightarrow> 0 | Some m \<Rightarrow> m) + length evs < 2 ^ 31 - 1 \<rbrakk> \<Longrightarrow>
     subscribers (fold pubStep evs srv) = fold (countStep srv) evs (subscribers srv) \<and>
     pubInv (fold pubStep evs srv)"
proof (induction evs arbitrary: srv)
  case (Cons ev evs)
  have ne: "subscribers srv \<noteq> Some (2 ^ 31 - 1)" using Cons.prems(2) by (auto split: option.splits)
  note st = pubStep_abs [OF Cons.prems(1) ne, of ev]
  have bd: "(case subscribers (pubStep ev srv) of None \<Rightarrow> 0 | Some m \<Rightarrow> m) + length evs < 2 ^ 31 - 1"
    using Cons.prems(2) st countStep_bound [of srv ev "subscribers srv"]
    by (cases "subscribers (pubStep ev srv)"; cases "subscribers srv") force+
  have "countStep (pubStep ev srv) = countStep srv"
    using st sameServer_countStep by (auto simp: fun_eq_iff)
  with Cons.IH [OF _ bd] st show ?case by simp
qed simp

section \<open>Properties\<close>

text \<open>C23: through any sequence of starts, stops, publications and received messages the publisher is
  in the state Subscribed exactly when it is up and the subscriptions it accepted outnumber the
  unsubscriptions, and its counter is that number: the three-state machine with its counter refines a
  count of subscribers that every stop forgets and that never falls below zero.\<close>

theorem pubsub_counts_subscribers:
  assumes "length evs < 2 ^ 31 - 1"
  shows "subscribers (fold pubStep evs (newPubSubServer sid iid maj eg ip port u)) =
      fold (countStep (newPubSubServer sid iid maj eg ip port u)) evs None \<and>
    (Pub_GetState (fold pubStep evs (newPubSubServer sid iid maj eg ip port u)) = Subscribed \<longleftrightarrow>
      (\<exists>k > 0. fold (countStep (newPubSubServer sid iid maj eg ip port u)) evs None = Some k))"
proof -
  let ?s = "newPubSubServer sid iid maj eg ip port u"
  have "pubInv ?s" "subscribers ?s = None"
    by (simp_all add: newPubSubServer_def pubInv_def subscribers_def Pub_GetState_def)
  with pubRun_abs [of ?s evs] assms
  have r: "subscribers (fold pubStep evs ?s) = fold (countStep ?s) evs None"
    "pubInv (fold pubStep evs ?s)" by simp_all
  then show ?thesis
    by (simp flip: r(1)) (auto simp: subscribers_def pubInv_def split: PubSubState.splits)
qed

definition subscribeMessage :: "SomeIpSdMessage" where
  "subscribeMessage = SomeIpMessage.extend (mkSomeIpMessage 0xffff8100 0 1 1 1 Notification eOK)
     \<lparr> mRebooted = True, mEntries = [EventgroupEntry (mkEntryBase Subscribing 7 1 0xffffff 1) 0 3] \<rparr>"

theorem pubsub_counts_subscribers_witness:
  "Pub_GetState (fold pubStep [EvStart, EvMessage subscribeMessage, EvMessage subscribeMessage]
     (newPubSubServer 7 1 1 3 (mkIpv4 224 0 0 1) 5555 0)) = Subscribed"
  using pubsub_counts_subscribers [of "[EvStart, EvMessage subscribeMessage, EvMessage subscribeMessage]"
      7 1 1 3 "mkIpv4 224 0 0 1" 5555 0]
  by (simp add: subscribeMessage_def SomeIpMessage.defs newPubSubServer_def matchesSubscription_def
      mkEntryBase_def)

text \<open>A matching subscription is answered by one message with one acknowledgement that repeats
  the identifiers and the counter of the request: negative and without options when the service is
  down, otherwise with the time to live of the request and the multicast endpoint of the server, which
  is then in state Subscribed.\<close>

lemma subscription_acknowledged:
  assumes "mEntries m = EventgroupEntry b counter eg # es" "eType b = Subscribing" "0 < mTTL b"
    and "matchesSubscription srv b eg" "counter \<le> 0x0f"
    and "224 \<le> octet0 (pEndpointIp srv)" "octet0 (pEndpointIp srv) \<le> 239"
    and "snd (pMachine srv) < 2 ^ 31 - 1"
  shows "\<exists>ack b'. snd (Pub_onMessageReceived srv m) = Inr [ack] \<and>
    mEntries ack = [EventgroupEntry b' counter eg] \<and> eType b' = Acknowledging \<and>
    mServiceId b' = mServiceId b \<and> mInstanceId b' = mInstanceId b \<and> mSecondOptions b' = [] \<and>
    (if Pub_GetState srv = ServiceDown
     then mTTL b' = 0 \<and> mFirstOptions b' = [] \<and>
          Pub_GetState (fst (Pub_onMessageReceived srv m)) = ServiceDown
     else mTTL b' = mTTL b \<and>
          mFirstOptions b' = [Ipv4EndpointOption IPv4Multicast True (pEndpointIp srv) Udp (pEndpointPort srv)] \<and>
          Pub_GetState (fst (Pub_onMessageReceived srv m)) = Subscribed)"
proof -
  have c: "\<not> 0x0f < counter" using assms(5) by simp
  have oct: "\<not> (octet0 (pEndpointIp srv) < 224 \<or> 239 < octet0 (pEndpointIp srv))"
    using assms(6,7) by (simp add: not_less)
  have tr: "pEndpointIp (pubTransit p n srv) = pEndpointIp srv"
    "pEndpointPort (pubTransit p n srv) = pEndpointPort srv" for p n
    by (simp_all add: pubTransit_def)
  have "snd (Pub_onMessageReceived srv m) = snd (processEntry srv b counter eg)"
    "fst (Pub_onMessageReceived srv m) = fst (processEntry srv b counter eg)"
    using assms(1-4) by (simp_all add: Pub_onMessageReceived_def)
  then show ?thesis
    using assms(3,8) c oct
    by (cases "Pub_GetState srv")
      (auto simp: pub_defs acknowledgement_def newSdMessage_ok entry_factories CreateMulticastEndpoint_def
        AddFirstOption_def Entry_ValidateOption_def ContainsOption_def isAcknowledge_def AddEntry_def
        mkEntryBase_def SomeIpMessage.defs Let_def)
qed

lemma notification_bytes:
  "\<exists>h. notification srv eventId payload =
     [ucast (drop_bit 8 (pServiceId srv)), ucast (pServiceId srv)] @ h @ payload \<and> length h = 14"
proof -
  have hi: "ucast (drop_bit 24 (push_bit 16 (ucast (pServiceId srv)) OR ucast eventId :: u32)) =
      (ucast (drop_bit 8 (pServiceId srv)) :: u8)"
    "ucast (drop_bit 16 (push_bit 16 (ucast (pServiceId srv)) OR ucast eventId :: u32)) =
      (ucast (pServiceId srv) :: u8)"
    by (auto intro!: bit_word_eqI simp: bit_simps bit_u16_high)
  show ?thesis
    by (simp add: notification_def Let_def Inject32_be32 Inject16_be16)
      (simp add: be32_def be16_def hi del: drop_bit_or)
qed

text \<open>A publication of at most 240 bytes of any service but the discovery service reaches the
  callback of an event receiver complete and followed by zeros up to 240 bytes; a longer publication
  overruns the send buffer.\<close>

lemma publication_received:
  assumes "pServiceId srv \<noteq> 0xffff"
  shows "bindR (eventDatagram (notification srv eventId payload)) (\<lambda>d. Inr (Event_onReceive d)) =
    (if length payload \<le> 240 then Inr (Some (payload @ replicate (240 - length payload) 0))
     else Inl Undefined)"
proof -
  obtain h where n: "notification srv eventId payload =
      [ucast (drop_bit 8 (pServiceId srv)), ucast (pServiceId srv)] @ h @ payload" "length h = 14"
    using notification_bytes by blast
  have "join16 (ucast (drop_bit 8 (pServiceId srv))) (ucast (pServiceId srv)) = pServiceId srv"
    by simp
  with assms have "(push_bit 8 (ucast (ucast (drop_bit 8 (pServiceId srv)) :: u8))
      OR ucast (ucast (pServiceId srv) :: u8) :: u16) \<noteq> 0xffff"
    by (simp add: join16_def)
  then show ?thesis
    using n by (auto simp: eventDatagram_def cEventBufferSize_def Event_onReceive_def)
qed

end
