(* ===== verification/SdServer.thy ===== *)
theory SdServer
  imports SdMessage PubSub
begin

text \<open>
  \<open>ara/com/someip/sd/someip_sd_server.cpp\<close> and the server states under \<open>sd/fsm\<close>: the agent that
  offers a service. The states run on one asynchronous thread that sleeps in \<open>WaitFor\<close>; between two
  sleeps nothing else happens, so the model has one step per event: the owner starts, requests a stop
  or joins, a message arrives, or the current sleep ends (\<open>EvTimer\<close>). \<open>sdThread\<close> is where the thread
  sleeps. How long a sleep takes is not modelled. Every sent message is appended to \<open>sdSent\<close>. The
  queue of matching find messages is an atomic list: both of its users retry until they hold its lock.
\<close>

section \<open>State\<close>

datatype SdServerState = NotReady | InitialWaitPhase | RepetitionPhase | MainPhase

datatype SdThread = NoThread | SleepInitial | SleepRepetition nat | SleepMain | Finished

record SdServer =
  sdState :: SdServerState
  sdThread :: SdThread
  sdStopped :: "SdServerState \<Rightarrow> bool"
  sdBuffer :: "SomeIpSdMessage list"
  sdSent :: "SomeIpSdMessage list"
  mOfferServiceMessage :: SomeIpSdMessage
  mStopOfferMessage :: SomeIpSdMessage
  sdServiceId :: u16
  sdInstanceId :: u16
  sdMajorVersion :: u8
  sdMinorVersion :: u32
  sdRepetitionMax :: nat

definition newSdServer ::
    "u16 \<Rightarrow> u16 \<Rightarrow> u8 \<Rightarrow> u32 \<Rightarrow> Ipv4Address \<Rightarrow> u16 \<Rightarrow> int \<Rightarrow> int \<Rightarrow> int \<Rightarrow> int \<Rightarrow> u32 \<Rightarrow> SdServer res" where
  "newSdServer serviceId instanceId majorVersion minorVersion ip port initialDelayMin initialDelayMax
       repetitionBaseDelay cycleOfferDelay repetitionMax =
     bindR (guardR (\<not> (initialDelayMin < 0 \<or> initialDelayMax < 0 \<or> initialDelayMin > initialDelayMax))
              Invalid_argument) (\<lambda>_.
     bindR (guardR (\<not> repetitionBaseDelay < 0) Invalid_argument) (\<lambda>_.
     bindR (guardR (\<not> cycleOfferDelay < 0) Invalid_argument) (\<lambda>_.
     bindR newSdMessage (\<lambda>offerMessage.
     bindR newSdMessage (\<lambda>stopMessage.
     bindR (CreateOfferServiceEntry serviceId instanceId majorVersion minorVersion 0xffffff) (\<lambda>offerEntry.
     bindR (AddFirstOption offerEntry (CreateUnitcastEndpoint False ip Tcp port)) (\<lambda>offerEntry.
     bindR (AddFirstOption (CreateStopOfferEntry serviceId instanceId majorVersion minorVersion)
              (CreateUnitcastEndpoint False ip Tcp port)) (\<lambda>stopEntry.
       Inr \<lparr> sdState = NotReady, sdThread = NoThread, sdStopped = (\<lambda>_. False), sdBuffer = [],
             sdSent = [], mOfferServiceMessage = AddEntry offerMessage offerEntry,
             mStopOfferMessage = AddEntry stopMessage stopEntry, sdServiceId = serviceId,
             sdInstanceId = instanceId, sdMajorVersion = majorVersion, sdMinorVersion = minorVersion,
             sdRepetitionMax = unat repetitionMax \<rparr>))))))))"

section \<open>Messages\<close>

fun matchOfferingService :: "SdServer \<Rightarrow> Entry list \<Rightarrow> bool" where
  "matchOfferingService s [] = False"
| "matchOfferingService s (ServiceEntry b minor # es) =
     (if eType b = Finding
      then mServiceId b = sdServiceId s \<and>
           (mInstanceId b = 0xffff \<or> mInstanceId b = sdInstanceId s) \<and>
           (mMajorVersion b = 0xff \<or> mMajorVersion b = sdMajorVersion s) \<and>
           (minor = 0xffffffff \<or> minor = sdMinorVersion s)
      else matchOfferingService s es)"
| "matchOfferingService s (EventgroupEntry b counter eventgroupId # es) = matchOfferingService s es"

definition receiveFind :: "SdServer \<Rightarrow> SomeIpSdMessage \<Rightarrow> SdServer" where
  "receiveFind s message =
     (if matchOfferingService s (mEntries message)
      then s\<lparr> sdBuffer := sdBuffer s @ [message] \<rparr> else s)"

definition sendOfferOnce :: "SdServer \<Rightarrow> SdServer" where
  "sendOfferOnce s =
     s\<lparr> sdBuffer := tl (sdBuffer s), sdSent := sdSent s @ [mOfferServiceMessage s],
        mOfferServiceMessage := snd (Sd_IncrementSessionId (mOfferServiceMessage s)) \<rparr>"

definition sendOffer :: "SdServer \<Rightarrow> SdServer" where
  "sendOffer s = (sendOfferOnce ^^ length (sdBuffer s)) s"

definition onServiceStopped :: "SdServer \<Rightarrow> SdServer" where
  "onServiceStopped s =
     s\<lparr> sdSent := sdSent s @ [mStopOfferMessage s],
        mStopOfferMessage := snd (Sd_IncrementSessionId (mStopOfferMessage s)) \<rparr>"

section \<open>The states of the machine\<close>

text \<open>
  \<open>Transit\<close> of a state: \<open>Deactivate\<close> clears the stop flag of the state that is left, then the machine
  moves if that state is the current one. The activations below call each other in this order only.
\<close>

definition leave :: "SdServerState \<Rightarrow> SdServerState \<Rightarrow> (SdServer \<Rightarrow> SdServer) \<Rightarrow> SdServer \<Rightarrow> SdServer" where
  "leave current nextState activate s =
     (let s = (if current = NotReady then s else s\<lparr> sdStopped := (sdStopped s)(current := False) \<rparr>)
      in if sdState s = current then activate (s\<lparr> sdState := nextState \<rparr>)
         else s\<lparr> sdThread := Finished \<rparr>)"

definition activateNotReady :: "SdServer \<Rightarrow> SdServer" where
  "activateNotReady s = (onServiceStopped s)\<lparr> sdThread := Finished \<rparr>"

definition activateMain :: "SdServer \<Rightarrow> SdServer" where
  "activateMain s =
     (if \<not> sdStopped s MainPhase then s\<lparr> sdThread := SleepMain \<rparr> else s\<lparr> sdThread := Finished \<rparr>)"

definition leaveMain :: "SdServer \<Rightarrow> SdServer" where
  "leaveMain s = leave MainPhase NotReady activateNotReady s"

definition leaveRepetition :: "SdServer \<Rightarrow> SdServer" where
  "leaveRepetition s =
     (if sdStopped s RepetitionPhase then leave RepetitionPhase NotReady activateNotReady s
      else leave RepetitionPhase MainPhase activateMain s)"

definition activateRepetition :: "SdServer \<Rightarrow> SdServer" where
  "activateRepetition s =
     (if \<not> sdStopped s RepetitionPhase
      then (if 0 < sdRepetitionMax s then s\<lparr> sdThread := SleepRepetition 0 \<rparr> else leaveRepetition s)
      else s\<lparr> sdThread := Finished \<rparr>)"

definition leaveInitial :: "SdServer \<Rightarrow> SdServer" where
  "leaveInitial s =
     (if sdStopped s InitialWaitPhase then leave InitialWaitPhase NotReady activateNotReady s
      else leave InitialWaitPhase RepetitionPhase activateRepetition s)"

definition activateInitial :: "SdServer \<Rightarrow> SdServer" where
  "activateInitial s =
     (if \<not> sdStopped s InitialWaitPhase then s\<lparr> sdThread := SleepInitial \<rparr>
      else s\<lparr> sdThread := Finished \<rparr>)"

text \<open>The end of a sleep, in each place where the thread can sleep.\<close>

definition wakeUp :: "SdServer \<Rightarrow> SdServer" where
  "wakeUp s =
     (case sdThread s of
        SleepInitial \<Rightarrow>
          leaveInitial (if sdStopped s InitialWaitPhase then s else sendOffer s)
      | SleepRepetition i \<Rightarrow>
          if sdStopped s RepetitionPhase then leaveRepetition s
          else (let s = sendOffer s
                in if i + 1 < sdRepetitionMax s then s\<lparr> sdThread := SleepRepetition (i + 1) \<rparr>
                   else leaveRepetition s)
      | SleepMain \<Rightarrow> if sdStopped s MainPhase then leaveMain s else sendOffer s
      | _ \<Rightarrow> s)"

section \<open>The agent\<close>

definition Sd_Start :: "SdServer \<Rightarrow> SdServer res" where
  "Sd_Start s =
     (if sdThread s \<noteq> NoThread then Inl Logic_error
      else Inr (if sdState s = NotReady then leave NotReady InitialWaitPhase activateInitial s else s))"

text \<open>\<open>Stop\<close> raises the three stop flags and then joins the thread.\<close>

definition requestStop :: "SdServer \<Rightarrow> SdServer" where
  "requestStop s =
     s\<lparr> sdStopped := (sdStopped s)(InitialWaitPhase := True, RepetitionPhase := True, MainPhase := True) \<rparr>"

definition Sd_Join :: "SdServer \<Rightarrow> SdServer" where
  "Sd_Join s = (if sdThread s = Finished then s\<lparr> sdThread := NoThread \<rparr> else s)"

datatype SdEvent = EvSdStart | EvFind SomeIpSdMessage | EvTimer | EvStopRequest | EvJoin

fun sdStep :: "SdEvent \<Rightarrow> SdServer \<Rightarrow> SdServer" where
  "sdStep EvSdStart s = (case Sd_Start s of Inl e \<Rightarrow> s | Inr s \<Rightarrow> s)"
| "sdStep (EvFind m) s = receiveFind s m"
| "sdStep EvTimer s = wakeUp s"
| "sdStep EvStopRequest s = requestStop s"
| "sdStep EvJoin s = Sd_Join s"

section \<open>Every find is answered once\<close>

definition isOffer :: "SomeIpSdMessage \<Rightarrow> bool" where
  "isOffer m \<longleftrightarrow> mTTL (base (hd (mEntries m))) \<noteq> 0"

definition offersOwed :: "SdServer \<Rightarrow> nat" where
  "offersOwed s = length (filter isOffer (sdSent s)) + length (sdBuffer s)"

definition sdInv :: "SdServer \<Rightarrow> bool" where
  "sdInv s \<longleftrightarrow> isOffer (mOfferServiceMessage s) \<and> \<not> isOffer (mStopOfferMessage s)"

text \<open>What an operation that only serves the buffer keeps: the invariant, the debt and the identity.\<close>

definition serves :: "SdServer \<Rightarrow> SdServer \<Rightarrow> bool" where
  "serves s s' \<longleftrightarrow> (sdInv s \<longrightarrow> sdInv s') \<and> (sdInv s \<longrightarrow> offersOwed s' = offersOwed s) \<and>
     (\<forall>es. matchOfferingService s' es = matchOfferingService s es)"

lemma serves_refl [simp]: "serves s s"
  by (simp add: serves_def)

lemma serves_trans: "serves s s' \<Longrightarrow> serves s' s'' \<Longrightarrow> serves s s''"
  by (auto simp: serves_def)

lemma matchOffering_cong:
  "\<lbrakk> sdServiceId s' = sdServiceId s; sdInstanceId s' = sdInstanceId s;
     sdMajorVersion s' = sdMajorVersion s; sdMinorVersion s' = sdMinorVersion s \<rbrakk> \<Longrightarrow>
     matchOfferingService s' es = matchOfferingService s es"
  by (induction s es rule: matchOfferingService.induct) simp_all

lemma serves_control [simp]:
  "serves s (s'\<lparr> sdThread := t \<rparr>) = serves s s'"
  "serves s (s'\<lparr> sdState := st \<rparr>) = serves s s'"
  "serves s (s'\<lparr> sdStopped := f \<rparr>) = serves s s'"
proof -
  have m: "matchOfferingService (s'\<lparr> sdThread := t \<rparr>) es = matchOfferingService s' es"
    "matchOfferingService (s'\<lparr> sdState := st \<rparr>) es = matchOfferingService s' es"
    "matchOfferingService (s'\<lparr> sdStopped := f \<rparr>) es = matchOfferingService s' es" for es
    by (rule matchOffering_cong; simp)+
  show "serves s (s'\<lparr> sdThread := t \<rparr>) = serves s s'" "serves s (s'\<lparr> sdState := st \<rparr>) = serves s s'"
    "serves s (s'\<lparr> sdStopped := f \<rparr>) = serves s s'"
    by (simp_all add: serves_def m sdInv_def offersOwed_def)
qed

lemma Sd_Increment_entries [simp]: "mEntries (snd (Sd_IncrementSessionId m)) = mEntries m"
  by (simp add: Sd_IncrementSessionId_def IncrementSessionId_def)

lemma sendOfferOnce_serves: "sdBuffer s \<noteq> [] \<Longrightarrow> serves s (sendOfferOnce s)"
  using matchOffering_cong [of "sendOfferOnce s" s]
  by (cases "sdBuffer s")
    (auto simp: serves_def sendOfferOnce_def sdInv_def offersOwed_def isOffer_def)

lemma sendOffer_serves: "serves s (sendOffer s) \<and> sdBuffer (sendOffer s) = []"
proof -
  have "length (sdBuffer s) = n \<Longrightarrow>
      serves s ((sendOfferOnce ^^ n) s) \<and> sdBuffer ((sendOfferOnce ^^ n) s) = []" for n
  proof (induction n arbitrary: s)
    case (Suc n)
    then have "sdBuffer s \<noteq> []" "length (sdBuffer (sendOfferOnce s)) = n"
      by (auto simp: sendOfferOnce_def)
    with Suc.IH [of "sendOfferOnce s"] sendOfferOnce_serves serves_trans show ?case
      by (simp add: funpow_swap1) blast
  qed simp
  then show ?thesis by (simp add: sendOffer_def)
qed

lemma sendOffer_keeps [simp]:
  "sdState (sendOffer s) = sdState s" "sdStopped (sendOffer s) = sdStopped s"
  "sdRepetitionMax (sendOffer s) = sdRepetitionMax s" "sdThread (sendOffer s) = sdThread s"
proof -
  have "sdState ((sendOfferOnce ^^ n) s) = sdState s \<and> sdStopped ((sendOfferOnce ^^ n) s) = sdStopped s \<and>
      sdRepetitionMax ((sendOfferOnce ^^ n) s) = sdRepetitionMax s \<and>
      sdThread ((sendOfferOnce ^^ n) s) = sdThread s" for n
    by (induction n) (simp_all add: sendOfferOnce_def)
  then show "sdState (sendOffer s) = sdState s" "sdStopped (sendOffer s) = sdStopped s"
    "sdRepetitionMax (sendOffer s) = sdRepetitionMax s" "sdThread (sendOffer s) = sdThread s"
    by (simp_all add: sendOffer_def)
qed

lemma onServiceStopped_serves: "serves s (onServiceStopped s)"
  using matchOffering_cong [of "onServiceStopped s" s]
  by (auto simp: serves_def onServiceStopped_def sdInv_def offersOwed_def isOffer_def)

lemma leave_serves:
  assumes "\<And>s. serves s (activate s)"
  shows "serves s (leave c n activate s)"
proof -
  have "serves s (s\<lparr> sdStopped := f, sdState := n \<rparr>)" "serves s (s\<lparr> sdState := n \<rparr>)" for f by simp_all
  from this [THEN serves_trans, OF assms] show ?thesis by (auto simp: leave_def Let_def)
qed

lemma activate_serves:
  "serves s (activateNotReady s)" "serves s (activateMain s)" "serves s (leaveMain s)"
  "serves s (leaveRepetition s)" "serves s (activateRepetition s)" "serves s (leaveInitial s)"
  "serves s (activateInitial s)"
proof -
  have n: "serves s (activateNotReady s)" for s
    using onServiceStopped_serves by (simp add: activateNotReady_def)
  have m: "serves s (activateMain s)" for s by (simp add: activateMain_def)
  have r: "serves s (leaveRepetition s)" for s by (simp add: leaveRepetition_def leave_serves n m)
  have a: "serves s (activateRepetition s)" for s by (simp add: activateRepetition_def r)
  show "serves s (activateNotReady s)" "serves s (activateMain s)" "serves s (leaveMain s)"
    "serves s (leaveRepetition s)" "serves s (activateRepetition s)" "serves s (leaveInitial s)"
    "serves s (activateInitial s)"
    by (simp_all add: n m r a leaveMain_def leaveInitial_def activateInitial_def leave_serves)
qed

lemma wakeUp_serves: "serves s (wakeUp s)"
  using sendOffer_serves [of s] activate_serves
  by (auto simp: wakeUp_def Let_def split: SdThread.splits intro: serves_trans)

definition matchingFinds :: "SdServer \<Rightarrow> SdEvent list \<Rightarrow> nat" where
  "matchingFinds s evs =
     length (filter (\<lambda>ev. case ev of EvFind m \<Rightarrow> matchOfferingService s (mEntries m) | _ \<Rightarrow> False) evs)"

lemma sdRun_offers:
  "sdInv s \<Longrightarrow> sdInv (fold sdStep evs s) \<and>
     offersOwed (fold sdStep evs s) = offersOwed s + matchingFinds s evs"
proof (induction evs arbitrary: s)
  case (Cons ev evs)
  show ?case
  proof (cases "\<exists>m. ev = EvFind m \<and> matchOfferingService s (mEntries m)")
    case True
    then obtain m where ev: "ev = EvFind m" and mt: "matchOfferingService s (mEntries m)" by blast
    define s' where "s' = receiveFind s m"
    have s': "sdInv s'" "offersOwed s' = offersOwed s + 1"
      and mc: "matchOfferingService s' es = matchOfferingService s es" for es
      using Cons.prems mt matchOffering_cong [of s' s es]
      by (simp_all add: s'_def receiveFind_def sdInv_def offersOwed_def)
    have "matchingFinds s' evs = matchingFinds s evs" by (simp add: matchingFinds_def mc cong: SdEvent.case_cong)
    with Cons.IH [OF s'(1)] s'(2) mt show ?thesis by (simp add: ev s'_def matchingFinds_def)
  next
    case False
    have "serves s (sdStep ev s)"
      using False wakeUp_serves [of s]
      by (cases ev) (auto simp: Sd_Start_def receiveFind_def requestStop_def Sd_Join_def
          leave_serves activate_serves)
    then have "sdInv (sdStep ev s)" "offersOwed (sdStep ev s) = offersOwed s"
      "matchingFinds (sdStep ev s) evs = matchingFinds s evs"
      using Cons.prems by (simp_all add: serves_def matchingFinds_def cong: SdEvent.case_cong)
    moreover have "matchingFinds s (ev # evs) = matchingFinds s evs"
      using False by (cases ev) (simp_all add: matchingFinds_def)
    ultimately show ?thesis using Cons.IH [of "sdStep ev s"] by simp
  qed
qed (simp add: matchingFinds_def)

section \<open>Properties\<close>

lemma newSdServer_ok:
  assumes "newSdServer sid iid maj minor ip port dmin dmax rbase cyc rep = Inr s"
  shows "sdInv s \<and> sdState s = NotReady \<and> sdThread s = NoThread \<and> sdStopped s = (\<lambda>_. False) \<and>
    sdBuffer s = [] \<and> sdSent s = [] \<and> sdRepetitionMax s = unat rep"
  using assms
  by (auto simp: newSdServer_def bindR_eq_Inr newSdMessage_ok entry_factories AddFirstOption_def
      CreateUnitcastEndpoint_def AddEntry_def sdInv_def isOffer_def mkEntryBase_def SomeIpMessage.defs
      split: if_splits)

text \<open>C22: whatever the owner does and whenever messages arrive and sleeps end, the service-discovery
  server has sent at any time one offer for each find message that matched its service, less those
  still waiting in its buffer: no offer without a matching find, and none twice.\<close>

theorem sd_server_one_offer_per_find:
  assumes "newSdServer sid iid maj minor ip port dmin dmax rbase cyc rep = Inr s"
  shows "length (filter isOffer (sdSent (fold sdStep evs s))) + length (sdBuffer (fold sdStep evs s)) =
    matchingFinds s evs"
proof -
  from newSdServer_ok [OF assms] have "sdInv s" "offersOwed s = 0" by (simp_all add: offersOwed_def)
  with sdRun_offers [of s evs] show ?thesis by (simp add: offersOwed_def)
qed

text \<open>The phases of a server that is started and never stopped.\<close>

definition isTimer :: "SdEvent \<Rightarrow> bool" where
  "isTimer ev \<longleftrightarrow> (case ev of EvTimer \<Rightarrow> True | _ \<Rightarrow> False)"

definition isWaiting :: "SdEvent \<Rightarrow> bool" where
  "isWaiting ev \<longleftrightarrow> (case ev of EvTimer \<Rightarrow> True | EvFind m \<Rightarrow> True | _ \<Rightarrow> False)"

definition phaseAfter :: "nat \<Rightarrow> nat \<Rightarrow> SdServerState \<times> SdThread" where
  "phaseAfter repMax n =
     (if n = 0 then (InitialWaitPhase, SleepInitial)
      else if n \<le> repMax then (RepetitionPhase, SleepRepetition (n - 1))
      else (MainPhase, SleepMain))"

lemma waiting_step:
  assumes "(sdState s, sdThread s) = phaseAfter (sdRepetitionMax s) n" "sdStopped s = (\<lambda>_. False)"
    and "isWaiting ev"
  shows "(sdState (sdStep ev s), sdThread (sdStep ev s)) =
      phaseAfter (sdRepetitionMax s) (if isTimer ev then n + 1 else n) \<and>
    sdStopped (sdStep ev s) = (\<lambda>_. False) \<and> sdRepetitionMax (sdStep ev s) = sdRepetitionMax s"
proof (cases ev)
  case (EvFind m)
  then show ?thesis using assms by (auto simp: receiveFind_def isTimer_def)
next
  case EvTimer
  consider "n = 0" | "1 \<le> n" "n \<le> sdRepetitionMax s" | "sdRepetitionMax s < n" "n \<noteq> 0" by linarith
  then show ?thesis
    using assms EvTimer
    by cases (auto simp: phaseAfter_def isTimer_def wakeUp_def leaveInitial_def leave_def Let_def
        activateRepetition_def leaveRepetition_def activateMain_def fun_eq_iff)
qed (use assms in \<open>simp_all add: isWaiting_def\<close>)

lemma waiting_run:
  "\<lbrakk> (sdState s, sdThread s) = phaseAfter (sdRepetitionMax s) n; sdStopped s = (\<lambda>_. False);
     list_all isWaiting evs \<rbrakk> \<Longrightarrow>
   (sdState (fold sdStep evs s), sdThread (fold sdStep evs s)) =
     phaseAfter (sdRepetitionMax s) (n + length (filter isTimer evs))"
proof (induction evs arbitrary: s n)
  case (Cons ev evs)
  then have "isWaiting ev" by simp
  from waiting_step [OF Cons.prems(1,2) this] Cons.IH [of "sdStep ev s" "if isTimer ev then n + 1 else n"]
    Cons.prems(3) show ?case by (cases "isTimer ev") auto
qed simp

text \<open>A started server that nobody stops is, after n ended sleeps, in the initial wait phase for n
  = 0, in its n-th repetition up to the configured maximum, and in the main phase for good afterwards,
  whatever find messages arrive meanwhile.\<close>

lemma sd_server_phases:
  assumes "newSdServer sid iid maj minor ip port dmin dmax rbase cyc rep = Inr s"
    and "list_all isWaiting evs"
  shows "sdState (fold sdStep (EvSdStart # evs) s) =
    (let n = length (filter isTimer evs) in
     if n = 0 then InitialWaitPhase else if n \<le> unat rep then RepetitionPhase else MainPhase)"
proof -
  note s = newSdServer_ok [OF assms(1)]
  define s1 where "s1 = sdStep EvSdStart s"
  have "(sdState s1, sdThread s1) = phaseAfter (sdRepetitionMax s1) 0" "sdStopped s1 = (\<lambda>_. False)"
    "sdRepetitionMax s1 = unat rep"
    using s by (simp_all add: s1_def Sd_Start_def leave_def activateInitial_def phaseAfter_def)
  moreover have "fold sdStep (EvSdStart # evs) s = fold sdStep evs s1" by (simp add: s1_def)
  ultimately show ?thesis
    using waiting_run [of s1 0 evs] assms(2)
    by (auto simp: phaseAfter_def Let_def simp del: fold_simps split: if_splits)
qed

text \<open>A server that is stopped in its main phase says so with one stop-offer message, but never
  works again: the stop flags of the phases it was not in stay raised, so that after the next start it
  rests in the initial wait phase for ever, sends nothing whatever arrives, and refuses further starts.\<close>

lemma sd_server_never_restarts:
  assumes "sdState s = MainPhase" "sdThread s = SleepMain"
  shows "let s' = fold sdStep [EvStopRequest, EvTimer, EvJoin, EvSdStart] s in
    sdSent s' = sdSent s @ [mStopOfferMessage s] \<and>
    sdState (fold sdStep evs s') = InitialWaitPhase \<and> sdSent (fold sdStep evs s') = sdSent s'"
proof -
  define s' where "s' = fold sdStep [EvStopRequest, EvTimer, EvJoin, EvSdStart] s"
  have s': "sdSent s' = sdSent s @ [mStopOfferMessage s]" "sdState s' = InitialWaitPhase"
    "sdThread s' \<in> {NoThread, Finished}"
    using assms
    by (simp_all add: s'_def requestStop_def wakeUp_def leaveMain_def leave_def activateNotReady_def
        onServiceStopped_def Sd_Join_def Sd_Start_def activateInitial_def Let_def)
  have "sdState t = InitialWaitPhase \<Longrightarrow> sdThread t \<in> {NoThread, Finished} \<Longrightarrow>
      sdState (fold sdStep evs t) = InitialWaitPhase \<and> sdSent (fold sdStep evs t) = sdSent t" for t
  proof (induction evs arbitrary: t)
    case (Cons ev evs)
    then have "sdState (sdStep ev t) = InitialWaitPhase \<and> sdThread (sdStep ev t) \<in> {NoThread, Finished}
        \<and> sdSent (sdStep ev t) = sdSent t"
      by (cases ev) (auto simp: receiveFind_def wakeUp_def requestStop_def Sd_Join_def Sd_Start_def)
    with Cons.IH [of "sdStep ev t"] show ?case by simp
  qed simp
  from this [OF s'(2,3)] s'(1) show ?thesis unfolding s'_def [symmetric] Let_def by simp
qed

definition exampleServer :: "SdServer res" where
  "exampleServer = newSdServer 7 1 1 0 (mkIpv4 10 0 0 1) 80 0 10 5 20 1"

definition exampleFind :: SomeIpSdMessage where
  "exampleFind = SomeIpMessage.extend (mkSomeIpMessage 0xffff8100 0 1 1 1 Notification eOK)
     \<lparr> mRebooted = True,
       mEntries = [ServiceEntry (mkEntryBase Finding 7 0xffff 0xffffff 0xff) 0xffffffff] \<rparr>"

lemma exampleServer_ok: "\<exists>s. exampleServer = Inr s"
  by (simp add: exampleServer_def newSdServer_def newSdMessage_ok entry_factories AddFirstOption_def
      CreateUnitcastEndpoint_def mkEntryBase_def Entry_ValidateOption_def)

lemma exampleServer_ids:
  "exampleServer = Inr s \<Longrightarrow> sdServiceId s = 7 \<and> sdInstanceId s = 1 \<and> sdMajorVersion s = 1"
  by (auto simp: exampleServer_def newSdServer_def bindR_eq_Inr)

theorem sd_server_one_offer_per_find_witness:
  "\<exists>s. exampleServer = Inr s \<and>
     length (filter isOffer (sdSent (fold sdStep [EvFind exampleFind, EvSdStart, EvTimer] s)))
       + length (sdBuffer (fold sdStep [EvFind exampleFind, EvSdStart, EvTimer] s)) = 1"
proof -
  obtain s where s: "exampleServer = Inr s" using exampleServer_ok by blast
  have "matchingFinds s [EvFind exampleFind, EvSdStart, EvTimer] = 1"
    using exampleServer_ids [OF s]
    by (simp add: matchingFinds_def exampleFind_def SomeIpMessage.defs mkEntryBase_def)
  with sd_server_one_offer_per_find [OF s [unfolded exampleServer_def], of "[EvFind exampleFind, EvSdStart, EvTimer]"] s
  show ?thesis by metis
qed

end
