(* ===== verification/UdsRouting.thy ===== *)
theory UdsRouting
  imports Payload
begin

text \<open>
  \<open>ara/diag/routing\<close> with \<open>ara/diag/{download,upload,meta_info}.cpp\<close>: the router of diagnostic
  requests and the memory transfer services (request download/upload, transfer data, transfer exit).
  A handler returns the response data of the promise it fulfils, or the exception it sets or throws.
  \<open>size_t\<close> is a 64-bit word. The interface between router and services is the locale
  \<open>uds_service\<close>.
\<close>

section \<open>Meta information and number parsing\<close>

datatype Context = kDiagnosticCommunication | kFaultMemory | kDoIP

record MetaInfo =
  miContext :: Context
  miKeyValues :: "string \<rightharpoonup> string"

definition SetValue :: "MetaInfo \<Rightarrow> string \<Rightarrow> string \<Rightarrow> MetaInfo" where
  "SetValue mi key val =
     (case miKeyValues mi key of
        Some _ \<Rightarrow> mi
      | None \<Rightarrow> mi\<lparr> miKeyValues := (miKeyValues mi)(key \<mapsto> val) \<rparr>)"

definition GetValue :: "MetaInfo \<Rightarrow> string \<Rightarrow> string option" where
  "GetValue mi key = miKeyValues mi key"

text \<open>\<open>std::stoi\<close>: leading blanks and a sign, then at least one digit.\<close>

definition stoi :: "string \<Rightarrow> int res" where
  "stoi s =
     (case dropWhile isSpace s of
        [] \<Rightarrow> Inl Invalid_argument
      | c # cs \<Rightarrow>
          let body = (if c = CHR ''-'' \<or> c = CHR ''+'' then cs else c # cs);
              ds = takeWhile isDigit body;
              val = (if c = CHR ''-'' then - digitsValue ds else digitsValue ds)
          in if ds = [] then Inl Invalid_argument
             else if val > 2 ^ 31 - 1 \<or> val < - (2 ^ 31) then Inl Out_of_range
             else Inr val)"

definition TryExtractByte :: "MetaInfo \<Rightarrow> string \<Rightarrow> u8 option res" where
  "TryExtractByte mi key =
     (case GetValue mi key of
        None \<Rightarrow> Inr None
      | Some valueStr \<Rightarrow> bindR (stoi valueStr) (\<lambda>valueInt. Inr (Some (word_of_int valueInt))))"

section \<open>Services and router\<close>

definition GenerateNegativeResponse :: "u8 \<Rightarrow> u8 \<Rightarrow> bytes" where
  "GenerateNegativeResponse sid nrc = [0x7f, sid, nrc]"

text \<open>
  A service as the router sees it: whether it is offered, and its handler. \<open>'s\<close> is the state of all
  services of a server, since some of them share state.
\<close>

record 's UdsService =
  usOffered :: "'s \<Rightarrow> bool"
  usHandle :: "bytes \<Rightarrow> 's \<Rightarrow> bytes res \<times> 's"

type_synonym 's UdsServiceRouter = "u8 \<rightharpoonup> 's UdsService"

definition AddService :: "'s UdsServiceRouter \<Rightarrow> u8 \<Rightarrow> 's UdsService \<Rightarrow> 's UdsServiceRouter" where
  "AddService services sid service = services(sid \<mapsto> service)"

definition RemoveService :: "'s UdsServiceRouter \<Rightarrow> u8 \<Rightarrow> 's UdsServiceRouter" where
  "RemoveService services sid = services(sid := None)"

definition Route :: "'s UdsServiceRouter \<Rightarrow> bytes \<Rightarrow> 's \<Rightarrow> bytes res \<times> 's" where
  "Route services requestData st =
     (case requestData of
        [] \<Rightarrow> (Inl Invalid_argument, st)
      | sid # _ \<Rightarrow>
          (case services sid of
             Some service \<Rightarrow>
               if usOffered service st then usHandle service requestData st
               else (Inr [0x7f, sid, 0x11], st)
           | None \<Rightarrow> (Inr [0x7f, sid, 0x11], st)))"

text \<open>Offering: a second \<open>Offer\<close> is an error and changes nothing.\<close>

definition Offer :: "bool \<Rightarrow> bool \<times> bool" where
  "Offer offered = (if offered then (False, offered) else (True, True))"

definition StopOffer :: "bool \<Rightarrow> bool" where
  "StopOffer offered = False"

section \<open>Transfer data\<close>

datatype TransferDirection = kNone | kDownload | kUpload

record TransferData =
  mTransferDirection :: TransferDirection
  mMemoryAddress :: u64
  mMemorySize :: u64
  mMemoryPool :: bytes
  mCurrentBlockSequenceCounter :: u8
  mNextBlockSequenceCounter :: u8

definition cMemoryPoolSize :: nat where "cMemoryPoolSize = 1024"

definition newTransferData :: "u64 \<Rightarrow> u64 \<Rightarrow> bytes \<Rightarrow> TransferData" where
  "newTransferData anyAddress anySize anyPool =
     \<lparr> mTransferDirection = kNone, mMemoryAddress = anyAddress, mMemorySize = anySize,
       mMemoryPool = anyPool, mCurrentBlockSequenceCounter = 1, mNextBlockSequenceCounter = 1 \<rparr>"

definition tryValidateSequenceCounter :: "TransferData \<Rightarrow> u8 \<Rightarrow> bool" where
  "tryValidateSequenceCounter td counter \<longleftrightarrow>
     counter = mCurrentBlockSequenceCounter td \<or> counter = mNextBlockSequenceCounter td"

text \<open>\<open>std::copy\<close> and the vector of a range read and write beyond a container without a check.\<close>

definition copyToPool :: "TransferData \<Rightarrow> bytes \<Rightarrow> bytes res" where
  "copyToPool td xs =
     (let address = unat (mMemoryAddress td); size = unat (mMemorySize td) in
      if size \<le> length xs \<and> address + size \<le> length (mMemoryPool td)
      then Inr (take address (mMemoryPool td) @ take size xs @ drop (address + size) (mMemoryPool td))
      else Inl Undefined)"

definition readFromPool :: "TransferData \<Rightarrow> bytes res" where
  "readFromPool td =
     (let address = unat (mMemoryAddress td); size = unat (mMemorySize td) in
      if address + size \<le> length (mMemoryPool td)
      then Inr (take size (drop address (mMemoryPool td)))
      else Inl Undefined)"

definition positiveTransfer :: "u8 \<Rightarrow> bytes \<Rightarrow> bytes" where
  "positiveTransfer blockSequenceCounter response = (0x36 + 0x40) # blockSequenceCounter # response"

text \<open>The response, whether the transfer succeeded, and the service afterwards.\<close>

definition tryTransfer ::
    "TransferData \<Rightarrow> u8 \<Rightarrow> bytes \<Rightarrow> (bytes \<times> bool \<times> TransferData) res" where
  "tryTransfer td blockSequenceCounter transferRequestParameterRecord =
     (case mTransferDirection td of
        kDownload \<Rightarrow>
          if tryValidateSequenceCounter td blockSequenceCounter
          then bindR (copyToPool td transferRequestParameterRecord) (\<lambda>pool.
                 Inr (positiveTransfer blockSequenceCounter [], True, td\<lparr> mMemoryPool := pool \<rparr>))
          else Inr (GenerateNegativeResponse 0x36 0x73, False, td)
      | kUpload \<Rightarrow>
          if tryValidateSequenceCounter td blockSequenceCounter
          then bindR (readFromPool td) (\<lambda>xs.
                 Inr (positiveTransfer blockSequenceCounter xs, True, td))
          else Inr (GenerateNegativeResponse 0x36 0x73, False, td)
      | kNone \<Rightarrow> Inr (GenerateNegativeResponse 0x36 0x24, False, td))"

definition TransferData_HandleMessage :: "bytes \<Rightarrow> TransferData \<Rightarrow> bytes res \<times> TransferData" where
  "TransferData_HandleMessage requestData td =
     (if length requestData > 1
      then (case tryTransfer td (requestData ! 1) (drop 2 requestData) of
              Inl e \<Rightarrow> (Inl e, td)
            | Inr (response, succeed, td) \<Rightarrow>
                (Inr response,
                 if succeed
                 then td\<lparr> mCurrentBlockSequenceCounter := requestData ! 1,
                          mNextBlockSequenceCounter := requestData ! 1 + 1 \<rparr>
                 else td))
      else (Inr (GenerateNegativeResponse 0x36 0x13), td))"

definition TrySetTransferConfiguration ::
    "TransferData \<Rightarrow> TransferDirection \<Rightarrow> u64 \<Rightarrow> u64 \<Rightarrow> bool \<times> TransferData" where
  "TrySetTransferConfiguration td transferDirection memoryAddress memorySize =
     (if transferDirection = kNone then (False, td)
      else if memoryAddress \<ge> 1024 then (False, td)
      else if memorySize = 0 \<or> memoryAddress + memorySize > 1024 then (False, td)
      else if mTransferDirection td \<noteq> kNone then (False, td)
      else (True, td\<lparr> mTransferDirection := transferDirection, mMemoryAddress := memoryAddress,
                      mMemorySize := memorySize \<rparr>))"

definition TryResetTransferConfiguration :: "TransferData \<Rightarrow> bool \<times> TransferData" where
  "TryResetTransferConfiguration td =
     (if mTransferDirection td = kNone then (False, td)
      else (True, td\<lparr> mTransferDirection := kNone, mCurrentBlockSequenceCounter := 1,
                      mNextBlockSequenceCounter := 1 \<rparr>))"

section \<open>Requesting and ending a transfer\<close>

definition TryParseRequest :: "bytes \<Rightarrow> (u8 \<times> u8 \<times> bytes) option" where
  "TryParseRequest requestData =
     (if length requestData > 3 then Some (requestData ! 1, requestData ! 2, drop 3 requestData)
      else None)"

definition TryParseLengthFormat :: "u8 \<Rightarrow> u8 \<Rightarrow> bytes \<Rightarrow> (u64 \<times> u64) option" where
  "TryParseLengthFormat dataFormatIdentifier addressAndLengthFormatIdentifier memoryAddressAndSize =
     (if dataFormatIdentifier \<noteq> 0x00 then None
      else (let addressLength = unat (addressAndLengthFormatIdentifier AND 0x0f);
                sizeLength = unat (drop_bit 4 addressAndLengthFormatIdentifier);
                totalLength = addressLength + sizeLength
            in if addressLength = 2 \<and> sizeLength = 2 \<and> length memoryAddressAndSize = totalLength
               then Some (push_bit 8 (ucast (memoryAddressAndSize ! 0)) OR ucast (memoryAddressAndSize ! 1),
                          push_bit 8 (ucast (memoryAddressAndSize ! 2)) OR ucast (memoryAddressAndSize ! 3))
               else None))"

text \<open>\<open>Inl\<close> is the code of the NrcException the future of the request rethrows.\<close>

definition RequestDataTransfer ::
    "TransferDirection \<Rightarrow> u8 \<Rightarrow> u8 \<Rightarrow> bytes \<Rightarrow> TransferData \<Rightarrow> (u8 + unit) \<times> TransferData" where
  "RequestDataTransfer direction dataFormatIdentifier addressAndLengthFormatIdentifier
       memoryAddressAndSize td =
     (case TryParseLengthFormat dataFormatIdentifier addressAndLengthFormatIdentifier
             memoryAddressAndSize of
        Some (memoryAddress, memorySize) \<Rightarrow>
          (case TrySetTransferConfiguration td direction memoryAddress memorySize of
             (True, td) \<Rightarrow> (Inr (), td)
           | (False, td) \<Rightarrow> (Inl 0x70, td))
      | None \<Rightarrow> (Inl 0x31, td))"

definition TryGeneratePositiveResponse :: "u8 \<Rightarrow> MetaInfo \<Rightarrow> bytes option res" where
  "TryGeneratePositiveResponse sid metaInfo =
     bindR (TryExtractByte metaInfo ''MaxNumberOfBlockLength'') (\<lambda>v.
       Inr (map_option (\<lambda>maxNumberOfBlockLength. [sid + 0x40, 0x10, maxNumberOfBlockLength]) v))"

definition RequestTransfer_HandleMessage ::
    "u8 \<Rightarrow> TransferDirection \<Rightarrow> MetaInfo \<Rightarrow> bytes \<Rightarrow> TransferData \<Rightarrow> bytes res \<times> TransferData" where
  "RequestTransfer_HandleMessage sid direction metaInfo requestData td =
     (case TryParseRequest requestData of
        Some (dataFormatIdentifier, addressAndLengthFormatIdentifier, memoryAddressAndSize) \<Rightarrow>
          (case RequestDataTransfer direction dataFormatIdentifier addressAndLengthFormatIdentifier
                  memoryAddressAndSize td of
             (Inl nrc, td) \<Rightarrow> (Inr (GenerateNegativeResponse sid nrc), td)
           | (Inr _, td) \<Rightarrow>
               (case TryGeneratePositiveResponse sid metaInfo of
                  Inl e \<Rightarrow> (Inl e, td)
                | Inr (Some response) \<Rightarrow> (Inr response, td)
                | Inr None \<Rightarrow> (Inr (GenerateNegativeResponse sid 0x70), td)))
      | None \<Rightarrow> (Inr (GenerateNegativeResponse sid 0x13), td))"

definition Download_HandleMessage :: "MetaInfo \<Rightarrow> bytes \<Rightarrow> TransferData \<Rightarrow> bytes res \<times> TransferData" where
  "Download_HandleMessage = RequestTransfer_HandleMessage 0x34 kDownload"

definition Upload_HandleMessage :: "MetaInfo \<Rightarrow> bytes \<Rightarrow> TransferData \<Rightarrow> bytes res \<times> TransferData" where
  "Upload_HandleMessage = RequestTransfer_HandleMessage 0x35 kUpload"

definition TransferExit_HandleMessage :: "bytes \<Rightarrow> TransferData \<Rightarrow> bytes res \<times> TransferData" where
  "TransferExit_HandleMessage requestData td =
     (case TryResetTransferConfiguration td of
        (True, td) \<Rightarrow> (Inr [0x37 + 0x40], td)
      | (False, td) \<Rightarrow> (Inr (GenerateNegativeResponse 0x37 0x24), td))"

section \<open>The contract between services and router\<close>

text \<open>
  A response is negative, naming the service, or starts with the service identifier plus 0x40.
\<close>

definition udsResponse :: "u8 \<Rightarrow> bytes \<Rightarrow> bool" where
  "udsResponse sid response \<longleftrightarrow>
     (\<exists>nrc. response = GenerateNegativeResponse sid nrc) \<or>
     response \<noteq> [] \<and> hd response = sid + 0x40"

locale uds_service =
  fixes sid :: u8
    and handle :: "bytes \<Rightarrow> 's \<Rightarrow> bytes res \<times> 's"
  assumes handle_response: "handle requestData st = (Inr response, st') \<Longrightarrow> udsResponse sid response"
begin

text \<open>The service behind a router, alone under its identifier.\<close>

lemma routed_response:
  assumes "services sid = Some service" "usHandle service = handle"
    and "Route services (sid # rest) st = (Inr response, st')"
  shows "udsResponse sid response"
  using assms handle_response
  by (auto simp: Route_def udsResponse_def GenerateNegativeResponse_def split: if_splits)

end

lemma udsResponse_negative [simp]: "udsResponse sid (GenerateNegativeResponse sid nrc)"
  by (auto simp: udsResponse_def)

lemma RequestTransfer_response:
  "RequestTransfer_HandleMessage sid dir mi req td = (Inr response, td') \<Longrightarrow> udsResponse sid response"
  by (auto simp: RequestTransfer_HandleMessage_def TryGeneratePositiveResponse_def bindR_eq_Inr
      udsResponse_def split: option.splits prod.splits sum.splits)

interpretation transferData: uds_service "0x36" TransferData_HandleMessage
proof unfold_locales
  fix req td response td'
  assume "TransferData_HandleMessage req td = (Inr response, td')"
  moreover have "udsResponse 0x36 (positiveTransfer c xs)" for c xs
    by (simp add: udsResponse_def positiveTransfer_def)
  ultimately show "udsResponse 0x36 response"
    by (auto simp: TransferData_HandleMessage_def tryTransfer_def bindR_eq_Inr
        split: if_splits sum.splits TransferDirection.splits)
qed

interpretation download: uds_service "0x34" "Download_HandleMessage mi" for mi
  by unfold_locales (auto simp: Download_HandleMessage_def intro: RequestTransfer_response)

interpretation upload: uds_service "0x35" "Upload_HandleMessage mi" for mi
  by unfold_locales (auto simp: Upload_HandleMessage_def intro: RequestTransfer_response)

interpretation transferExit: uds_service "0x37" TransferExit_HandleMessage
  by unfold_locales
    (auto simp: TransferExit_HandleMessage_def udsResponse_def GenerateNegativeResponse_def
      split: prod.splits bool.splits)

text \<open>A router with the four services of a memory transfer, all offered.\<close>

definition offeredService :: "(bytes \<Rightarrow> 's \<Rightarrow> bytes res \<times> 's) \<Rightarrow> 's UdsService" where
  "offeredService handle = \<lparr> usOffered = (\<lambda>_. True), usHandle = handle \<rparr>"

definition transferServer :: "MetaInfo \<Rightarrow> TransferData UdsServiceRouter" where
  "transferServer mi =
     AddService (AddService (AddService (AddService Map.empty
       0x34 (offeredService (Download_HandleMessage mi)))
       0x35 (offeredService (Upload_HandleMessage mi)))
       0x36 (offeredService TransferData_HandleMessage))
       0x37 (offeredService TransferExit_HandleMessage)"

lemma Route_transferServer:
  "Route (transferServer mi) (0x34 # r) td = Download_HandleMessage mi (0x34 # r) td"
  "Route (transferServer mi) (0x35 # r) td = Upload_HandleMessage mi (0x35 # r) td"
  "Route (transferServer mi) (0x36 # r) td = TransferData_HandleMessage (0x36 # r) td"
  "Route (transferServer mi) (0x37 # r) td = TransferExit_HandleMessage (0x37 # r) td"
  "\<lbrakk> sid \<noteq> 0x34; sid \<noteq> 0x35; sid \<noteq> 0x36; sid \<noteq> 0x37 \<rbrakk> \<Longrightarrow>
     Route (transferServer mi) (sid # r) td = (Inr [0x7f, sid, 0x11], td)"
  by (simp_all add: Route_def transferServer_def AddService_def offeredService_def)

section \<open>The memory window of a transfer\<close>

definition tdInv :: "TransferData \<Rightarrow> bool" where
  "tdInv td \<longleftrightarrow> length (mMemoryPool td) = cMemoryPoolSize \<and>
     (mTransferDirection td \<noteq> kNone \<longrightarrow>
        0 < unat (mMemorySize td) \<and> unat (mMemoryAddress td) + unat (mMemorySize td) \<le> cMemoryPoolSize)"

lemma TrySet_inv:
  assumes "tdInv td" "unat sz < 2 ^ 16"
  shows "tdInv (snd (TrySetTransferConfiguration td dir address sz))"
proof -
  have "unat (address + sz) = unat address + unat sz" if "address < 1024"
  proof -
    have "unat address < 1024" using that by (simp add: word_less_nat_alt)
    then have "unat address + unat sz < 2 ^ LENGTH(64)" using assms(2) by simp
    then show ?thesis by (simp only: unat_add_lem)
  qed
  then show ?thesis
    using assms(1)
    by (auto simp: TrySetTransferConfiguration_def tdInv_def cMemoryPoolSize_def not_le not_less
        word_le_nat_alt word_less_nat_alt unat_gt_0)
qed

lemma unat_ucast64 [simp]: "unat (ucast (w :: u16) :: u64) = unat w"
proof -
  have "unat w < 2 ^ 16" using unsigned_less [of w, where ?'a = nat] by simp
  then have "unat w < 2 ^ 64" by simp
  then show ?thesis by (simp add: unsigned_ucast_eq take_bit_nat_eq_self)
qed

lemma two_bytes_small: "unat (push_bit 8 (ucast (a :: u8)) OR ucast (b :: u8) :: u64) < 2 ^ 16"
proof -
  have "push_bit 8 (ucast a) OR ucast b = (ucast (join16 a b) :: u64)"
    by (rule bit_word_eqI) (auto simp: join16_def bit_simps bit_u8_high not_less intro: ccontr)
  then show ?thesis using unsigned_less [of "join16 a b", where ?'a = nat] by simp
qed

lemma RequestTransfer_inv:
  "tdInv td \<Longrightarrow> tdInv (snd (RequestTransfer_HandleMessage sid dir mi req td))"
  using TrySet_inv two_bytes_small
  by (auto simp: RequestTransfer_HandleMessage_def RequestDataTransfer_def TryParseLengthFormat_def
      Let_def split: option.splits prod.splits sum.splits bool.splits if_splits)
    (metis snd_conv)+

lemma TransferExit_inv: "tdInv td \<Longrightarrow> tdInv (snd (TransferExit_HandleMessage req td))"
  by (auto simp: TransferExit_HandleMessage_def TryResetTransferConfiguration_def tdInv_def)

lemma copyToPool_inv:
  "copyToPool td xs = Inr pool \<Longrightarrow> length pool = length (mMemoryPool td)"
  by (auto simp: copyToPool_def Let_def split: if_splits)

lemma TransferData_inv: "tdInv td \<Longrightarrow> tdInv (snd (TransferData_HandleMessage req td))"
  by (auto simp: TransferData_HandleMessage_def tryTransfer_def bindR_eq_Inr tdInv_def
      dest!: copyToPool_inv split: if_splits sum.splits TransferDirection.splits)

lemma Route_inv: "tdInv td \<Longrightarrow> tdInv (snd (Route (transferServer mi) req td))"
  using RequestTransfer_inv TransferExit_inv TransferData_inv
  by (auto simp: Route_def transferServer_def AddService_def offeredService_def Download_HandleMessage_def
      Upload_HandleMessage_def split: list.splits)

text \<open>What a client reaches by sending requests, one after the other.\<close>

primrec routeAll :: "'s UdsServiceRouter \<Rightarrow> bytes list \<Rightarrow> 's \<Rightarrow> bytes res list \<times> 's" where
  "routeAll services [] st = ([], st)"
| "routeAll services (req # reqs) st =
     (case Route services req st of (response, st) \<Rightarrow>
      case routeAll services reqs st of (responses, st) \<Rightarrow> (response # responses, st))"

lemma routeAll_inv: "tdInv td \<Longrightarrow> tdInv (snd (routeAll (transferServer mi) reqs td))"
proof (induction reqs arbitrary: td)
  case (Cons req reqs)
  from Cons.IH [OF Route_inv [OF Cons.prems, of mi req]] show ?case by (simp add: split_beta)
qed simp

lemma TransferData_undefined:
  assumes "tdInv td"
  shows "fst (TransferData_HandleMessage req td) = Inl e \<longleftrightarrow>
    e = Undefined \<and> 1 < length req \<and> mTransferDirection td = kDownload \<and>
    tryValidateSequenceCounter td (req ! 1) \<and> length req < unat (mMemorySize td) + 2"
  using assms
  by (cases "mTransferDirection td")
    (auto simp: TransferData_HandleMessage_def tryTransfer_def copyToPool_def readFromPool_def
      tdInv_def Let_def)

section \<open>Properties\<close>

text \<open>C24: whatever requests a client sends to a freshly started transfer server, the configured window
  lies within the 1024 bytes of the memory pool, and the only failure of a transfer-data request is
  undefined behaviour, exactly when a download block with an accepted sequence counter carries fewer
  bytes than the window is long.\<close>

theorem transfer_window_safe:
  assumes "length pool = 1024" "snd (routeAll (transferServer mi) reqs (newTransferData a0 s0 pool)) = td"
  shows "(mTransferDirection td \<noteq> kNone \<longrightarrow>
      unat (mMemoryAddress td) + unat (mMemorySize td) \<le> length (mMemoryPool td)) \<and>
    (fst (Route (transferServer mi) (0x36 # req) td) = Inl e \<longleftrightarrow>
      e = Undefined \<and> req \<noteq> [] \<and> mTransferDirection td = kDownload \<and>
      tryValidateSequenceCounter td (hd req) \<and> length (tl req) < unat (mMemorySize td))"
proof -
  have "tdInv (newTransferData a0 s0 pool)"
    using assms(1) by (simp add: tdInv_def newTransferData_def cMemoryPoolSize_def)
  then have "tdInv td" using routeAll_inv assms(2) by blast
  with TransferData_undefined [OF this, of "0x36 # req" e] show ?thesis
    by (cases req) (auto simp: Route_transferServer tdInv_def)
qed

theorem transfer_window_safe_witness:
  "fst (Route (transferServer \<lparr> miContext = kDoIP, miKeyValues = Map.empty \<rparr>) (0x36 # [1, 2])
     (newTransferData 0 0 (replicate 1024 0))) \<noteq> Inl Undefined"
  using transfer_window_safe [of "replicate 1024 0" "\<lparr> miContext = kDoIP, miKeyValues = Map.empty \<rparr>"
      "[]" 0 0 "newTransferData 0 0 (replicate 1024 0)" "[1, 2]" Undefined]
  by (simp add: newTransferData_def)

text \<open>A memory request with two address and two size bytes.\<close>

definition memoryRequest :: "u8 \<Rightarrow> u16 \<Rightarrow> u16 \<Rightarrow> bytes" where
  "memoryRequest sid address sz = [sid, 0x00, 0x22] @ be16 address @ be16 sz"

definition idleTransfer :: "TransferData \<Rightarrow> bool" where
  "idleTransfer td \<longleftrightarrow> tdInv td \<and> mTransferDirection td = kNone \<and>
     mCurrentBlockSequenceCounter td = 1 \<and> mNextBlockSequenceCounter td = 1"

lemma parse_memoryRequest:
  "TryParseRequest (memoryRequest sid a n) = Some (0x00, 0x22, be16 a @ be16 n)"
  "TryParseLengthFormat 0x00 0x22 (be16 a @ be16 n) = Some (ucast a, ucast n)"
proof -
  have j: "push_bit 8 (ucast (ucast (drop_bit 8 w) :: u8)) OR ucast (ucast w :: u8) = (ucast w :: u64)"
    for w :: u16
    by (rule bit_word_eqI) (auto simp: bit_simps bit_u16_high not_less intro: ccontr)
  show "TryParseRequest (memoryRequest sid a n) = Some (0x00, 0x22, be16 a @ be16 n)"
    by (simp add: TryParseRequest_def memoryRequest_def)
  show "TryParseLengthFormat 0x00 0x22 (be16 a @ be16 n) = Some (ucast a, ucast n)"
    by (simp add: TryParseLengthFormat_def be16_def j)
qed

lemma request_accepted:
  assumes "idleTransfer td" "0 < unat n" "unat a + unat n \<le> 1024" "dir \<noteq> kNone"
    and "TryExtractByte mi ''MaxNumberOfBlockLength'' = Inr (Some k)"
  shows "RequestTransfer_HandleMessage sid dir mi (memoryRequest sid a n) td =
    (Inr [sid + 0x40, 0x10, k],
     td\<lparr> mTransferDirection := dir, mMemoryAddress := ucast a, mMemorySize := ucast n \<rparr>)"
proof -
  have "unat (ucast a + ucast n :: u64) = unat a + unat n"
    using assms(3) unat_add_lem [of "ucast a :: u64" "ucast n"] by simp
  then have "\<not> (1024 \<le> (ucast a :: u64))" "(ucast n :: u64) \<noteq> 0" "\<not> (ucast a + ucast n > (1024 :: u64))"
    using assms(2,3) by (auto simp: word_le_nat_alt word_less_nat_alt word_unat_eq_iff)
  then show ?thesis
    using assms(1,4,5)
    by (simp add: RequestTransfer_HandleMessage_def RequestDataTransfer_def parse_memoryRequest
        TrySetTransferConfiguration_def TryGeneratePositiveResponse_def idleTransfer_def)
qed

text \<open>What a client downloads into the memory pool it gets back: an accepted download request, one
  transfer-data block with sequence counter 1 and a transfer exit, followed by an upload request for
  the same window, one block and an exit, answers the second block with exactly the bytes sent, leaves
  the rest of the pool alone and the service ready for the next transfer.\<close>

lemma download_upload_roundtrip:
  assumes "idleTransfer td" "xs \<noteq> []" "unat a + length xs \<le> 1024" "length xs = unat n"
    and "TryExtractByte mi ''MaxNumberOfBlockLength'' = Inr (Some k)"
  shows "\<exists>td'. routeAll (transferServer mi)
      [memoryRequest 0x34 a n, 0x36 # 1 # xs, [0x37], memoryRequest 0x35 a n, [0x36, 1], [0x37]] td =
    ([Inr [0x74, 0x10, k], Inr [0x76, 1], Inr [0x77], Inr [0x75, 0x10, k], Inr (0x76 # 1 # xs), Inr [0x77]],
     td') \<and> idleTransfer td' \<and>
    mMemoryPool td' = take (unat a) (mMemoryPool td) @ xs @ drop (unat a + length xs) (mMemoryPool td)"
proof -
  define pool where "pool = take (unat a) (mMemoryPool td) @ xs @ drop (unat a + length xs) (mMemoryPool td)"
  define td1 where "td1 = td\<lparr> mTransferDirection := kDownload, mMemoryAddress := ucast a, mMemorySize := ucast n \<rparr>"
  define td2 where "td2 = td1\<lparr> mMemoryPool := pool, mCurrentBlockSequenceCounter := 1,
      mNextBlockSequenceCounter := 2 \<rparr>"
  define td3 where "td3 = td2\<lparr> mTransferDirection := kNone, mCurrentBlockSequenceCounter := 1,
      mNextBlockSequenceCounter := 1 \<rparr>"
  define td4 where "td4 = td3\<lparr> mTransferDirection := kUpload, mMemoryAddress := ucast a, mMemorySize := ucast n \<rparr>"
  define td5 where "td5 = td4\<lparr> mCurrentBlockSequenceCounter := 1, mNextBlockSequenceCounter := 2 \<rparr>"
  define td6 where "td6 = td5\<lparr> mTransferDirection := kNone, mCurrentBlockSequenceCounter := 1,
      mNextBlockSequenceCounter := 1 \<rparr>"
  have lp: "length (mMemoryPool td) = 1024" using assms(1) by (simp add: idleTransfer_def tdInv_def cMemoryPoolSize_def)
  have n0: "0 < unat n" using assms(2,4) by (cases xs) auto
  have an: "unat a + unat n \<le> 1024" using assms(3,4) by simp
  have mr: "\<exists>r. memoryRequest sid a n = sid # r" for sid by (simp add: memoryRequest_def)
  have s1: "Route (transferServer mi) (memoryRequest 0x34 a n) td = (Inr [0x74, 0x10, k], td1)"
    using request_accepted [OF assms(1) n0 an _ assms(5), of kDownload "0x34"] mr [of "0x34"]
    by (auto simp: Route_transferServer Download_HandleMessage_def td1_def)
  have s2: "Route (transferServer mi) (0x36 # 1 # xs) td1 = (Inr [0x76, 1], td2)"
    using assms(1,3,4) lp
    by (simp add: Route_transferServer TransferData_HandleMessage_def tryTransfer_def td1_def td2_def
        tryValidateSequenceCounter_def idleTransfer_def copyToPool_def positiveTransfer_def pool_def Let_def)
  have s3: "Route (transferServer mi) [0x37] td2 = (Inr [0x77], td3)"
    by (simp add: Route_transferServer TransferExit_HandleMessage_def TryResetTransferConfiguration_def
        td1_def td2_def td3_def)
  have i3: "idleTransfer td3"
    using lp assms(3) by (simp add: idleTransfer_def tdInv_def td3_def td2_def td1_def pool_def cMemoryPoolSize_def)
  have s4: "Route (transferServer mi) (memoryRequest 0x35 a n) td3 = (Inr [0x75, 0x10, k], td4)"
    using request_accepted [OF i3 n0 an _ assms(5), of kUpload "0x35"] mr [of "0x35"]
    by (auto simp: Route_transferServer Upload_HandleMessage_def td4_def)
  have s5: "Route (transferServer mi) [0x36, 1] td4 = (Inr (0x76 # 1 # xs), td5)"
    using assms(3,4) lp
    by (simp add: Route_transferServer TransferData_HandleMessage_def tryTransfer_def td1_def td2_def td3_def
        td4_def td5_def tryValidateSequenceCounter_def readFromPool_def positiveTransfer_def pool_def Let_def)
  have s6: "Route (transferServer mi) [0x37] td5 = (Inr [0x77], td6)"
    by (simp add: Route_transferServer TransferExit_HandleMessage_def TryResetTransferConfiguration_def
        td4_def td5_def td6_def)
  have "idleTransfer td6" "mMemoryPool td6 = pool"
    using i3 by (simp_all add: idleTransfer_def tdInv_def td6_def td5_def td4_def td3_def td2_def)
  then show ?thesis by (simp add: s1 s2 s3 s4 s5 s6 pool_def)
qed

end
