(* ===== verification/UdsServices.thy ===== *)
theory UdsServices
  imports UdsRouting
begin

text \<open>
  Further diagnostic services: \<open>ara/diag/security_access.cpp\<close> with the delay timer of
  \<open>routing/delay_timer.cpp\<close>, \<open>ecu_reset_request.cpp\<close> and \<open>generic_routine.cpp\<close>. Each handler takes
  the meta information and returns the response or the exception, with the service afterwards.
\<close>

section \<open>Delay timer\<close>

text \<open>
  \<open>dtActive\<close>: the lock is owned by the waiting thread. \<open>dtJoinable\<close>: a thread was started and not
  joined. Assigning a new thread to a joinable one ends the process (\<open>std::terminate\<close>). The end of the
  delay is the event \<open>delayElapsed\<close>.
\<close>

record DelayTimer =
  dtActive :: bool
  dtJoinable :: bool

definition newDelayTimer :: DelayTimer where
  "newDelayTimer = \<lparr> dtActive = False, dtJoinable = False \<rparr>"

definition DelayTimer_Start :: "DelayTimer \<Rightarrow> DelayTimer res" where
  "DelayTimer_Start dt =
     (if dtActive dt then Inr dt
      else if dtJoinable dt then Inl Terminated
      else Inr \<lparr> dtActive = True, dtJoinable = True \<rparr>)"

definition delayElapsed :: "DelayTimer \<Rightarrow> DelayTimer" where
  "delayElapsed dt = dt\<lparr> dtActive := False \<rparr>"

definition DelayTimer_Dispose :: "DelayTimer \<Rightarrow> DelayTimer" where
  "DelayTimer_Dispose dt = (if dtJoinable dt then \<lparr> dtActive = False, dtJoinable = False \<rparr> else dt)"

section \<open>Security access\<close>

definition TryExtractShort :: "MetaInfo \<Rightarrow> string \<Rightarrow> u16 option res" where
  "TryExtractShort mi key =
     (case GetValue mi key of
        None \<Rightarrow> Inr None
      | Some valueStr \<Rightarrow> bindR (stoi valueStr) (\<lambda>valueInt. Inr (Some (word_of_int valueInt))))"

definition TryExtractSeconds :: "MetaInfo \<Rightarrow> string \<Rightarrow> int option res" where
  "TryExtractSeconds mi key =
     (case GetValue mi key of
        None \<Rightarrow> Inr None
      | Some valueStr \<Rightarrow> bindR (stoi valueStr) (\<lambda>valueInt. Inr (Some valueInt)))"

record SecurityLevel =
  Unlocked :: bool
  Seed :: u16

datatype KeyCompareResultType = kKeyValid | kKeyInvalid

record SecurityAccess =
  mSeed :: u16
  mSecurityLevels :: "u8 \<rightharpoonup> SecurityLevel"
  mDelayTimer :: DelayTimer
  mFailedUnlockAttempt :: u8

definition newSecurityAccess :: SecurityAccess where
  "newSecurityAccess =
     \<lparr> mSeed = 1, mSecurityLevels = Map.empty, mDelayTimer = newDelayTimer, mFailedUnlockAttempt = 0 \<rparr>"

text \<open>The negative response code of a request, if it has a problem.\<close>

definition hasProblem :: "SecurityAccess \<Rightarrow> bytes \<Rightarrow> u8 option" where
  "hasProblem sa requestData =
     (if length requestData > 1
      then let neutralSubFunction = (requestData ! 1) AND (NOT 0x80)
           in if neutralSubFunction = 0x00 \<or>
                 (neutralSubFunction \<ge> 0x43 \<and> neutralSubFunction \<le> 0x5e) \<or>
                 (neutralSubFunction \<ge> 0x61 \<and> neutralSubFunction \<le> 0x7f)
              then Some 0x12
              else if dtActive (mDelayTimer sa) then Some 0x36
              else None
      else Some 0x13)"

definition tryFetchSeed :: "SecurityAccess \<Rightarrow> u8 \<Rightarrow> u16 option" where
  "tryFetchSeed sa level =
     (case mSecurityLevels sa level of
        Some securityLevel \<Rightarrow> Some (if Unlocked securityLevel then 0 else Seed securityLevel)
      | None \<Rightarrow> None)"

definition addLevel :: "SecurityAccess \<Rightarrow> u8 \<Rightarrow> u16 \<times> SecurityAccess" where
  "addLevel sa level =
     (mSeed sa,
      sa\<lparr> mSecurityLevels := (mSecurityLevels sa)(level \<mapsto> \<lparr> Unlocked = False, Seed = mSeed sa \<rparr>),
          mSeed := (if mSeed sa = 0xffff then 1 else mSeed sa + 1) \<rparr>)"

definition GetSeed :: "SecurityAccess \<Rightarrow> u8 \<Rightarrow> bytes \<times> SecurityAccess" where
  "GetSeed sa subFunction =
     (case tryFetchSeed sa subFunction of
        Some seed \<Rightarrow> (be16 seed, sa)
      | None \<Rightarrow> (case addLevel sa subFunction of (seed, sa') \<Rightarrow> (be16 seed, sa')))"

definition handleRequestSeed :: "SecurityAccess \<Rightarrow> u8 \<Rightarrow> bool \<Rightarrow> bytes \<times> SecurityAccess" where
  "handleRequestSeed sa subFunction suppressPositiveResponse =
     (case GetSeed sa subFunction of
        (seed, sa') \<Rightarrow> (if suppressPositiveResponse then [] else 0x27 # seed, sa'))"

text \<open>The loop over the levels changes copies of the map's elements, so only the level itself changes.\<close>

definition handlePassedAttempt :: "SecurityAccess \<Rightarrow> u8 \<Rightarrow> SecurityLevel \<Rightarrow> SecurityAccess" where
  "handlePassedAttempt sa level securityLevel =
     sa\<lparr> mSecurityLevels := (mSecurityLevels sa)(level \<mapsto> securityLevel\<lparr> Unlocked := True \<rparr>) \<rparr>"

definition handleFailedAttempt :: "SecurityAccess \<Rightarrow> MetaInfo \<Rightarrow> SecurityAccess res" where
  "handleFailedAttempt sa metaInfo =
     (if dtActive (mDelayTimer sa) then Inr sa
      else bindR (TryExtractByte metaInfo ''AttemptThreshold'') (\<lambda>threshold.
        case threshold of
          None \<Rightarrow> Inr sa
        | Some attemptThreshold \<Rightarrow>
            bindR (TryExtractSeconds metaInfo ''ExceededAttemptDelay'') (\<lambda>delay.
              case delay of
                None \<Rightarrow> Inr sa
              | Some exceededAttemptDelay \<Rightarrow>
                  if mFailedUnlockAttempt sa + 1 > attemptThreshold
                  then bindR (DelayTimer_Start (mDelayTimer sa)) (\<lambda>dt.
                         Inr (sa\<lparr> mDelayTimer := dt, mFailedUnlockAttempt := 0 \<rparr>))
                  else Inr (sa\<lparr> mFailedUnlockAttempt := mFailedUnlockAttempt sa + 1 \<rparr>))))"

definition CompareKey :: "SecurityLevel \<Rightarrow> bytes \<Rightarrow> MetaInfo \<Rightarrow> KeyCompareResultType res" where
  "CompareKey securityLevel key metaInfo =
     bindR (TryExtractShort metaInfo ''Encryptor'') (\<lambda>enc.
       case enc of
         None \<Rightarrow> Inr kKeyInvalid
       | Some encryptor \<Rightarrow>
           bindR (at key 0) (\<lambda>k0. bindR (at key 1) (\<lambda>k1.
             Inr (if Seed securityLevel XOR encryptor = join16 k0 k1 then kKeyValid else kKeyInvalid))))"

definition handleSendKey ::
    "SecurityAccess \<Rightarrow> u8 \<Rightarrow> bytes \<Rightarrow> MetaInfo \<Rightarrow> bool \<Rightarrow> bytes res \<times> SecurityAccess" where
  "handleSendKey sa subFunction key metaInfo suppressPositiveResponse =
     (if length key = 2
      then case mSecurityLevels sa (subFunction - 1) of
             Some securityLevel \<Rightarrow>
               (case CompareKey securityLevel key metaInfo of
                  Inl e \<Rightarrow> (Inl e, sa)
                | Inr kKeyValid \<Rightarrow>
                    (Inr (if suppressPositiveResponse then [] else [0x67, subFunction]),
                     handlePassedAttempt sa (subFunction - 1) securityLevel)
                | Inr kKeyInvalid \<Rightarrow>
                    (case handleFailedAttempt sa metaInfo of
                       Inl e \<Rightarrow> (Inl e, sa)
                     | Inr sa' \<Rightarrow>
                         (Inr (GenerateNegativeResponse 0x27
                            (if dtActive (mDelayTimer sa') then 0x36 else 0x35)), sa')))
           | None \<Rightarrow> (Inr (GenerateNegativeResponse 0x27 0x24), sa)
      else (Inr (GenerateNegativeResponse 0x27 0x13), sa))"

definition SecurityAccess_HandleMessage ::
    "MetaInfo \<Rightarrow> bool \<Rightarrow> bytes \<Rightarrow> SecurityAccess \<Rightarrow> bytes res \<times> SecurityAccess" where
  "SecurityAccess_HandleMessage metaInfo isCanceled requestData sa =
     (case hasProblem sa requestData of
        None \<Rightarrow>
          (let subFunction = requestData ! 1;
               parameters = drop 2 requestData;
               suppressPositiveResponse = (subFunction AND 0x80 \<noteq> 0)
           in if odd subFunction
              then (case handleRequestSeed sa subFunction suppressPositiveResponse of
                      (response, sa') \<Rightarrow> (Inr response, sa'))
              else handleSendKey sa subFunction parameters metaInfo suppressPositiveResponse)
      | Some nrc \<Rightarrow>
          (Inr (GenerateNegativeResponse 0x27 (if isCanceled then 0x10 else nrc)), sa))"

section \<open>ECU reset\<close>

datatype ResetRequestType = kSoftReset | kHardReset | kKeyOffOnReset | kCustomReset

text \<open>\<open>mResetType\<close> is the value of the future once a reset was requested.\<close>

record EcuResetRequest =
  mResetType :: "ResetRequestType option"
  mRapidShutdownEnabled :: bool

definition newEcuResetRequest :: EcuResetRequest where
  "newEcuResetRequest = \<lparr> mResetType = None, mRapidShutdownEnabled = False \<rparr>"

definition RequestReset :: "EcuResetRequest \<Rightarrow> ResetRequestType \<Rightarrow> bool \<times> EcuResetRequest" where
  "RequestReset er resetType =
     (case mResetType er of
        None \<Rightarrow> (True, er\<lparr> mResetType := Some resetType \<rparr>)
      | Some _ \<Rightarrow> (False, er))"

definition EnableRapidShutdown :: "EcuResetRequest \<Rightarrow> bool \<Rightarrow> bool \<times> EcuResetRequest" where
  "EnableRapidShutdown er enable = (True, er\<lparr> mRapidShutdownEnabled := enable \<rparr>)"

text \<open>Whether the sub-function succeeded, and whether it needs the power-down time.\<close>

definition TryHandleSubFunction :: "EcuResetRequest \<Rightarrow> u8 \<Rightarrow> bool \<times> bool \<times> EcuResetRequest" where
  "TryHandleSubFunction er subFunction =
     (case (if subFunction = 0x01 then RequestReset er kHardReset
            else if subFunction = 0x02 then RequestReset er kKeyOffOnReset
            else if subFunction = 0x03 then RequestReset er kSoftReset
            else if subFunction = 0x04 then EnableRapidShutdown er True
            else if subFunction = 0x05 then EnableRapidShutdown er False
            else (False, er)) of
        (succeed, er') \<Rightarrow> (succeed, subFunction = 0x04, er'))"

definition EcuReset_HandleMessage ::
    "MetaInfo \<Rightarrow> bytes \<Rightarrow> EcuResetRequest \<Rightarrow> bytes res \<times> EcuResetRequest" where
  "EcuReset_HandleMessage metaInfo requestData er =
     (if length requestData > 1
      then case TryHandleSubFunction er (requestData ! 1) of
             (succeed, powerDownTimeRequired, er') \<Rightarrow>
               if succeed \<and> powerDownTimeRequired
               then (case TryExtractByte metaInfo ''PowerDownTime'' of
                       Inl e \<Rightarrow> (Inl e, er')
                     | Inr (Some powerDownTime) \<Rightarrow>
                         (Inr [0x11 + 0x40, requestData ! 1, powerDownTime], er')
                     | Inr None \<Rightarrow> (Inr (GenerateNegativeResponse 0x11 0x12), er'))
               else if succeed then (Inr [0x11 + 0x40, requestData ! 1], er')
               else (Inr (GenerateNegativeResponse 0x11 0x12), er')
      else (Inr (GenerateNegativeResponse 0x11 0x13), er))"

definition ExecuteReset :: "EcuResetRequest \<Rightarrow> exn" where
  "ExecuteReset er = Logic_error"

section \<open>Generic routine\<close>

text \<open>The three operations of a routine are virtual functions, given by the application.\<close>

definition GenericRoutine_HandleMessage ::
    "(u16 \<Rightarrow> bytes \<Rightarrow> 's \<Rightarrow> bytes res \<times> 's) \<Rightarrow> (u16 \<Rightarrow> bytes \<Rightarrow> 's \<Rightarrow> bytes res \<times> 's) \<Rightarrow>
     (u16 \<Rightarrow> bytes \<Rightarrow> 's \<Rightarrow> bytes res \<times> 's) \<Rightarrow> bytes \<Rightarrow> 's \<Rightarrow> bytes res \<times> 's" where
  "GenericRoutine_HandleMessage start stop requestResults requestData st =
     (if length requestData > 3
      then let routineId = join16 (requestData ! 2) (requestData ! 3)
           in if requestData ! 1 = 0x01 then start routineId requestData st
              else if requestData ! 1 = 0x02 then stop routineId requestData st
              else if requestData ! 1 = 0x03 then requestResults routineId requestData st
              else (Inr (GenerateNegativeResponse 0x31 0x12), st)
      else (Inr (GenerateNegativeResponse 0x31 0x13), st))"

interpretation ecuReset: uds_service "0x11" "EcuReset_HandleMessage mi" for mi
  by unfold_locales
    (auto simp: EcuReset_HandleMessage_def udsResponse_def split: if_splits sum.splits option.splits prod.splits)

section \<open>Histories of a security access service\<close>

text \<open>A request with the meta information and cancellation flag it comes with, or the end of the delay.\<close>

datatype SaEvent = Request MetaInfo bool bytes | Elapsed

fun saStep :: "SaEvent \<Rightarrow> SecurityAccess \<Rightarrow> SecurityAccess" where
  "saStep (Request mi c req) sa = snd (SecurityAccess_HandleMessage mi c req sa)"
| "saStep Elapsed sa = sa\<lparr> mDelayTimer := delayElapsed (mDelayTimer sa) \<rparr>"

definition saRun :: "SaEvent list \<Rightarrow> SecurityAccess \<Rightarrow> SecurityAccess" where
  "saRun evs sa = fold saStep evs sa"

lemma saRun_Nil [simp]: "saRun [] sa = sa"
  and saRun_snoc [simp]: "saRun (evs @ [ev]) sa = saStep ev (saRun evs sa)"
  by (simp_all add: saRun_def)

definition unlocked :: "SecurityAccess \<Rightarrow> u8 \<Rightarrow> bool" where
  "unlocked sa level = (case mSecurityLevels sa level of Some lv \<Rightarrow> Unlocked lv | None \<Rightarrow> False)"

text \<open>The event sends the key of a level: two bytes, the seed of the level XOR the encryptor.\<close>

fun sendsKey :: "SecurityAccess \<Rightarrow> SaEvent \<Rightarrow> u8 \<Rightarrow> bool" where
  "sendsKey sa (Request mi c req) level =
     (case mSecurityLevels sa level of
        None \<Rightarrow> False
      | Some lv \<Rightarrow>
          (case TryExtractShort mi ''Encryptor'' of
             Inr (Some encryptor) \<Rightarrow>
               length req = 4 \<and> hasProblem sa req = None \<and> req ! 1 = level + 1 \<and> even (req ! 1) \<and>
               join16 (req ! 2) (req ! 3) = Seed lv XOR encryptor
           | _ \<Rightarrow> False))"
| "sendsKey sa Elapsed level = False"

lemma drop_2_pair: "length xs = 4 \<Longrightarrow> drop 2 xs = [xs ! 2, xs ! 3]"
  by (auto simp: list_eq_iff_nth_eq nth_Cons' less_Suc_eq numeral_eq_Suc)

lemma handleFailedAttempt_levels:
  "handleFailedAttempt sa mi = Inr sa' \<Longrightarrow> mSecurityLevels sa' = mSecurityLevels sa \<and> mSeed sa' = mSeed sa"
  by (auto simp: handleFailedAttempt_def bindR_eq_Inr split: if_splits option.splits)

lemma CompareKey_valid:
  "CompareKey lv key mi = Inr kKeyValid \<longleftrightarrow>
     (\<exists>enc. TryExtractShort mi ''Encryptor'' = Inr (Some enc) \<and> length key \<ge> 2 \<and>
        join16 (key ! 0) (key ! 1) = Seed lv XOR enc)"
  by (auto simp: CompareKey_def bindR_eq_Inr at_def split: option.splits if_splits)

text \<open>What a handler does to the levels: it adds a locked one, or unlocks one by its key.\<close>

lemma handleRequestSeed_levels:
  "snd (handleRequestSeed sa sub s) =
     (case mSecurityLevels sa sub of Some _ \<Rightarrow> sa | None \<Rightarrow> snd (addLevel sa sub))"
  by (simp add: handleRequestSeed_def GetSeed_def tryFetchSeed_def addLevel_def split: option.splits)

lemma handleSendKey_levels:
  "mSecurityLevels (snd (handleSendKey sa sub key mi s)) =
     (case mSecurityLevels sa (sub - 1) of
        Some lv \<Rightarrow> if length key = 2 \<and> CompareKey lv key mi = Inr kKeyValid
                  then (mSecurityLevels sa)(sub - 1 \<mapsto> lv\<lparr> Unlocked := True \<rparr>)
                  else mSecurityLevels sa
      | None \<Rightarrow> mSecurityLevels sa)"
  "mSeed (snd (handleSendKey sa sub key mi s)) = mSeed sa"
  by (auto simp: handleSendKey_def handlePassedAttempt_def handleFailedAttempt_levels
      split: option.splits sum.splits KeyCompareResultType.splits)

lemma SecurityAccess_state:
  "snd (SecurityAccess_HandleMessage mi c req sa) =
     (if hasProblem sa req = None
      then if odd (req ! 1) then snd (handleRequestSeed sa (req ! 1) (req ! 1 AND 0x80 \<noteq> 0))
           else snd (handleSendKey sa (req ! 1) (drop 2 req) mi (req ! 1 AND 0x80 \<noteq> 0))
      else sa)"
  by (simp add: SecurityAccess_HandleMessage_def Let_def split: option.splits prod.splits)

lemma unlocked_step: "unlocked (saStep ev sa) level \<longleftrightarrow> unlocked sa level \<or> sendsKey sa ev level"
proof (cases ev)
  case Elapsed
  then show ?thesis by (simp add: unlocked_def)
next
  case (Request mi c req)
  have len: "hasProblem sa req = None \<Longrightarrow> length req > 1"
    by (simp add: hasProblem_def Let_def split: if_splits)
  show ?thesis
  proof (cases "hasProblem sa req = None \<and> even (req ! 1)")
    case True
    have lv: "req ! 1 - 1 = level \<longleftrightarrow> req ! 1 = level + 1" by (auto simp: algebra_simps)
    show ?thesis
      using Request True len lv
      by (auto simp: SecurityAccess_state unlocked_def handleSendKey_levels CompareKey_valid drop_2_pair
          split: option.splits sum.splits)
  next
    case False
    then show ?thesis
      using Request
      by (auto simp: SecurityAccess_state handleRequestSeed_levels addLevel_def unlocked_def
          split: option.splits sum.splits)
  qed
qed

text \<open>C37: a security level is open exactly when its own key was sent before: at some point of the
  history of a service a request, outside of the lockout, carried the seed of that level XOR the
  encryptor of the meta information. Nothing else opens a level and no event closes one again, not even
  the opening of another level, although a comment in \<open>handlePassedAttempt\<close> says that this locks all the others: its
  loop works on copies.\<close>

theorem security_unlocked_history:
  "unlocked (saRun evs newSecurityAccess) level \<longleftrightarrow>
     (\<exists>pre ev post. evs = pre @ ev # post \<and> sendsKey (saRun pre newSecurityAccess) ev level)"
proof (induction evs rule: rev_induct)
  case Nil
  then show ?case by (simp add: unlocked_def newSecurityAccess_def)
next
  case (snoc ev evs)
  have "(\<exists>pre e post. evs @ [ev] = pre @ e # post \<and> sendsKey (saRun pre newSecurityAccess) e level) \<longleftrightarrow>
      sendsKey (saRun evs newSecurityAccess) ev level \<or>
      (\<exists>pre e post. evs = pre @ e # post \<and> sendsKey (saRun pre newSecurityAccess) e level)"
    (is "?l \<longleftrightarrow> ?r")
  proof
    assume ?l
    then obtain pre e post where *: "evs @ [ev] = pre @ e # post" "sendsKey (saRun pre newSecurityAccess) e level"
      by blast
    then show ?r by (cases post rule: rev_cases) auto
  next
    assume ?r
    then show ?l by (metis append_Cons append_assoc append_Nil)
  qed
  with snoc show ?case by (auto simp: unlocked_step)
qed

text \<open>Seeds.\<close>

definition seedInv :: "SecurityAccess \<Rightarrow> bool" where
  "seedInv sa \<longleftrightarrow>
     unat (mSeed sa) = card (dom (mSecurityLevels sa)) + 1 \<and>
     (\<forall>l lv. mSecurityLevels sa l = Some lv \<longrightarrow> 0 < unat (Seed lv) \<and> unat (Seed lv) < unat (mSeed sa)) \<and>
     (\<forall>l m lv mv. mSecurityLevels sa l = Some lv \<and> mSecurityLevels sa m = Some mv \<and> Seed lv = Seed mv \<longrightarrow> l = m)"

lemma card_levels: "card (dom (m :: u8 \<rightharpoonup> 'a)) \<le> 256"
proof -
  have "card (dom m) \<le> card (UNIV :: u8 set)" by (rule card_mono) auto
  then show ?thesis by (simp add: card_word)
qed

lemma seedInv_addLevel:
  assumes "seedInv sa" "mSecurityLevels sa l = None"
  shows "seedInv (snd (addLevel sa l))"
proof -
  have "unat (mSeed sa) \<le> 257"
    using assms(1) card_levels [of "mSecurityLevels sa"] by (simp add: seedInv_def)
  then have "unat (mSeed sa + 1) = unat (mSeed sa) + 1" "mSeed sa \<noteq> 0xffff"
    using unat_add_lem [of "mSeed sa" 1] by (auto simp: word_unat_eq_iff)
  moreover have "card (insert l (dom (mSecurityLevels sa))) = Suc (card (dom (mSecurityLevels sa)))"
    using assms(2) by (simp add: domIff)
  moreover have old: "0 < unat (Seed lv) \<and> unat (Seed lv) < unat (mSeed sa)"
    if "mSecurityLevels sa m = Some lv" for m lv
    using assms(1) that unfolding seedInv_def by metis
  ultimately show ?thesis
    using assms unfolding seedInv_def
    by (auto simp: addLevel_def domIff dest!: old)
qed

lemma seedInv_unlock:
  assumes "seedInv sa" "mSecurityLevels sa l = Some lv"
    and "mSecurityLevels sa' = (mSecurityLevels sa)(l \<mapsto> lv\<lparr> Unlocked := True \<rparr>)" "mSeed sa' = mSeed sa"
  shows "seedInv sa'"
proof -
  have "dom (mSecurityLevels sa') = dom (mSecurityLevels sa)" using assms by auto
  with assms show ?thesis unfolding seedInv_def by (auto split: if_splits)
qed

lemma seedInv_same:
  "\<lbrakk> seedInv sa; mSecurityLevels sa' = mSecurityLevels sa; mSeed sa' = mSeed sa \<rbrakk> \<Longrightarrow> seedInv sa'"
  unfolding seedInv_def by metis

lemma seedInv_step:
  assumes "seedInv sa"
  shows "seedInv (saStep ev sa)"
proof (cases ev)
  case (Request mi c req)
  have "seedInv (snd (handleSendKey sa (req ! 1) (drop 2 req) mi s))" for s
    using handleSendKey_levels [of sa "req ! 1" "drop 2 req" mi s] assms
    by (cases "mSecurityLevels sa (req ! 1 - 1)")
      (auto split: if_splits intro: seedInv_same [OF assms] seedInv_unlock [OF assms])
  then show ?thesis
    using Request assms
    by (auto simp: SecurityAccess_state handleRequestSeed_levels seedInv_addLevel split: option.splits)
qed (rule seedInv_same [OF assms], simp_all)

lemma seedInv_run: "seedInv (saRun evs newSecurityAccess)"
  by (induction evs rule: rev_induct) (simp_all add: seedInv_step, simp add: seedInv_def newSecurityAccess_def)

text \<open>No event sequence makes the service give two levels the same seed or a level the seed zero,
  which stands for an open level; the seed counter is one more than the number of known levels, so the
  wrap-around of the counter is never reached.\<close>

lemma security_seeds_distinct:
  assumes "mSecurityLevels (saRun evs newSecurityAccess) l = Some lv"
  shows "Seed lv \<noteq> 0 \<and>
    (\<forall>m mv. mSecurityLevels (saRun evs newSecurityAccess) m = Some mv \<and> m \<noteq> l \<longrightarrow> Seed mv \<noteq> Seed lv) \<and>
    unat (mSeed (saRun evs newSecurityAccess)) =
      card (dom (mSecurityLevels (saRun evs newSecurityAccess))) + 1 \<and>
    mSeed (saRun evs newSecurityAccess) \<noteq> 0xffff"
proof -
  note inv = seedInv_run [of evs, unfolded seedInv_def]
  have "unat (mSeed (saRun evs newSecurityAccess)) \<le> 257"
    using inv card_levels [of "mSecurityLevels (saRun evs newSecurityAccess)"] by simp
  then have "mSeed (saRun evs newSecurityAccess) \<noteq> 0xffff" by auto
  moreover have "Seed lv \<noteq> 0" using inv assms by fastforce
  ultimately show ?thesis using inv assms by blast
qed

section \<open>Lockout after failed attempts\<close>

definition wrongKey :: "MetaInfo \<Rightarrow> SecurityAccess \<Rightarrow> bytes \<Rightarrow> bool" where
  "wrongKey mi sa req \<longleftrightarrow>
     length req = 4 \<and> even (req ! 1) \<and>
     hasProblem (sa\<lparr> mDelayTimer := newDelayTimer \<rparr>) req = None \<and>
     (case mSecurityLevels sa (req ! 1 - 1) of
        None \<Rightarrow> False
      | Some lv \<Rightarrow> CompareKey lv (drop 2 req) mi = Inr kKeyInvalid)"

primrec sendRequests :: "MetaInfo \<Rightarrow> bytes list \<Rightarrow> SecurityAccess \<Rightarrow> bytes res list \<times> SecurityAccess" where
  "sendRequests mi [] sa = ([], sa)"
| "sendRequests mi (req # reqs) sa =
     (case SecurityAccess_HandleMessage mi False req sa of
        (r, sa') \<Rightarrow> case sendRequests mi reqs sa' of (rs, sa'') \<Rightarrow> (r # rs, sa''))"

lemma wrongKey_cong:
  "mSecurityLevels sa' = mSecurityLevels sa \<Longrightarrow> wrongKey mi sa' = wrongKey mi sa"
  by (rule ext) (simp add: wrongKey_def hasProblem_def Let_def)

lemma wrongKey_upd [simp]:
  "wrongKey mi (sa\<lparr> mDelayTimer := dt \<rparr>) = wrongKey mi sa"
  "wrongKey mi (sa\<lparr> mFailedUnlockAttempt := n \<rparr>) = wrongKey mi sa"
  by (rule wrongKey_cong, simp)+

lemma hasProblem_inactive:
  "\<not> dtActive (mDelayTimer sa) \<Longrightarrow> hasProblem sa req = hasProblem (sa\<lparr> mDelayTimer := newDelayTimer \<rparr>) req"
  by (simp add: hasProblem_def newDelayTimer_def)

lemma wrongKey_answer:
  assumes "wrongKey mi sa req" "\<not> dtActive (mDelayTimer sa)"
  shows "SecurityAccess_HandleMessage mi c req sa =
    (case handleFailedAttempt sa mi of
       Inl e \<Rightarrow> (Inl e, sa)
     | Inr sa' \<Rightarrow> (Inr (GenerateNegativeResponse 0x27 (if dtActive (mDelayTimer sa') then 0x36 else 0x35)), sa'))"
  using assms hasProblem_inactive [OF assms(2), of req]
  by (auto simp: SecurityAccess_HandleMessage_def wrongKey_def handleSendKey_def Let_def split: option.splits)

lemma failed_attempts:
  assumes "TryExtractByte mi ''AttemptThreshold'' = Inr (Some T)"
    and "TryExtractSeconds mi ''ExceededAttemptDelay'' = Inr (Some d)"
    and "\<not> dtActive (mDelayTimer sa)" "list_all (wrongKey mi sa) reqs"
    and "unat (mFailedUnlockAttempt sa) + length reqs \<le> unat T"
  shows "sendRequests mi reqs sa = (replicate (length reqs) (Inr (GenerateNegativeResponse 0x27 0x35)),
    sa\<lparr> mFailedUnlockAttempt := mFailedUnlockAttempt sa + of_nat (length reqs) \<rparr>)"
  using assms(3-)
proof (induction reqs arbitrary: sa)
  case (Cons req reqs)
  let ?sa = "sa\<lparr> mFailedUnlockAttempt := mFailedUnlockAttempt sa + 1 \<rparr>"
  have n: "unat (mFailedUnlockAttempt sa + 1) = unat (mFailedUnlockAttempt sa) + 1"
    using Cons.prems unsigned_less [of T, where ?'a = nat] unat_add_lem [of "mFailedUnlockAttempt sa" 1] by simp
  then have "\<not> mFailedUnlockAttempt sa + 1 > T" using Cons.prems by (simp add: word_less_nat_alt)
  then have "handleFailedAttempt sa mi = Inr ?sa"
    using Cons.prems assms(1,2) by (simp add: handleFailedAttempt_def)
  then have step: "SecurityAccess_HandleMessage mi False req sa = (Inr (GenerateNegativeResponse 0x27 0x35), ?sa)"
    using Cons.prems wrongKey_answer [of mi sa req False] by simp
  have "sendRequests mi reqs ?sa = (replicate (length reqs) (Inr (GenerateNegativeResponse 0x27 0x35)),
      ?sa\<lparr> mFailedUnlockAttempt := mFailedUnlockAttempt ?sa + of_nat (length reqs) \<rparr>)"
    using Cons.prems n by (intro Cons.IH) simp_all
  then show ?case by (simp add: step add_ac)
qed simp

lemma sendRequests_snoc:
  "sendRequests mi (reqs @ [req]) sa =
     (case sendRequests mi reqs sa of (rs, sa') \<Rightarrow>
        case SecurityAccess_HandleMessage mi False req sa' of (r, sa'') \<Rightarrow> (rs @ [r], sa''))"
  by (induction reqs arbitrary: sa) (simp_all split: prod.splits)

lemma exceeding_attempt:
  assumes "TryExtractByte mi ''AttemptThreshold'' = Inr (Some T)" "T \<noteq> 0xff"
    and "TryExtractSeconds mi ''ExceededAttemptDelay'' = Inr (Some d)"
    and "mDelayTimer sa = \<lparr> dtActive = False, dtJoinable = j \<rparr>" "mFailedUnlockAttempt sa = 0"
    and "list_all (wrongKey mi sa) reqs" "length reqs = unat T + 1"
  shows "sendRequests mi reqs sa =
    (if j then (replicate (unat T) (Inr (GenerateNegativeResponse 0x27 0x35)) @ [Inl Terminated],
                sa\<lparr> mFailedUnlockAttempt := T \<rparr>)
     else (replicate (unat T) (Inr (GenerateNegativeResponse 0x27 0x35)) @ [Inr (GenerateNegativeResponse 0x27 0x36)],
           sa\<lparr> mDelayTimer := \<lparr> dtActive = True, dtJoinable = True \<rparr> \<rparr>))"
proof -
  obtain rs r where reqs: "reqs = rs @ [r]" "length rs = unat T"
    using assms(7) by (cases reqs rule: rev_cases) auto
  let ?sa = "sa\<lparr> mFailedUnlockAttempt := T \<rparr>"
  have first: "sendRequests mi rs sa = (replicate (unat T) (Inr (GenerateNegativeResponse 0x27 0x35)), ?sa)"
    using failed_attempts [OF assms(1,3), of sa rs] assms reqs by simp
  have "unat T \<noteq> 255" using assms(2) by (simp add: word_unat_eq_iff)
  then have "unat T + 1 < 256" using unsigned_less [of T, where ?'a = nat] by simp
  then have T: "T < T + 1" using unat_add_lem [of T 1] by (simp add: word_less_nat_alt)
  have "wrongKey mi ?sa r" using assms(6) reqs by simp
  then have "SecurityAccess_HandleMessage mi False r ?sa =
      (if j then (Inl Terminated, ?sa)
       else (Inr (GenerateNegativeResponse 0x27 0x36), sa\<lparr> mDelayTimer := \<lparr> dtActive = True, dtJoinable = True \<rparr> \<rparr>))"
    using assms(1,3,4,5) T wrongKey_answer [of mi ?sa r False]
    by (simp add: handleFailedAttempt_def DelayTimer_Start_def)
  then show ?thesis by (simp add: reqs sendRequests_snoc first)
qed

text \<open>C38: with an attempt threshold below 255 the service answers that many wrong keys with invalid key
  and the next one with exceeded number of attempts. From then on every request is refused and changes
  nothing until the delay has elapsed; the next time the threshold is exceeded the process terminates,
  since the thread of the first delay was never joined.\<close>

theorem security_lockout:
  assumes "TryExtractByte mi ''AttemptThreshold'' = Inr (Some T)" "T \<noteq> 0xff"
    and "TryExtractSeconds mi ''ExceededAttemptDelay'' = Inr (Some d)"
    and "mDelayTimer sa = newDelayTimer" "mFailedUnlockAttempt sa = 0"
    and "list_all (wrongKey mi sa) reqs" "length reqs = unat T + 1"
  shows "\<exists>sa'. sendRequests mi reqs sa =
      (replicate (unat T) (Inr (GenerateNegativeResponse 0x27 0x35)) @
       [Inr (GenerateNegativeResponse 0x27 0x36)], sa') \<and>
    (\<forall>mi' c req. \<exists>nrc. SecurityAccess_HandleMessage mi' c req sa' = (Inr (GenerateNegativeResponse 0x27 nrc), sa')) \<and>
    fst (sendRequests mi reqs (saStep Elapsed sa')) =
      replicate (unat T) (Inr (GenerateNegativeResponse 0x27 0x35)) @ [Inl Terminated]"
proof -
  let ?sa = "sa\<lparr> mDelayTimer := \<lparr> dtActive = True, dtJoinable = True \<rparr> \<rparr>"
  have "sendRequests mi reqs sa = (replicate (unat T) (Inr (GenerateNegativeResponse 0x27 0x35)) @
      [Inr (GenerateNegativeResponse 0x27 0x36)], ?sa)"
    using exceeding_attempt [OF assms(1,2,3), of sa False reqs] assms by (simp add: newDelayTimer_def)
  moreover have busy: "hasProblem ?sa req \<noteq> None" for req
    by (simp add: hasProblem_def Let_def)
  have "\<exists>nrc. SecurityAccess_HandleMessage mi' c req ?sa = (Inr (GenerateNegativeResponse 0x27 nrc), ?sa)"
    for mi' c req
    using busy [of req] by (auto simp: SecurityAccess_HandleMessage_def)
  moreover have "fst (sendRequests mi reqs (saStep Elapsed ?sa)) =
      replicate (unat T) (Inr (GenerateNegativeResponse 0x27 0x35)) @ [Inl Terminated]"
    using exceeding_attempt [OF assms(1,2,3), of "saStep Elapsed ?sa" True reqs] assms
    by (simp add: delayElapsed_def)
  ultimately show ?thesis by (intro exI [of _ ?sa] conjI allI)
qed

definition securityMeta :: MetaInfo where
  "securityMeta = \<lparr> miContext = kDiagnosticCommunication,
     miKeyValues = [''AttemptThreshold'' \<mapsto> ''1'', ''ExceededAttemptDelay'' \<mapsto> ''10'', ''Encryptor'' \<mapsto> ''255''] \<rparr>"

theorem security_lockout_witness:
  "fst (sendRequests securityMeta [[0x27, 2, 0, 0], [0x27, 2, 0, 1]]
     (newSecurityAccess\<lparr> mSecurityLevels := [1 \<mapsto> \<lparr> Unlocked = False, Seed = 1 \<rparr>] \<rparr>)) =
   [Inr [0x7f, 0x27, 0x35], Inr [0x7f, 0x27, 0x36]]"
  using security_lockout [of securityMeta 1 10
      "newSecurityAccess\<lparr> mSecurityLevels := [1 \<mapsto> \<lparr> Unlocked = False, Seed = 1 \<rparr>] \<rparr>"
      "[[0x27, 2, 0, 0], [0x27, 2, 0, 1]]"]
  by (auto simp: securityMeta_def TryExtractByte_def TryExtractSeconds_def TryExtractShort_def GetValue_def
      stoi_def isSpace_def isDigit_def digitsValue_def newSecurityAccess_def wrongKey_def hasProblem_def
      CompareKey_def join16_def GenerateNegativeResponse_def newDelayTimer_def)

section \<open>Reset requests\<close>

definition resetTypeOf :: "bytes \<Rightarrow> ResetRequestType option" where
  "resetTypeOf req =
     (if length req > 1 then
        if req ! 1 = 1 then Some kHardReset
        else if req ! 1 = 2 then Some kKeyOffOnReset
        else if req ! 1 = 3 then Some kSoftReset else None
      else None)"

primrec resetRun :: "(MetaInfo \<times> bytes) list \<Rightarrow> EcuResetRequest \<Rightarrow> bytes res list \<times> EcuResetRequest" where
  "resetRun [] er = ([], er)"
| "resetRun (x # xs) er =
     (case EcuReset_HandleMessage (fst x) (snd x) er of
        (r, er') \<Rightarrow> case resetRun xs er' of (rs, er'') \<Rightarrow> (r # rs, er''))"

lemma EcuReset_type:
  "mResetType (snd (EcuReset_HandleMessage mi req er)) =
     (case mResetType er of Some t \<Rightarrow> Some t | None \<Rightarrow> resetTypeOf req)"
  by (auto simp: EcuReset_HandleMessage_def TryHandleSubFunction_def RequestReset_def EnableRapidShutdown_def
      resetTypeOf_def split: option.splits sum.splits)

lemma EcuReset_answer:
  "resetTypeOf req = Some t \<Longrightarrow> fst (EcuReset_HandleMessage mi req er) =
     Inr (if mResetType er = None then [0x51, req ! 1] else [0x7f, 0x11, 0x12])"
  by (auto simp: EcuReset_HandleMessage_def TryHandleSubFunction_def RequestReset_def resetTypeOf_def
      GenerateNegativeResponse_def split: option.splits if_splits)

lemma resetRun_length [simp]: "length (fst (resetRun xs er)) = length xs"
  by (induction xs arbitrary: er) (simp_all split: prod.splits, metis fst_conv)

lemma resetRun_requested:
  assumes "mResetType er = Some t"
  shows "mResetType (snd (resetRun xs er)) = Some t \<and>
    (\<forall>i < length xs. resetTypeOf (snd (xs ! i)) \<noteq> None \<longrightarrow>
       fst (resetRun xs er) ! i = Inr [0x7f, 0x11, 0x12])"
  using assms
proof (induction xs arbitrary: er)
  case (Cons x xs)
  let ?er = "snd (EcuReset_HandleMessage (fst x) (snd x) er)"
  have "mResetType ?er = Some t" using Cons.prems by (simp add: EcuReset_type)
  note IH = Cons.IH [OF this]
  have "resetTypeOf (snd x) = Some u \<Longrightarrow>
      fst (EcuReset_HandleMessage (fst x) (snd x) er) = Inr [0x7f, 0x11, 0x12]" for u
    using EcuReset_answer Cons.prems by simp
  with IH show ?case
    by (auto simp: nth_Cons' split: prod.splits)
qed simp

text \<open>In every sequence of requests to a fresh reset service the first one for a reset wins: its type
  is the type requested in the end, it alone is answered positively, and every other reset request is
  answered with sub-function not supported. Rapid-shutdown requests and malformed ones never interfere.\<close>

lemma ecu_reset_first_wins:
  assumes "list_all (\<lambda>x. resetTypeOf (snd x) = None) pre" "resetTypeOf (snd x) = Some t"
    and "resetRun (pre @ x # post) newEcuResetRequest = (rs, er)"
  shows "mResetType er = Some t \<and> rs ! length pre = Inr [0x51, snd x ! 1] \<and>
    (\<forall>i < length post. resetTypeOf (snd (post ! i)) \<noteq> None \<longrightarrow>
       rs ! (length pre + 1 + i) = Inr [0x7f, 0x11, 0x12])"
proof -
  have "\<lbrakk> list_all (\<lambda>x. resetTypeOf (snd x) = None) pre; mResetType er0 = None;
      resetRun (pre @ x # post) er0 = (rs, er) \<rbrakk> \<Longrightarrow> ?thesis" for er0
  proof (induction pre arbitrary: er0 rs)
    case Nil
    let ?er = "snd (EcuReset_HandleMessage (fst x) (snd x) er0)"
    have "mResetType ?er = Some t" using Nil.prems assms(2) by (simp add: EcuReset_type)
    note later = resetRun_requested [OF this, of post]
    with Nil.prems EcuReset_answer [OF assms(2), of "fst x" er0] show ?case
      by (auto split: prod.splits)
  next
    case (Cons y pre)
    have "mResetType (snd (EcuReset_HandleMessage (fst y) (snd y) er0)) = None"
      using Cons.prems by (simp add: EcuReset_type)
    with Cons show ?case by (auto split: prod.splits)
  qed
  from this [OF assms(1) _ assms(3)] show ?thesis by (simp add: newEcuResetRequest_def)
qed

end
