(* ===== verification/DiagEvents.thy ===== *)
theory DiagEvents
  imports Prelude
begin

text \<open>
  Diagnostic events: \<open>ara/diag/event.cpp\<close>, the debouncers of \<open>ara/diag/debouncing\<close>, \<open>monitor.cpp\<close>,
  \<open>dtc_information.cpp\<close>, \<open>condition.cpp\<close>, \<open>operation_cycle.cpp\<close> and \<open>conversation.cpp\<close>. A callback is a
  flag (set or not) and the log of its calls. The locale \<open>debouncer\<close> is the interface between monitor
  and debouncer.
\<close>

section \<open>Event\<close>

datatype EventStatusBit =
  kTestFailed | kTestFailedThisOperationCycle | kTestNotCompletedThisOperationCycle

datatype DTCFormatType = kDTCFormatOBD | kDTCFormatUDS | kDTCFormatJ1939

datatype DebouncingState =
  kNeutral | kTemporarilyDefective | kFinallyDefective | kTemporarilyHealed | kFinallyHealed

text \<open>\<open>mFdc\<close> is a signed 8-bit integer, read with \<open>sint\<close>.\<close>

record Event =
  mEventStatusByte :: u8
  mEventNotifier :: bool
  eventNotified :: "u8 list"
  mWirStatus :: bool
  mDtcNumber :: u32
  mEventFdc :: "8 word"

definition newEvent :: Event where
  "newEvent =
     \<lparr> mEventStatusByte = 0x02, mEventNotifier = False, eventNotified = [], mWirStatus = False,
       mDtcNumber = 0, mEventFdc = 0 \<rparr>"

fun statusPosition :: "EventStatusBit \<Rightarrow> nat" where
  "statusPosition kTestFailed = 7"
| "statusPosition kTestFailedThisOperationCycle = 6"
| "statusPosition kTestNotCompletedThisOperationCycle = 1"

definition setStatusBits :: "(EventStatusBit \<times> bool) list \<Rightarrow> u8 \<Rightarrow> u8" where
  "setStatusBits statusBits byte =
     fold (\<lambda>(b, v) w. if v then set_bit (statusPosition b) w else unset_bit (statusPosition b) w)
       statusBits byte"

definition SetEventStatusBits :: "(EventStatusBit \<times> bool) list \<Rightarrow> Event \<Rightarrow> Event" where
  "SetEventStatusBits statusBits ev =
     (if statusBits = [] then ev
      else let newEncodedBits = setStatusBits statusBits (mEventStatusByte ev)
           in if newEncodedBits \<noteq> mEventStatusByte ev
              then ev\<lparr> mEventStatusByte := newEncodedBits,
                       eventNotified := eventNotified ev @ (if mEventNotifier ev then [newEncodedBits] else []) \<rparr>
              else ev)"

definition GetDTCNumber :: "Event \<Rightarrow> DTCFormatType \<Rightarrow> u32 res" where
  "GetDTCNumber ev dtcFormat =
     (if dtcFormat = kDTCFormatUDS then Inr (mDtcNumber ev) else Inl Invalid_argument)"

definition GetDebouncingStatus :: "Event \<Rightarrow> DebouncingState" where
  "GetDebouncingStatus ev =
     (if sint (mEventFdc ev) = 127 then kFinallyDefective
      else if sint (mEventFdc ev) > 0 then kTemporarilyDefective
      else if sint (mEventFdc ev) = -128 then kFinallyHealed
      else if sint (mEventFdc ev) < 0 then kTemporarilyHealed
      else kNeutral)"

definition GetTestComplete :: "Event \<Rightarrow> bool" where
  "GetTestComplete ev \<longleftrightarrow> sint (mEventFdc ev) = -128 \<or> sint (mEventFdc ev) = 127"

definition SetFaultDetectionCounter :: "8 word \<Rightarrow> Event \<Rightarrow> Event" where
  "SetFaultDetectionCounter fdc ev = ev\<lparr> mEventFdc := fdc \<rparr>"

definition SetLatchedWIRStatus :: "bool \<Rightarrow> Event \<Rightarrow> Event" where
  "SetLatchedWIRStatus status ev = ev\<lparr> mWirStatus := status \<rparr>"

definition SetDTCNumber :: "u32 \<Rightarrow> Event \<Rightarrow> Event" where
  "SetDTCNumber dtcNumber ev = ev\<lparr> mDtcNumber := dtcNumber \<rparr>"

section \<open>Debouncers\<close>

datatype EventStatus = kPassed | kPending | kFailed

text \<open>The calls a debouncer receives; \<open>Timeout\<close> is the end of the wait of its own thread.\<close>

datatype DebouncerCall =
  ReportPrepassed | ReportPassed | ReportPrefailed | ReportFailed | Freeze | Reset | Timeout

text \<open>\<open>SetEventStatus\<close> calls back on a change to passed (true) or failed (false).\<close>

fun statusCallback :: "EventStatus \<Rightarrow> EventStatus \<Rightarrow> bool option" where
  "statusCallback old new =
     (if old \<noteq> new
      then (case new of kPassed \<Rightarrow> Some True | kFailed \<Rightarrow> Some False | kPending \<Rightarrow> None)
      else None)"

declare statusCallback.simps [simp del]

record CounterBased =
  failedThreshold :: "16 word"
  passedThreshold :: "16 word"
  failedStepsize :: u16
  passedStepsize :: u16
  failedJumpValue :: "16 word"
  passedJumpValue :: "16 word"
  useJumpToFailed :: bool
  useJumpToPassed :: bool

record CounterBasedDebouncer =
  cbStatus :: EventStatus
  mFdc :: "16 word"

definition newCounterBasedDebouncer :: CounterBasedDebouncer where
  "newCounterBasedDebouncer = \<lparr> cbStatus = kPending, mFdc = 0 \<rparr>"

definition cbReach :: "16 word \<Rightarrow> EventStatus \<Rightarrow> CounterBasedDebouncer \<Rightarrow> CounterBasedDebouncer \<times> bool option" where
  "cbReach fdc status d = (\<lparr> cbStatus = status, mFdc = fdc \<rparr>, statusCallback (cbStatus d) status)"

text \<open>Sums of \<open>int16_t\<close> and \<open>uint16_t\<close> are computed in \<open>int\<close> and cut to 16 bits when stored.\<close>

fun counterCall ::
    "CounterBased \<Rightarrow> DebouncerCall \<Rightarrow> CounterBasedDebouncer \<Rightarrow> CounterBasedDebouncer \<times> bool option" where
  "counterCall c ReportPrepassed d =
     (if sint (mFdc d) - uint (passedStepsize c) \<le> sint (passedThreshold c)
      then cbReach (passedThreshold c) kPassed d
      else if useJumpToPassed c \<and> sint (mFdc d) > sint (passedJumpValue c)
      then (d\<lparr> mFdc := passedJumpValue c \<rparr>, None)
      else (d\<lparr> mFdc := word_of_int (sint (mFdc d) - uint (passedStepsize c)) \<rparr>, None))"
| "counterCall c ReportPassed d = cbReach (passedThreshold c) kPassed d"
| "counterCall c ReportPrefailed d =
     (if sint (mFdc d) + uint (failedStepsize c) \<ge> sint (failedThreshold c)
      then cbReach (failedThreshold c) kFailed d
      else if useJumpToFailed c \<and> sint (mFdc d) < sint (failedJumpValue c)
      then (d\<lparr> mFdc := failedJumpValue c \<rparr>, None)
      else (d\<lparr> mFdc := word_of_int (sint (mFdc d) + uint (failedStepsize c)) \<rparr>, None))"
| "counterCall c ReportFailed d = cbReach (failedThreshold c) kFailed d"
| "counterCall c Freeze d = cbReach 0 kPending d"
| "counterCall c Reset d = cbReach 0 kPending d"
| "counterCall c Timeout d = (d, None)"

record TimeBased =
  passedMs :: u32
  failedMs :: u32

text \<open>
  \<open>tbWaiting\<close> is the duration and direction of the running wait; \<open>tbJoinable\<close>: the thread was not
  joined yet. \<open>mIsPassing\<close> is not initialised by the constructor.
\<close>

record TimerBasedDebouncer =
  tbStatus :: EventStatus
  mElapsedMs :: u32
  mIsPassing :: bool
  tbWaiting :: "(u32 \<times> bool) option"
  tbJoinable :: bool

definition newTimerBasedDebouncer :: "bool \<Rightarrow> TimerBasedDebouncer" where
  "newTimerBasedDebouncer anyPassing =
     \<lparr> tbStatus = kPending, mElapsedMs = 0, mIsPassing = anyPassing, tbWaiting = None, tbJoinable = False \<rparr>"

definition tick_timeout ::
    "TimeBased \<Rightarrow> TimerBasedDebouncer \<Rightarrow> TimerBasedDebouncer \<times> bool option" where
  "tick_timeout t d =
     (case tbWaiting d of
        None \<Rightarrow> (d, None)
      | Some (_, passing) \<Rightarrow>
          (d\<lparr> tbStatus := (if passing then kPassed else kFailed),
              mElapsedMs := (if passing then passedMs t else failedMs t), tbWaiting := None \<rparr>,
           statusCallback (tbStatus d) (if passing then kPassed else kFailed)))"

text \<open>\<open>measured\<close> is the time the interrupted wait took, as its thread measures it.\<close>

definition tbFreeze :: "u32 \<Rightarrow> TimerBasedDebouncer \<Rightarrow> TimerBasedDebouncer" where
  "tbFreeze measured d =
     (if tbJoinable d
      then d\<lparr> tbJoinable := False, tbWaiting := None,
              mElapsedMs := (if tbWaiting d = None then mElapsedMs d else measured) \<rparr>
      else d)"

definition start :: "u32 \<Rightarrow> TimerBasedDebouncer \<Rightarrow> TimerBasedDebouncer" where
  "start threshold d =
     (if tbWaiting d = None \<and> threshold - mElapsedMs d \<noteq> 0
      then d\<lparr> tbWaiting := Some (threshold - mElapsedMs d, mIsPassing d), tbJoinable := True \<rparr>
      else d)"

fun timerCall ::
    "TimeBased \<Rightarrow> u32 \<Rightarrow> DebouncerCall \<Rightarrow> TimerBasedDebouncer \<Rightarrow> TimerBasedDebouncer \<times> bool option" where
  "timerCall t measured ReportPrepassed d =
     (let d' = (if \<not> mIsPassing d then (tbFreeze measured d)\<lparr> mElapsedMs := 0, mIsPassing := True \<rparr> else d)
      in (start (passedMs t) d', None))"
| "timerCall t measured ReportPassed d =
     ((tbFreeze measured d)\<lparr> mElapsedMs := passedMs t, mIsPassing := True, tbStatus := kPassed \<rparr>,
      statusCallback (tbStatus d) kPassed)"
| "timerCall t measured ReportPrefailed d =
     (let d' = (if mIsPassing d then (tbFreeze measured d)\<lparr> mElapsedMs := 0, mIsPassing := False \<rparr> else d)
      in (start (failedMs t) d', None))"
| "timerCall t measured ReportFailed d =
     ((tbFreeze measured d)\<lparr> mElapsedMs := failedMs t, mIsPassing := False, tbStatus := kFailed \<rparr>,
      statusCallback (tbStatus d) kFailed)"
| "timerCall t measured Freeze d = (tbFreeze measured d, None)"
| "timerCall t measured Reset d =
     ((tbFreeze measured d)\<lparr> mElapsedMs := 0, tbStatus := kPending \<rparr>, statusCallback (tbStatus d) kPending)"
| "timerCall t measured Timeout d = tick_timeout t d"

section \<open>Monitor\<close>

datatype InitMonitorReason = kClear | kRestart | kReenabled | kDisabled

datatype MonitorAction =
  kMonitorPassed | kMonitorFailed | kPrepassed | kPrefailed | kFdcThresholdReached
| kResetTestFailed | kFreezeDebouncing | kResetDebouncing

record 'd Monitor =
  mInitMonitor :: bool
  initCalls :: "InitMonitorReason list"
  mOffered :: bool
  mDebouncer :: 'd
  mEvent :: "Event option"

definition newMonitor :: "bool \<Rightarrow> 'd \<Rightarrow> 'd Monitor" where
  "newMonitor initMonitor d =
     \<lparr> mInitMonitor = initMonitor, initCalls = [], mOffered = False, mDebouncer = d, mEvent = None \<rparr>"

definition onEventStatusChanged :: "bool \<Rightarrow> 'd Monitor \<Rightarrow> 'd Monitor" where
  "onEventStatusChanged passed m =
     (case mEvent m of
        None \<Rightarrow> m
      | Some ev \<Rightarrow>
          m\<lparr> mEvent := Some (SetEventStatusBits
               [(kTestFailed, \<not> passed), (kTestNotCompletedThisOperationCycle, False)]
               (SetFaultDetectionCounter (if passed then -128 else 127) ev)) \<rparr>)"

text \<open>A call of the debouncer, with the callback it makes.\<close>

definition debounce :: "('d \<Rightarrow> 'd \<times> bool option) \<Rightarrow> 'd Monitor \<Rightarrow> 'd Monitor" where
  "debounce call m =
     (case call (mDebouncer m) of
        (d, None) \<Rightarrow> m\<lparr> mDebouncer := d \<rparr>
      | (d, Some passed) \<Rightarrow> onEventStatusChanged passed (m\<lparr> mDebouncer := d \<rparr>))"

fun debouncerCallOf :: "MonitorAction \<Rightarrow> DebouncerCall option" where
  "debouncerCallOf kMonitorPassed = Some ReportPassed"
| "debouncerCallOf kMonitorFailed = Some ReportFailed"
| "debouncerCallOf kPrepassed = Some ReportPrepassed"
| "debouncerCallOf kPrefailed = Some ReportPrefailed"
| "debouncerCallOf kFreezeDebouncing = Some Freeze"
| "debouncerCallOf kResetDebouncing = Some Reset"
| "debouncerCallOf _ = None"

definition ReportMonitorAction ::
    "(DebouncerCall \<Rightarrow> 'd \<Rightarrow> 'd \<times> bool option) \<Rightarrow> MonitorAction \<Rightarrow> 'd Monitor \<Rightarrow> unit res \<times> 'd Monitor" where
  "ReportMonitorAction call action m =
     (if mOffered m
      then case debouncerCallOf action of
             Some c \<Rightarrow> (Inr (), debounce (call c) m)
           | None \<Rightarrow>
               (if action = kResetTestFailed
                then (Inr (), case mEvent m of
                        Some ev \<Rightarrow> m\<lparr> mEvent := Some (SetEventStatusBits [(kTestFailed, False)] ev) \<rparr>
                      | None \<Rightarrow> m)
                else (Inl Invalid_argument, m))
      else (Inr (), m))"

definition AttachEvent :: "Event \<Rightarrow> 'd Monitor \<Rightarrow> 'd Monitor" where
  "AttachEvent ev m = m\<lparr> mEvent := Some ev \<rparr>"

definition initMonitor :: "InitMonitorReason \<Rightarrow> 'd Monitor \<Rightarrow> 'd Monitor" where
  "initMonitor reason m = m\<lparr> initCalls := initCalls m @ (if mInitMonitor m then [reason] else []) \<rparr>"

text \<open>The flag is false for the error \<open>kAlreadyOffered\<close>.\<close>

definition Monitor_Offer :: "'d Monitor \<Rightarrow> bool \<times> 'd Monitor" where
  "Monitor_Offer m =
     (if mOffered m then (False, m) else (True, initMonitor kReenabled (m\<lparr> mOffered := True \<rparr>)))"

definition Monitor_StopOffer :: "'d Monitor \<Rightarrow> 'd Monitor" where
  "Monitor_StopOffer m =
     (if mOffered m then initMonitor kDisabled (m\<lparr> mOffered := False \<rparr>) else m)"

section \<open>The interface between debouncer and monitor\<close>

locale debouncer =
  fixes status :: "'d \<Rightarrow> EventStatus"
    and call :: "DebouncerCall \<Rightarrow> 'd \<Rightarrow> 'd \<times> bool option"
  assumes calls_back: "snd (call c d) = statusCallback (status d) (status (fst (call c d)))"
    and passed_law: "status (fst (call ReportPassed d)) = kPassed"
    and failed_law: "status (fst (call ReportFailed d)) = kFailed"
    and reset_law: "status (fst (call Reset d)) = kPending"

datatype MonitorInput = Action MonitorAction | ThreadTimeout

definition monitorStep ::
    "(DebouncerCall \<Rightarrow> 'd \<Rightarrow> 'd \<times> bool option) \<Rightarrow> MonitorInput \<Rightarrow> 'd Monitor \<Rightarrow> 'd Monitor" where
  "monitorStep call inp m =
     (case inp of
        Action a \<Rightarrow> snd (ReportMonitorAction call a m)
      | ThreadTimeout \<Rightarrow> debounce (call Timeout) m)"

text \<open>
  The event as it should be for a status of the debouncer; \<open>mayBeReset\<close>: the test-failed bit may have
  been reset by request.
\<close>

definition eventAgrees :: "EventStatus \<Rightarrow> bool \<Rightarrow> Event \<Rightarrow> bool" where
  "eventAgrees s mayBeReset ev \<longleftrightarrow>
     (case s of
        kPassed \<Rightarrow> GetDebouncingStatus ev = kFinallyHealed \<and> GetTestComplete ev \<and>
          \<not> bit (mEventStatusByte ev) 7 \<and> \<not> bit (mEventStatusByte ev) 1
      | kFailed \<Rightarrow> GetDebouncingStatus ev = kFinallyDefective \<and> GetTestComplete ev \<and>
          (mayBeReset \<or> bit (mEventStatusByte ev) 7) \<and> \<not> bit (mEventStatusByte ev) 1
      | kPending \<Rightarrow> (GetTestComplete ev \<longleftrightarrow> \<not> bit (mEventStatusByte ev) 1)) \<and>
     \<not> bit (mEventStatusByte ev) 6"

lemma eventAgrees_reset:
  "eventAgrees s b ev \<Longrightarrow> eventAgrees s True (SetEventStatusBits [(kTestFailed, False)] ev)"
  by (auto simp: eventAgrees_def SetEventStatusBits_def setStatusBits_def bit_simps Let_def
      GetDebouncingStatus_def GetTestComplete_def split: EventStatus.splits)

lemma eventAgrees_mono: "eventAgrees s b ev \<Longrightarrow> (b \<Longrightarrow> b') \<Longrightarrow> eventAgrees s b' ev"
  by (auto simp: eventAgrees_def split: EventStatus.splits)

lemma bits_of_callback:
  "bit (mEventStatusByte (SetEventStatusBits [(kTestFailed, v), (kTestNotCompletedThisOperationCycle, w)] ev)) 7 = v"
  "bit (mEventStatusByte (SetEventStatusBits [(kTestFailed, v), (kTestNotCompletedThisOperationCycle, w)] ev)) 6 =
     bit (mEventStatusByte ev) 6"
  "bit (mEventStatusByte (SetEventStatusBits [(kTestFailed, v), (kTestNotCompletedThisOperationCycle, w)] ev)) 1 = w"
  "mEventFdc (SetEventStatusBits bs ev) = mEventFdc ev"
proof -
  let ?bs = "[(kTestFailed, v), (kTestNotCompletedThisOperationCycle, w)]"
  have sb: "mEventStatusByte (SetEventStatusBits ?bs ev) = setStatusBits ?bs (mEventStatusByte ev)"
    by (simp add: SetEventStatusBits_def Let_def)
  show "bit (mEventStatusByte (SetEventStatusBits ?bs ev)) 7 = v"
    "bit (mEventStatusByte (SetEventStatusBits ?bs ev)) 6 = bit (mEventStatusByte ev) 6"
    "bit (mEventStatusByte (SetEventStatusBits ?bs ev)) 1 = w"
    unfolding sb by (simp_all add: setStatusBits_def bit_simps)
  show "mEventFdc (SetEventStatusBits bs ev) = mEventFdc ev"
    by (simp add: SetEventStatusBits_def Let_def)
qed

lemma eventAgrees_callback:
  assumes "eventAgrees s b ev"
  shows "eventAgrees (if passed then kPassed else kFailed) b'
    (SetEventStatusBits [(kTestFailed, \<not> passed), (kTestNotCompletedThisOperationCycle, False)]
      (SetFaultDetectionCounter (if passed then -128 else 127) ev))"
  using assms
  by (auto simp: eventAgrees_def bits_of_callback bits_of_callback(3) [unfolded One_nat_def] GetDebouncingStatus_def GetTestComplete_def
      SetFaultDetectionCounter_def split: EventStatus.splits)

context debouncer
begin

lemma debounce_agrees:
  assumes "mEvent m = Some ev" "eventAgrees (status (mDebouncer m)) b ev"
  shows "\<exists>ev'. mEvent (debounce (call c) m) = Some ev' \<and>
    eventAgrees (status (mDebouncer (debounce (call c) m))) b ev'"
proof -
  obtain d cb where d: "call c (mDebouncer m) = (d, cb)" by (cases "call c (mDebouncer m)")
  then have cb: "cb = statusCallback (status (mDebouncer m)) (status d)"
    using calls_back [of c "mDebouncer m"] by simp
  show ?thesis
  proof (cases cb)
    case None
    have "status d \<noteq> status (mDebouncer m) \<Longrightarrow> status d = kPending"
      using cb None by (auto simp: statusCallback.simps split: if_splits EventStatus.splits)
    moreover have "eventAgrees kPending b ev"
      using assms(2) by (auto simp: eventAgrees_def split: EventStatus.splits)
    ultimately show ?thesis
      using assms d None by (cases "status d = status (mDebouncer m)") (simp_all add: debounce_def)
  next
    case (Some passed)
    then have "status d = (if passed then kPassed else kFailed)"
      using cb by (auto simp: statusCallback.simps split: if_splits EventStatus.splits)
    then show ?thesis
      using assms d Some eventAgrees_callback [OF assms(2), of passed b]
      by (simp add: debounce_def onEventStatusChanged_def)
  qed
qed

text \<open>What a client of a monitor sees, for any debouncer behind it.\<close>

lemma monitorStep_agrees:
  assumes "mEvent m = Some ev" "eventAgrees (status (mDebouncer m)) b ev"
  shows "\<exists>ev'. mEvent (monitorStep call inp m) = Some ev' \<and>
    eventAgrees (status (mDebouncer (monitorStep call inp m))) (b \<or> inp = Action kResetTestFailed) ev'"
proof (cases inp)
  case ThreadTimeout
  then show ?thesis
    using debounce_agrees [OF assms, of Timeout] by (simp add: monitorStep_def)
next
  case (Action a)
  show ?thesis
  proof (cases "mOffered m \<and> debouncerCallOf a = None \<and> a = kResetTestFailed")
    case True
    then show ?thesis
      using Action assms eventAgrees_reset [OF assms(2)]
      by (simp add: monitorStep_def ReportMonitorAction_def)
  next
    case False
    show ?thesis
    proof (cases "debouncerCallOf a")
      case None
      then show ?thesis
        using False Action assms eventAgrees_mono [OF assms(2)]
        by (auto simp: monitorStep_def ReportMonitorAction_def)
    next
      case (Some c)
      then have "a \<noteq> kResetTestFailed" by auto
      then show ?thesis
        using Some Action assms debounce_agrees [OF assms, of c]
        by (auto simp: monitorStep_def ReportMonitorAction_def)
    qed
  qed
qed

text \<open>A definite report is seen in the event at once, whatever happened before.\<close>

lemma failure_reported:
  assumes "mEvent m = Some ev" "eventAgrees (status (mDebouncer m)) b ev" "mOffered m"
  shows "\<exists>ev'. mEvent (monitorStep call (Action kMonitorFailed) m) = Some ev' \<and>
    GetDebouncingStatus ev' = kFinallyDefective"
proof -
  have "status (mDebouncer (debounce (call ReportFailed) m)) = kFailed"
    using failed_law [of "mDebouncer m"]
    by (auto simp: debounce_def onEventStatusChanged_def split: prod.splits option.splits)
  with debounce_agrees [OF assms(1,2), of ReportFailed] show ?thesis
    using assms(3) by (auto simp: monitorStep_def ReportMonitorAction_def eventAgrees_def)
qed

end

interpretation counter: debouncer cbStatus "counterCall c" for c
proof unfold_locales
  fix k d
  show "snd (counterCall c k d) = statusCallback (cbStatus d) (cbStatus (fst (counterCall c k d)))"
    by (cases k) (simp_all add: cbReach_def statusCallback.simps)
qed (simp_all add: cbReach_def)

interpretation timer: debouncer tbStatus "timerCall t measured" for t measured
proof unfold_locales
  fix k d
  show "snd (timerCall t measured k d) = statusCallback (tbStatus d) (tbStatus (fst (timerCall t measured k d)))"
    by (cases k) (simp_all add: tick_timeout_def start_def tbFreeze_def Let_def statusCallback.simps
        split: option.split)
qed simp_all

text \<open>An offered monitor with a new event attached.\<close>

definition offeredMonitor :: "'d \<Rightarrow> 'd Monitor" where
  "offeredMonitor d = snd (Monitor_Offer (AttachEvent newEvent (newMonitor False d)))"

lemma offeredMonitor_simps [simp]:
  "mEvent (offeredMonitor d) = Some newEvent" "mDebouncer (offeredMonitor d) = d" "mOffered (offeredMonitor d)"
  by (simp_all add: offeredMonitor_def Monitor_Offer_def AttachEvent_def newMonitor_def initMonitor_def)

lemma newEvent_agrees: "eventAgrees kPending b newEvent"
  by (simp add: eventAgrees_def newEvent_def GetTestComplete_def bit_iff_odd)

text \<open>
  A history of a monitor: each input comes with the time that a wait measures when the input interrupts it. A counter
  does not measure time.
\<close>

definition monitorRun :: "(u32 \<Rightarrow> DebouncerCall \<Rightarrow> 'd \<Rightarrow> 'd \<times> bool option) \<Rightarrow> (u32 \<times> MonitorInput) list \<Rightarrow> 'd Monitor \<Rightarrow> 'd Monitor" where
  "monitorRun call inputs m = fold (\<lambda>(measured, inp). monitorStep (call measured) inp) inputs m"

lemma monitorRun_agrees:
  assumes step: "\<And>measured inp m ev b. \<lbrakk> mEvent m = Some ev; eventAgrees (status (mDebouncer m)) b ev \<rbrakk> \<Longrightarrow>
      \<exists>ev'. mEvent (monitorStep (call measured) inp m) = Some ev' \<and>
        eventAgrees (status (mDebouncer (monitorStep (call measured) inp m))) (b \<or> inp = Action kResetTestFailed) ev'"
    and "mEvent m = Some ev" "eventAgrees (status (mDebouncer m)) b ev"
  shows "\<exists>ev'. mEvent (monitorRun call inputs m) = Some ev' \<and>
    eventAgrees (status (mDebouncer (monitorRun call inputs m))) (b \<or> Action kResetTestFailed \<in> snd ` set inputs) ev'"
  using assms(2,3)
proof (induction inputs arbitrary: m ev b)
  case (Cons x inputs)
  obtain ev' where "mEvent (monitorStep (call (fst x)) (snd x) m) = Some ev'"
    "eventAgrees (status (mDebouncer (monitorStep (call (fst x)) (snd x) m))) (b \<or> snd x = Action kResetTestFailed) ev'"
    using step [OF Cons.prems] by blast
  from Cons.IH [OF this] show ?case by (auto simp: monitorRun_def split_beta eq_commute [of "Action kResetTestFailed"] elim: eventAgrees_mono)
qed (auto simp: monitorRun_def)

text \<open>C25: after any sequence of monitor actions, calls that are refused included, and of timeouts of the
  debouncing thread, whatever times the interrupted waits measured, the event attached to an offered monitor agrees
  with the status of its debouncer, counter based or timer based: passed means finally healed, test complete and
  test-failed bit clear; failed means finally defective, test complete and test-failed bit set unless it was reset by
  request; the test is complete exactly when its not-completed bit is clear.\<close>

theorem monitor_event_agrees:
  "(\<exists>ev. mEvent (monitorRun (\<lambda>_. counterCall c) inputs (offeredMonitor newCounterBasedDebouncer)) = Some ev \<and>
      eventAgrees (cbStatus (mDebouncer (monitorRun (\<lambda>_. counterCall c) inputs
          (offeredMonitor newCounterBasedDebouncer)))) (Action kResetTestFailed \<in> snd ` set inputs) ev) \<and>
   (\<exists>ev. mEvent (monitorRun (timerCall t) inputs (offeredMonitor (newTimerBasedDebouncer p))) = Some ev \<and>
      eventAgrees (tbStatus (mDebouncer (monitorRun (timerCall t) inputs
          (offeredMonitor (newTimerBasedDebouncer p))))) (Action kResetTestFailed \<in> snd ` set inputs) ev)"
  using monitorRun_agrees [where call = "\<lambda>_. counterCall c" and m = "offeredMonitor newCounterBasedDebouncer" and inputs = inputs
        and ev = newEvent and b = False, OF counter.monitorStep_agrees]
    monitorRun_agrees [where call = "timerCall t" and m = "offeredMonitor (newTimerBasedDebouncer p)" and inputs = inputs
        and ev = newEvent and b = False, OF timer.monitorStep_agrees]
  by (simp add: newEvent_agrees newCounterBasedDebouncer_def newTimerBasedDebouncer_def)

section \<open>Counter-based debouncing\<close>

text \<open>A configuration whose jump values lie strictly between the thresholds.\<close>

definition counterConfig :: "CounterBased \<Rightarrow> bool" where
  "counterConfig c \<longleftrightarrow>
     sint (passedThreshold c) < 0 \<and> 0 < sint (failedThreshold c) \<and>
     sint (passedThreshold c) < sint (passedJumpValue c) \<and> sint (passedJumpValue c) < sint (failedThreshold c) \<and>
     sint (passedThreshold c) < sint (failedJumpValue c) \<and> sint (failedJumpValue c) < sint (failedThreshold c)"

definition counterInv :: "CounterBased \<Rightarrow> CounterBasedDebouncer \<Rightarrow> bool" where
  "counterInv c d \<longleftrightarrow>
     sint (passedThreshold c) \<le> sint (mFdc d) \<and> sint (mFdc d) \<le> sint (failedThreshold c) \<and>
     (sint (mFdc d) = sint (passedThreshold c) \<longrightarrow> cbStatus d = kPassed) \<and>
     (sint (mFdc d) = sint (failedThreshold c) \<longrightarrow> cbStatus d = kFailed)"

lemma sint16_range: "- 32768 \<le> sint (w :: 16 word)" "sint (w :: 16 word) \<le> 32767"
  using sint_ge [of w] sint_lt [of w] by simp_all

lemma sint16_of_int:
  assumes "- 32768 \<le> i" "i \<le> 32767"
  shows "sint (word_of_int i :: 16 word) = i"
  using assms by (simp add: sint_sbintrunc' signed_take_bit_int_eq_self)

lemma counterInv_call:
  assumes "counterConfig c" "counterInv c d"
  shows "counterInv c (fst (counterCall c k d))"
proof -
  have inv: "sint (passedThreshold c) \<le> sint (mFdc d)" "sint (mFdc d) \<le> sint (failedThreshold c)"
    using assms(2) by (simp_all add: counterInv_def)
  note r = sint16_range [of "failedThreshold c"] sint16_range [of "passedThreshold c"]
  have down: "sint (word_of_int (sint (mFdc d) - uint (passedStepsize c)) :: 16 word) =
      sint (mFdc d) - uint (passedStepsize c)"
    if "sint (passedThreshold c) < sint (mFdc d) - uint (passedStepsize c)"
    using that inv r uint_ge_0 [of "passedStepsize c"]
    by (intro sint16_of_int) linarith+
  have up: "sint (word_of_int (sint (mFdc d) + uint (failedStepsize c)) :: 16 word) =
      sint (mFdc d) + uint (failedStepsize c)"
    if "sint (mFdc d) + uint (failedStepsize c) < sint (failedThreshold c)"
    using that inv r uint_ge_0 [of "failedStepsize c"]
    by (intro sint16_of_int) linarith+
  define a b where ab: "a = uint (passedStepsize c)" "b = uint (failedStepsize c)"
  have "0 \<le> a" "0 \<le> b" by (simp_all add: ab)
  then show ?thesis
    using assms down [folded ab] up [folded ab]
    by (cases k) (auto simp: counterInv_def counterConfig_def cbReach_def ab [symmetric])
qed

text \<open>With thresholds around zero and jump values between them the fault detection counter of the
  counter-based debouncer never leaves the thresholds, so its 16-bit arithmetic never wraps, and it
  reaches a threshold only with the status that belongs to it.\<close>

lemma counter_within_thresholds:
  assumes "counterConfig c"
    and "d = fst (fold (\<lambda>k (d, _). counterCall c k d) calls (newCounterBasedDebouncer, None))"
  shows "sint (passedThreshold c) \<le> sint (mFdc d) \<and> sint (mFdc d) \<le> sint (failedThreshold c) \<and>
    (mFdc d = passedThreshold c \<longrightarrow> cbStatus d = kPassed) \<and> (mFdc d = failedThreshold c \<longrightarrow> cbStatus d = kFailed)"
proof -
  have "counterInv c d0 \<Longrightarrow> counterInv c (fst (fold (\<lambda>k (d, _). counterCall c k d) calls (d0, r)))" for d0 r
  proof (induction calls arbitrary: d0 r)
    case (Cons k calls)
    then show ?case
      using counterInv_call [OF assms(1), of d0 k] Cons.IH [of "fst (counterCall c k d0)" "snd (counterCall c k d0)"]
      by simp
  qed simp
  moreover have "counterInv c newCounterBasedDebouncer"
    using assms(1) by (simp add: counterInv_def counterConfig_def newCounterBasedDebouncer_def)
  ultimately show ?thesis using assms(2) by (auto simp: counterInv_def)
qed

definition sampleCounter :: CounterBased where
  "sampleCounter =
     \<lparr> failedThreshold = 10, passedThreshold = -10, failedStepsize = 4, passedStepsize = 3,
       failedJumpValue = 0, passedJumpValue = 0, useJumpToFailed = False, useJumpToPassed = True \<rparr>"

lemma sampleCounter_config: "counterConfig sampleCounter"
  by (simp add: counterConfig_def sampleCounter_def)

primrec prefailed :: "CounterBased \<Rightarrow> nat \<Rightarrow> CounterBasedDebouncer \<Rightarrow> CounterBasedDebouncer \<times> bool list" where
  "prefailed c 0 d = (d, [])"
| "prefailed c (Suc k) d =
     (case prefailed c k d of (d', cbs) \<Rightarrow>
        case counterCall c ReportPrefailed d' of (d'', cb) \<Rightarrow>
          (d'', cbs @ (case cb of None \<Rightarrow> [] | Some b \<Rightarrow> [b])))"

text \<open>Pre-failed reports are debounced: from neutral, without jumps, k reports bring the counter to k
  step sizes, capped at the failed threshold; the status is failed exactly when the cap is reached, and the
  monitor is called back once, at that moment, however many reports follow.\<close>

lemma prefailed_debounced:
  assumes "0 < sint (failedThreshold c)" "\<not> useJumpToFailed c" "0 < uint (failedStepsize c)"
    and "cbStatus d = kPending" "mFdc d = 0"
  shows "sint (mFdc (fst (prefailed c k d))) = min (int k * uint (failedStepsize c)) (sint (failedThreshold c)) \<and>
    cbStatus (fst (prefailed c k d)) =
      (if int k * uint (failedStepsize c) \<ge> sint (failedThreshold c) then kFailed else kPending) \<and>
    snd (prefailed c k d) = (if int k * uint (failedStepsize c) \<ge> sint (failedThreshold c) then [False] else [])"
proof (induction k)
  case 0
  then show ?case using assms by simp
next
  case (Suc k)
  let ?s = "uint (failedStepsize c)" let ?T = "sint (failedThreshold c)"
  obtain d' cbs where p: "prefailed c k d = (d', cbs)" by (cases "prefailed c k d")
  with Suc have IH: "sint (mFdc d') = min (int k * ?s) ?T"
    "cbStatus d' = (if int k * ?s \<ge> ?T then kFailed else kPending)"
    "cbs = (if int k * ?s \<ge> ?T then [False] else [])"
    by simp_all
  have mul: "int (Suc k) * ?s = int k * ?s + ?s" "0 \<le> int k * ?s" using assms(3) by (simp_all add: algebra_simps)
  have w: "sint (word_of_int (int k * ?s + ?s) :: 16 word) = int k * ?s + ?s" if "int k * ?s + ?s < ?T"
    using that mul assms(3) sint16_range [of "failedThreshold c"] by (intro sint16_of_int) linarith+
  show ?case
  proof (cases "int k * ?s \<ge> ?T")
    case True
    then show ?thesis
      using IH mul assms p by (simp add: cbReach_def statusCallback.simps)
  next
    case False
    then show ?thesis
      using IH mul assms p w
      by (cases "int k * ?s + ?s \<ge> ?T") (simp_all add: cbReach_def statusCallback.simps)
  qed
qed

section \<open>Trouble codes\<close>

text \<open>
  The three notifiers are always set here; the logs hold their calls: the status before and after a
  change, the number of stored entries, and the control status.
\<close>

datatype ControlDtcStatusType = kDTCSettingOn | kDTCSettingOff

datatype UdsDtcStatusBitType =
  kDtcTestFailed | kDtcTestFailedThisOperationCycle | kPendingDTC | kConfirmedDTC
| kTestNotCompletedSinceLastClear | kTestFailedSinceLastClear | kDtcTestNotCompletedThisOperationCycle
| kWarningIndicatorRequested

fun maskByte :: "UdsDtcStatusBitType \<Rightarrow> u8" where
  "maskByte kDtcTestFailed = 0x01"
| "maskByte kDtcTestFailedThisOperationCycle = 0x02"
| "maskByte kPendingDTC = 0x04"
| "maskByte kConfirmedDTC = 0x08"
| "maskByte kTestNotCompletedSinceLastClear = 0x10"
| "maskByte kTestFailedSinceLastClear = 0x20"
| "maskByte kDtcTestNotCompletedThisOperationCycle = 0x40"
| "maskByte kWarningIndicatorRequested = 0x80"

record DTCInformation =
  mStatuses :: "u32 \<rightharpoonup> u8"
  statusChanges :: "(u32 \<times> u8 \<times> u8) list"
  storedEntries :: "u32 list"
  mControlDtcStatus :: ControlDtcStatusType
  controlChanges :: "ControlDtcStatusType list"

definition newDTCInformation :: DTCInformation where
  "newDTCInformation =
     \<lparr> mStatuses = Map.empty, statusChanges = [], storedEntries = [], mControlDtcStatus = kDTCSettingOff,
       controlChanges = [] \<rparr>"

text \<open>None is the error \<open>kNoSuchDTC\<close>.\<close>

definition GetCurrentStatus :: "DTCInformation \<Rightarrow> u32 \<Rightarrow> u8 option" where
  "GetCurrentStatus di dtc = mStatuses di dtc"

definition GetNumberOfStoredEntries :: "DTCInformation \<Rightarrow> u32" where
  "GetNumberOfStoredEntries di = of_nat (card (dom (mStatuses di)))"

definition notifyStoredEntries :: "DTCInformation \<Rightarrow> DTCInformation" where
  "notifyStoredEntries di = di\<lparr> storedEntries := storedEntries di @ [GetNumberOfStoredEntries di] \<rparr>"

definition SetCurrentStatus :: "DTCInformation \<Rightarrow> u32 \<Rightarrow> UdsDtcStatusBitType \<Rightarrow> u8 \<Rightarrow> DTCInformation" where
  "SetCurrentStatus di dtc bit_mask status =
     (case mStatuses di dtc of
        None \<Rightarrow> notifyStoredEntries (di\<lparr> mStatuses := (mStatuses di)(dtc \<mapsto> status) \<rparr>)
      | Some currentStatus \<Rightarrow>
          let maskedDifference = (currentStatus XOR status) AND maskByte bit_mask
          in if maskedDifference \<noteq> 0
             then di\<lparr> mStatuses := (mStatuses di)(dtc \<mapsto> currentStatus XOR maskedDifference),
                      statusChanges := statusChanges di @
                        [(dtc, currentStatus, currentStatus XOR maskedDifference)] \<rparr>
             else di)"

text \<open>False is the error \<open>kWrongDtc\<close>.\<close>

definition Clear :: "DTCInformation \<Rightarrow> u32 \<Rightarrow> bool \<times> DTCInformation" where
  "Clear di dtc =
     (case mStatuses di dtc of
        Some _ \<Rightarrow> (True, notifyStoredEntries (di\<lparr> mStatuses := (mStatuses di)(dtc := None) \<rparr>))
      | None \<Rightarrow> (False, di))"

definition EnableControlDtc :: "DTCInformation \<Rightarrow> DTCInformation" where
  "EnableControlDtc di =
     (if mControlDtcStatus di \<noteq> kDTCSettingOn
      then di\<lparr> mControlDtcStatus := kDTCSettingOn, controlChanges := controlChanges di @ [kDTCSettingOn] \<rparr>
      else di)"

text \<open>Setting the status of a stored trouble code changes exactly the bits of the mask, to those of
  the given status, and notifies with the old and the new status exactly when a bit changed; the first status of
  a code is stored whole, the mask is ignored, and no status change is notified.\<close>

lemma dtc_masked_update:
  "GetCurrentStatus (SetCurrentStatus di dtc bit_mask status) dtc =
     Some (case GetCurrentStatus di dtc of
        None \<Rightarrow> status
      | Some old \<Rightarrow> (old AND NOT (maskByte bit_mask)) OR (status AND maskByte bit_mask)) \<and>
   statusChanges (SetCurrentStatus di dtc bit_mask status) = statusChanges di @
     (case GetCurrentStatus di dtc of
        None \<Rightarrow> []
      | Some old \<Rightarrow>
          if old AND maskByte bit_mask = status AND maskByte bit_mask then []
          else [(dtc, old, (old AND NOT (maskByte bit_mask)) OR (status AND maskByte bit_mask))])"
proof (cases "mStatuses di dtc")
  case None
  then show ?thesis
    by (simp add: SetCurrentStatus_def GetCurrentStatus_def notifyStoredEntries_def)
next
  case (Some old)
  have flip: "old XOR ((old XOR status) AND maskByte bit_mask) =
      (old AND NOT (maskByte bit_mask)) OR (status AND maskByte bit_mask)"
    by (rule bit_word_eqI) (auto simp: bit_simps)
  have zero: "(old XOR status) AND maskByte bit_mask = 0 \<longleftrightarrow> old AND maskByte bit_mask = status AND maskByte bit_mask"
    by (auto simp: bit_eq_iff bit_simps)
  have same: "(old AND NOT (maskByte bit_mask)) OR (status AND maskByte bit_mask) = old"
    if "old AND maskByte bit_mask = status AND maskByte bit_mask"
  proof -
    have "(old AND NOT (maskByte bit_mask)) OR (old AND maskByte bit_mask) = old"
      by (rule bit_word_eqI) (auto simp: bit_simps)
    then show ?thesis using that by simp
  qed
  show ?thesis
    using Some flip zero same
    by (simp add: SetCurrentStatus_def GetCurrentStatus_def Let_def)
qed

datatype DtcInput = DtcSet u32 UdsDtcStatusBitType u8 | DtcClear u32 | DtcEnable

fun dtcStep :: "DtcInput \<Rightarrow> DTCInformation \<Rightarrow> DTCInformation" where
  "dtcStep (DtcSet dtc bit_mask status) di = SetCurrentStatus di dtc bit_mask status"
| "dtcStep (DtcClear dtc) di = snd (Clear di dtc)"
| "dtcStep DtcEnable di = EnableControlDtc di"

text \<open>The log of entry counts moves by one per entry stored or cleared and ends at the present count.\<close>

definition dtcInv :: "DTCInformation \<Rightarrow> bool" where
  "dtcInv di \<longleftrightarrow> finite (dom (mStatuses di)) \<and>
     (if storedEntries di = [] then dom (mStatuses di) = {}
      else last (storedEntries di) = GetNumberOfStoredEntries di) \<and>
     successively (\<lambda>x y. y = x + 1 \<or> y = x - 1) (storedEntries di)"

lemma dtcInv_notify:
  assumes "dtcInv di" "mStatuses di' = (mStatuses di)(dtc := x)" "storedEntries di' = storedEntries di"
    and "(mStatuses di dtc = None) \<noteq> (x = None)"
  shows "dtcInv (notifyStoredEntries di')"
proof -
  have fin: "finite (dom (mStatuses di))" using assms(1) by (simp add: dtcInv_def)
  have "of_nat (card (dom (mStatuses di'))) = (of_nat (card (dom (mStatuses di))) + 1 :: u32) \<or>
      of_nat (card (dom (mStatuses di'))) = (of_nat (card (dom (mStatuses di))) - 1 :: u32)"
  proof (cases x)
    case None
    then have "dtc \<in> dom (mStatuses di)" using assms(4) by auto
    then have "card (dom (mStatuses di)) = Suc (card (dom (mStatuses di) - {dtc}))"
      by (rule card.remove [OF fin])
    then show ?thesis using assms(2) None by simp
  next
    case (Some y)
    then have "dtc \<notin> dom (mStatuses di)" using assms(4) by auto
    then show ?thesis using assms(2) Some fin by simp
  qed
  moreover have "finite (dom (mStatuses di'))" using fin assms(2) by simp
  ultimately show ?thesis
    using assms(1,3)
    by (cases "storedEntries di = []")
      (simp_all add: dtcInv_def notifyStoredEntries_def GetNumberOfStoredEntries_def successively_append_iff)
qed

lemma dtcInv_step:
  assumes "dtcInv di"
  shows "dtcInv (dtcStep inp di)"
proof (cases inp)
  case (DtcSet dtc m status)
  show ?thesis
  proof (cases "mStatuses di dtc")
    case None
    then show ?thesis
      using DtcSet assms by (auto simp: SetCurrentStatus_def intro: dtcInv_notify)
  next
    case (Some old)
    then have "insert dtc (dom (mStatuses di)) = dom (mStatuses di)" by auto
    then show ?thesis
      using DtcSet assms Some
      by (cases "storedEntries di = []") (simp_all add: SetCurrentStatus_def Let_def dtcInv_def GetNumberOfStoredEntries_def)
  qed
next
  case (DtcClear dtc)
  then show ?thesis
    using assms by (auto simp: Clear_def split: option.split intro: dtcInv_notify)
next
  case DtcEnable
  then show ?thesis
    using assms
    by (cases "storedEntries di = []") (simp_all add: EnableControlDtc_def dtcInv_def GetNumberOfStoredEntries_def)
qed

text \<open>Through any sequence of updates, clears and enablings the notifier of stored entries is called
  once per entry added or removed: its values move by one, and the last one is the number of stored codes.\<close>

theorem dtc_entries_notified:
  "let di = fold dtcStep inputs newDTCInformation in
   successively (\<lambda>x y. y = x + 1 \<or> y = x - 1) (storedEntries di) \<and>
   (if storedEntries di = [] then GetNumberOfStoredEntries di = 0
    else last (storedEntries di) = GetNumberOfStoredEntries di)"
proof -
  have "dtcInv di \<Longrightarrow> dtcInv (fold dtcStep inputs di)" for di
    by (induction inputs arbitrary: di) (simp_all add: dtcInv_step)
  moreover have "dtcInv newDTCInformation" by (simp add: dtcInv_def newDTCInformation_def)
  ultimately show ?thesis
    by (auto simp: dtcInv_def Let_def GetNumberOfStoredEntries_def split: if_splits)
qed

section \<open>Condition, operation cycle and conversation\<close>

datatype ConditionType = kConditionFalse | kConditionTrue

definition newCondition :: ConditionType where "newCondition = kConditionFalse"

definition SetCondition :: "ConditionType \<Rightarrow> ConditionType \<Rightarrow> ConditionType" where
  "SetCondition condition old = condition"

text \<open>Whether the notifier is set, and how often it was called.\<close>

definition RestartOperationCycle :: "bool \<times> nat \<Rightarrow> bool \<times> nat" where
  "RestartOperationCycle oc = (fst oc, if fst oc then snd oc + 1 else snd oc)"

datatype ActivityStatusType = kActive | kInactive

datatype SessionControlType =
  kDefaultSession | kProgrammingSession | kExtendedDiagnosticSession | kSafetySystemDiagnosticSession

text \<open>The security level of a conversation has one value, locked, in this version of the code.\<close>

record Conversation =
  mActivityStatus :: ActivityStatusType
  mDiagnosticSession :: SessionControlType
  mActivityNotifier :: bool
  activityChanges :: "ActivityStatusType list"
  mDiagnosticSessionNotifier :: bool
  sessionChanges :: "SessionControlType list"

definition newConversation :: Conversation where
  "newConversation =
     \<lparr> mActivityStatus = kActive, mDiagnosticSession = kDefaultSession, mActivityNotifier = False,
       activityChanges = [], mDiagnosticSessionNotifier = False, sessionChanges = [] \<rparr>"

definition GetConversation :: "Conversation list \<Rightarrow> nat \<times> Conversation list" where
  "GetConversation conversations = (length conversations, conversations @ [newConversation])"

text \<open>
  The references point to the copy the loop works on, which is gone when the function returns:
  a result with an active conversation cannot be used.
\<close>

definition GetCurrentActiveConversations :: "Conversation list \<Rightarrow> Conversation list res" where
  "GetCurrentActiveConversations conversations =
     (if list_ex (\<lambda>c. mActivityStatus c = kActive) conversations then Inl Undefined else Inr [])"

definition Deactivate :: "Conversation \<Rightarrow> Conversation" where
  "Deactivate c =
     (if mActivityStatus c \<noteq> kInactive
      then c\<lparr> mActivityStatus := kInactive,
              activityChanges := activityChanges c @ (if mActivityNotifier c then [kInactive] else []) \<rparr>
      else c)"

definition SetDiagnosticSession :: "SessionControlType \<Rightarrow> Conversation \<Rightarrow> Conversation" where
  "SetDiagnosticSession session c =
     (if mDiagnosticSession c \<noteq> session
      then c\<lparr> mDiagnosticSession := session,
              sessionChanges := sessionChanges c @ (if mDiagnosticSessionNotifier c then [session] else []) \<rparr>
      else c)"

fun GetDiagnosticSessionShortName :: "SessionControlType \<Rightarrow> string" where
  "GetDiagnosticSessionShortName kDefaultSession = ''Default session''"
| "GetDiagnosticSessionShortName kProgrammingSession = ''Programming session''"
| "GetDiagnosticSessionShortName kExtendedDiagnosticSession = ''Extended diagnostic session''"
| "GetDiagnosticSessionShortName kSafetySystemDiagnosticSession = ''Safety system diagnostic session''"

definition ResetToDefaultSession :: "Conversation \<Rightarrow> Conversation" where
  "ResetToDefaultSession c = SetDiagnosticSession kDefaultSession c"

lemma session_changes_chain:
  "mDiagnosticSessionNotifier c \<Longrightarrow> successively (\<noteq>) (mDiagnosticSession c # ss) \<Longrightarrow>
     sessionChanges (fold SetDiagnosticSession ss c) = sessionChanges c @ ss"
  by (induction ss arbitrary: c) (auto simp: SetDiagnosticSession_def)

end
