(* ===== verification/Exec.thy ===== *)
theory Exec
  imports Rpc
begin

text \<open>
  \<open>ara/exec\<close>: the execution server and client, the state server and client that speak to each other over
  SOME/IP RPC, the serialization of instance specifiers and function group states
  (\<open>ara/core/instance_specifier.cpp\<close>), \<open>ara/sm/trigger.h\<close>, and the life cycle of a modelled process.
  A \<open>try_lock\<close> that fails because another thread holds the mutex is the flag \<open>busy\<close>; a wait for a
  future is given the response that arrives in time, if any.
\<close>

section \<open>Strings on the wire and error codes\<close>

definition serializeString :: "string \<Rightarrow> bytes" where
  "serializeString s = be32 (of_nat (length s)) @ stringBytes s"

datatype ExecErrc =
  kGeneralError | kInvalidArguments | kCommunicationError | kMetaModelError | kCancelled | kFailed
| kFailedUnexpectedTerminationOnExit | kFailedUnexpectedTerminationOnEnter | kInvalidTransition
| kAlreadyInState | kInTransitionToSameState | kNoTimeStamp | kCycleOverrun

fun ExecErrc_code :: "ExecErrc \<Rightarrow> u32" where
  "ExecErrc_code kGeneralError = 1"
| "ExecErrc_code kInvalidArguments = 2"
| "ExecErrc_code kCommunicationError = 3"
| "ExecErrc_code kMetaModelError = 4"
| "ExecErrc_code kCancelled = 5"
| "ExecErrc_code kFailed = 6"
| "ExecErrc_code kFailedUnexpectedTerminationOnExit = 7"
| "ExecErrc_code kFailedUnexpectedTerminationOnEnter = 8"
| "ExecErrc_code kInvalidTransition = 9"
| "ExecErrc_code kAlreadyInState = 10"
| "ExecErrc_code kInTransitionToSameState = 11"
| "ExecErrc_code kNoTimeStamp = 12"
| "ExecErrc_code kCycleOverrun = 13"

definition injectErrorCode :: "bytes \<Rightarrow> ExecErrc \<Rightarrow> bytes" where
  "injectErrorCode payload errorCode = Inject32 payload (ExecErrc_code errorCode)"

abbreviation refuse :: "ExecErrc \<Rightarrow> 's \<Rightarrow> (bool \<times> bytes) res \<times> 's" where
  "refuse e st \<equiv> (Inr (False, injectErrorCode [] e), st)"

section \<open>Execution server\<close>

datatype ExecutionState = kRunning

record ExecutionServer =
  mExecutionStates :: "string \<rightharpoonup> ExecutionState"

definition newExecutionServer :: ExecutionServer where
  "newExecutionServer = \<lparr> mExecutionStates = Map.empty \<rparr>"

definition handleExecutionStateReport :: "ExecutionServer handler" where
  "handleExecutionStateReport rpcRequestPayload es =
     (if length rpcRequestPayload < 5 then refuse kInvalidArguments es
      else case ExtractInteger rpcRequestPayload 0 of
             Inl e \<Rightarrow> (Inl e, es)
           | Inr (len, beginOffset) \<Rightarrow>
               (let endOffset = beginOffset + unat len in
                if length rpcRequestPayload \<le> endOffset then refuse kInvalidArguments es
                else case at rpcRequestPayload endOffset of
                       Inl e \<Rightarrow> (Inl e, es)
                     | Inr executionStateByte \<Rightarrow>
                         if executionStateByte \<noteq> 0 then refuse kInvalidArguments es
                         else let ident = bytesString (take (unat len) (drop beginOffset rpcRequestPayload))
                              in case mExecutionStates es ident of
                                   Some kRunning \<Rightarrow> refuse kAlreadyInState es
                                 | None \<Rightarrow>
                                     (Inr (True, []),
                                      es\<lparr> mExecutionStates := (mExecutionStates es)(ident \<mapsto> kRunning) \<rparr>)))"

definition TryGetExecutionState :: "ExecutionServer \<Rightarrow> string \<Rightarrow> ExecutionState option" where
  "TryGetExecutionState es ident = mExecutionStates es ident"

text \<open>The constructor registers the handler at the RPC server.\<close>

definition ExecutionServer_register :: "ExecutionServer RpcServer \<Rightarrow> ExecutionServer RpcServer" where
  "ExecutionServer_register srv = Server_SetHandler srv 1 1 handleExecutionStateReport"

section \<open>Execution client\<close>

text \<open>\<open>ecFutureValid\<close>: the future of an earlier report was not fetched. None is success.\<close>

record ExecutionClient =
  ecInstance :: string
  ecFutureValid :: bool

definition newExecutionClient :: "string \<Rightarrow> int \<Rightarrow> ExecutionClient res" where
  "newExecutionClient instanceSpecifier timeout =
     (if timeout > 0 then Inr \<lparr> ecInstance = instanceSpecifier, ecFutureValid = False \<rparr>
      else Inl Invalid_argument)"

definition responseOutcome :: "bytes \<Rightarrow> u32 option" where
  "responseOutcome rpcPayload =
     (if rpcPayload = [] then None
      else case ExtractInteger rpcPayload 0 of
             Inr (executionErrorCodeInt, _) \<Rightarrow> Some executionErrorCodeInt
           | Inl _ \<Rightarrow> Some (ExecErrc_code kCommunicationError))"

definition reportPayload :: "ExecutionClient \<Rightarrow> bytes" where
  "reportPayload ec = serializeString (ecInstance ec) @ [0]"

text \<open>The payload sent, if one is sent, the result, and the client afterwards.\<close>

definition ReportExecutionState ::
    "bytes option \<Rightarrow> ExecutionClient \<Rightarrow> bytes option \<times> u32 option \<times> ExecutionClient" where
  "ReportExecutionState reply ec =
     (if ecFutureValid ec then (None, Some (ExecErrc_code kFailed), ec)
      else case reply of
             None \<Rightarrow> (Some (reportPayload ec), Some (ExecErrc_code kCommunicationError),
                      ec\<lparr> ecFutureValid := True \<rparr>)
           | Some rpcPayload \<Rightarrow> (Some (reportPayload ec), responseOutcome rpcPayload, ec))"

section \<open>State server\<close>

text \<open>
  The declared pairs of function group and state, the current states, the groups with a notifier, and
  the log of the calls of the notifiers.
\<close>

record StateServer =
  mFunctionGroupStates :: "(string \<times> string) list"
  mCurrentStates :: "string \<rightharpoonup> string"
  mNotifiers :: "string list"
  notified :: "(string \<times> string) list"
  mInitialized :: bool

definition newStateServer ::
    "(string \<times> string) list \<Rightarrow> (string \<times> string) list \<Rightarrow> StateServer res" where
  "newStateServer functionGroupStates initialStates =
     (if list_ex (\<lambda>p. p \<notin> set functionGroupStates) initialStates then Inl Invalid_argument
      else if list_ex (\<lambda>p. map_of initialStates (fst p) = None) functionGroupStates then Inl Logic_error
      else Inr \<lparr> mFunctionGroupStates = functionGroupStates, mCurrentStates = map_of initialStates,
                 mNotifiers = [], notified = [], mInitialized = False \<rparr>)"

text \<open>\<open>Trigger::Write\<close> stores the state it is given, which is already there, and calls the handler.\<close>

definition Trigger_Write :: "string \<Rightarrow> string \<Rightarrow> StateServer \<Rightarrow> StateServer" where
  "Trigger_Write functionGroup state ss =
     ss\<lparr> mCurrentStates := (mCurrentStates ss)(functionGroup \<mapsto> state),
         notified := notified ss @ [(functionGroup, state)] \<rparr>"

definition StateServer_notify :: "string \<Rightarrow> string \<Rightarrow> StateServer \<Rightarrow> StateServer" where
  "StateServer_notify functionGroup state ss =
     (if functionGroup \<in> set (mNotifiers ss) then Trigger_Write functionGroup state ss else ss)"

text \<open>The part of \<open>handleSetState\<close> after the names are read.\<close>

definition setState :: "bool \<Rightarrow> string \<Rightarrow> string \<Rightarrow> StateServer \<Rightarrow> (bool \<times> bytes) res \<times> StateServer" where
  "setState busy functionGroup state ss =
     (if (functionGroup, state) \<notin> set (mFunctionGroupStates ss) then refuse kInvalidTransition ss
      else if busy then refuse kGeneralError ss
      else case mCurrentStates ss functionGroup of
             None \<Rightarrow> refuse kInvalidTransition ss
           | Some current \<Rightarrow>
               if current = state then refuse kAlreadyInState ss
               else (Inr (True, []),
                     StateServer_notify functionGroup state
                       (ss\<lparr> mCurrentStates := (mCurrentStates ss)(functionGroup \<mapsto> state) \<rparr>)))"

definition handleSetState :: "bool \<Rightarrow> StateServer handler" where
  "handleSetState busy rpcRequestPayload ss =
     (if length rpcRequestPayload < 8 then refuse kInvalidArguments ss
      else case ExtractInteger rpcRequestPayload 0 of
             Inl e \<Rightarrow> (Inl e, ss)
           | Inr (functionGroupLength, beginOffset) \<Rightarrow>
               (let endOffset = beginOffset + unat functionGroupLength in
                if length rpcRequestPayload < endOffset + 4 then refuse kInvalidArguments ss
                else let functionGroup =
                       bytesString (take (unat functionGroupLength) (drop beginOffset rpcRequestPayload))
                     in case ExtractInteger rpcRequestPayload endOffset of
                          Inl e \<Rightarrow> (Inl e, ss)
                        | Inr (stateLength, beginOffset) \<Rightarrow>
                            (let endOffset = beginOffset + unat stateLength in
                             if length rpcRequestPayload < endOffset then refuse kInvalidArguments ss
                             else setState busy functionGroup
                                    (bytesString (take (unat stateLength) (drop beginOffset rpcRequestPayload))) ss)))"

definition handleStateTransition :: "StateServer handler" where
  "handleStateTransition rpcRequestPayload ss =
     (if rpcRequestPayload \<noteq> [] then refuse kInvalidArguments ss
      else if mInitialized ss then refuse kFailed ss
      else (Inr (True, []), ss\<lparr> mInitialized := True \<rparr>))"

definition TryGetState :: "bool \<Rightarrow> StateServer \<Rightarrow> string \<Rightarrow> string option" where
  "TryGetState busy ss functionGroup = (if busy then None else mCurrentStates ss functionGroup)"

definition SetNotifier :: "string \<Rightarrow> StateServer \<Rightarrow> StateServer res" where
  "SetNotifier functionGroup ss =
     (case mCurrentStates ss functionGroup of
        None \<Rightarrow> Inl Out_of_range
      | Some _ \<Rightarrow> Inr (ss\<lparr> mNotifiers := List.insert functionGroup (mNotifiers ss) \<rparr>))"

definition StateServer_register :: "bool \<Rightarrow> StateServer RpcServer \<Rightarrow> StateServer RpcServer" where
  "StateServer_register busy srv =
     Server_SetHandler (Server_SetHandler srv 3 1 (handleSetState busy)) 3 2 handleStateTransition"

text \<open>\<open>FunctionGroupState::Serialize\<close>.\<close>

definition FunctionGroupState_Serialize :: "bytes \<Rightarrow> string \<Rightarrow> string \<Rightarrow> bytes" where
  "FunctionGroupState_Serialize serializedObject functionGroup state =
     Inject32 (Inject32 serializedObject (of_nat (length functionGroup)) @ stringBytes functionGroup)
       (of_nat (length state)) @ stringBytes state"

section \<open>State client\<close>

text \<open>
  One of the two requests of the client: the outcomes of the futures handed out and superseded, the
  outcome of the present promise (None while it is not set), and whether a future was handed out.
\<close>

record Request =
  superseded :: "u32 option option list"
  outcome :: "u32 option option"
  futureValid :: bool

definition newRequest :: Request where
  "newRequest = \<lparr> superseded = [], outcome = None, futureValid = False \<rparr>"

text \<open>\<open>SetState\<close> and \<open>GetInitialMachineStateTransitionResult\<close>, before they send.\<close>

definition renewRequest :: "Request \<Rightarrow> Request" where
  "renewRequest r =
     (if futureValid r
      then r\<lparr> superseded := superseded r @
                [case outcome r of None \<Rightarrow> Some (Some (ExecErrc_code kCancelled)) | Some oc \<Rightarrow> Some oc],
              outcome := None \<rparr>
      else r\<lparr> futureValid := True \<rparr>)"

text \<open>A second response finds the promise set: \<open>std::future_error\<close>, a logic error, is not caught.\<close>

definition genericHandler :: "bytes \<Rightarrow> Request \<Rightarrow> Request res" where
  "genericHandler rpcPayload r =
     (case outcome r of
        None \<Rightarrow> Inr (r\<lparr> outcome := Some (responseOutcome rpcPayload) \<rparr>)
      | Some _ \<Rightarrow> Inl Logic_error)"

definition GetExecutionError :: u32 where
  "GetExecutionError = ExecErrc_code kFailed"

section \<open>Modelled process\<close>

text \<open>The cancellation token, and whether the main function was started and not yet waited for.\<close>

record ModelledProcess =
  mCancellationToken :: bool
  mpRunning :: bool

definition newModelledProcess :: ModelledProcess where
  "newModelledProcess = \<lparr> mCancellationToken = False, mpRunning = False \<rparr>"

text \<open>The second component: the token the main function is started with, if it is started.\<close>

definition Initialize :: "ModelledProcess \<Rightarrow> ModelledProcess \<times> bool option" where
  "Initialize mp =
     (if \<not> mpRunning mp then (mp\<lparr> mpRunning := True \<rparr>, Some (mCancellationToken mp)) else (mp, None))"

definition Terminate :: "int \<Rightarrow> ModelledProcess \<Rightarrow> int \<times> ModelledProcess" where
  "Terminate exitCode mp =
     (if mpRunning mp then (exitCode, mp\<lparr> mCancellationToken := True, mpRunning := False \<rparr>) else (0, mp))"

section \<open>Reading back what was serialized\<close>

lemma length_serializeString [simp]: "length (serializeString s) = 4 + length s"
  by (simp add: serializeString_def)

lemma take_4_drop:
  "off + 4 \<le> length v \<Longrightarrow> take 4 (drop off v) = [v ! off, v ! (off + 1), v ! (off + 2), v ! (off + 3)]"
  by (simp add: numeral_eq_Suc take_Suc_conv_app_nth nth_append add_ac)

lemma ExtractInteger_Inr:
  assumes "ExtractInteger v off = Inr (len, off')"
  shows "off' = off + 4 \<and> off + 4 \<le> length v \<and> take 4 (drop off v) = be32 len"
proof -
  have "off + 4 \<le> length v" using assms integer.dec_short [of v off] by (cases "length v < off + 4") auto
  with assms show ?thesis by (auto simp: ExtractInteger_total take_4_drop)
qed

lemma serialize_decode:
  assumes "ExtractInteger p off = Inr (len, off')" "off' + unat len \<le> length p"
  shows "take (4 + unat len) (drop off p) = serializeString (bytesString (take (unat len) (drop off' p)))"
proof -
  have "take (4 + unat len) (drop off p) = take 4 (drop off p) @ take (unat len) (drop (off + 4) p)"
    using take_add [of 4 "unat len" "drop off p"] by (simp add: add.commute)
  moreover have "length (take (unat len) (drop off' p)) = unat len" using assms(2) by simp
  ultimately show ?thesis
    using ExtractInteger_Inr [OF assms(1)] by (simp add: serializeString_def del: length_take)
qed

lemma serialize_extract:
  assumes "length s < 2 ^ 32"
  shows "ExtractInteger (pre @ serializeString s @ rest) (length pre) =
      Inr (of_nat (length s), length pre + 4)"
    "unat (of_nat (length s) :: u32) = length s"
    "take (length s) (drop (length pre + 4) (pre @ serializeString s @ rest)) = stringBytes s"
proof -
  show "ExtractInteger (pre @ serializeString s @ rest) (length pre) =
      Inr (of_nat (length s), length pre + 4)"
    using integer.dec_enc_at [where x = "of_nat (length s)" and pre = pre and suf = "stringBytes s @ rest"]
    by (simp add: serializeString_def)
  show "unat (of_nat (length s) :: u32) = length s"
    using assms by (simp add: unat_of_nat take_bit_nat_eq_self)
  show "take (length s) (drop (length pre + 4) (pre @ serializeString s @ rest)) = stringBytes s"
    by (simp add: serializeString_def)
qed

lemma FunctionGroupState_Serialize_eq:
  "FunctionGroupState_Serialize v fg st = v @ serializeString fg @ serializeString st"
  by (simp add: FunctionGroupState_Serialize_def Inject32_be32 serializeString_def)

lemma length_FunctionGroupState:
  "length (FunctionGroupState_Serialize [] fg st) = 8 + length fg + length st"
  by (simp add: FunctionGroupState_Serialize_eq)

text \<open>A request that carries two names is decoded to them, whatever follows.\<close>

lemma handleSetState_serialized:
  assumes "length fg < 2 ^ 32" "length st < 2 ^ 32"
  shows "handleSetState busy (FunctionGroupState_Serialize [] fg st @ rest) ss = setState busy fg st ss"
proof -
  let ?p = "serializeString fg @ serializeString st @ rest"
  have e1: "ExtractInteger ?p 0 = Inr (of_nat (length fg), 4)"
    "unat (of_nat (length fg) :: u32) = length fg" "take (length fg) (drop 4 ?p) = stringBytes fg"
    using serialize_extract(1,3) [OF assms(1), of "[]" "serializeString st @ rest"] serialize_extract(2) [OF assms(1)]
    by simp_all
  have e2: "ExtractInteger ?p (4 + length fg) = Inr (of_nat (length st), 4 + length fg + 4)"
    "unat (of_nat (length st) :: u32) = length st"
    "take (length st) (drop (4 + length fg + 4) ?p) = stringBytes st"
    using serialize_extract(1,3) [OF assms(2), of "serializeString fg" rest] serialize_extract(2) [OF assms(2)]
    by simp_all
  show ?thesis
    using e1 e2
    by (simp add: handleSetState_def FunctionGroupState_Serialize_eq Let_def)
qed

text \<open>Conversely, an accepted request carries two names.\<close>

lemma handleSetState_accepted:
  assumes "handleSetState busy p ss = (Inr (True, r), ss')"
  shows "\<exists>fg st rest. p = FunctionGroupState_Serialize [] fg st @ rest \<and>
    length fg < 2 ^ 32 \<and> length st < 2 ^ 32 \<and> setState busy fg st ss = (Inr (True, r), ss')"
proof -
  from assms obtain l1 o1 l2 o2 where
    e1: "ExtractInteger p 0 = Inr (l1, o1)" "o1 + unat l1 + 4 \<le> length p"
    and e2: "ExtractInteger p (o1 + unat l1) = Inr (l2, o2)" "o2 + unat l2 \<le> length p"
    and s: "setState busy (bytesString (take (unat l1) (drop o1 p)))
        (bytesString (take (unat l2) (drop o2 p))) ss = (Inr (True, r), ss')"
    by (auto simp: handleSetState_def Let_def not_less split: if_splits sum.splits)
  have o1: "o1 = 4" using ExtractInteger_Inr [OF e1(1)] by simp
  have o2: "o2 = 8 + unat l1" using ExtractInteger_Inr [OF e2(1)] o1 by simp
  let ?fg = "bytesString (take (unat l1) (drop o1 p))" let ?st = "bytesString (take (unat l2) (drop o2 p))"
  have t1: "take (4 + unat l1) p = serializeString ?fg"
    using serialize_decode [OF e1(1)] e1(2) o1 by simp
  have t2: "take (4 + unat l2) (drop (4 + unat l1) p) = serializeString ?st"
    using serialize_decode [OF e2(1)] e2(2) o1 o2 by (simp add: add_ac)
  have "p = take (4 + unat l1) p @ take (4 + unat l2) (drop (4 + unat l1) p) @ drop (4 + unat l2) (drop (4 + unat l1) p)"
    by (metis append_take_drop_id)
  then have p: "p = FunctionGroupState_Serialize [] ?fg ?st @ drop (4 + unat l2) (drop (4 + unat l1) p)"
    unfolding t1 t2 by (simp add: FunctionGroupState_Serialize_eq)
  moreover have "length ?fg < 2 ^ 32" "length ?st < 2 ^ 32"
    using unsigned_less [of l1, where ?'a = nat] unsigned_less [of l2, where ?'a = nat] e1(2) e2(2)
    by simp_all
  ultimately show ?thesis using s by blast
qed

text \<open>The state server accepts a set-state request exactly when it starts with the serialization of
  a declared pair of function group and state, no other thread holds the lock, and the group is in
  another state; it then answers with an empty payload, enters exactly that state and calls the notifier of
  the group, if there is one, once.\<close>

lemma set_state_accepted:
  "handleSetState busy p ss = (Inr (True, r), ss') \<longleftrightarrow>
     (\<exists>fg st rest old. p = FunctionGroupState_Serialize [] fg st @ rest \<and>
        length fg < 2 ^ 32 \<and> length st < 2 ^ 32 \<and>
        (fg, st) \<in> set (mFunctionGroupStates ss) \<and> \<not> busy \<and> mCurrentStates ss fg = Some old \<and> old \<noteq> st \<and>
        r = [] \<and>
        ss' = ss\<lparr> mCurrentStates := (mCurrentStates ss)(fg \<mapsto> st),
                 notified := notified ss @ (if fg \<in> set (mNotifiers ss) then [(fg, st)] else []) \<rparr>)"
    (is "?l \<longleftrightarrow> ?r")
proof
  assume ?l
  from handleSetState_accepted [OF this] show ?r
    by (fastforce simp: setState_def StateServer_notify_def Trigger_Write_def split: if_splits option.splits)
next
  assume ?r
  then show ?l
    by (auto simp: handleSetState_serialized setState_def StateServer_notify_def Trigger_Write_def)
qed

section \<open>The state server through its life\<close>

datatype StateRequest = SetStateRequest bool bytes | StateTransitionRequest bytes | NotifierSet string

text \<open>Whether the request was accepted.\<close>

fun stateStep :: "StateRequest \<Rightarrow> StateServer \<Rightarrow> bool \<times> StateServer" where
  "stateStep (SetStateRequest busy p) ss =
     (case handleSetState busy p ss of (r, ss') \<Rightarrow> ((case r of Inr (b, _) \<Rightarrow> b | Inl _ \<Rightarrow> False), ss'))"
| "stateStep (StateTransitionRequest p) ss =
     (case handleStateTransition p ss of (r, ss') \<Rightarrow> ((case r of Inr (b, _) \<Rightarrow> b | Inl _ \<Rightarrow> False), ss'))"
| "stateStep (NotifierSet fg) ss =
     (case SetNotifier fg ss of Inr ss' \<Rightarrow> (True, ss') | Inl _ \<Rightarrow> (False, ss))"

primrec stateRun :: "StateRequest list \<Rightarrow> StateServer \<Rightarrow> (StateRequest \<times> bool) list \<times> StateServer" where
  "stateRun [] ss = ([], ss)"
| "stateRun (q # qs) ss =
     (case stateStep q ss of (b, ss') \<Rightarrow> case stateRun qs ss' of (rs, ss'') \<Rightarrow> ((q, b) # rs, ss''))"

definition ssInv :: "(string \<times> string) list \<Rightarrow> StateServer \<Rightarrow> bool" where
  "ssInv states ss \<longleftrightarrow> mFunctionGroupStates ss = states \<and>
     dom (mCurrentStates ss) = fst ` set states \<and>
     (\<forall>fg st. mCurrentStates ss fg = Some st \<longrightarrow> (fg, st) \<in> set states)"

lemma handleSetState_unchanged:
  "handleSetState busy p ss = (r, ss') \<Longrightarrow> \<nexists>b. r = Inr (True, b) \<Longrightarrow> ss' = ss"
  by (auto simp: handleSetState_def setState_def Let_def split: if_splits sum.splits option.splits)

lemma ssInv_step:
  assumes "ssInv states ss"
  shows "ssInv states (snd (stateStep q ss))"
proof (cases q)
  case (SetStateRequest busy p)
  obtain r ss' where h: "handleSetState busy p ss = (r, ss')" by fastforce
  show ?thesis
  proof (cases "\<exists>b. r = Inr (True, b)")
    case True
    then obtain fg st old where "(fg, st) \<in> set states" "mCurrentStates ss fg = Some old"
      "mFunctionGroupStates ss' = mFunctionGroupStates ss"
      "mCurrentStates ss' = (mCurrentStates ss)(fg \<mapsto> st)"
      using h assms set_state_accepted [of busy p ss _ ss'] by (auto simp: ssInv_def)
    then show ?thesis using SetStateRequest h assms by (auto simp: ssInv_def)
  next
    case False
    then show ?thesis using handleSetState_unchanged [OF h] SetStateRequest h assms by simp
  qed
next
  case (StateTransitionRequest p)
  then show ?thesis using assms by (auto simp: handleStateTransition_def ssInv_def)
next
  case (NotifierSet fg)
  then show ?thesis using assms by (auto simp: SetNotifier_def ssInv_def split: option.splits)
qed

definition isTransition :: "StateRequest \<Rightarrow> bool" where
  "isTransition q = (case q of StateTransitionRequest _ \<Rightarrow> True | _ \<Rightarrow> False)"

lemma initialized_step:
  "mInitialized (snd (stateStep q ss)) \<longleftrightarrow> mInitialized ss \<or> isTransition q \<and> fst (stateStep q ss)"
  "isTransition q \<Longrightarrow> mInitialized ss \<Longrightarrow> \<not> fst (stateStep q ss)"
proof -
  show "mInitialized (snd (stateStep q ss)) \<longleftrightarrow> mInitialized ss \<or> isTransition q \<and> fst (stateStep q ss)"
  proof (cases q)
    case (SetStateRequest busy p)
    obtain r ss' where h: "handleSetState busy p ss = (r, ss')" by fastforce
    have "mInitialized ss' = mInitialized ss"
      using handleSetState_unchanged [OF h] h set_state_accepted [of busy p ss _ ss']
      by (cases "\<exists>b. r = Inr (True, b)") auto
    then show ?thesis using SetStateRequest h by (simp add: isTransition_def)
  next
    case (StateTransitionRequest p)
    then show ?thesis by (simp add: handleStateTransition_def isTransition_def)
  next
    case (NotifierSet fg)
    then show ?thesis by (auto simp: SetNotifier_def isTransition_def split: option.splits)
  qed
  show "isTransition q \<Longrightarrow> mInitialized ss \<Longrightarrow> \<not> fst (stateStep q ss)"
    by (cases q) (simp_all add: isTransition_def handleStateTransition_def)
qed

text \<open>A state server that could be constructed keeps every declared function group in a declared
  state of that group through every sequence of requests with arbitrary bytes and of new notifiers, no
  other group ever appears, and of all requests for the initial transition at most one is accepted.\<close>

lemma state_server_valid:
  assumes "newStateServer states initial = Inr ss" "stateRun qs ss = (rs, ss')"
  shows "dom (mCurrentStates ss') = fst ` set states \<and>
    (\<forall>fg st. mCurrentStates ss' fg = Some st \<longrightarrow> (fg, st) \<in> set states) \<and>
    length (filter (\<lambda>(q, b). b \<and> isTransition q) rs) = (if mInitialized ss' then 1 else 0)"
proof -
  have init: "\<not> mInitialized ss" and "ssInv states ss"
  proof -
    have *: "set initial \<subseteq> set states" "\<forall>p\<in>set states. map_of initial (fst p) \<noteq> None"
      "ss = \<lparr> mFunctionGroupStates = states, mCurrentStates = map_of initial, mNotifiers = [],
              notified = [], mInitialized = False \<rparr>"
      using assms(1) by (auto simp: newStateServer_def list_ex_iff split: if_splits)
    then show "\<not> mInitialized ss" by simp
    have "dom (map_of initial) = fst ` set states"
      using *(1,2) by (auto simp: dom_map_of_conv_image_fst image_iff map_of_eq_None_iff)
    then show "ssInv states ss" using *(1,3) by (auto simp: ssInv_def dest: map_of_SomeD)
  qed
  have "\<lbrakk> ssInv states ss; stateRun qs ss = (rs, ss') \<rbrakk> \<Longrightarrow> ssInv states ss' \<and>
      length (filter (\<lambda>(q, b). b \<and> isTransition q) rs) + (if mInitialized ss then 1 else 0) =
        (if mInitialized ss' then 1 else 0)" for ss rs
  proof (induction qs arbitrary: ss rs)
    case (Cons q qs)
    obtain b s1 where s: "stateStep q ss = (b, s1)" by fastforce
    obtain rs1 where r: "stateRun qs s1 = (rs1, ss')" "rs = (q, b) # rs1"
      using Cons.prems(2) s by (auto split: prod.splits)
    have "ssInv states s1" using ssInv_step [OF Cons.prems(1), of q] s by simp
    from Cons.IH [OF this r(1)] show ?case
      using r(2) s initialized_step [of q ss] by (auto split: if_splits)
  qed simp
  from this [OF \<open>ssInv states ss\<close> assms(2)] init show ?thesis by (simp add: ssInv_def)
qed

section \<open>Reports of execution states, end to end\<close>

lemma handleExecutionStateReport_report:
  assumes "length (ecInstance ec) < 2 ^ 32"
  shows "handleExecutionStateReport (reportPayload ec) es =
    (case mExecutionStates es (ecInstance ec) of
       Some _ \<Rightarrow> refuse kAlreadyInState es
     | None \<Rightarrow> (Inr (True, []),
                es\<lparr> mExecutionStates := (mExecutionStates es)(ecInstance ec \<mapsto> kRunning) \<rparr>))"
proof -
  let ?s = "ecInstance ec"
  have e: "ExtractInteger (serializeString ?s @ [0]) 0 = Inr (of_nat (length ?s), 4)"
    "unat (of_nat (length ?s) :: u32) = length ?s"
    "take (length ?s) (drop 4 (serializeString ?s @ [0])) = stringBytes ?s"
    using serialize_extract(1,3) [OF assms, of "[]" "[0]"] serialize_extract(2) [OF assms] by simp_all
  have k: "s = kRunning" for s by (cases s) simp
  show ?thesis
    using e
    by (auto simp: handleExecutionStateReport_def reportPayload_def Let_def nth_append k
        split: option.splits ExecutionState.splits)
qed

text \<open>C16: a report of an execution client, from its serialization through request and response to the
  result: over matching versions it succeeds exactly for an instance not yet reported, which the server then
  has as running and reports for its name, and it fails with already-in-state otherwise. Over different
  versions the server refuses the request and keeps its state, but the client still takes the empty
  error response for success.\<close>

theorem execution_report_end_to_end:
  assumes "length (ecInstance ec) < 2 ^ 32 - 16" "\<not> ecFutureValid ec"
    and "srv = ExecutionServer_register (newRpcServer pv iv)"
    and "c = Client_SetHandler (newRpcClient pv' iv') 1 1 ()"
    and "rpcExchange srv c 1 1 2 (reportPayload ec) es = (reply, es')"
  shows "ReportExecutionState reply ec =
      (Some (reportPayload ec),
       (if pv = pv' \<and> iv = iv' \<and> TryGetExecutionState es (ecInstance ec) = Some kRunning
        then Some (ExecErrc_code kAlreadyInState) else None), ec) \<and>
    (if pv = pv' \<and> iv = iv' then TryGetExecutionState es' = (TryGetExecutionState es)(ecInstance ec \<mapsto> kRunning)
     else es' = es)"
proof -
  let ?p = "reportPayload ec" let ?q = "requestMessage c 1 1 2 ?p"
  have k: "x = kRunning" for x by (cases x) simp
  have len: "8 + length ?p < 2 ^ 32" using assms(1) by (simp add: reportPayload_def)
  have h: "cHandlers c (mkMessageId 1 1) \<noteq> None" using assms(4) by (simp add: Client_SetHandler_def)
  have cv: "cProtocolVersion c = pv'" "cInterfaceVersion c = iv'"
    using assms(4) by (simp_all add: Client_SetHandler_def newRpcClient_def)
  have srv: "sHandlers srv (mkMessageId 1 1) = Some handleExecutionStateReport" "sProtocolVersion srv = pv"
    "sInterfaceVersion srv = iv" "mServices srv = {1}"
    using assms(3) by (simp_all add: ExecutionServer_register_def Server_SetHandler_def newRpcServer_def)
  have sid: "ucast (drop_bit 16 (mkMessageId 1 1)) = (1 :: u16)" by (simp add: mkMessageId_def)
  have v: "validate srv ?q = (if pv' \<noteq> pv then eWrongProtocolVersion
      else if iv' \<noteq> iv then eWrongInterfaceVersion else eOK)"
    using srv cv sid by (simp add: validate_def)
  have kc: "ExecErrc_code kAlreadyInState = 10" by simp
  have out: "responseOutcome (injectErrorCode [] kAlreadyInState) = Some 10"
    using integer.dec_enc_0 [of 10]
    by (simp add: responseOutcome_def injectErrorCode_def Inject32_be32 be32_def)
  show ?thesis
  proof (cases "pv = pv' \<and> iv = iv'")
    case False
    have "rpcExchange srv c 1 1 2 ?p es = (Some [], es)"
      using False v by (intro rpcExchange_answer [OF len h, where rc = "validate srv ?q"])
        (auto simp: answer_def ReturnCode_cast_def)
    then show ?thesis using False assms(2,5) by (auto simp: ReportExecutionState_def responseOutcome_def)
  next
    case True
    have ok: "validate srv ?q = eOK" using v True by simp
    show ?thesis
    proof (cases "mExecutionStates es (ecInstance ec)")
      case None
      have "rpcExchange srv c 1 1 2 ?p es =
          (Some [], es\<lparr> mExecutionStates := (mExecutionStates es)(ecInstance ec \<mapsto> kRunning) \<rparr>)"
        using None ok srv(1) assms(1)
        by (intro rpcExchange_answer [OF len h, where rc = eOK])
          (simp_all add: answer_def handleExecutionStateReport_report ReturnCode_cast_def)
      then show ?thesis
        using None True assms(2,5)
        by (auto simp: ReportExecutionState_def responseOutcome_def TryGetExecutionState_def fun_eq_iff)
    next
      case (Some x)
      have "rpcExchange srv c 1 1 2 ?p es = (Some (injectErrorCode [] kAlreadyInState), es)"
        using Some ok srv(1) assms(1)
        by (intro rpcExchange_answer [OF len h, where rc = eNotOk])
          (simp_all add: answer_def handleExecutionStateReport_report ReturnCode_cast_def injectErrorCode_def
            Inject32_be32)
      then show ?thesis
        using Some True assms(2,5) out k [of x]
        by (auto simp: ReportExecutionState_def TryGetExecutionState_def fun_eq_iff)
    qed
  qed
qed

theorem execution_report_end_to_end_witness:
  "\<exists>reply es. rpcExchange (ExecutionServer_register (newRpcServer 1 2)) (Client_SetHandler (newRpcClient 1 1) 1 1 ())
      1 1 2 (reportPayload \<lparr> ecInstance = ''A'', ecFutureValid = False \<rparr>) newExecutionServer = (reply, es) \<and>
    TryGetExecutionState es ''A'' = None \<and>
    fst (snd (ReportExecutionState reply \<lparr> ecInstance = ''A'', ecFutureValid = False \<rparr>)) = None"
proof -
  let ?ec = "\<lparr> ecInstance = ''A'', ecFutureValid = False \<rparr>"
  obtain reply es where r: "rpcExchange (ExecutionServer_register (newRpcServer 1 2))
      (Client_SetHandler (newRpcClient 1 1) 1 1 ()) 1 1 2 (reportPayload ?ec) newExecutionServer = (reply, es)"
    by fastforce
  from execution_report_end_to_end [OF _ _ refl refl this] r show ?thesis
    by (auto simp: TryGetExecutionState_def newExecutionServer_def)
qed

section \<open>Requests of the state client\<close>

lemma renewRequest_settled:
  "list_all (\<lambda>oc. oc \<noteq> None) (superseded r) \<Longrightarrow> list_all (\<lambda>oc. oc \<noteq> None) (superseded (renewRequest r))"
  by (simp add: renewRequest_def split: option.split)

text \<open>A process that was terminated once starts with its cancellation token set.\<close>

lemma restarted_process_cancelled:
  "fst (Initialize newModelledProcess) = mp \<Longrightarrow> snd (Initialize (snd (Terminate code mp))) = Some True"
  by (auto simp: Initialize_def Terminate_def newModelledProcess_def)

end
