(* ===== verification/Phm.thy ===== *)
theory Phm
  imports Prelude
begin

text \<open>
  \<open>ara/phm\<close>: elementary supervisions (alive and deadline) and the global supervision over them. Every
  change of an elementary status goes through \<open>Report\<close>, which returns the status and the status given to
  the callback, if the callback is called. The locale \<open>supervision\<close> states what global supervision and
  applications rely on. Time passes by events: the end of a reference cycle, and the wake-up of the
  deadline worker with the time at which it happens.
\<close>

section \<open>Supervision status\<close>

datatype TypeOfSupervision = AliveSupervisionType | DeadlineSupervisionType | LogicalSupervisionType

datatype SupervisionStatus = kDeactivated | kOk | kFailed | kExpired

fun statusCode :: "SupervisionStatus \<Rightarrow> nat" where
  "statusCode kDeactivated = 0"
| "statusCode kOk = 1"
| "statusCode kFailed = 2"
| "statusCode kExpired = 3"

lemma statusCode_inj: "statusCode a = statusCode b \<Longrightarrow> a = b"
  by (cases a; cases b) simp_all

instantiation SupervisionStatus :: linorder
begin

definition less_eq_SupervisionStatus :: "SupervisionStatus \<Rightarrow> SupervisionStatus \<Rightarrow> bool" where
  "less_eq_SupervisionStatus a b \<longleftrightarrow> statusCode a \<le> statusCode b"

definition less_SupervisionStatus :: "SupervisionStatus \<Rightarrow> SupervisionStatus \<Rightarrow> bool" where
  "less_SupervisionStatus a b \<longleftrightarrow> statusCode a < statusCode b"

instance
  by standard (auto simp: less_eq_SupervisionStatus_def less_SupervisionStatus_def dest: statusCode_inj)

end

section \<open>Elementary supervision\<close>

definition Report :: "SupervisionStatus \<Rightarrow> SupervisionStatus \<Rightarrow> SupervisionStatus \<times> SupervisionStatus option" where
  "Report status mStatus =
     (if mStatus \<noteq> status
      then case status of
             kDeactivated \<Rightarrow> (status, Some status)
           | kExpired \<Rightarrow> (status, Some status)
           | kOk \<Rightarrow> (if mStatus \<noteq> kExpired then (status, Some status) else (mStatus, None))
           | kFailed \<Rightarrow> (if mStatus \<noteq> kExpired then (status, Some status) else (mStatus, None))
      else (mStatus, None))"

section \<open>Alive supervision\<close>

record AliveSupervision =
  mExpectedAliveIndicationsMin :: u16
  mExpectedAliveIndicationsMax :: u16
  mFailedReferenceCyclesTolerance :: u8
  mAliveCounter :: u8
  mRunning :: bool
  mAliveIndications :: u16
  asStatus :: SupervisionStatus

definition newAliveSupervision :: "u16 \<Rightarrow> u16 \<Rightarrow> u16 \<Rightarrow> int \<Rightarrow> u8 \<Rightarrow> AliveSupervision res" where
  "newAliveSupervision expectedAliveIndications minMargin maxMargin aliveReferenceCycle tolerance =
     (if \<not> (minMargin > 0 \<and> expectedAliveIndications > minMargin) then Inl Invalid_argument
      else if \<not> maxMargin > 0 then Inl Invalid_argument
      else if \<not> tolerance > 0 then Inl Invalid_argument
      else if \<not> aliveReferenceCycle > 0 then Inl Invalid_argument
      else Inr \<lparr> mExpectedAliveIndicationsMin = expectedAliveIndications - minMargin,
                 mExpectedAliveIndicationsMax = expectedAliveIndications + maxMargin,
                 mFailedReferenceCyclesTolerance = tolerance, mAliveCounter = 0, mRunning = True,
                 mAliveIndications = 0, asStatus = kDeactivated \<rparr>)"

definition ReportAliveness :: "AliveSupervision \<Rightarrow> AliveSupervision" where
  "ReportAliveness s =
     (if mAliveIndications s < 0xffff then s\<lparr> mAliveIndications := mAliveIndications s + 1 \<rparr> else s)"

definition reportAlive ::
    "SupervisionStatus \<Rightarrow> AliveSupervision \<Rightarrow> AliveSupervision \<times> SupervisionStatus option" where
  "reportAlive status s = (case Report status (asStatus s) of (st, cb) \<Rightarrow> (s\<lparr> asStatus := st \<rparr>, cb))"

text \<open>One turn of the loop of \<open>supervise\<close>.\<close>

definition superviseCycle :: "AliveSupervision \<Rightarrow> AliveSupervision \<times> SupervisionStatus option" where
  "superviseCycle s =
     (if \<not> mRunning s then (s, None)
      else if mAliveIndications s \<ge> mExpectedAliveIndicationsMin s \<and>
              mAliveIndications s \<le> mExpectedAliveIndicationsMax s
      then reportAlive kOk
             (s\<lparr> mAliveIndications := 0,
                 mAliveCounter := (if mAliveCounter s > 0 then mAliveCounter s - 1 else mAliveCounter s) \<rparr>)
      else let s' = s\<lparr> mAliveIndications := 0, mAliveCounter := mAliveCounter s + 1 \<rparr>
           in if mAliveCounter s' < mFailedReferenceCyclesTolerance s'
              then reportAlive kFailed s'
              else reportAlive kExpired (s'\<lparr> mRunning := False \<rparr>))"

datatype AliveEvent = Aliveness | CycleEnds | AliveDestroyed

fun aliveStep :: "AliveEvent \<Rightarrow> AliveSupervision \<Rightarrow> AliveSupervision \<times> SupervisionStatus option" where
  "aliveStep Aliveness s = (ReportAliveness s, None)"
| "aliveStep CycleEnds s = superviseCycle s"
| "aliveStep AliveDestroyed s = (s\<lparr> mRunning := False \<rparr>, None)"

section \<open>Deadline supervision\<close>

text \<open>Times are milliseconds of the steady clock. \<open>dsWaiting\<close>: the worker waits for its wake-up.\<close>

record DeadlineSupervision =
  cMinDeadline :: int
  cMaxDeadline :: int
  dsJoinable :: bool
  dsWaiting :: bool
  mTargetIsReached :: bool
  mTimeReference :: int
  dsStatus :: SupervisionStatus

definition newDeadlineSupervision :: "int \<Rightarrow> int \<Rightarrow> DeadlineSupervision res" where
  "newDeadlineSupervision minDeadline maxDeadline =
     (if \<not> minDeadline < maxDeadline then Inl Invalid_argument
      else if \<not> maxDeadline > 0 then Inl Invalid_argument
      else Inr \<lparr> cMinDeadline = minDeadline, cMaxDeadline = maxDeadline, dsJoinable = False,
                 dsWaiting = False, mTargetIsReached = False, mTimeReference = 0,
                 dsStatus = kDeactivated \<rparr>)"

definition ReportSourceCheckpoint :: "int \<Rightarrow> DeadlineSupervision \<Rightarrow> DeadlineSupervision" where
  "ReportSourceCheckpoint now s =
     (let s' = s\<lparr> mTimeReference := now, mTargetIsReached := False \<rparr>
      in if dsJoinable s' then s' else s'\<lparr> dsJoinable := True, dsWaiting := True \<rparr>)"

definition ReportTargetCheckpoint :: "DeadlineSupervision \<Rightarrow> DeadlineSupervision" where
  "ReportTargetCheckpoint s = s\<lparr> mTargetIsReached := True \<rparr>"

text \<open>The worker wakes up: after the timeout, or because it was notified, or spuriously.\<close>

definition deadlineWorker ::
    "bool \<Rightarrow> int \<Rightarrow> DeadlineSupervision \<Rightarrow> DeadlineSupervision \<times> SupervisionStatus option" where
  "deadlineWorker timeout now s =
     (if \<not> dsWaiting s then (s, None)
      else case Report (if timeout \<or> \<not> mTargetIsReached s then kExpired
                        else if now - mTimeReference s < cMinDeadline s then kExpired else kOk) (dsStatus s) of
             (st, cb) \<Rightarrow> (s\<lparr> dsStatus := st, dsWaiting := False \<rparr>, cb))"

datatype DeadlineEvent = SourceCheckpoint int | TargetCheckpoint | WorkerWakes bool int

fun deadlineStep :: "DeadlineEvent \<Rightarrow> DeadlineSupervision \<Rightarrow> DeadlineSupervision \<times> SupervisionStatus option" where
  "deadlineStep (SourceCheckpoint now) s = (ReportSourceCheckpoint now s, None)"
| "deadlineStep TargetCheckpoint s = (ReportTargetCheckpoint s, None)"
| "deadlineStep (WorkerWakes timeout now) s = deadlineWorker timeout now s"

section \<open>What a supervision promises\<close>

text \<open>The callbacks of a sequence of events.\<close>

fun runSupervision ::
    "('e \<Rightarrow> 's \<Rightarrow> 's \<times> SupervisionStatus option) \<Rightarrow> 'e list \<Rightarrow> 's \<Rightarrow> 's \<times> SupervisionStatus list" where
  "runSupervision step [] s = (s, [])"
| "runSupervision step (e # es) s =
     (case step e s of (s', cb) \<Rightarrow> case runSupervision step es s' of (s'', cbs) \<Rightarrow>
        (s'', (case cb of None \<Rightarrow> cbs | Some c \<Rightarrow> c # cbs)))"

locale supervision =
  fixes statusOf :: "'s \<Rightarrow> SupervisionStatus"
    and step :: "'e \<Rightarrow> 's \<Rightarrow> 's \<times> SupervisionStatus option"
  assumes reports: "step e s = (s', cb) \<Longrightarrow>
    statusOf s' = statusOf s \<and> cb = None \<or>
    (\<exists>r. r \<noteq> kDeactivated \<and> Report r (statusOf s) = (statusOf s', cb))"
begin

text \<open>An expired supervision stays expired and is silent.\<close>

lemma expired_for_ever:
  "statusOf s = kExpired \<Longrightarrow> statusOf (fst (runSupervision step es s)) = kExpired \<and> snd (runSupervision step es s) = []"
proof (induction es arbitrary: s)
  case (Cons e es)
  obtain s' cb where s: "step e s = (s', cb)" by fastforce
  have "statusOf s' = kExpired \<and> cb = None"
    using reports [OF s] Cons.prems by (auto simp: Report_def split: if_splits SupervisionStatus.splits)
  with Cons.IH [of s'] s show ?case by (auto split: prod.splits)
qed simp

text \<open>The callbacks are exactly the changes of the status, in order.\<close>

lemma callbacks_follow_status:
  "last (statusOf s # snd (runSupervision step es s)) = statusOf (fst (runSupervision step es s)) \<and>
   successively (\<noteq>) (statusOf s # snd (runSupervision step es s))"
proof (induction es arbitrary: s)
  case (Cons e es)
  obtain s' cb where s: "step e s = (s', cb)" by fastforce
  have cb: "cb = (if statusOf s' = statusOf s then None else Some (statusOf s'))"
    using reports [OF s] by (auto simp: Report_def split: if_splits SupervisionStatus.splits)
  show ?case
    using Cons.IH [of s'] s cb by (auto split: prod.splits)
qed simp

end

lemma Report_alive:
  "reportAlive r s = (s', cb) \<Longrightarrow> Report r (asStatus s) = (asStatus s', cb)"
  by (auto simp: reportAlive_def split: prod.splits)

interpretation alive: supervision asStatus aliveStep
proof unfold_locales
  fix e s s' cb
  assume "aliveStep e s = (s', cb)"
  then show "asStatus s' = asStatus s \<and> cb = None \<or>
      (\<exists>r. r \<noteq> kDeactivated \<and> Report r (asStatus s) = (asStatus s', cb))"
    by (cases e) (auto simp: superviseCycle_def ReportAliveness_def Let_def split: if_splits dest!: Report_alive)
qed

interpretation deadline: supervision dsStatus deadlineStep
proof unfold_locales
  fix e s s' cb
  assume "deadlineStep e s = (s', cb)"
  then show "dsStatus s' = dsStatus s \<and> cb = None \<or>
      (\<exists>r. r \<noteq> kDeactivated \<and> Report r (dsStatus s) = (dsStatus s', cb))"
    by (cases e) (auto simp: ReportSourceCheckpoint_def ReportTargetCheckpoint_def deadlineWorker_def Let_def
        split: if_splits prod.splits)
qed

section \<open>Global supervision\<close>

text \<open>The types and statuses of the supervisors, the global status, and the log of the global callback.\<close>

record GlobalSupervision =
  mSupervisors :: "(TypeOfSupervision \<times> SupervisionStatus) list"
  gsStatus :: SupervisionStatus
  globalUpdates :: "(SupervisionStatus \<times> TypeOfSupervision) list"

definition getGlobalUpdate :: "(TypeOfSupervision \<times> SupervisionStatus) list \<Rightarrow> SupervisionStatus \<times> TypeOfSupervision" where
  "getGlobalUpdate supervisors =
     foldl (\<lambda>result s. if snd s > fst result then (snd s, fst s) else result)
       (snd (hd supervisors), fst (hd supervisors)) (tl supervisors)"

definition newGlobalSupervision :: "(TypeOfSupervision \<times> SupervisionStatus) list \<Rightarrow> GlobalSupervision" where
  "newGlobalSupervision supervisors =
     \<lparr> mSupervisors = supervisors,
       gsStatus = (if length supervisors > 0 then fst (getGlobalUpdate supervisors) else kDeactivated),
       globalUpdates = [] \<rparr>"

definition onElementaryStatusChanged :: "GlobalSupervision \<Rightarrow> GlobalSupervision" where
  "onElementaryStatusChanged g =
     (let update = getGlobalUpdate (mSupervisors g) in
      if fst update \<noteq> gsStatus g
      then g\<lparr> gsStatus := fst update, globalUpdates := globalUpdates g @ [update] \<rparr>
      else g)"

text \<open>A supervisor reports; its callback is the global supervision.\<close>

definition supervisorReports :: "nat \<Rightarrow> SupervisionStatus \<Rightarrow> GlobalSupervision \<Rightarrow> GlobalSupervision" where
  "supervisorReports i status g =
     (if i < length (mSupervisors g)
      then case Report status (snd (mSupervisors g ! i)) of
             (st, cb) \<Rightarrow>
               let g' = g\<lparr> mSupervisors := (mSupervisors g)[i := (fst (mSupervisors g ! i), st)] \<rparr>
               in if cb = None then g' else onElementaryStatusChanged g'
      else g)"

lemma foldl_update_Max:
  "fst (foldl (\<lambda>result s. if snd s > fst result then (snd s, fst s) else result) (st, ty) xs) =
     Max (insert st (snd ` set xs))"
proof (induction xs arbitrary: st ty)
  case (Cons x xs)
  have "Max (insert st (insert (snd x) (snd ` set xs))) = Max (insert (max st (snd x)) (snd ` set xs))"
    by (cases "snd ` set xs = {}") (simp_all add: max.assoc [symmetric])
  then show ?case using Cons by (auto simp: max_def)
qed simp

lemma getGlobalUpdate_Max:
  "xs \<noteq> [] \<Longrightarrow> fst (getGlobalUpdate xs) = Max (snd ` set xs)"
  by (cases xs) (simp_all add: getGlobalUpdate_def foldl_update_Max)

definition globalInv :: "GlobalSupervision \<Rightarrow> bool" where
  "globalInv g \<longleftrightarrow> mSupervisors g \<noteq> [] \<and> gsStatus g = Max (snd ` set (mSupervisors g))"

lemma onElementary_inv: "mSupervisors g \<noteq> [] \<Longrightarrow> globalInv (onElementaryStatusChanged g)"
  by (simp add: onElementaryStatusChanged_def globalInv_def Let_def getGlobalUpdate_Max)

lemma supervisorReports_inv:
  assumes "globalInv g"
  shows "globalInv (supervisorReports i r g)"
proof (cases "i < length (mSupervisors g)")
  case True
  obtain st cb where rep: "Report r (snd (mSupervisors g ! i)) = (st, cb)" by fastforce
  show ?thesis
  proof (cases cb)
    case None
    then have "st = snd (mSupervisors g ! i)"
      using rep by (auto simp: Report_def split: if_splits SupervisionStatus.splits)
    then have "(mSupervisors g)[i := (fst (mSupervisors g ! i), st)] = mSupervisors g" by simp
    then show ?thesis using assms True rep None by (simp add: supervisorReports_def)
  next
    case (Some c)
    then show ?thesis
      using assms True rep
      by (auto simp: supervisorReports_def Let_def globalInv_def intro!: onElementary_inv [unfolded globalInv_def])
  qed
qed (use assms in \<open>simp add: supervisorReports_def\<close>)

lemma supervisorReports_log:
  assumes "successively (\<noteq>) (s0 # map fst (globalUpdates g))" "last (s0 # map fst (globalUpdates g)) = gsStatus g"
  shows "successively (\<noteq>) (s0 # map fst (globalUpdates (supervisorReports i r g))) \<and>
    last (s0 # map fst (globalUpdates (supervisorReports i r g))) = gsStatus (supervisorReports i r g)"
proof -
  have snoc: "successively (\<noteq>) (x # xs @ [y]) \<longleftrightarrow> successively (\<noteq>) (x # xs) \<and> last (x # xs) \<noteq> y" for x y :: SupervisionStatus and xs
    using successively_append_iff [of "(\<noteq>)" "x # xs" "[y]"] by simp
  show ?thesis
    using assms
    by (auto simp: supervisorReports_def onElementaryStatusChanged_def Let_def snoc split: prod.splits)
qed

text \<open>C39: however the supervisors of a global supervision report, its status is always the worst status
  among them, and its callback is called exactly on the changes of that status, ending with the present
  one.\<close>

theorem global_status_is_worst:
  assumes "supervisors \<noteq> []"
    and "g = fold (\<lambda>(i, r). supervisorReports i r) reports (newGlobalSupervision supervisors)"
  shows "gsStatus g = Max (snd ` set (mSupervisors g)) \<and>
    successively (\<noteq>) (Max (snd ` set supervisors) # map fst (globalUpdates g)) \<and>
    last (Max (snd ` set supervisors) # map fst (globalUpdates g)) = gsStatus g"
proof -
  define s0 where "s0 = Max (snd ` set supervisors)"
  define P where "P = (\<lambda>g. globalInv g \<and> successively (\<noteq>) (s0 # map fst (globalUpdates g)) \<and>
      last (s0 # map fst (globalUpdates g)) = gsStatus g)"
  have step: "P g0 \<Longrightarrow> P (supervisorReports i r g0)" for g0 i r
    using supervisorReports_inv [of g0 i r] supervisorReports_log [of s0 g0 i r] unfolding P_def by blast
  have "P g0 \<Longrightarrow> P (fold (\<lambda>(i, r). supervisorReports i r) reports g0)" for g0
    by (induction reports arbitrary: g0) (auto simp: step)
  moreover have "P (newGlobalSupervision supervisors)"
    using assms(1) getGlobalUpdate_Max [OF assms(1)]
    by (simp add: P_def s0_def globalInv_def newGlobalSupervision_def)
  ultimately have "P g" using assms(2) by blast
  then show ?thesis unfolding P_def s0_def globalInv_def by blast
qed

theorem global_status_is_worst_witness:
  "gsStatus (fold (\<lambda>(i, r). supervisorReports i r) [(0, kExpired), (0, kOk), (1, kOk)]
     (newGlobalSupervision [(AliveSupervisionType, kDeactivated), (DeadlineSupervisionType, kOk)])) = kExpired"
proof -
  let ?g = "fold (\<lambda>(i, r). supervisorReports i r) [(0, kExpired), (0, kOk), (1, kOk)]
     (newGlobalSupervision [(AliveSupervisionType, kDeactivated), (DeadlineSupervisionType, kOk)])"
  have "gsStatus ?g = Max (snd ` set (mSupervisors ?g))"
    by (rule global_status_is_worst [THEN conjunct1, OF _ refl]) simp
  moreover have "mSupervisors ?g = [(AliveSupervisionType, kExpired), (DeadlineSupervisionType, kOk)]"
    by (simp add: newGlobalSupervision_def getGlobalUpdate_def supervisorReports_def Report_def
        onElementaryStatusChanged_def Let_def)
  ultimately show ?thesis by (simp add: max_def less_eq_SupervisionStatus_def)
qed

section \<open>Alive supervision as a leaky bucket\<close>

text \<open>
  The specification: a cycle is in order when the number of indications, which saturates at 65535, lies
  within the bounds; a cycle in order takes a unit out of the bucket, any other puts one in; a full bucket
  ends the supervision, where the headers would let only an overflowing one end it.
\<close>

definition cycleInOrder :: "AliveSupervision \<Rightarrow> nat \<Rightarrow> bool" where
  "cycleInOrder s n \<longleftrightarrow>
     unat (mExpectedAliveIndicationsMin s) \<le> min n 65535 \<and> min n 65535 \<le> unat (mExpectedAliveIndicationsMax s)"

fun bucket :: "nat \<Rightarrow> (nat \<Rightarrow> bool) \<Rightarrow> nat list \<Rightarrow> nat \<times> SupervisionStatus \<Rightarrow> nat \<times> SupervisionStatus" where
  "bucket tolerance inOrder [] (c, st) = (c, st)"
| "bucket tolerance inOrder (n # ns) (c, st) =
     (if st = kExpired then (c, st)
      else if inOrder n then bucket tolerance inOrder ns (c - 1, kOk)
      else bucket tolerance inOrder ns (c + 1, if c + 1 < tolerance then kFailed else kExpired))"

definition cycles :: "nat list \<Rightarrow> AliveEvent list" where
  "cycles ns = concat (map (\<lambda>n. replicate n Aliveness @ [CycleEnds]) ns)"

lemma run_append:
  "runSupervision step (es @ fs) s =
     (case runSupervision step es s of (s', cbs) \<Rightarrow> case runSupervision step fs s' of (s'', cbs') \<Rightarrow> (s'', cbs @ cbs'))"
  by (induction es arbitrary: s) (auto split: prod.splits option.splits)

lemma indications:
  assumes "unat (mAliveIndications s) \<le> 65535"
  shows "fst (runSupervision aliveStep (replicate n Aliveness) s) =
    s\<lparr> mAliveIndications := of_nat (min (unat (mAliveIndications s) + n) 65535) \<rparr>"
  using assms
proof (induction n arbitrary: s)
  case 0
  then show ?case by simp
next
  case (Suc n)
  show ?case
  proof (cases "unat (mAliveIndications s) < 65535")
    case True
    then have "mAliveIndications s < 0xffff" by (simp add: word_less_nat_alt)
    moreover have "unat (mAliveIndications s + 1) = unat (mAliveIndications s) + 1"
      using True unat_add_lem [of "mAliveIndications s" 1] by simp
    ultimately show ?thesis
      using Suc.IH [of "s\<lparr> mAliveIndications := mAliveIndications s + 1 \<rparr>"] True
      by (simp add: ReportAliveness_def split: prod.splits)
  next
    case False
    then have u: "unat (mAliveIndications s) = 65535" using Suc.prems by simp
    then have w: "mAliveIndications s = 0xffff" by (simp add: word_unat_eq_iff)
    then show ?thesis using Suc.IH [of s] by (simp add: ReportAliveness_def split: prod.splits)
  qed
qed

lemma stopped:
  assumes "\<not> mRunning s"
  shows "\<not> mRunning (fst (runSupervision aliveStep es s)) \<and>
    mAliveCounter (fst (runSupervision aliveStep es s)) = mAliveCounter s \<and>
    asStatus (fst (runSupervision aliveStep es s)) = asStatus s"
  using assms
proof (induction es arbitrary: s)
  case (Cons e es)
  have "\<not> mRunning (fst (aliveStep e s)) \<and> mAliveCounter (fst (aliveStep e s)) = mAliveCounter s \<and>
      asStatus (fst (aliveStep e s)) = asStatus s"
    using Cons.prems by (cases e) (simp_all add: superviseCycle_def ReportAliveness_def)
  with Cons.IH [of "fst (aliveStep e s)"] show ?case by (auto split: prod.splits)
qed simp

lemma one_cycle:
  assumes "mRunning s" "mAliveIndications s = 0" "asStatus s \<noteq> kExpired"
    and "unat (mAliveCounter s) < unat (mFailedReferenceCyclesTolerance s)"
  shows "\<exists>s'. fst (runSupervision aliveStep (replicate n Aliveness @ [CycleEnds]) s) = s' \<and>
    mAliveIndications s' = 0 \<and> mFailedReferenceCyclesTolerance s' = mFailedReferenceCyclesTolerance s \<and>
    mExpectedAliveIndicationsMin s' = mExpectedAliveIndicationsMin s \<and>
    mExpectedAliveIndicationsMax s' = mExpectedAliveIndicationsMax s \<and>
    (if cycleInOrder s n
     then mRunning s' \<and> unat (mAliveCounter s') = unat (mAliveCounter s) - 1 \<and> asStatus s' = kOk
     else unat (mAliveCounter s') = unat (mAliveCounter s) + 1 \<and>
       (if unat (mAliveCounter s) + 1 < unat (mFailedReferenceCyclesTolerance s)
        then mRunning s' \<and> asStatus s' = kFailed else \<not> mRunning s' \<and> asStatus s' = kExpired))"
proof -
  let ?i = "of_nat (min n 65535) :: u16"
  have i: "unat ?i = min n 65535" by (simp add: unat_of_nat take_bit_nat_eq_self)
  let ?s = "s\<lparr> mAliveIndications := ?i \<rparr>"
  have run: "fst (runSupervision aliveStep (replicate n Aliveness @ [CycleEnds]) s) = fst (superviseCycle ?s)"
    using indications [of s n] assms(2) by (auto simp: run_append split: prod.splits)
  have order: "?i \<ge> mExpectedAliveIndicationsMin s \<and> ?i \<le> mExpectedAliveIndicationsMax s \<longleftrightarrow> cycleInOrder s n"
    using i by (simp add: cycleInOrder_def word_le_nat_alt)
  have up: "unat (mAliveCounter s + 1) = unat (mAliveCounter s) + 1"
    using assms(4) unsigned_less [of "mFailedReferenceCyclesTolerance s", where ?'a = nat]
      unat_add_lem [of "mAliveCounter s" 1] by simp
  have down: "unat (if mAliveCounter s > 0 then mAliveCounter s - 1 else mAliveCounter s) = unat (mAliveCounter s) - 1"
    by (auto simp: unat_minus_one word_gt_0 not_less)
  show ?thesis
  proof (cases "cycleInOrder s n")
    case True
    then show ?thesis
      using run order assms down by (auto simp: superviseCycle_def reportAlive_def Report_def split: SupervisionStatus.splits)
  next
    case False
    have less: "mAliveCounter s + 1 < mFailedReferenceCyclesTolerance s \<longleftrightarrow>
        unat (mAliveCounter s) + 1 < unat (mFailedReferenceCyclesTolerance s)"
      using up by (simp add: word_less_nat_alt)
    have ord: "\<not> (mExpectedAliveIndicationsMin s \<le> ?i \<and> ?i \<le> mExpectedAliveIndicationsMax s)"
      using False order by blast
    show ?thesis
      using run assms False up less ord
      by (auto simp: superviseCycle_def reportAlive_def Report_def Let_def)
  qed
qed

text \<open>C40: an alive supervision is a leaky bucket: over any numbers of indications in its reference cycles
  its status and its counter are those of a bucket of the size of the tolerance: it expires exactly when
  the bucket is full, and never recovers. So it expires when the counter reaches the tolerance, although the headers
  call the tolerance the number of failures that is allowed and expired the status beyond it: with a tolerance
  of 1 the first failed cycle is the end.\<close>

theorem alive_leaky_bucket:
  assumes "newAliveSupervision expectedIndications minMargin maxMargin referenceCycle tolerance = Inr s"
    and "fst (runSupervision aliveStep (cycles ns) s) = s'"
  shows "(unat (mAliveCounter s'), asStatus s') = bucket (unat tolerance) (cycleInOrder s) ns (0, kDeactivated)"
proof -
  have inv: "\<lbrakk> mRunning t; mAliveIndications t = 0; asStatus t \<noteq> kExpired;
      unat (mAliveCounter t) < unat (mFailedReferenceCyclesTolerance t) \<rbrakk> \<Longrightarrow>
    (unat (mAliveCounter (fst (runSupervision aliveStep (cycles ns) t))),
      asStatus (fst (runSupervision aliveStep (cycles ns) t))) =
      bucket (unat (mFailedReferenceCyclesTolerance t)) (cycleInOrder t) ns (unat (mAliveCounter t), asStatus t)" for t
  proof (induction ns arbitrary: t)
    case Nil
    then show ?case by (simp add: cycles_def)
  next
    case (Cons n ns)
    from one_cycle [OF Cons.prems, of n] obtain t' where
      t': "fst (runSupervision aliveStep (replicate n Aliveness @ [CycleEnds]) t) = t'"
      "mAliveIndications t' = 0" "mFailedReferenceCyclesTolerance t' = mFailedReferenceCyclesTolerance t"
      "mExpectedAliveIndicationsMin t' = mExpectedAliveIndicationsMin t"
      "mExpectedAliveIndicationsMax t' = mExpectedAliveIndicationsMax t"
      "if cycleInOrder t n
       then mRunning t' \<and> unat (mAliveCounter t') = unat (mAliveCounter t) - 1 \<and> asStatus t' = kOk
       else unat (mAliveCounter t') = unat (mAliveCounter t) + 1 \<and>
         (if unat (mAliveCounter t) + 1 < unat (mFailedReferenceCyclesTolerance t)
          then mRunning t' \<and> asStatus t' = kFailed else \<not> mRunning t' \<and> asStatus t' = kExpired)"
      by blast
    have co: "cycleInOrder t' = cycleInOrder t" using t'(4,5) by (simp add: cycleInOrder_def fun_eq_iff)
    have split: "fst (runSupervision aliveStep (cycles (n # ns)) t) = fst (runSupervision aliveStep (cycles ns) t')"
      using t'(1) run_append [of aliveStep "replicate n Aliveness @ [CycleEnds]" "cycles ns" t]
      by (auto simp: cycles_def split: prod.splits)
    show ?case
    proof (cases "mRunning t'")
      case True
      then have "asStatus t' \<noteq> kExpired" "unat (mAliveCounter t') < unat (mFailedReferenceCyclesTolerance t')"
        using t'(3,6) Cons.prems(4) by (auto split: if_splits)
      from Cons.IH [OF True t'(2) this] show ?thesis
        using t'(3,6) co split Cons.prems(3) True by (auto split: if_splits)
    next
      case False
      have frozen: "bucket T f ns (c, kExpired) = (c, kExpired)" for T f c by (cases ns) simp_all
      show ?thesis
        using stopped [OF False, of "cycles ns"] t'(6) split Cons.prems(3) False frozen
        by (auto split: if_splits)
    qed
  qed
  have "mRunning s" "mAliveIndications s = 0" "asStatus s = kDeactivated" "mAliveCounter s = 0"
    "mFailedReferenceCyclesTolerance s = tolerance" "tolerance > 0"
    using assms(1) by (auto simp: newAliveSupervision_def split: if_splits)
  then show ?thesis using inv [of s] assms(2) by (simp add: word_gt_0 unat_gt_0)
qed

theorem alive_leaky_bucket_witness:
  "\<exists>s. newAliveSupervision 5 1 1 100 2 = Inr s \<and>
     asStatus (fst (runSupervision aliveStep (cycles [5, 9, 4, 0, 0, 5]) s)) = kExpired"
proof -
  obtain s where s: "newAliveSupervision 5 1 1 100 2 = Inr s"
    and b: "unat (mExpectedAliveIndicationsMin s) = 4" "unat (mExpectedAliveIndicationsMax s) = 6"
    by (simp add: newAliveSupervision_def)
  have "bucket 2 (cycleInOrder s) [5, 9, 4, 0, 0, 5] (0, kDeactivated) = (2, kExpired)"
    by (simp add: cycleInOrder_def b)
  with alive_leaky_bucket [OF s refl, of "[5, 9, 4, 0, 0, 5]"] s show ?thesis by simp
qed

section \<open>Deadline supervision runs once\<close>

text \<open>Once the worker has ended, no checkpoint is supervised any more.\<close>

lemma deadline_worker_ended:
  "\<lbrakk> dsJoinable s; \<not> dsWaiting s \<rbrakk> \<Longrightarrow>
     dsStatus (fst (runSupervision deadlineStep es s)) = dsStatus s \<and> snd (runSupervision deadlineStep es s) = []"
proof (induction es arbitrary: s)
  case (Cons e es)
  obtain s' cb where e: "deadlineStep e s = (s', cb)" by fastforce
  then have "dsJoinable s' \<and> \<not> dsWaiting s' \<and> dsStatus s' = dsStatus s \<and> cb = None"
    using Cons.prems
    by (cases e) (auto simp: ReportSourceCheckpoint_def ReportTargetCheckpoint_def deadlineWorker_def Let_def)
  with Cons.IH [of s'] e show ?case by (auto split: prod.splits)
qed simp

end
