(* ===== verification/SdClient.thy ===== *)
theory SdClient
  imports SdMessage
begin

text \<open>
  \<open>ara/com/someip/sd/someip_sd_client.cpp\<close>, its states under \<open>sd/fsm\<close> and \<open>helper/ttl_timer.cpp\<close>: the agent
  that looks for a service. One asynchronous thread runs the states; it blocks only in a sleep or in a wait
  of the TTL timer. The model has one step per event: the owner starts or stops the client, a message
  arrives, or the thread goes on (\<open>proceed\<close>), which is given whether the wait timed out. A thread that waits
  for a signal does not go on without one. Durations are not modelled.
\<close>

section \<open>State\<close>

datatype SdClientState =
  ServiceNotSeen | ServiceSeen | ServiceReady | Stopped | ClientInitialWait | ClientRepetition nat

text \<open>
  \<open>scWaiting\<close>: the wait of the present state was entered. \<open>scThread\<close>: the thread runs. The first field of
  the timer is not initialised by its constructor.
\<close>

record TtlTimer =
  mSignalFlag :: bool
  mRequested :: bool
  mDisposing :: bool
  mTtl :: u32

record SdClient =
  scTimer :: TtlTimer
  scState :: SdClientState
  scWaiting :: bool
  scThread :: bool
  mNotSeenDisposing :: bool
  mValidState :: bool
  mFindServiceMessage :: SomeIpSdMessage
  scSent :: "SomeIpSdMessage list"
  scServiceId :: u16
  scRepetitionsMax :: nat
  mEndpointLocked :: bool
  mOfferedEndpoint :: "(string \<times> u16) option"

definition GetOffered :: "TtlTimer \<Rightarrow> bool" where
  "GetOffered t \<longleftrightarrow> mTtl t > 0"

definition SetRequested :: "bool \<Rightarrow> TtlTimer \<Rightarrow> TtlTimer" where
  "SetRequested requested t = t\<lparr> mRequested := requested, mSignalFlag := True \<rparr>"

definition SetOffered :: "u32 \<Rightarrow> TtlTimer \<Rightarrow> TtlTimer" where
  "SetOffered ttl t = t\<lparr> mTtl := ttl, mSignalFlag := True \<rparr>"

text \<open>The timer after the wait for a signal, or None while the wait blocks.\<close>

definition WaitForSignal :: "TtlTimer \<Rightarrow> TtlTimer option" where
  "WaitForSignal t =
     (if mDisposing t then Some t
      else if mSignalFlag t then Some (t\<lparr> mSignalFlag := False \<rparr>) else None)"

text \<open>The end of the wait for expiration, by a timeout or by a notification.\<close>

definition WaitForExpiration :: "bool \<Rightarrow> TtlTimer \<Rightarrow> bool \<times> TtlTimer" where
  "WaitForExpiration timeout t =
     (timeout \<or> mTtl t = 0 \<or> mDisposing t, t\<lparr> mSignalFlag := False \<rparr>)"

definition newSdClient :: "bool \<Rightarrow> u16 \<Rightarrow> u32 \<Rightarrow> SdClient res" where
  "newSdClient anyFlag serviceId repetitionMax =
     bindR newSdMessage (\<lambda>findMessage.
     bindR (CreateFindServiceEntry serviceId 0xffffff 0xffff 0xff 0xffffffff) (\<lambda>findEntry.
       Inr \<lparr> scTimer = \<lparr> mSignalFlag = anyFlag, mRequested = False, mDisposing = False, mTtl = 0 \<rparr>,
             scState = ServiceNotSeen, scWaiting = False, scThread = False, mNotSeenDisposing = False,
             mValidState = True, mFindServiceMessage = AddEntry findMessage findEntry, scSent = [],
             scServiceId = serviceId, scRepetitionsMax = unat repetitionMax, mEndpointLocked = False,
             mOfferedEndpoint = None \<rparr>))"

section \<open>The thread\<close>

definition sendFind :: "SdClient \<Rightarrow> SdClient" where
  "sendFind c =
     c\<lparr> scSent := scSent c @ [mFindServiceMessage c],
        mFindServiceMessage := snd (Sd_IncrementSessionId (mFindServiceMessage c)) \<rparr>"

text \<open>Whether the wait of a state is entered on its activation.\<close>

fun blocks :: "SdClientState \<Rightarrow> TtlTimer \<Rightarrow> bool" where
  "blocks ServiceNotSeen t = (\<not> mRequested t \<and> \<not> GetOffered t)"
| "blocks ServiceSeen t = (\<not> mRequested t \<and> GetOffered t)"
| "blocks ServiceReady t = (mRequested t \<and> GetOffered t)"
| "blocks Stopped t = (mRequested t \<and> \<not> GetOffered t)"
| "blocks ClientInitialWait t = True"
| "blocks (ClientRepetition i) t = True"

text \<open>
  Activation of the next state. Without repetitions the repetition phase has no sleep. Once disposed,
  the thread ends when it comes back to the state that has not seen the service.
\<close>

definition enter :: "SdClientState \<Rightarrow> SdClient \<Rightarrow> SdClient" where
  "enter s c =
     (let s' = (if s = ClientRepetition 0 \<and> scRepetitionsMax c = 0 then Stopped else s)
      in c\<lparr> scState := s', scWaiting := blocks s' (scTimer c),
            scThread := \<not> (s' = ServiceNotSeen \<and> mNotSeenDisposing c) \<rparr>)"

text \<open>\<open>waitForNextState\<close> of the four waiting states, after the wait.\<close>

fun nextState :: "SdClientState \<Rightarrow> bool \<Rightarrow> TtlTimer \<Rightarrow> SdClientState" where
  "nextState ServiceNotSeen expired t = (if mRequested t then ClientInitialWait else ServiceSeen)"
| "nextState ServiceSeen expired t = (if mRequested t then ServiceReady else ServiceNotSeen)"
| "nextState ServiceReady expired t =
     (if \<not> mRequested t then ServiceSeen else if expired then ClientInitialWait else Stopped)"
| "nextState Stopped expired t = (if \<not> mRequested t then ServiceNotSeen else ServiceReady)"
| "nextState s expired t = s"

definition proceed :: "bool \<Rightarrow> SdClient \<Rightarrow> SdClient" where
  "proceed timeout c =
     (if \<not> scThread c then c
      else case scState c of
        ClientInitialWait \<Rightarrow>
          if GetOffered (scTimer c) then enter ServiceReady c else enter (ClientRepetition 0) (sendFind c)
      | ClientRepetition i \<Rightarrow>
          if GetOffered (scTimer c) then enter ServiceReady c
          else if i + 1 < scRepetitionsMax c then (sendFind c)\<lparr> scState := ClientRepetition (i + 1) \<rparr>
          else enter Stopped (sendFind c)
      | s \<Rightarrow>
          if \<not> scWaiting c then enter (nextState s False (scTimer c)) c
          else if s = ServiceNotSeen \<or> s = Stopped
          then (case WaitForSignal (scTimer c) of
                  None \<Rightarrow> c
                | Some t \<Rightarrow> enter (nextState s False t) (c\<lparr> scTimer := t \<rparr>))
          else (case WaitForExpiration timeout (scTimer c) of
                  (expired, t) \<Rightarrow>
                    if blocks s t \<and> \<not> expired then c\<lparr> scTimer := t \<rparr>
                    else enter (nextState s expired t) (c\<lparr> scTimer := t \<rparr>)))"

section \<open>Messages\<close>

text \<open>The first offering service entry decides: its TTL, if it is the service looked for.\<close>

fun matchRequestedService :: "u16 \<Rightarrow> Entry list \<Rightarrow> u32 option" where
  "matchRequestedService serviceId [] = None"
| "matchRequestedService serviceId (ServiceEntry b minor # es) =
     (if eType b = Offering
      then (if mServiceId b = serviceId then Some (mTTL b) else None)
      else matchRequestedService serviceId es)"
| "matchRequestedService serviceId (EventgroupEntry b counter g # es) = matchRequestedService serviceId es"

fun tcpEndpoint :: "Opt \<Rightarrow> (string \<times> u16) option" where
  "tcpEndpoint (Ipv4EndpointOption t d ip proto port) =
     (if t = IPv4Endpoint \<and> proto = Tcp then Some (Ipv4_ToString ip, port) else None)"
| "tcpEndpoint (LoadBalancingOption d pr w) = None"

text \<open>The inner loop has no bound: beyond the last option \<open>at\<close> throws.\<close>

fun scanOptions :: "Opt list \<Rightarrow> (string \<times> u16) res" where
  "scanOptions [] = Inl Out_of_range"
| "scanOptions (opt # opts) =
     (case tcpEndpoint opt of Some e \<Rightarrow> Inr e | None \<Rightarrow> scanOptions opts)"

fun tryExtractOfferedEndpoint :: "Entry list \<Rightarrow> (string \<times> u16) option res" where
  "tryExtractOfferedEndpoint [] = Inr None"
| "tryExtractOfferedEndpoint (e # es) =
     (if mFirstOptions (base e) = [] then tryExtractOfferedEndpoint es
      else bindR (scanOptions (mFirstOptions (base e))) (\<lambda>endpoint. Inr (Some endpoint)))"

text \<open>
  An exception leaves the endpoint locked; locking it again throws a system error, a runtime error.
\<close>

definition receiveSdMessage :: "SomeIpSdMessage \<Rightarrow> SdClient \<Rightarrow> unit res \<times> SdClient" where
  "receiveSdMessage message c =
     (if \<not> mValidState c then (Inr (), c)
      else case matchRequestedService (scServiceId c) (mEntries message) of
             None \<Rightarrow> (Inr (), c)
           | Some ttl \<Rightarrow>
               (let c' = c\<lparr> scTimer := SetOffered ttl (scTimer c) \<rparr>
                in if mEndpointLocked c' then (Inl Runtime_error, c')
                   else case tryExtractOfferedEndpoint (mEntries message) of
                          Inl e \<Rightarrow> (Inl e, c'\<lparr> mEndpointLocked := True \<rparr>)
                        | Inr None \<Rightarrow> (Inr (), c')
                        | Inr (Some endpoint) \<Rightarrow> (Inr (), c'\<lparr> mOfferedEndpoint := Some endpoint \<rparr>)))"

definition TryGetOfferedEndpoint :: "SdClient \<Rightarrow> (string \<times> u16) option res" where
  "TryGetOfferedEndpoint c =
     (if mEndpointLocked c then Inl Runtime_error else Inr (mOfferedEndpoint c))"

section \<open>The owner\<close>

text \<open>The future of the thread stays valid, so a second start throws.\<close>

definition Client_Start :: "bool \<Rightarrow> SdClient \<Rightarrow> unit res \<times> SdClient" where
  "Client_Start futureValid c =
     (if futureValid then (Inl Logic_error, c)
      else let c' = c\<lparr> scTimer := SetRequested True (scTimer c) \<rparr>
           in (Inr (), if scState c' = ServiceNotSeen then enter ClientInitialWait c' else c'))"

definition Client_StopAgent :: "SdClient \<Rightarrow> SdClient" where
  "Client_StopAgent c =
     (let c' = (if \<not> mValidState c
                then c\<lparr> mNotSeenDisposing := True, scTimer := (scTimer c)\<lparr> mDisposing := True \<rparr> \<rparr>
                else c)
      in c'\<lparr> scTimer := SetRequested False (scTimer c') \<rparr>)"

text \<open>The result of a wait for an offer: the wait was notified, or the state is already one with an offer.\<close>

definition TryWaitUntiServiceOffered :: "bool \<Rightarrow> SdClient \<Rightarrow> bool" where
  "TryWaitUntiServiceOffered wasNotified c \<longleftrightarrow>
     mValidState c \<and> (wasNotified \<or> scState c = ServiceReady \<or> scState c = ServiceSeen)"

definition TryWaitUntiServiceOfferStopped :: "bool \<Rightarrow> SdClient \<Rightarrow> bool" where
  "TryWaitUntiServiceOfferStopped wasNotified c \<longleftrightarrow>
     mValidState c \<and> (wasNotified \<or> scState c = Stopped \<or> scState c = ServiceNotSeen)"

section \<open>A client that gets no answer\<close>

text \<open>The messages sent, one after the other, with increasing session identifiers.\<close>

definition findChain :: "SdClient \<Rightarrow> bool" where
  "findChain c \<longleftrightarrow>
     successively (\<lambda>m m'. m' = snd (Sd_IncrementSessionId m)) (scSent c @ [mFindServiceMessage c])"

lemma sendFind_chain: "findChain c \<Longrightarrow> findChain (sendFind c)"
  by (auto simp: findChain_def sendFind_def successively_append_iff)

lemma sendFind_simps [simp]:
  "scTimer (sendFind c) = scTimer c" "scThread (sendFind c) = scThread c"
  "scRepetitionsMax (sendFind c) = scRepetitionsMax c" "length (scSent (sendFind c)) = length (scSent c) + 1"
  "scState (sendFind c) = scState c" "mValidState (sendFind c) = mValidState c"
  "mNotSeenDisposing (sendFind c) = mNotSeenDisposing c"
  by (simp_all add: sendFind_def)

lemma enter_simps [simp]:
  "scTimer (enter s c) = scTimer c" "scSent (enter s c) = scSent c"
  "mFindServiceMessage (enter s c) = mFindServiceMessage c" "scRepetitionsMax (enter s c) = scRepetitionsMax c"
  "mValidState (enter s c) = mValidState c" "mNotSeenDisposing (enter s c) = mNotSeenDisposing c"
  "findChain (enter s c) = findChain c"
  by (simp_all add: enter_def Let_def findChain_def)

text \<open>After \<open>n\<close> ends of sleeps without an offer, the first of them that of the initial wait.\<close>

definition unanswered :: "nat \<Rightarrow> SdClient \<Rightarrow> bool" where
  "unanswered n c \<longleftrightarrow>
     scThread c \<and> scTimer c = \<lparr> mSignalFlag = True, mRequested = True, mDisposing = False, mTtl = 0 \<rparr> \<and>
     mValidState c \<and> \<not> mNotSeenDisposing c \<and> length (scSent c) = n \<and> findChain c \<and>
     (if n = 0 then scState c = ClientInitialWait
      else if n \<le> scRepetitionsMax c then scState c = ClientRepetition (n - 1)
      else scState c = Stopped \<and> scWaiting c)"

lemma unanswered_proceed:
  assumes "unanswered n c" "n \<le> scRepetitionsMax c"
  shows "unanswered (n + 1) (proceed timeout c)"
proof (cases "n = 0")
  case True
  then show ?thesis
    using assms by (auto simp: unanswered_def proceed_def GetOffered_def enter_def Let_def
        findChain_def [of "_\<lparr> scState := _ \<rparr>"] intro: sendFind_chain)
      (auto simp: findChain_def sendFind_def successively_append_iff)
next
  case False
  then show ?thesis
    using assms by (auto simp: unanswered_def proceed_def GetOffered_def enter_def Let_def)
      (auto simp: findChain_def sendFind_def successively_append_iff)
qed

lemma unanswered_run:
  "\<lbrakk> unanswered 0 c; n \<le> scRepetitionsMax c + 1; length timeouts = n \<rbrakk> \<Longrightarrow>
     unanswered n (fold proceed timeouts c)"
proof (induction timeouts arbitrary: n rule: rev_induct)
  case (snoc t ts)
  have r: "scRepetitionsMax (proceed t c) = scRepetitionsMax c" for t c
    by (auto simp: proceed_def split: SdClientState.splits option.splits prod.splits)
  have "scRepetitionsMax (fold proceed ts c) = scRepetitionsMax c" for ts c
    by (induction ts arbitrary: c) (simp_all add: r)
  with snoc unanswered_proceed [of "n - 1" "fold proceed ts c" t] show ?case by auto
qed simp

lemma started_unanswered:
  assumes "newSdClient anyFlag serviceId repetitionMax = Inr c" "Client_Start False c = (Inr (), c')"
  shows "unanswered 0 c'" "scRepetitionsMax c' = unat repetitionMax"
proof -
  have "scTimer c = \<lparr> mSignalFlag = anyFlag, mRequested = False, mDisposing = False, mTtl = 0 \<rparr>"
    "scState c = ServiceNotSeen" "mValidState c" "\<not> mNotSeenDisposing c" "scSent c = []"
    "scRepetitionsMax c = unat repetitionMax"
    using assms(1) by (auto simp: newSdClient_def bindR_eq_Inr)
  then show "unanswered 0 c'" "scRepetitionsMax c' = unat repetitionMax"
    using assms(2)
    by (auto simp: Client_Start_def SetRequested_def unanswered_def findChain_def enter_def Let_def)
qed

text \<open>A started client that receives nothing sends one find after its initial wait and one after each
  repetition, each message the successor of the one before, and stops. But the signal of its own start is
  still pending: it then enters the state of a ready service, so that a wait for the offer reports
  success although nothing was ever offered, falls back and blocks.\<close>

lemma sd_client_unanswered:
  assumes "newSdClient anyFlag serviceId repetitionMax = Inr c" "Client_Start False c = (Inr (), c')"
    and "length timeouts = unat repetitionMax + 1" "c1 = fold proceed timeouts c'"
    and "c2 = proceed t2 c1" "c3 = proceed t3 c2"
  shows "length (scSent c1) = unat repetitionMax + 1 \<and> findChain c1 \<and> scState c1 = Stopped \<and>
    scState c2 = ServiceReady \<and> TryWaitUntiServiceOffered False c2 \<and> \<not> GetOffered (scTimer c2) \<and>
    scState c3 = Stopped \<and> scSent c3 = scSent c1 \<and> proceed t4 c3 = c3"
proof -
  note start = started_unanswered [OF assms(1,2)]
  have rm: "scRepetitionsMax (proceed t c) = scRepetitionsMax c" for t c
    by (auto simp: proceed_def split: SdClientState.splits option.splits prod.splits)
  have "scRepetitionsMax (fold proceed ts c) = scRepetitionsMax c" for ts c
    by (induction ts arbitrary: c) (simp_all add: rm)
  then have r1: "scRepetitionsMax c1 = unat repetitionMax" using start(2) assms(4) by simp
  have u: "unanswered (unat repetitionMax + 1) c1"
    using unanswered_run [OF start(1), of "unat repetitionMax + 1" timeouts] start(2) assms(3,4) by simp
  then have c1: "scState c1 = Stopped" "scWaiting c1" "scThread c1" "mValidState c1" "\<not> mNotSeenDisposing c1"
    "scTimer c1 = \<lparr> mSignalFlag = True, mRequested = True, mDisposing = False, mTtl = 0 \<rparr>"
    using r1 by (simp_all add: unanswered_def)
  have c2: "c2 = enter ServiceReady (c1\<lparr> scTimer := \<lparr> mSignalFlag = False, mRequested = True,
      mDisposing = False, mTtl = 0 \<rparr> \<rparr>)"
    using c1 assms(5) by (simp add: proceed_def WaitForSignal_def)
  have c3: "c3 = enter Stopped c2"
    using c2 assms(6) by (simp add: proceed_def enter_def Let_def GetOffered_def)
  show ?thesis
    using u c1 c2 c3
    by (simp add: unanswered_def enter_def Let_def GetOffered_def TryWaitUntiServiceOffered_def proceed_def
        WaitForSignal_def)
qed

section \<open>A client whose service was offered once\<close>

datatype ClientEvent = Proceed bool | Receive SomeIpSdMessage

fun clientEvent :: "ClientEvent \<Rightarrow> SdClient \<Rightarrow> SdClient" where
  "clientEvent (Proceed timeout) c = proceed timeout c"
| "clientEvent (Receive m) c = snd (receiveSdMessage m c)"

definition offeredAndRequested :: "SdClient \<Rightarrow> bool" where
  "offeredAndRequested c \<longleftrightarrow>
     scThread c \<and> mRequested (scTimer c) \<and> GetOffered (scTimer c) \<and> \<not> mDisposing (scTimer c) \<and>
     \<not> mNotSeenDisposing c \<and> (scState c = ServiceReady \<and> scWaiting c \<or> scState c = ClientInitialWait)"

definition stopsOffer :: "u16 \<Rightarrow> ClientEvent \<Rightarrow> bool" where
  "stopsOffer serviceId ev =
     (case ev of Receive m \<Rightarrow> matchRequestedService serviceId (mEntries m) = Some 0 | Proceed _ \<Rightarrow> False)"

lemma receive_simps [simp]:
  "scSent (snd (receiveSdMessage m c)) = scSent c" "scServiceId (snd (receiveSdMessage m c)) = scServiceId c"
  "scThread (snd (receiveSdMessage m c)) = scThread c" "scState (snd (receiveSdMessage m c)) = scState c"
  "scWaiting (snd (receiveSdMessage m c)) = scWaiting c"
  "mNotSeenDisposing (snd (receiveSdMessage m c)) = mNotSeenDisposing c"
  "scTimer (snd (receiveSdMessage m c)) =
     (if mValidState c
      then case matchRequestedService (scServiceId c) (mEntries m) of
             Some ttl \<Rightarrow> SetOffered ttl (scTimer c) | None \<Rightarrow> scTimer c
      else scTimer c)"
  by (auto simp: receiveSdMessage_def Let_def split: option.splits sum.splits)

lemma offeredAndRequested_step:
  assumes "offeredAndRequested c" "\<not> stopsOffer (scServiceId c) ev"
  shows "offeredAndRequested (clientEvent ev c) \<and> scSent (clientEvent ev c) = scSent c \<and>
    scServiceId (clientEvent ev c) = scServiceId c"
proof (cases ev)
  case (Proceed t)
  have id: "scServiceId (proceed t c) = scServiceId c"
    by (auto simp: proceed_def enter_def sendFind_def Let_def split: SdClientState.splits option.splits prod.splits)
  have "offeredAndRequested (proceed t c) \<and> scSent (proceed t c) = scSent c"
    using assms(1)
    by (auto simp: offeredAndRequested_def proceed_def enter_def Let_def WaitForExpiration_def GetOffered_def
        split: if_split_asm)
  then show ?thesis using Proceed id by simp
next
  case (Receive m)
  then show ?thesis
    using assms
    by (auto simp: offeredAndRequested_def stopsOffer_def SetOffered_def GetOffered_def word_gt_0
        split: option.splits)
qed

text \<open>The TTL of an offer never runs out: once a requested service was offered, the client sends no
  find message any more and stays between the ready state and the initial wait through every sequence of
  timeouts and of messages, until a stop offer for its service arrives; the expired TTL still counts as an
  offer.\<close>

lemma sd_client_expiry_ignored:
  assumes "offeredAndRequested c" "list_all (\<lambda>ev. \<not> stopsOffer (scServiceId c) ev) evs"
    and "c' = fold clientEvent evs c"
  shows "scSent c' = scSent c \<and> (scState c' = ServiceReady \<or> scState c' = ClientInitialWait) \<and>
    GetOffered (scTimer c')"
proof -
  have "\<lbrakk> offeredAndRequested c; list_all (\<lambda>ev. \<not> stopsOffer (scServiceId c) ev) evs \<rbrakk> \<Longrightarrow>
    offeredAndRequested (fold clientEvent evs c) \<and> scSent (fold clientEvent evs c) = scSent c" for c
  proof (induction evs arbitrary: c)
    case (Cons ev evs)
    then show ?case using offeredAndRequested_step [of c ev] by auto
  qed simp
  from this [OF assms(1,2)] show ?thesis using assms(3) by (auto simp: offeredAndRequested_def)
qed

definition emptyMessage :: SomeIpSdMessage where
  "emptyMessage = SomeIpMessage.extend (mkSomeIpMessage 0xffff8100 0 1 1 1 Notification eOK)
     \<lparr> mRebooted = True, mEntries = [] \<rparr>"

definition readyClient :: SdClient where
  "readyClient =
     \<lparr> scTimer = \<lparr> mSignalFlag = False, mRequested = True, mDisposing = False, mTtl = 3 \<rparr>,
       scState = ServiceReady, scWaiting = True, scThread = True, mNotSeenDisposing = False, mValidState = True,
       mFindServiceMessage = emptyMessage, scSent = [], scServiceId = 7, scRepetitionsMax = 3, mEndpointLocked = False,
       mOfferedEndpoint = None \<rparr>"

section \<open>The offered endpoint\<close>

lemma scanOptions_find:
  "scanOptions opts =
     (case find (\<lambda>opt. tcpEndpoint opt \<noteq> None) opts of
        Some opt \<Rightarrow> Inr (the (tcpEndpoint opt)) | None \<Rightarrow> Inl Out_of_range)"
  by (induction opts) (auto split: option.splits)

lemma tryExtractOfferedEndpoint_find:
  "tryExtractOfferedEndpoint es =
     (case find (\<lambda>e. mFirstOptions (base e) \<noteq> []) es of
        None \<Rightarrow> Inr None
      | Some e \<Rightarrow> bindR (scanOptions (mFirstOptions (base e))) (\<lambda>endpoint. Inr (Some endpoint)))"
  by (induction es) auto

lemma locked_forever:
  "mEndpointLocked c \<Longrightarrow> mEndpointLocked (fold clientEvent evs c)"
proof (induction evs arbitrary: c)
  case (Cons ev evs)
  have "mEndpointLocked (clientEvent ev c)"
  proof (cases ev)
    case (Proceed t)
    have e: "mEndpointLocked (enter s c) = mEndpointLocked c" "mEndpointLocked (sendFind c) = mEndpointLocked c" for s c
      by (simp_all add: enter_def sendFind_def Let_def)
    show ?thesis
      using Cons.prems Proceed by (auto simp: proceed_def e split: SdClientState.splits option.splits prod.splits)
  next
    case (Receive m)
    then show ?thesis
      using Cons.prems by (auto simp: receiveSdMessage_def Let_def split: option.splits)
  qed
  with Cons.IH show ?case by simp
qed simp

text \<open>The endpoint of an offer is the first TCP endpoint among the first options of the first entry that
  has any. If that entry has none, receiving the message throws, and from then on, whatever
  happens, every request for the endpoint and every further offer throws too, since the lock is kept.\<close>

lemma offered_endpoint:
  assumes "mValidState c" "\<not> mEndpointLocked c"
    and "matchRequestedService (scServiceId c) (mEntries m) = Some ttl"
    and "find (\<lambda>e. mFirstOptions (base e) \<noteq> []) (mEntries m) = Some e"
    and "receiveSdMessage m c = (r, c')"
  shows "case find (\<lambda>opt. tcpEndpoint opt \<noteq> None) (mFirstOptions (base e)) of
      Some opt \<Rightarrow> r = Inr () \<and> TryGetOfferedEndpoint c' = Inr (tcpEndpoint opt)
    | None \<Rightarrow> r = Inl Out_of_range \<and>
        (\<forall>evs. TryGetOfferedEndpoint (fold clientEvent evs c') = Inl Runtime_error)"
proof (cases "find (\<lambda>opt. tcpEndpoint opt \<noteq> None) (mFirstOptions (base e))")
  case None
  then have ex: "tryExtractOfferedEndpoint (mEntries m) = Inl Out_of_range"
    using assms(4) by (simp add: tryExtractOfferedEndpoint_find scanOptions_find)
  then have "r = Inl Out_of_range" "mEndpointLocked c'"
    using assms by (auto simp: receiveSdMessage_def Let_def)
  then show ?thesis using None locked_forever by (simp add: TryGetOfferedEndpoint_def)
next
  case (Some opt)
  then obtain ep where ep: "tcpEndpoint opt = Some ep" by (auto simp: find_Some_iff)
  have "tryExtractOfferedEndpoint (mEntries m) = Inr (Some ep)"
    using assms(4) Some ep by (simp add: tryExtractOfferedEndpoint_find scanOptions_find)
  then show ?thesis
    using assms Some ep by (auto simp: receiveSdMessage_def Let_def TryGetOfferedEndpoint_def)
qed

definition balancingOffer :: Entry where
  "balancingOffer =
     ServiceEntry ((mkEntryBase Offering 7 1 3 1)\<lparr> mFirstOptions := [LoadBalancingOption False 1 1] \<rparr>) 0"

end
