(* ===== verification/Per.thy ===== *)
theory Per
  imports Prelude "HOL-Library.AList"
begin

text \<open>
  \<open>ara/per\<close>: file storage and key-value storage. The file system of the platform is a map from paths to
  contents; a call of the operating system that fails is a fault given from outside. Writing a file is a
  list of file system states, so that a crash between any two of them can be considered. The JSON library
  is outside the repository: parser and writer are arguments.
\<close>

section \<open>Files\<close>

type_synonym FileSystem = "string \<rightharpoonup> bytes"

datatype PerErrc =
  kStorageNotFound | kKeyNotFound | kIllegalWriteAccess | kPhysicalStorageFailure | kIntegrityCorrupted
| kOutOfStorageSpace | kInitValueNotAvailable | kResourceBusy | kFileNotFound

type_synonym 'a per = "PerErrc + 'a"

text \<open>\<open>WriteFails n\<close>: only \<open>n\<close> bytes reach the file.\<close>

datatype IoFault = NoFault | OpenFails | WriteFails nat | RenameFails

definition tmpPath :: "string \<Rightarrow> string" where
  "tmpPath path = path @ ''.tmp''"

text \<open>The states the file system goes through, the first one included, and the result.\<close>

definition replaceVia ::
    "string \<Rightarrow> IoFault \<Rightarrow> string \<Rightarrow> bytes \<Rightarrow> FileSystem \<Rightarrow> FileSystem list \<times> unit per" where
  "replaceVia tmp fault path content fs =
     (let written = (\<lambda>n. map (\<lambda>k. fs(tmp \<mapsto> take k content)) [0..<Suc n])
      in case fault of
           OpenFails \<Rightarrow> ([fs], Inl kPhysicalStorageFailure)
         | WriteFails n \<Rightarrow> (fs # written n @ [fs(tmp := None)], Inl kOutOfStorageSpace)
         | RenameFails \<Rightarrow> (fs # written (length content) @ [fs(tmp := None)], Inl kPhysicalStorageFailure)
         | NoFault \<Rightarrow> (fs # written (length content) @ [fs(tmp := None, path \<mapsto> content)], Inr ()))"

definition replaceFile :: "IoFault \<Rightarrow> string \<Rightarrow> bytes \<Rightarrow> FileSystem \<Rightarrow> FileSystem list \<times> unit per" where
  "replaceFile fault path content fs = replaceVia (tmpPath path) fault path content fs"

lemma tmpPath_noteq [simp]: "tmpPath p \<noteq> p" "p \<noteq> tmpPath p"
  by (simp_all add: tmpPath_def)

text \<open>
  Whatever happens, and wherever the process dies, the file holds the old or the whole new content and
  every file but the temporary one is untouched; success means that the new content is in place.
\<close>

lemma replaceVia_atomic:
  assumes "replaceVia tmp fault path content fs = (states, result)" "fs' \<in> set states" "tmp \<noteq> path"
  shows "fs' path = fs path \<or> fs' path = Some content"
    and "p \<noteq> path \<Longrightarrow> p \<noteq> tmp \<Longrightarrow> fs' p = fs p"
  using assms by (auto simp: replaceVia_def Let_def split: IoFault.splits)

lemma replaceVia_result:
  assumes "replaceVia tmp fault path content fs = (states, result)" "tmp \<noteq> path"
  shows "states \<noteq> []" "hd states = fs" "result = Inr () \<longleftrightarrow> fault = NoFault"
    and "last states path = (if result = Inr () then Some content else fs path)"
    and "p \<noteq> path \<Longrightarrow> p \<noteq> tmp \<Longrightarrow> last states p = fs p"
  using assms by (auto simp: replaceVia_def Let_def split: IoFault.splits)

lemmas replaceFile_atomic =
  replaceVia_atomic [where tmp = "tmpPath path" and path = path for path, folded replaceFile_def, OF _ _ tmpPath_noteq(1)]

lemmas replaceFile_result =
  replaceVia_result [where tmp = "tmpPath path" and path = path for path, folded replaceFile_def, OF _ tmpPath_noteq(1)]

section \<open>File storage\<close>

record FileStorage =
  mStorageRoot :: string

definition filePath :: "FileStorage \<Rightarrow> string \<Rightarrow> string" where
  "filePath st name = mStorageRoot st @ ''/'' @ name"

text \<open>Whether the directory could be made or is there already.\<close>

definition FileStorage_Open :: "bool \<Rightarrow> string \<Rightarrow> FileStorage per" where
  "FileStorage_Open directory storageRoot =
     (if directory then Inr \<lparr> mStorageRoot = storageRoot \<rparr> else Inl kPhysicalStorageFailure)"

definition WriteFile :: "IoFault \<Rightarrow> FileStorage \<Rightarrow> string \<Rightarrow> bytes \<Rightarrow> FileSystem \<Rightarrow> FileSystem list \<times> unit per" where
  "WriteFile fault st name content fs = replaceFile fault (filePath st name) content fs"

text \<open>\<open>readable\<close> is false when reading fails half way.\<close>

definition ReadFile :: "bool \<Rightarrow> FileStorage \<Rightarrow> string \<Rightarrow> FileSystem \<Rightarrow> bytes per" where
  "ReadFile readable st name fs =
     (case fs (filePath st name) of
        None \<Rightarrow> Inl kFileNotFound
      | Some content \<Rightarrow> if readable then Inr content else Inl kPhysicalStorageFailure)"

definition DeleteFile :: "FileStorage \<Rightarrow> string \<Rightarrow> FileSystem \<Rightarrow> unit per \<times> FileSystem" where
  "DeleteFile st name fs =
     (case fs (filePath st name) of
        None \<Rightarrow> (Inl kFileNotFound, fs)
      | Some _ \<Rightarrow> (Inr (), fs(filePath st name := None)))"

definition FileExists :: "FileStorage \<Rightarrow> string \<Rightarrow> FileSystem \<Rightarrow> bool" where
  "FileExists st name fs \<longleftrightarrow> fs (filePath st name) \<noteq> None"

text \<open>The entries of the directory are given by the operating system.\<close>

definition GetAllFileNames :: "string list option \<Rightarrow> string list per" where
  "GetAllFileNames entries =
     (case entries of
        None \<Rightarrow> Inl kPhysicalStorageFailure
      | Some names \<Rightarrow>
          Inr (filter (\<lambda>name. \<not> (name = ''.'' \<or> name = ''..'') \<and>
                 \<not> (length name > 4 \<and> drop (length name - 4) name = ''.tmp'')) names))"

lemma temporary_not_listed:
  "name \<noteq> [] \<Longrightarrow> GetAllFileNames (Some names) = Inr result \<Longrightarrow> tmpPath name \<notin> set result"
  by (cases name) (auto simp: GetAllFileNames_def tmpPath_def)

lemma write_read:
  "WriteFile fault st name content fs = (states, Inr ()) \<Longrightarrow> ReadFile True st name (last states) = Inr content"
  using replaceFile_result(4) [of fault "filePath st name" content fs states "Inr ()"]
  by (simp add: WriteFile_def ReadFile_def)

section \<open>Key-value storage\<close>

text \<open>
  The values the storage reads and writes: \<open>JInt\<close> is every value that is integral, \<open>JOther\<close> every value
  that is none of the three. The order of the keys is the business of the JSON library.
\<close>

datatype JsonValue = JString string | JInt int | JBool bool | JOther

datatype JsonDocument = JsonObject "(string \<times> JsonValue) list" | JsonNoObject

record KeyValueStorage =
  mStoragePath :: string
  mRoot :: "(string \<times> JsonValue) list"

definition KeyValueStorage_Open ::
    "(bytes \<Rightarrow> JsonDocument option) \<Rightarrow> string \<Rightarrow> FileSystem \<Rightarrow> KeyValueStorage per" where
  "KeyValueStorage_Open parse storagePath fs =
     (case fs storagePath of
        None \<Rightarrow> Inr \<lparr> mStoragePath = storagePath, mRoot = [] \<rparr>
      | Some content \<Rightarrow>
          (case parse content of
             None \<Rightarrow> Inl kIntegrityCorrupted
           | Some JsonNoObject \<Rightarrow> Inl kIntegrityCorrupted
           | Some (JsonObject root) \<Rightarrow> Inr \<lparr> mStoragePath = storagePath, mRoot = root \<rparr>))"

definition HasKey :: "KeyValueStorage \<Rightarrow> string \<Rightarrow> bool" where
  "HasKey kvs key \<longleftrightarrow> map_of (mRoot kvs) key \<noteq> None"

definition GetAllKeys :: "KeyValueStorage \<Rightarrow> string list" where
  "GetAllKeys kvs = map fst (mRoot kvs)"

definition RemoveKey :: "string \<Rightarrow> KeyValueStorage \<Rightarrow> unit per \<times> KeyValueStorage" where
  "RemoveKey key kvs =
     (if \<not> HasKey kvs key then (Inl kKeyNotFound, kvs)
      else (Inr (), kvs\<lparr> mRoot := AList.delete key (mRoot kvs) \<rparr>))"

definition SyncToStorage ::
    "IoFault \<Rightarrow> ((string \<times> JsonValue) list \<Rightarrow> bytes) \<Rightarrow> KeyValueStorage \<Rightarrow> FileSystem \<Rightarrow>
     FileSystem list \<times> unit per" where
  "SyncToStorage fault render kvs fs = replaceFile fault (mStoragePath kvs) (render (mRoot kvs)) fs"

definition GetValueString :: "KeyValueStorage \<Rightarrow> string \<Rightarrow> string per" where
  "GetValueString kvs key =
     (case map_of (mRoot kvs) key of
        None \<Rightarrow> Inl kKeyNotFound
      | Some (JString s) \<Rightarrow> Inr s
      | Some _ \<Rightarrow> Inl kIntegrityCorrupted)"

text \<open>
  \<open>asInt\<close> throws for an integer outside of \<open>int\<close>, and the function is \<open>noexcept\<close>: None is the
  end of the process.
\<close>

definition GetValueInt :: "KeyValueStorage \<Rightarrow> string \<Rightarrow> int per option" where
  "GetValueInt kvs key =
     (case map_of (mRoot kvs) key of
        None \<Rightarrow> Some (Inl kKeyNotFound)
      | Some (JInt i) \<Rightarrow> if - (2 ^ 31) \<le> i \<and> i < 2 ^ 31 then Some (Inr i) else None
      | Some _ \<Rightarrow> Some (Inl kIntegrityCorrupted))"

definition GetValueBool :: "KeyValueStorage \<Rightarrow> string \<Rightarrow> bool per" where
  "GetValueBool kvs key =
     (case map_of (mRoot kvs) key of
        None \<Rightarrow> Inl kKeyNotFound
      | Some (JBool b) \<Rightarrow> Inr b
      | Some _ \<Rightarrow> Inl kIntegrityCorrupted)"

definition Kvs_SetValue :: "string \<Rightarrow> JsonValue \<Rightarrow> KeyValueStorage \<Rightarrow> KeyValueStorage" where
  "Kvs_SetValue key v kvs = kvs\<lparr> mRoot := AList.update key v (mRoot kvs) \<rparr>"

lemma Kvs_SetValue_lookup: "map_of (mRoot (Kvs_SetValue key v kvs)) = (map_of (mRoot kvs))(key \<mapsto> v)"
  by (simp add: Kvs_SetValue_def update_conv')

lemma RemoveKey_lookup:
  "map_of (mRoot (snd (RemoveKey key kvs))) = (map_of (mRoot kvs))(key := None)"
  by (auto simp: RemoveKey_def HasKey_def delete_conv' fun_eq_iff)

text \<open>C17: saving a key-value storage is safe against faults and crashes: in every state the file system goes
  through, opening the storage again gives either what opening it before gave or exactly the saved
  values, and after a successful save it gives the saved values, provided the JSON library reads back
  what it wrote. Files other than the storage and its temporary file are not touched.\<close>

theorem kvs_save_crash_safe:
  assumes "parse (render (mRoot kvs)) = Some (JsonObject (mRoot kvs))"
    and "SyncToStorage fault render kvs fs = (states, result)"
  shows "(\<forall>fs' \<in> set states.
      (KeyValueStorage_Open parse (mStoragePath kvs) fs' = KeyValueStorage_Open parse (mStoragePath kvs) fs \<or>
       KeyValueStorage_Open parse (mStoragePath kvs) fs' =
         Inr \<lparr> mStoragePath = mStoragePath kvs, mRoot = mRoot kvs \<rparr>) \<and>
      (\<forall>p. p \<noteq> mStoragePath kvs \<and> p \<noteq> tmpPath (mStoragePath kvs) \<longrightarrow> fs' p = fs p)) \<and>
    (result = Inr () \<longleftrightarrow> fault = NoFault) \<and>
    KeyValueStorage_Open parse (mStoragePath kvs) (last states) =
      (if result = Inr () then Inr \<lparr> mStoragePath = mStoragePath kvs, mRoot = mRoot kvs \<rparr>
       else KeyValueStorage_Open parse (mStoragePath kvs) fs)"
proof -
  note r = assms(2) [unfolded SyncToStorage_def]
  have open_new: "fs' (mStoragePath kvs) = Some (render (mRoot kvs)) \<Longrightarrow>
      KeyValueStorage_Open parse (mStoragePath kvs) fs' = Inr \<lparr> mStoragePath = mStoragePath kvs, mRoot = mRoot kvs \<rparr>" for fs'
    using assms(1) by (simp add: KeyValueStorage_Open_def)
  have open_old: "fs' (mStoragePath kvs) = fs (mStoragePath kvs) \<Longrightarrow>
      KeyValueStorage_Open parse (mStoragePath kvs) fs' = KeyValueStorage_Open parse (mStoragePath kvs) fs" for fs'
    by (simp add: KeyValueStorage_Open_def)
  have "\<forall>fs' \<in> set states.
      (KeyValueStorage_Open parse (mStoragePath kvs) fs' = KeyValueStorage_Open parse (mStoragePath kvs) fs \<or>
       KeyValueStorage_Open parse (mStoragePath kvs) fs' =
         Inr \<lparr> mStoragePath = mStoragePath kvs, mRoot = mRoot kvs \<rparr>) \<and>
      (\<forall>p. p \<noteq> mStoragePath kvs \<and> p \<noteq> tmpPath (mStoragePath kvs) \<longrightarrow> fs' p = fs p)"
    using replaceFile_atomic [OF r] open_new open_old by meson
  moreover have "KeyValueStorage_Open parse (mStoragePath kvs) (last states) =
      (if result = Inr () then Inr \<lparr> mStoragePath = mStoragePath kvs, mRoot = mRoot kvs \<rparr>
       else KeyValueStorage_Open parse (mStoragePath kvs) fs)"
  proof (cases "result = Inr ()")
    case True
    then have "last states (mStoragePath kvs) = Some (render (mRoot kvs))"
      using replaceFile_result(4) [OF r] by simp
    then show ?thesis using open_new True by simp
  next
    case False
    then have "last states (mStoragePath kvs) = fs (mStoragePath kvs)"
      using replaceFile_result(4) [OF r] by simp
    then show ?thesis using open_old [of "last states"] False by simp
  qed
  ultimately show ?thesis using replaceFile_result(3) [OF r] by (intro conjI)
qed

theorem kvs_save_crash_safe_witness:
  "\<exists>states. SyncToStorage NoFault (\<lambda>_. [1]) (Kvs_SetValue ''k'' (JInt 7) \<lparr> mStoragePath = ''s'', mRoot = [] \<rparr>) Map.empty =
      (states, Inr ()) \<and>
    KeyValueStorage_Open (\<lambda>_. Some (JsonObject [(''k'', JInt 7)])) ''s'' (last states) =
      Inr \<lparr> mStoragePath = ''s'', mRoot = [(''k'', JInt 7)] \<rparr>"
proof -
  let ?kvs = "Kvs_SetValue ''k'' (JInt 7) \<lparr> mStoragePath = ''s'', mRoot = [] \<rparr>"
  obtain states where s: "SyncToStorage NoFault (\<lambda>_. [1]) ?kvs Map.empty = (states, Inr ())"
    by (simp add: SyncToStorage_def replaceFile_def replaceVia_def Let_def)
  have root: "mRoot ?kvs = [(''k'', JInt 7)]" "mStoragePath ?kvs = ''s''" by (simp_all add: Kvs_SetValue_def)
  show ?thesis
    using kvs_save_crash_safe [OF _ s, of "\<lambda>_. Some (JsonObject [(''k'', JInt 7)])"] s root by simp
qed

end
