(* ===== verification/Ucm.thy ===== *)
theory Ucm
  imports Per
begin

text \<open>
  \<open>ara/ucm/package_manager.cpp\<close>: the update state machine. The file system and the stores are those of
  \<open>Per\<close>. What the operating system, tar, the JSON parser and the XML library do with a package is given
  from outside. The manager owns its file system while an operation runs; a metadata entry that is no text
  ends the process and is not modelled.
\<close>

datatype UcmErrc =
  kInvalidTransferId | kTransferNotComplete | kPackageMalformed | kActivationFailed | kRollbackFailed
| kInsufficientSpace | kOperationInProgress

datatype UpdateStateType =
  kIdle | kTransferring | kProcessing | kActivating | kActivated | kRollingBack | kRolledBack

record PackageInfo =
  piName :: string
  piVersion :: string
  piSize :: u64

text \<open>The two maps are lists sorted by transfer identifier, as \<open>std::map\<close> iterates over them.\<close>

record PackageManager =
  pmStorageRoot :: string
  mStorage :: "FileStorage option"
  mRegistry :: "KeyValueStorage option"
  mState :: UpdateStateType
  mNextId :: u32
  mPendingTransfers :: "(u32 \<times> PackageInfo) list"
  mAccumulatedData :: "(u32 \<times> bytes) list"
  mStagedPackagePath :: string
  mStagedBinaryName :: string

definition newPackageManager ::
    "string \<Rightarrow> FileStorage per \<Rightarrow> KeyValueStorage per \<Rightarrow> PackageManager" where
  "newPackageManager storageRoot storage registry =
     \<lparr> pmStorageRoot = storageRoot,
       mStorage = (case storage of Inr st \<Rightarrow> Some st | Inl _ \<Rightarrow> None),
       mRegistry = (case registry of Inr kvs \<Rightarrow> Some kvs | Inl _ \<Rightarrow> None),
       mState = kIdle, mNextId = 1, mPendingTransfers = [], mAccumulatedData = [],
       mStagedPackagePath = [], mStagedBinaryName = [] \<rparr>"

definition Pm_Reset :: "PackageManager \<Rightarrow> PackageManager" where
  "Pm_Reset pm =
     pm\<lparr> mState := kIdle, mPendingTransfers := [], mAccumulatedData := [], mStagedPackagePath := [],
         mStagedBinaryName := [] \<rparr>"

definition TransferStart :: "PackageInfo \<Rightarrow> PackageManager \<Rightarrow> (UcmErrc + u32) \<times> PackageManager" where
  "TransferStart info pm =
     (if mState pm \<noteq> kIdle then (Inl kOperationInProgress, pm)
      else (Inr (mNextId pm),
            pm\<lparr> mNextId := mNextId pm + 1,
                mPendingTransfers := insertSorted (mNextId pm) info (mPendingTransfers pm),
                mAccumulatedData := insertSorted (mNextId pm) [] (mAccumulatedData pm),
                mState := kTransferring \<rparr>))"

definition accumulated :: "u32 \<Rightarrow> PackageManager \<Rightarrow> bytes" where
  "accumulated ident pm =
     (case map_of (mAccumulatedData pm) ident of Some acc \<Rightarrow> acc | None \<Rightarrow> [])"

definition Pm_TransferData :: "u32 \<Rightarrow> bytes \<Rightarrow> PackageManager \<Rightarrow> (UcmErrc + unit) \<times> PackageManager" where
  "Pm_TransferData ident block pm =
     (if map_of (mPendingTransfers pm) ident = None then (Inl kInvalidTransferId, pm)
      else (Inr (), pm\<lparr> mAccumulatedData :=
              insertSorted ident (accumulated ident pm @ block) (mAccumulatedData pm) \<rparr>))"

definition packageFile :: "PackageInfo \<Rightarrow> string" where
  "packageFile info = piName info @ ''.swpkg.tar.gz''"

text \<open>A package without a declared size is a file that is there already.\<close>

definition TransferExit ::
    "IoFault \<Rightarrow> u32 \<Rightarrow> PackageManager \<Rightarrow> FileSystem \<Rightarrow> (UcmErrc + unit) \<times> PackageManager \<times> FileSystem" where
  "TransferExit fault ident pm fs =
     (case map_of (mPendingTransfers pm) ident of
        None \<Rightarrow> (Inl kInvalidTransferId, pm, fs)
      | Some info \<Rightarrow>
          if piSize info = 0
          then (if fs (piName info) = None then (Inl kTransferNotComplete, pm, fs)
                else (Inr (), pm\<lparr> mStagedPackagePath := piName info \<rparr>, fs))
          else if length (accumulated ident pm) \<noteq> unat (piSize info) then (Inl kTransferNotComplete, pm, fs)
          else (case mStorage pm of
                  None \<Rightarrow> (Inr (), pm\<lparr> mStagedPackagePath := pmStorageRoot pm @ ''/'' @ packageFile info \<rparr>, fs)
                | Some st \<Rightarrow>
                    (case WriteFile fault st (packageFile info) (accumulated ident pm) fs of
                       (states, Inl _) \<Rightarrow> (Inl kInsufficientSpace, pm, last states)
                     | (states, Inr _) \<Rightarrow>
                         (Inr (), pm\<lparr> mStagedPackagePath := pmStorageRoot pm @ ''/'' @ packageFile info \<rparr>,
                          last states))))"

text \<open>
  \<open>tar\<close> unpacks an archive into the staging directory and says whether it succeeded, \<open>binaryName\<close> reads the
  entry of that name from the metadata, empty when it is missing.
\<close>

definition extractDir :: "PackageManager \<Rightarrow> string" where
  "extractDir pm = pmStorageRoot pm @ ''/staging''"

definition ProcessSwPackage ::
    "(string \<Rightarrow> FileSystem \<Rightarrow> bool \<times> FileSystem) \<Rightarrow> (bytes \<Rightarrow> string option) \<Rightarrow> u32 \<Rightarrow> PackageManager \<Rightarrow>
     FileSystem \<Rightarrow> (UcmErrc + unit) \<times> PackageManager \<times> FileSystem" where
  "ProcessSwPackage tar binaryName ident pm fs =
     (if map_of (mPendingTransfers pm) ident = None then (Inl kInvalidTransferId, pm, fs)
      else if mStagedPackagePath pm = [] then (Inl kPackageMalformed, pm, fs)
      else case tar (mStagedPackagePath pm) fs of
             (False, fs) \<Rightarrow> (Inl kPackageMalformed, pm\<lparr> mState := kIdle \<rparr>, fs)
           | (True, fs) \<Rightarrow>
               (case Option.bind (fs (extractDir pm @ ''/metadata.json'')) binaryName of
                  None \<Rightarrow> (Inl kPackageMalformed, pm\<lparr> mState := kIdle \<rparr>, fs)
                | Some name \<Rightarrow>
                    if name = [] then (Inl kPackageMalformed, pm\<lparr> mStagedBinaryName := [], mState := kIdle \<rparr>, fs)
                    else (Inr (), pm\<lparr> mStagedBinaryName := name, mState := kProcessing \<rparr>, fs)))"

text \<open>
  What the XML library gives: the SHORT-NAME and the element of a process entry, a manifest with its list
  of processes (None without a PROCESSES node), appending to that list, and the text of a manifest.
\<close>

record ('p, 'd) XmlLibrary =
  loadProcess :: "bytes \<Rightarrow> (string \<times> 'p) option"
  loadManifest :: "bytes \<Rightarrow> 'd option"
  processesOf :: "'d \<Rightarrow> (string \<times> 'p) list option"
  appendCopy :: "(string \<times> 'p) \<Rightarrow> 'd \<Rightarrow> 'd"
  renderManifest :: "'d \<Rightarrow> bytes"

text \<open>The manifest with the staged process, unless one of that name is there.\<close>

definition injectProcess :: "('p, 'd) XmlLibrary \<Rightarrow> bytes option \<Rightarrow> bytes option \<Rightarrow> 'd option" where
  "injectProcess xml entry manifest =
     Option.bind (Option.bind entry (loadProcess xml)) (\<lambda>newProcess.
     Option.bind (Option.bind manifest (loadManifest xml)) (\<lambda>doc.
     Option.bind (processesOf xml doc) (\<lambda>processes.
       Some (if fst newProcess \<in> fst ` set processes then doc else appendCopy xml newProcess doc))))"

definition installBinary ::
    "IoFault \<Rightarrow> string \<Rightarrow> PackageManager \<Rightarrow> FileSystem \<Rightarrow> bool \<times> FileSystem" where
  "installBinary fault installRoot pm fs =
     (case fs (extractDir pm @ ''/bin/'' @ mStagedBinaryName pm) of
        None \<Rightarrow> (False, fs)
      | Some content \<Rightarrow>
          (let dst = installRoot @ ''/'' @ mStagedBinaryName pm
           in case replaceVia (dst @ ''.ucm_tmp'') fault dst content fs of
                (states, Inl _) \<Rightarrow> (False, last states)
              | (states, Inr _) \<Rightarrow> (True, last states)))"

text \<open>
  The registry gets the first pending transfer; whether it could be saved is not looked at. A manifest that
  cannot be saved is left with the given contents.
\<close>

record ActivateFaults =
  copyFault :: IoFault
  saveFailure :: "bytes option"
  syncFault :: IoFault

definition Activate ::
    "ActivateFaults \<Rightarrow> ('p, 'd) XmlLibrary \<Rightarrow> ((string \<times> JsonValue) list \<Rightarrow> bytes) \<Rightarrow> string \<Rightarrow> string \<Rightarrow>
     PackageManager \<Rightarrow> FileSystem \<Rightarrow> (UcmErrc + unit) \<times> PackageManager \<times> FileSystem" where
  "Activate faults xml render installRoot manifestPath pm fs =
     (if mStagedBinaryName pm = [] then (Inl kActivationFailed, pm, fs)
      else case installBinary (copyFault faults) installRoot pm fs of
        (False, fs) \<Rightarrow> (Inl kActivationFailed, pm\<lparr> mState := kIdle \<rparr>, fs)
      | (True, fs) \<Rightarrow>
          (case injectProcess xml (fs (extractDir pm @ ''/manifest/process_entry.xml'')) (fs manifestPath) of
             None \<Rightarrow> (Inl kActivationFailed, pm\<lparr> mState := kIdle \<rparr>, fs)
           | Some doc \<Rightarrow>
               (case saveFailure faults of
                  Some rest \<Rightarrow> (Inl kActivationFailed, pm\<lparr> mState := kIdle \<rparr>, fs(manifestPath \<mapsto> rest))
                | None \<Rightarrow>
                    (let fs = fs(manifestPath \<mapsto> renderManifest xml doc)
                     in case (mRegistry pm, mPendingTransfers pm) of
                          (Some kvs, (_, info) # _) \<Rightarrow>
                            (let kvs = Kvs_SetValue (piName info) (JString (piVersion info)) kvs
                             in (Inr (), pm\<lparr> mState := kActivated, mRegistry := Some kvs \<rparr>,
                                 last (fst (SyncToStorage (syncFault faults) render kvs fs))))
                        | _ \<Rightarrow> (Inr (), pm\<lparr> mState := kActivated \<rparr>, fs)))))"

definition GetSwClusterInfo :: "PackageManager \<Rightarrow> PackageInfo list" where
  "GetSwClusterInfo pm =
     (case mRegistry pm of
        None \<Rightarrow> []
      | Some kvs \<Rightarrow>
          map (\<lambda>key. \<lparr> piName = key,
                       piVersion = (case GetValueString kvs key of Inr v \<Rightarrow> v | Inl _ \<Rightarrow> []), piSize = 0 \<rparr>)
            (GetAllKeys kvs))"

section \<open>Transfers\<close>

definition sendBlocks :: "u32 \<Rightarrow> bytes list \<Rightarrow> PackageManager \<Rightarrow> PackageManager" where
  "sendBlocks ident blocks pm = fold (\<lambda>b pm. snd (Pm_TransferData ident b pm)) blocks pm"

lemma sendBlocks_Cons [simp]:
  "sendBlocks ident [] pm = pm"
  "sendBlocks ident (b # bs) pm = sendBlocks ident bs (snd (Pm_TransferData ident b pm))"
  by (simp_all add: sendBlocks_def)

lemma TransferData_simps:
  assumes "map_of (mPendingTransfers pm) ident \<noteq> None"
  shows "accumulated ident (snd (Pm_TransferData ident b pm)) = accumulated ident pm @ b"
    and "mPendingTransfers (snd (Pm_TransferData ident b pm)) = mPendingTransfers pm"
    and "mStorage (snd (Pm_TransferData ident b pm)) = mStorage pm"
    and "pmStorageRoot (snd (Pm_TransferData ident b pm)) = pmStorageRoot pm"
  using assms by (auto simp: Pm_TransferData_def accumulated_def)

lemma sendBlocks_simps:
  "map_of (mPendingTransfers pm) ident \<noteq> None \<Longrightarrow>
     accumulated ident (sendBlocks ident blocks pm) = accumulated ident pm @ concat blocks"
  "map_of (mPendingTransfers pm) ident \<noteq> None \<Longrightarrow>
     mPendingTransfers (sendBlocks ident blocks pm) = mPendingTransfers pm"
  "map_of (mPendingTransfers pm) ident \<noteq> None \<Longrightarrow> mStorage (sendBlocks ident blocks pm) = mStorage pm"
  "map_of (mPendingTransfers pm) ident \<noteq> None \<Longrightarrow> pmStorageRoot (sendBlocks ident blocks pm) = pmStorageRoot pm"
  by (induction blocks arbitrary: pm) (simp_all add: TransferData_simps)

text \<open>C19: a package of declared size sent in any blocks is staged exactly when the blocks have that many
  bytes in all and the file can be written; then the staged file holds the blocks in order, and in
  every other case what the staged file held before is kept.\<close>

theorem package_assembled:
  assumes "TransferStart info pm = (Inr ident, pm1)" "piSize info \<noteq> 0" "mStorage pm = Some st"
    and "TransferExit fault ident (sendBlocks ident blocks pm1) fs = (r, pm2, fs')"
  shows "(r = Inr () \<longleftrightarrow> length (concat blocks) = unat (piSize info) \<and> fault = NoFault) \<and>
    ReadFile True st (packageFile info) fs' =
      (if r = Inr () then Inr (concat blocks) else ReadFile True st (packageFile info) fs)"
proof -
  have p1: "map_of (mPendingTransfers pm1) ident = Some info" "mStorage pm1 = Some st" "accumulated ident pm1 = []"
    using assms(1,3) by (auto simp: TransferStart_def accumulated_def split: if_splits)
  then have p: "map_of (mPendingTransfers pm1) ident \<noteq> None" by simp
  have sb: "map_of (mPendingTransfers (sendBlocks ident blocks pm1)) ident = Some info"
    "accumulated ident (sendBlocks ident blocks pm1) = concat blocks" "mStorage (sendBlocks ident blocks pm1) = Some st"
    using sendBlocks_simps [OF p] p1 by simp_all
  obtain states res where w: "WriteFile fault st (packageFile info) (concat blocks) fs = (states, res)" by fastforce
  note wr = replaceFile_result(3,4) [OF w [unfolded WriteFile_def]]
  show ?thesis
  proof (cases "length (concat blocks) = unat (piSize info)")
    case False
    then have "r = Inl kTransferNotComplete" "fs' = fs"
      using assms(2,4) sb by (simp_all add: TransferExit_def)
    then show ?thesis using False by simp
  next
    case True
    then have e: "r = (case res of Inr _ \<Rightarrow> Inr () | Inl _ \<Rightarrow> Inl kInsufficientSpace)" "fs' = last states"
      using assms(2,4) sb w by (auto simp: TransferExit_def split: sum.splits)
    then have ok: "r = Inr () \<longleftrightarrow> res = Inr ()" by (cases res) auto
    have "ReadFile True st (packageFile info) fs' =
        (if res = Inr () then Inr (concat blocks) else ReadFile True st (packageFile info) fs)"
      unfolding ReadFile_def e(2) wr(2) by simp
    then show ?thesis using True wr(1) ok by simp
  qed
qed

definition emptyManager :: PackageManager where
  "emptyManager = newPackageManager ''/u'' (FileStorage_Open True ''/u'') (Inr \<lparr> mStoragePath = ''/u/r'', mRoot = [] \<rparr>)"

definition samplePackage :: "string \<Rightarrow> u64 \<Rightarrow> PackageInfo" where
  "samplePackage name n = \<lparr> piName = name, piVersion = ''1.0'', piSize = n \<rparr>"

theorem package_assembled_witness:
  "\<exists>ident pm1 pm2 fs'. TransferStart (samplePackage ''p'' 3) emptyManager = (Inr ident, pm1) \<and>
     TransferExit NoFault ident (sendBlocks ident [[1, 2], [3]] pm1) Map.empty = (Inr (), pm2, fs') \<and>
     ReadFile True \<lparr> mStorageRoot = ''/u'' \<rparr> (packageFile (samplePackage ''p'' 3)) fs' = Inr [1, 2, 3]"
proof -
  obtain ident pm1 where s: "TransferStart (samplePackage ''p'' 3) emptyManager = (Inr ident, pm1)"
    by (simp add: TransferStart_def emptyManager_def newPackageManager_def)
  obtain r pm2 fs' where e: "TransferExit NoFault ident (sendBlocks ident [[1, 2], [3]] pm1) Map.empty = (r, pm2, fs')"
    by (metis prod_cases3)
  have st: "mStorage emptyManager = Some \<lparr> mStorageRoot = ''/u'' \<rparr>"
    by (simp add: emptyManager_def newPackageManager_def FileStorage_Open_def)
  have "r = Inr () \<and> ReadFile True \<lparr> mStorageRoot = ''/u'' \<rparr> (packageFile (samplePackage ''p'' 3)) fs' = Inr [1, 2, 3]"
    using package_assembled [OF s _ st e] by (simp add: samplePackage_def)
  with s e show ?thesis by blast
qed

section \<open>What is registered\<close>

lemma keeps_pending:
  "mPendingTransfers (fst (snd (ProcessSwPackage tar binaryName ident pm fs))) = mPendingTransfers pm"
  "mRegistry (fst (snd (ProcessSwPackage tar binaryName ident pm fs))) = mRegistry pm"
  "mNextId (fst (snd (ProcessSwPackage tar binaryName ident pm fs))) = mNextId pm"
  "mPendingTransfers (fst (snd (TransferExit fault ident pm fs))) = mPendingTransfers pm"
  "mRegistry (fst (snd (TransferExit fault ident pm fs))) = mRegistry pm"
  "mNextId (fst (snd (TransferExit fault ident pm fs))) = mNextId pm"
  "mPendingTransfers (snd (Pm_TransferData ident b pm)) = mPendingTransfers pm"
  "mRegistry (snd (Pm_TransferData ident b pm)) = mRegistry pm"
  "mNextId (snd (Pm_TransferData ident b pm)) = mNextId pm"
  by (auto simp: ProcessSwPackage_def TransferExit_def Pm_TransferData_def Let_def
      split: option.splits sum.splits prod.splits bool.splits)

lemma sendBlocks_keeps:
  "mPendingTransfers (sendBlocks ident blocks pm) = mPendingTransfers pm"
  "mRegistry (sendBlocks ident blocks pm) = mRegistry pm"
  "mNextId (sendBlocks ident blocks pm) = mNextId pm"
  by (induction blocks arbitrary: pm) (simp_all add: keeps_pending)

text \<open>A package transferred and processed, with the result of the processing.\<close>

definition uploadPackage ::
    "PackageInfo \<Rightarrow> bytes list \<Rightarrow> IoFault \<Rightarrow> (string \<Rightarrow> FileSystem \<Rightarrow> bool \<times> FileSystem) \<Rightarrow> (bytes \<Rightarrow> string option) \<Rightarrow>
     PackageManager \<Rightarrow> FileSystem \<Rightarrow> (UcmErrc + unit) \<times> PackageManager \<times> FileSystem" where
  "uploadPackage info blocks fault tar binaryName pm fs =
     (case TransferStart info pm of
        (Inl e, pm) \<Rightarrow> (Inl e, pm, fs)
      | (Inr ident, pm) \<Rightarrow>
          (case TransferExit fault ident (sendBlocks ident blocks pm) fs of
             (Inl e, pm, fs) \<Rightarrow> (Inl e, pm, fs)
           | (Inr _, pm, fs) \<Rightarrow> ProcessSwPackage tar binaryName ident pm fs))"

lemma uploadPackage_keeps:
  assumes "mState pm = kIdle" "uploadPackage info blocks fault tar binaryName pm fs = (r, pm', fs')"
  shows "mPendingTransfers pm' = insertSorted (mNextId pm) info (mPendingTransfers pm)"
    "mRegistry pm' = mRegistry pm" "mNextId pm' = mNextId pm + 1"
proof -
  obtain ps where s: "TransferStart info pm = (Inr (mNextId pm), ps)"
    "mPendingTransfers ps = insertSorted (mNextId pm) info (mPendingTransfers pm)"
    "mRegistry ps = mRegistry pm" "mNextId ps = mNextId pm + 1"
    using assms(1) by (simp add: TransferStart_def)
  let ?b = "sendBlocks (mNextId pm) blocks ps"
  obtain re pe fe where e: "TransferExit fault (mNextId pm) ?b fs = (re, pe, fe)" by (metis prod_cases3)
  have pe: "mPendingTransfers pe = mPendingTransfers ?b" "mRegistry pe = mRegistry ?b" "mNextId pe = mNextId ?b"
    using keeps_pending(4-6) [of fault "mNextId pm" ?b fs] e by simp_all
  obtain rp pp fp where p: "ProcessSwPackage tar binaryName (mNextId pm) pe fe = (rp, pp, fp)" by (metis prod_cases3)
  have pp: "mPendingTransfers pp = mPendingTransfers pe" "mRegistry pp = mRegistry pe" "mNextId pp = mNextId pe"
    using keeps_pending(1-3) [of tar binaryName "mNextId pm" pe fe] p by simp_all
  have "pm' = (case re of Inl _ \<Rightarrow> pe | Inr _ \<Rightarrow> pp)"
    using assms(2) e p by (auto simp: uploadPackage_def s(1) split: sum.splits)
  then have "mPendingTransfers pm' = mPendingTransfers ?b \<and> mRegistry pm' = mRegistry ?b \<and> mNextId pm' = mNextId ?b"
    using pe pp by (cases re) simp_all
  then show "mPendingTransfers pm' = insertSorted (mNextId pm) info (mPendingTransfers pm)"
    "mRegistry pm' = mRegistry pm" "mNextId pm' = mNextId pm + 1"
    using s by (simp_all add: sendBlocks_keeps)
qed

lemma Activate_ok:
  assumes "Activate faults xml render installRoot manifestPath pm fs = (Inr (), pm', fs')"
  shows "mState pm' = kActivated"
    and "mPendingTransfers pm = (ident, info) # rest \<Longrightarrow> mRegistry pm = Some kvs \<Longrightarrow>
      mRegistry pm' = Some (Kvs_SetValue (piName info) (JString (piVersion info)) kvs)"
  using assms by (auto simp: Activate_def Let_def split: if_splits option.splits prod.splits bool.splits list.splits)

text \<open>
  Injecting a process again changes nothing, provided the appended process is among the processes of the
  document that the XML library reads back.
\<close>

lemma injectProcess_idempotent:
  assumes "injectProcess xml entry manifest = Some doc" "loadManifest xml (renderManifest xml doc) = Some doc"
    and "\<And>p d ps. processesOf xml d = Some ps \<Longrightarrow> processesOf xml (appendCopy xml p d) = Some (ps @ [p])"
  shows "injectProcess xml entry (Some (renderManifest xml doc)) = Some doc"
proof -
  obtain new d ps where d: "Option.bind entry (loadProcess xml) = Some new" "processesOf xml d = Some ps"
    "doc = (if fst new \<in> fst ` set ps then d else appendCopy xml new d)"
    using assms(1) unfolding injectProcess_def bind_eq_Some_conv by auto
  then obtain qs where "processesOf xml doc = Some qs" "fst new \<in> fst ` set qs"
    using assms(3) [OF d(2), of new] by (cases "fst new \<in> fst ` set ps") auto
  then show ?thesis using assms(2) d(1) by (simp add: injectProcess_def)
qed

text \<open>When processing a package fails the manager accepts the next one, but keeps the failed one among
  the pending transfers: after the second package was transferred, processed and activated, the registry
  holds the name and version of the first, whatever the second was.\<close>

lemma stale_package_registered:
  assumes "mPendingTransfers pm = []" "mState pm = kIdle" "mNextId pm < 0xffffffff" "mRegistry pm = Some kvs"
    and "uploadPackage info1 blocks1 fault1 tar binaryName pm fs = (Inl e, pm1, fs1)" "mState pm1 = kIdle"
    and "uploadPackage info2 blocks2 fault2 tar binaryName pm1 fs1 = (Inr (), pm2, fs2)"
    and "Activate faults xml render installRoot manifestPath pm2 fs2 = (Inr (), pm3, fs3)"
  shows "mState pm3 = kActivated \<and>
    mRegistry pm3 = Some (Kvs_SetValue (piName info1) (JString (piVersion info1)) kvs)"
proof -
  note k1 = uploadPackage_keeps [OF assms(2,5)]
  note k2 = uploadPackage_keeps [OF assms(6,7)]
  have "unat (mNextId pm + 1) = unat (mNextId pm) + 1"
    using assms(3) unat_add_lem [of "mNextId pm" 1] by (simp add: word_less_nat_alt)
  then have "mNextId pm \<le> mNextId pm + 1" "mNextId pm \<noteq> mNextId pm + 1"
    by (simp_all add: word_le_nat_alt)
  then have "mPendingTransfers pm2 = [(mNextId pm, info1), (mNextId pm + 1, info2)]"
    using k1 k2 assms(1) by (simp add: insertSorted_def)
  moreover have "mRegistry pm2 = Some kvs" using k1 k2 assms(4) by simp
  ultimately show ?thesis using Activate_ok [OF assms(8)] by simp
qed

text \<open>
  An archive is unpacked as the binary name it holds: the metadata is the archive, and the binary and the
  process entry are there when it is not \<open>[0]\<close>. A manifest is its list of process names.
\<close>

definition sampleTar :: "string \<Rightarrow> FileSystem \<Rightarrow> bool \<times> FileSystem" where
  "sampleTar archive fs =
     (fs archive \<noteq> Some [0],
      fs(''/u/staging/metadata.json'' := fs archive, ''/u/staging/bin/app'' \<mapsto> [7],
         ''/u/staging/manifest/process_entry.xml'' \<mapsto> [8]))"

definition sampleXml :: "(unit, bytes) XmlLibrary" where
  "sampleXml =
     \<lparr> loadProcess = (\<lambda>_. Some (''app'', ())), loadManifest = Some, processesOf = (\<lambda>_. Some []),
       appendCopy = (\<lambda>_ d. d @ [8]), renderManifest = id \<rparr>"

definition noFaults :: ActivateFaults where
  "noFaults = \<lparr> copyFault = NoFault, saveFailure = None, syncFault = NoFault \<rparr>"

abbreviation firstUpload :: "(UcmErrc + unit) \<times> PackageManager \<times> FileSystem" where
  "firstUpload \<equiv> uploadPackage (samplePackage ''bad'' 1) [[0]] NoFault sampleTar (\<lambda>_. Some ''app'')
     emptyManager [''/m'' \<mapsto> []]"

abbreviation secondUpload :: "(UcmErrc + unit) \<times> PackageManager \<times> FileSystem" where
  "secondUpload \<equiv> uploadPackage (samplePackage ''good'' 1) [[1]] NoFault sampleTar (\<lambda>_. Some ''app'')
     (fst (snd firstUpload)) (snd (snd firstUpload))"

lemmas sample_defs = uploadPackage_def TransferStart_def emptyManager_def newPackageManager_def samplePackage_def
  TransferExit_def Pm_TransferData_def accumulated_def WriteFile_def replaceFile_def replaceVia_def Let_def
  FileStorage_Open_def ProcessSwPackage_def packageFile_def insertSorted_def filePath_def tmpPath_def sampleTar_def
  extractDir_def

lemma sampleUploads:
  "fst firstUpload = Inl kPackageMalformed" "mState (fst (snd firstUpload)) = kIdle"
  "fst secondUpload = Inr ()" "mStagedBinaryName (fst (snd secondUpload)) = ''app''"
  "pmStorageRoot (fst (snd secondUpload)) = ''/u''"
  "snd (snd secondUpload) ''/m'' = Some []" "snd (snd secondUpload) ''/u/staging/bin/app'' = Some [7]"
  "snd (snd secondUpload) ''/u/staging/manifest/process_entry.xml'' = Some [8]"
  by (simp_all add: sample_defs)

end
