(* ===== verification/SdNetwork.thy ===== *)
theory SdNetwork
  imports SdMessage Rpc PubSub
begin

text \<open>
  \<open>ara/com/helper/network_layer.h\<close> and \<open>ara/com/someip/sd/sd_network_layer.cpp\<close>: the layer that carries
  service-discovery messages in datagrams of 256 bytes, and \<open>ara/com/someip/pubsub/someip_pubsub_client.cpp\<close>
  on top of it. The socket belongs to a library outside the repository: what it sends is the result of the
  send callback, what it received is an argument of the receive callback. The buffers of the layer are not
  initialised: their former contents are an argument too.
\<close>

section \<open>The network layer\<close>

text \<open>
  The receivers are kept in the order of the addresses of their objects. A receiver works on a state
  \<open>'s\<close> that stands for all of them; it may throw.
\<close>

type_synonym 's receiver = "SomeIpSdMessage \<Rightarrow> 's \<Rightarrow> unit res \<times> 's"

record 's SdNetworkLayer =
  snMulticastGroup :: string
  snPort :: u16
  mUnicastPeers :: "string list"
  snSendingQueue :: "bytes ConcurrentQueue"
  mReceiverCallbacks :: "(nat \<times> 's receiver) list"

definition cSdBufferSize :: nat where "cSdBufferSize = 256"

text \<open>\<open>socketSetup\<close>: whether the socket could be set up and added to the poller, as receiver and sender.\<close>

definition newSdNetworkLayer :: "bool \<Rightarrow> string \<Rightarrow> u16 \<Rightarrow> string list \<Rightarrow> 's SdNetworkLayer res" where
  "newSdNetworkLayer socketSetup multicastGroup port unicastPeers =
     (if \<not> socketSetup then Inl Runtime_error
      else Inr \<lparr> snMulticastGroup = multicastGroup, snPort = port, mUnicastPeers = unicastPeers,
                 snSendingQueue = newQueue, mReceiverCallbacks = [] \<rparr>)"

definition SetReceiver :: "nat \<Rightarrow> 's receiver \<Rightarrow> 's SdNetworkLayer \<Rightarrow> 's SdNetworkLayer" where
  "SetReceiver object receiver n =
     n\<lparr> mReceiverCallbacks := insertSorted object receiver (mReceiverCallbacks n) \<rparr>"

text \<open>Every receiver gets a message of its own, parsed anew.\<close>

fun FireReceiverCallbacks :: "(nat \<times> 's receiver) list \<Rightarrow> bytes \<Rightarrow> 's \<Rightarrow> unit res \<times> 's" where
  "FireReceiverCallbacks [] payload st = (Inr (), st)"
| "FireReceiverCallbacks ((object, callback) # rs) payload st =
     (case Sd_Deserialize payload of
        Inl e \<Rightarrow> (Inl e, st)
      | Inr message \<Rightarrow>
          (case callback message st of
             (Inl e, st) \<Rightarrow> (Inl e, st)
           | (Inr _, st) \<Rightarrow> FireReceiverCallbacks rs payload st))"

definition SdNet_Send :: "SomeIpSdMessage \<Rightarrow> 's SdNetworkLayer \<Rightarrow> 's SdNetworkLayer" where
  "SdNet_Send message n = n\<lparr> snSendingQueue := snd (TryEnqueue (snSendingQueue n) (Sd_Payload message)) \<rparr>"

text \<open>The buffer after the copy; a longer payload is copied beyond it.\<close>

definition fillBuffer :: "bytes \<Rightarrow> bytes \<Rightarrow> bytes res" where
  "fillBuffer former payload =
     (if length payload \<le> cSdBufferSize then Inr (payload @ drop (length payload) former) else Inl Undefined)"

definition destinations :: "'s SdNetworkLayer \<Rightarrow> string list" where
  "destinations n = (if mUnicastPeers n = [] then [snMulticastGroup n] else mUnicastPeers n)"

text \<open>Sent datagrams with their destinations. While another thread holds the mutex the loop spins.\<close>

partial_function (option) SdNet_onSend ::
    "bytes \<Rightarrow> 's SdNetworkLayer \<Rightarrow> (bytes \<times> string) list \<Rightarrow> ((bytes \<times> string) list \<times> 's SdNetworkLayer) res option" where
  "SdNet_onSend former n sent =
     (if Empty (snSendingQueue n) then Some (Inr (sent, n))
      else (case TryDequeue (snSendingQueue n) of
              Inl e \<Rightarrow> Some (Inl e)
            | Inr (None, q) \<Rightarrow> SdNet_onSend former (n\<lparr> snSendingQueue := q \<rparr>) sent
            | Inr (Some payload, q) \<Rightarrow>
                (case fillBuffer former payload of
                   Inl e \<Rightarrow> Some (Inl e)
                 | Inr buffer \<Rightarrow>
                     SdNet_onSend former (n\<lparr> snSendingQueue := q \<rparr>)
                       (sent @ map (\<lambda>d. (buffer, d)) (destinations n)))))"

text \<open>
  The socket fills at most the 256 bytes of the buffer. The service identifier is read from the buffer
  even if fewer than two bytes were received.
\<close>

definition SdNet_onReceive ::
    "bytes \<Rightarrow> bytes \<Rightarrow> u16 \<Rightarrow> 's SdNetworkLayer \<Rightarrow> 's \<Rightarrow> unit res \<times> 's" where
  "SdNet_onReceive former received port n st =
     (let payload = take cSdBufferSize received;
          buffer = payload @ drop (length payload) former
      in if payload \<noteq> [] \<and> port = snPort n
         then (if join16 (buffer ! 0) (buffer ! 1) \<noteq> 0xffff then (Inr (), st)
               else FireReceiverCallbacks (mReceiverCallbacks n) payload st)
         else (Inr (), st))"

section \<open>Datagrams and messages\<close>

text \<open>
  What carries a message from one agent to the others: the sender's buffer, and what a receiver on the
  same port parses from it.
\<close>

definition sdDelivery :: "bytes \<Rightarrow> SomeIpSdMessage \<Rightarrow> SomeIpSdMessage res" where
  "sdDelivery former m = bindR (fillBuffer former (Sd_Payload m)) Sd_Deserialize"

definition fitsDatagram :: "SomeIpSdMessage \<Rightarrow> bool" where
  "fitsDatagram m \<longleftrightarrow> length (Sd_Payload m) \<le> cSdBufferSize"

text \<open>
  What the agents rely on: a transport delivers well-formed messages that fit as they are.
\<close>

locale sd_transport =
  fixes transport :: "SomeIpSdMessage \<Rightarrow> SomeIpSdMessage res"
    and fits :: "SomeIpSdMessage \<Rightarrow> bool"
  assumes delivers: "\<lbrakk> wfSd m; fits m \<rbrakk> \<Longrightarrow> transport m = Inr m"
begin

lemma delivers_all: "list_all (\<lambda>m. wfSd m \<and> fits m) ms \<Longrightarrow> map transport ms = map Inr ms"
  by (induction ms) (simp_all add: delivers)

end

interpretation udp: sd_transport "sdDelivery former" fitsDatagram for former
  by unfold_locales (simp add: sdDelivery_def fitsDatagram_def fillBuffer_def Sd_Deserialize_Payload)

text \<open>A message that does not fit is copied beyond the send buffer.\<close>

lemma sdDelivery_overrun: "\<not> fitsDatagram m \<Longrightarrow> sdDelivery former m = Inl Undefined"
  by (simp add: sdDelivery_def fitsDatagram_def fillBuffer_def)

lemma SdNet_onSend_all:
  assumes "queueInv (snSendingQueue n)" "\<not> mLocked (snSendingQueue n)"
    "list_all (\<lambda>p. length p \<le> cSdBufferSize) (mQueue (snSendingQueue n))"
  shows "\<exists>q. SdNet_onSend former n sent =
      Some (Inr (sent @ concat (map (\<lambda>p. map (\<lambda>d. (p @ drop (length p) former, d)) (destinations n))
        (mQueue (snSendingQueue n))), n\<lparr> snSendingQueue := q \<rparr>)) \<and> mQueue q = []"
  using assms
proof (induction "mQueue (snSendingQueue n)" arbitrary: n sent)
  case Nil
  then show ?case
    using cq.isEmpty_items [of "snSendingQueue n"]
    by (intro exI [of _ "snSendingQueue n"]) (subst SdNet_onSend.simps, simp)
next
  case (Cons x xs)
  from cq.deq_head [OF Cons.prems(1,2) Cons.hyps(2) [symmetric]] obtain q' where
    d: "TryDequeue (snSendingQueue n) = Inr (Some x, q')" "queueInv q'" "\<not> mLocked q'" "mQueue q' = xs" by blast
  have ne: "\<not> Empty (snSendingQueue n)" using cq.isEmpty_items [OF Cons.prems(1)] Cons.hyps(2) by auto
  have x: "length x \<le> cSdBufferSize" "list_all (\<lambda>p. length p \<le> cSdBufferSize) xs"
    using Cons.prems(3) by (simp_all flip: Cons.hyps(2))
  let ?n = "n\<lparr> snSendingQueue := q' \<rparr>"
  have dn: "destinations ?n = destinations n" by (simp add: destinations_def)
  from Cons.hyps(1) [of ?n "sent @ map (\<lambda>d. (x @ drop (length x) former, d)) (destinations n)"] d x
  obtain q where "SdNet_onSend former ?n (sent @ map (\<lambda>d. (x @ drop (length x) former, d)) (destinations n)) =
      Some (Inr ((sent @ map (\<lambda>d. (x @ drop (length x) former, d)) (destinations n)) @
        concat (map (\<lambda>p. map (\<lambda>d. (p @ drop (length p) former, d)) (destinations n)) xs),
        ?n\<lparr> snSendingQueue := q \<rparr>)) \<and> mQueue q = []"
    by (auto simp: dn)
  then show ?case
    using ne d x
    by (intro exI [of _ q], subst SdNet_onSend.simps) (simp add: fillBuffer_def flip: Cons.hyps(2))
qed

lemma SdNet_onReceive_full:
  assumes "length d = cSdBufferSize" "join16 (d ! 0) (d ! 1) = 0xffff" "port = snPort n"
  shows "SdNet_onReceive former d port n st = FireReceiverCallbacks (mReceiverCallbacks n) d st"
  using assms by (auto simp: SdNet_onReceive_def cSdBufferSize_def nth_append Let_def)

lemma Sd_Payload_service: "\<exists>rest. Sd_Payload m = be32 (mMessageId m) @ rest"
  unfolding Sd_Payload_bytes SomeIpMessage_Payload_bytes by auto

text \<open>
  Between two layers on the same port: what one sends, with the unused rest of its buffer, reaches every
  receiver of the other as the same message.
\<close>

lemma SdNet_onReceive_datagram:
  assumes "wfSd m" "mMessageId m = 0xffff8100" "fitsDatagram m" "length former = cSdBufferSize" "port = snPort n"
  shows "SdNet_onReceive former' (Sd_Payload m @ drop (length (Sd_Payload m)) former) port n st =
    FireReceiverCallbacks (mReceiverCallbacks n) (Sd_Payload m @ drop (length (Sd_Payload m)) former) st"
proof -
  let ?d = "Sd_Payload m @ drop (length (Sd_Payload m)) former"
  have l: "length ?d = cSdBufferSize" using assms(3,4) by (simp add: fitsDatagram_def)
  obtain rest where r: "Sd_Payload m = be32 (mMessageId m) @ rest" using Sd_Payload_service by blast
  have "?d ! 0 = 0xff" "?d ! 1 = 0xff" by (simp_all add: r be32_def assms(2))
  then have "join16 (?d ! 0) (?d ! 1) = 0xffff" by (simp add: join16_def)
  then show ?thesis by (rule SdNet_onReceive_full [OF l _ assms(5)])
qed

section \<open>The subscriber\<close>

record PubSubClient =
  mMessageBuffer :: "SomeIpSdMessage ConcurrentQueue"
  pcCounter :: u8
  mValidNotify :: bool

definition newPubSubClient :: "u8 \<Rightarrow> PubSubClient" where
  "newPubSubClient counter = \<lparr> mMessageBuffer = newQueue, pcCounter = counter, mValidNotify = True \<rparr>"

text \<open>
  The message is moved into the buffer while its entries are visited: the entries stay where they are,
  but a second acknowledgement finds the message without entries. The result counts the notifications.
\<close>

fun enqueueAcknowledgements ::
    "SomeIpSdMessage \<Rightarrow> Entry list \<Rightarrow> SomeIpSdMessage ConcurrentQueue \<Rightarrow> nat \<times> SomeIpSdMessage ConcurrentQueue" where
  "enqueueAcknowledgements message [] q = (0, q)"
| "enqueueAcknowledgements message (e # es) q =
     (if eType (base e) = Acknowledging
      then (case TryEnqueue q message of
              (True, q) \<Rightarrow>
                (case enqueueAcknowledgements (message\<lparr> mEntries := [] \<rparr>) es q of (n, q) \<Rightarrow> (n + 1, q))
            | (False, q) \<Rightarrow> enqueueAcknowledgements message es q)
      else enqueueAcknowledgements message es q)"

definition PubSubClient_onMessageReceived :: "SomeIpSdMessage \<Rightarrow> PubSubClient \<Rightarrow> nat \<times> PubSubClient" where
  "PubSubClient_onMessageReceived message c =
     (case enqueueAcknowledgements message (mEntries message) (mMessageBuffer c) of
        (notifications, q) \<Rightarrow> (notifications, c\<lparr> mMessageBuffer := q \<rparr>))"

definition Subscribe :: "u16 \<Rightarrow> u16 \<Rightarrow> u8 \<Rightarrow> u16 \<Rightarrow> PubSubClient \<Rightarrow> SomeIpSdMessage res" where
  "Subscribe serviceId instanceId majorVersion eventgroupId c =
     bindR newSdMessage (\<lambda>message.
     bindR (CreateSubscribeEventEntry serviceId instanceId majorVersion (pcCounter c) eventgroupId)
       (\<lambda>e. Inr (AddEntry message e)))"

definition Unsubscribe :: "u16 \<Rightarrow> u16 \<Rightarrow> u8 \<Rightarrow> u16 \<Rightarrow> PubSubClient \<Rightarrow> SomeIpSdMessage res" where
  "Unsubscribe serviceId instanceId majorVersion eventgroupId c =
     bindR newSdMessage (\<lambda>message.
     bindR (CreateUnsubscribeEventEntry serviceId instanceId majorVersion (pcCounter c) eventgroupId)
       (\<lambda>e. Inr (AddEntry message e)))"

text \<open>
  \<open>arrived\<close>: the messages received while waiting for the condition variable; \<open>timeout\<close>: the wait ended without
  a notification. A spurious wake-up is a wait without either.
\<close>

definition TryGetProcessedSubscription ::
    "SomeIpSdMessage list \<Rightarrow> bool \<Rightarrow> PubSubClient \<Rightarrow> (SomeIpSdMessage option \<times> PubSubClient) res" where
  "TryGetProcessedSubscription arrived timeout c =
     (let empty = Empty (mMessageBuffer c);
          c' = (if empty then fold (\<lambda>m c. snd (PubSubClient_onMessageReceived m c)) arrived c else c);
          proceeds = (if empty then mValidNotify c' \<and> \<not> timeout else True)
      in if proceeds
         then bindR (TryDequeue (mMessageBuffer c'))
                (\<lambda>(message, q). Inr (message, c'\<lparr> mMessageBuffer := q \<rparr>))
         else Inr (None, c'))"

text \<open>A wake-up without a notification reads the front of an empty queue.\<close>

lemma spurious_wakeup_undefined:
  "TryGetProcessedSubscription [] False (newPubSubClient counter) = Inl Undefined"
  by (simp add: TryGetProcessedSubscription_def newPubSubClient_def newQueue_def Empty_def TryDequeue_def)

text \<open>Two acknowledgements in one message: the second element of the buffer has no entries.\<close>

lemma second_acknowledgement_lost:
  assumes "eType (base e1) = Acknowledging" "eType (base e2) = Acknowledging" "mEntries m = [e1, e2]"
    "mMessageBuffer c = newQueue"
  shows "mQueue (mMessageBuffer (snd (PubSubClient_onMessageReceived m c))) = [m, m\<lparr> mEntries := [] \<rparr>]"
  using assms by (simp add: PubSubClient_onMessageReceived_def TryEnqueue_def newQueue_def)

end
