(* ===== verification/Discovery.thy ===== *)
theory Discovery
  imports SdServer SdClient SdNetwork
begin

text \<open>
  The agents of \<open>SdServer\<close>, \<open>SdClient\<close> and the publisher and subscriber of \<open>PubSub\<close> and \<open>SdNetwork\<close> over the network
  layer of \<open>SdNetwork\<close>: a service is found, and an event group is subscribed to. The messages of the agents are
  shown well-formed and short enough for a datagram; what follows from that holds for every transport
  (locale \<open>sd_transport\<close>) and is used for the network layer.
\<close>

section \<open>The messages of the agents\<close>

lemmas wf_message_defs = AddEntry_def wfSd_def wfSdEntry_def wfHeader_def wfBase_def mkEntryBase_def optionsOf_def
  mkSomeIpMessage_def SomeIpMessage.defs atMostOne_def hasNo_def entryOptions_def MessageType_cast_def
  ReturnCode_cast_def

lemma find_message:
  assumes "newSdClient anyFlag cid repetitionMax = Inr c"
  shows "wfSd (mFindServiceMessage c)"
    "mEntries (mFindServiceMessage c) = [ServiceEntry (mkEntryBase Finding cid 0xffff 0xffffff 0xff) 0xffffffff]"
  using assms unfolding newSdClient_def newSdMessage_ok
  by (auto simp: CreateFindServiceEntry_def wf_message_defs)

lemma offer_message:
  assumes "newSdServer sid iid maj minor ip port dmin dmax delay cycle repetitionMax = Inr s"
  shows "wfSd (mOfferServiceMessage s)"
    "mEntries (mOfferServiceMessage s) = [ServiceEntry ((mkEntryBase Offering sid iid 0xffffff maj)
       \<lparr> mFirstOptions := [Ipv4EndpointOption IPv4Endpoint False ip Tcp port] \<rparr>) minor]"
  using assms unfolding newSdServer_def newSdMessage_ok
  by (auto simp: bindR_eq_Inr CreateOfferServiceEntry_def AddFirstOption_def CreateUnitcastEndpoint_def
      wf_message_defs split: if_splits)

lemma new_server_fields:
  assumes "newSdServer sid iid maj minor ip port dmin dmax delay cycle repetitionMax = Inr s"
  shows "sdServiceId s = sid" "sdInstanceId s = iid" "sdState s = NotReady" "sdThread s = NoThread"
    "sdStopped s = (\<lambda>_. False)" "sdBuffer s = []" "sdSent s = []"
  using assms by (auto simp: newSdServer_def bindR_eq_Inr)

lemma first_answer:
  assumes "sdState s = InitialWaitPhase" "sdThread s = SleepInitial" "sdStopped s = (\<lambda>_. False)"
  shows "sdSent (wakeUp s) = sdSent (sendOffer s)"
proof -
  have k: "sdState ((sendOfferOnce ^^ n) s) = sdState s" "sdStopped ((sendOfferOnce ^^ n) s) = sdStopped s" for n
    by (induction n) (simp_all add: sendOfferOnce_def)
  then show ?thesis
    using assms by (simp add: wakeUp_def leaveInitial_def leave_def activateRepetition_def leaveRepetition_def
        activateMain_def Let_def sendOffer_def)
qed

lemma server_answers:
  assumes "newSdServer sid iid maj minor ip port dmin dmax delay cycle repetitionMax = Inr s" "Sd_Start s = Inr s1"
  shows "sdSent (wakeUp (receiveFind s1 m)) =
    (if matchOfferingService s (mEntries m) then [mOfferServiceMessage s] else [])"
proof -
  note f = new_server_fields [OF assms(1)]
  have s1: "s1 = s\<lparr> sdState := InitialWaitPhase, sdThread := SleepInitial \<rparr>"
    using assms(2) f by (simp add: Sd_Start_def leave_def activateInitial_def Let_def)
  have "matchOfferingService s1 es = matchOfferingService s es" for es
    unfolding s1 by (rule matchOffering_cong) simp_all
  then show ?thesis
    using f by (subst first_answer) (auto simp: receiveFind_def s1 sendOffer_def sendOfferOnce_def)
qed

lemma proceed_keeps:
  "mEndpointLocked (proceed t c) = mEndpointLocked c" "scServiceId (proceed t c) = scServiceId c"
  by (auto simp: proceed_def enter_def sendFind_def Let_def split: SdClientState.splits option.splits prod.splits)

lemma client_takes_offer:
  assumes "newSdClient anyFlag sid repetitionMax = Inr c" "Client_Start False c = (Inr (), c1)"
    and "mEntries offer = [ServiceEntry ((mkEntryBase Offering sid iid 0xffffff maj)
       \<lparr> mFirstOptions := [Ipv4EndpointOption IPv4Endpoint d ip Tcp port] \<rparr>) minor]"
  shows "fst (receiveSdMessage offer (proceed t1 c1)) = Inr () \<and>
    scState (proceed t2 (snd (receiveSdMessage offer (proceed t1 c1)))) = ServiceReady \<and>
    TryGetOfferedEndpoint (proceed t2 (snd (receiveSdMessage offer (proceed t1 c1)))) =
      Inr (Some (Ipv4_ToString ip, port))"
proof -
  let ?c2 = "proceed t1 c1"
  have "\<not> mEndpointLocked c1" "scServiceId c1 = sid"
    using assms(1,2) by (auto simp: newSdClient_def bindR_eq_Inr Client_Start_def enter_def Let_def)
  then have k: "\<not> mEndpointLocked ?c2" "scServiceId ?c2 = sid" by (simp_all add: proceed_keeps)
  have u: "unanswered 1 ?c2"
    using unanswered_proceed [OF started_unanswered(1) [OF assms(1,2)]] by simp
  then have v: "mValidState ?c2" "scThread ?c2" "scTimer ?c2 =
      \<lparr> mSignalFlag = True, mRequested = True, mDisposing = False, mTtl = 0 \<rparr>"
    "scState ?c2 = ClientRepetition 0 \<or> scState ?c2 = Stopped \<and> scWaiting ?c2"
    by (auto simp: unanswered_def split: if_splits)
  have "matchRequestedService sid (mEntries offer) = Some 0xffffff"
    "tryExtractOfferedEndpoint (mEntries offer) = Inr (Some (Ipv4_ToString ip, port))"
    unfolding assms(3) by (simp_all add: mkEntryBase_def)
  then have "receiveSdMessage offer ?c2 = (Inr (), ?c2\<lparr> scTimer := SetOffered 0xffffff (scTimer ?c2),
      mOfferedEndpoint := Some (Ipv4_ToString ip, port) \<rparr>)"
    using k v(1) by (simp add: receiveSdMessage_def Let_def)
  moreover have "scState (proceed t2 (?c2\<lparr> scTimer := SetOffered 0xffffff (scTimer ?c2), mOfferedEndpoint := e \<rparr>)) =
      ServiceReady" for e
    using v(4)
  proof
    assume "scState ?c2 = ClientRepetition 0"
    then show ?thesis using v(2,3) by (simp add: proceed_def GetOffered_def SetOffered_def enter_def Let_def)
  next
    assume "scState ?c2 = Stopped \<and> scWaiting ?c2"
    then show ?thesis
      using v(2,3) by (simp add: proceed_def SetOffered_def WaitForSignal_def enter_def Let_def)
  qed
  moreover have "mOfferedEndpoint (proceed t c) = mOfferedEndpoint c" for t c
    by (auto simp: proceed_def enter_def sendFind_def Let_def split: SdClientState.splits option.splits prod.splits)
  ultimately show ?thesis using k by (simp add: TryGetOfferedEndpoint_def proceed_keeps)
qed

lemma first_find:
  assumes "newSdClient anyFlag cid repetitionMax = Inr c" "Client_Start False c = (Inr (), c1)"
  shows "scSent (proceed t c1) = [mFindServiceMessage c]"
  using assms
  by (auto simp: newSdClient_def newSdMessage_ok CreateFindServiceEntry_def Client_Start_def SetRequested_def Let_def
      enter_def proceed_def GetOffered_def sendFind_def)

section \<open>They fit into a datagram\<close>

lemma length_Sd_Payload:
  "length (Sd_Payload m) =
     28 + 16 * length (mEntries m) + length (optionBytes (concat (map optionsOf (mEntries m))))"
  unfolding Sd_Payload_bytes SomeIpMessage_Payload_bytes by (simp add: be32_def be16_def)

lemma one_entry_fits:
  assumes "mEntries m = [e]" "optionsOf e = [] \<or> (\<exists>opt. optionsOf e = [opt] \<and> Option_Length opt \<le> 9)"
  shows "fitsDatagram m"
  using assms
  by (auto simp: fitsDatagram_def cSdBufferSize_def length_Sd_Payload length_Option_Payload word_le_nat_alt)

lemma find_fits: "newSdClient anyFlag cid repetitionMax = Inr c \<Longrightarrow> fitsDatagram (mFindServiceMessage c)"
  by (rule one_entry_fits [OF find_message(2)]) (simp_all add: optionsOf_def mkEntryBase_def)

lemma offer_fits:
  "newSdServer sid iid maj minor ip port dmin dmax delay cycle repetitionMax = Inr s \<Longrightarrow>
    fitsDatagram (mOfferServiceMessage s)"
  by (rule one_entry_fits [OF offer_message(2)]) (simp_all add: optionsOf_def mkEntryBase_def)

section \<open>A service is found\<close>

text \<open>What holds over every transport.\<close>

context sd_transport
begin

lemma discovery:
  assumes "newSdServer sid iid maj minor ip port dmin dmax delay cycle repetitionMax = Inr s" "Sd_Start s = Inr s1"
    and "newSdClient anyFlag cid repetitionMax' = Inr c" "Client_Start False c = (Inr (), c1)"
    and "fits (mFindServiceMessage c)" "fits (mOfferServiceMessage s)"
  shows "\<exists>found. map transport (scSent (proceed t1 c1)) = [Inr found] \<and>
    (if cid = sid
     then \<exists>offer. map transport (sdSent (wakeUp (receiveFind s1 found))) = [Inr offer] \<and>
       fst (receiveSdMessage offer (proceed t1 c1)) = Inr () \<and>
       scState (proceed t2 (snd (receiveSdMessage offer (proceed t1 c1)))) = ServiceReady \<and>
       TryGetOfferedEndpoint (proceed t2 (snd (receiveSdMessage offer (proceed t1 c1)))) =
         Inr (Some (Ipv4_ToString ip, port))
     else sdSent (wakeUp (receiveFind s1 found)) = [])"
proof -
  note find = find_message [OF assms(3)] and offer = offer_message [OF assms(1)]
  have "matchOfferingService s (mEntries (mFindServiceMessage c)) \<longleftrightarrow> cid = sid"
    using new_server_fields(1,2) [OF assms(1)] by (auto simp: find(2) mkEntryBase_def)
  then have "sdSent (wakeUp (receiveFind s1 (mFindServiceMessage c))) =
      (if cid = sid then [mOfferServiceMessage s] else [])"
    using server_answers [OF assms(1,2)] by simp
  moreover have "map transport (scSent (proceed t1 c1)) = [Inr (mFindServiceMessage c)]"
    using first_find [OF assms(3,4)] delivers [OF find(1) assms(5)] by simp
  moreover note delivers [OF offer(1) assms(6)]
  ultimately show ?thesis
    using client_takes_offer [OF _ assms(4) offer(2)] assms(3) by (cases "cid = sid") simp_all
qed

end

text \<open>C15: a client that looks for a service finds a server of it over the network: the one message it sends
  arrives as it was sent; a started server with that identifier answers it, and no other server does; and with the
  answer, which arrives as it was sent too, the client is in the state ServiceReady and has the address and the port
  of the server.\<close>

theorem discovery_end_to_end:
  assumes "newSdServer sid iid maj minor ip port dmin dmax delay cycle repetitionMax = Inr s" "Sd_Start s = Inr s1"
    and "newSdClient anyFlag cid repetitionMax' = Inr c" "Client_Start False c = (Inr (), c1)"
  shows "\<exists>found. map (sdDelivery former) (scSent (proceed t1 c1)) = [Inr found] \<and>
    (if cid = sid
     then \<exists>offer. map (sdDelivery former) (sdSent (wakeUp (receiveFind s1 found))) = [Inr offer] \<and>
       fst (receiveSdMessage offer (proceed t1 c1)) = Inr () \<and>
       scState (proceed t2 (snd (receiveSdMessage offer (proceed t1 c1)))) = ServiceReady \<and>
       TryGetOfferedEndpoint (proceed t2 (snd (receiveSdMessage offer (proceed t1 c1)))) =
         Inr (Some (Ipv4_ToString ip, port))
     else sdSent (wakeUp (receiveFind s1 found)) = [])"
  by (rule udp.discovery [OF assms find_fits [OF assms(3)] offer_fits [OF assms(1)]])

theorem discovery_end_to_end_witness:
  "\<exists>s s1 c c1 found offer. newSdServer 7 1 1 0 (mkIpv4 10 0 0 1) 80 0 10 5 20 1 = Inr s \<and> Sd_Start s = Inr s1 \<and>
     newSdClient False 7 2 = Inr c \<and> Client_Start False c = (Inr (), c1) \<and>
     map (sdDelivery []) (scSent (proceed True c1)) = [Inr found] \<and>
     map (sdDelivery []) (sdSent (wakeUp (receiveFind s1 found))) = [Inr offer] \<and>
     TryGetOfferedEndpoint (proceed True (snd (receiveSdMessage offer (proceed True c1)))) =
       Inr (Some (Ipv4_ToString (mkIpv4 10 0 0 1), 80))"
proof -
  obtain s where s: "newSdServer 7 1 1 0 (mkIpv4 10 0 0 1) 80 0 10 5 20 1 = Inr s"
    by (simp add: newSdServer_def newSdMessage_ok entry_factories AddFirstOption_def CreateUnitcastEndpoint_def
        Entry_ValidateOption_def mkEntryBase_def)
  obtain s1 where s1: "Sd_Start s = Inr s1"
    using new_server_fields [OF s] by (simp add: Sd_Start_def)
  obtain c where c: "newSdClient False 7 2 = Inr c"
    by (simp add: newSdClient_def newSdMessage_ok CreateFindServiceEntry_def)
  obtain c1 where c1: "Client_Start False c = (Inr (), c1)" by (simp add: Client_Start_def Let_def)
  show ?thesis
    using discovery_end_to_end [OF s s1 c c1, of "[]" True True] s s1 c c1 by auto
qed

section \<open>An event group is subscribed to\<close>

lemma subscribe_message:
  assumes "pcCounter c \<le> 0x0f"
  obtains request where "Subscribe sid iid maj eg c = Inr request" "wfSd request" "fitsDatagram request"
    "mEntries request = [EventgroupEntry (mkEntryBase Subscribing sid iid 0xffffff maj) (pcCounter c) eg]"
proof -
  have "\<not> 0x0f < pcCounter c" using assms by simp
  then obtain request where r: "Subscribe sid iid maj eg c = Inr request" "wfSd request"
    "mEntries request = [EventgroupEntry (mkEntryBase Subscribing sid iid 0xffffff maj) (pcCounter c) eg]"
    using assms by (auto simp: Subscribe_def newSdMessage_ok entry_factories wf_message_defs)
  have "fitsDatagram request" by (rule one_entry_fits [OF r(3)]) (simp add: optionsOf_def mkEntryBase_def)
  with that [OF r(1,2) _ r(3)] show thesis .
qed

lemma acknowledgement_message:
  assumes "acknowledgement srv state (mkEntryBase Subscribing sid iid 0xffffff maj) counter eg = Inr ack"
  shows "wfSd ack" "fitsDatagram ack"
    "\<exists>b. mEntries ack = [EventgroupEntry b counter eg] \<and> eType b = Acknowledging"
proof -
  show e: "\<exists>b. mEntries ack = [EventgroupEntry b counter eg] \<and> eType b = Acknowledging" and "wfSd ack"
    using assms unfolding acknowledgement_def newSdMessage_ok
    by (auto simp: entry_factories bindR_eq_Inr CreateMulticastEndpoint_def AddFirstOption_def wf_message_defs
        isAcknowledge_def not_less split: if_splits)
  have "\<exists>e. mEntries ack = [e] \<and> (optionsOf e = [] \<or> (\<exists>opt. optionsOf e = [opt] \<and> Option_Length opt \<le> 9))"
    using assms unfolding acknowledgement_def newSdMessage_ok
    by (auto simp: entry_factories bindR_eq_Inr CreateMulticastEndpoint_def AddFirstOption_def AddEntry_def
        SomeIpMessage.defs optionsOf_def mkEntryBase_def split: if_splits)
  then show "fitsDatagram ack" using one_entry_fits by blast
qed

lemma client_takes_acknowledgement:
  assumes "mEntries ack = [EventgroupEntry b counter eg]" "eType b = Acknowledging"
    "queueInv (mMessageBuffer c)" "\<not> mLocked (mMessageBuffer c)" "mQueue (mMessageBuffer c) = []" "mValidNotify c"
  shows "\<exists>c'. TryGetProcessedSubscription [ack] False c = Inr (Some ack, c') \<and> mQueue (mMessageBuffer c') = []"
proof -
  have em: "Empty (mMessageBuffer c)" using cq.isEmpty_items [OF assms(3)] assms(5) by simp
  obtain q where q: "TryEnqueue (mMessageBuffer c) ack = (True, q)" "queueInv q" "\<not> mLocked q" "mQueue q = [ack]"
    using assms(3-5) by (auto simp: TryEnqueue_def queueInv_def)
  obtain q' where "TryDequeue q = Inr (Some ack, q')" "mQueue q' = []"
    using cq.deq_head [OF q(2-4)] by blast
  then show ?thesis
    using em q assms(1,2,6)
    by (simp add: TryGetProcessedSubscription_def PubSubClient_onMessageReceived_def)
qed

text \<open>C34: a subscription goes to the publisher over the network and its acknowledgement comes back.\<close>

theorem subscription_end_to_end:
  assumes "pcCounter c \<le> 0x0f" "queueInv (mMessageBuffer c)" "\<not> mLocked (mMessageBuffer c)"
    "mQueue (mMessageBuffer c) = []" "mValidNotify c"
    and "sid = pServiceId srv" "iid \<in> {0xffff, pInstanceId srv}" "maj \<in> {0xff, pMajorVersion srv}"
    "eg = pEventgroupId srv"
    and "224 \<le> octet0 (pEndpointIp srv)" "octet0 (pEndpointIp srv) \<le> 239" "snd (pMachine srv) < 2 ^ 31 - 1"
  shows "\<exists>request arrived ack answer b c'. Subscribe sid iid maj eg c = Inr request \<and>
    sdDelivery former request = Inr arrived \<and>
    snd (Pub_onMessageReceived srv arrived) = Inr [ack] \<and> sdDelivery former' ack = Inr answer \<and>
    TryGetProcessedSubscription [answer] False c = Inr (Some answer, c') \<and> mQueue (mMessageBuffer c') = [] \<and>
    mEntries answer = [EventgroupEntry b (pcCounter c) eg] \<and> eType b = Acknowledging \<and>
    (if Pub_GetState srv = ServiceDown
     then mTTL b = 0 \<and> mFirstOptions b = []
     else 0 < mTTL b \<and> Pub_GetState (fst (Pub_onMessageReceived srv arrived)) = Subscribed \<and>
       mFirstOptions b = [Ipv4EndpointOption IPv4Multicast True (pEndpointIp srv) Udp (pEndpointPort srv)])"
proof -
  obtain request where r: "Subscribe sid iid maj eg c = Inr request" "wfSd request" "fitsDatagram request"
    "mEntries request = [EventgroupEntry (mkEntryBase Subscribing sid iid 0xffffff maj) (pcCounter c) eg]"
    using subscribe_message [OF assms(1)] .
  have m: "matchesSubscription srv (mkEntryBase Subscribing sid iid 0xffffff maj) eg"
    using assms(6-9) by (auto simp: matchesSubscription_def mkEntryBase_def)
  have t: "0 < mTTL (mkEntryBase Subscribing sid iid 0xffffff maj)"
    "eType (mkEntryBase Subscribing sid iid 0xffffff maj) = Subscribing" by (simp_all add: mkEntryBase_def)
  obtain ack b where a: "snd (Pub_onMessageReceived srv request) = Inr [ack]"
    "mEntries ack = [EventgroupEntry b (pcCounter c) eg]" "eType b = Acknowledging"
    "if Pub_GetState srv = ServiceDown then mTTL b = 0 \<and> mFirstOptions b = []
     else 0 < mTTL b \<and> Pub_GetState (fst (Pub_onMessageReceived srv request)) = Subscribed \<and>
       mFirstOptions b = [Ipv4EndpointOption IPv4Multicast True (pEndpointIp srv) Udp (pEndpointPort srv)]"
    using subscription_acknowledged [OF r(4) t(2,1) m assms(1,10-12)] t(1) by (auto split: if_splits)
  then have "\<exists>srv'. acknowledgement srv' (Pub_GetState srv) (mkEntryBase Subscribing sid iid 0xffffff maj)
      (pcCounter c) eg = Inr ack"
    using r(4) m t by (auto simp: Pub_onMessageReceived_def processEntry_def bindR_eq_Inr Let_def
        split: sum.splits if_splits)
  then have "wfSd ack" "fitsDatagram ack" using acknowledgement_message by blast+
  then show ?thesis
    using r a udp.delivers [OF r(2,3), of former] udp.delivers [of ack former']
      client_takes_acknowledgement [OF a(2,3) assms(2-5)] by auto
qed

theorem subscription_end_to_end_witness:
  "\<exists>answer c'. TryGetProcessedSubscription [answer] False (newPubSubClient 5) = Inr (Some answer, c') \<and>
     (\<exists>b. mEntries answer = [EventgroupEntry b 5 3])"
  using subscription_end_to_end [of "newPubSubClient 5" 7
      "Pub_Start (newPubSubServer 7 1 1 3 (mkIpv4 224 0 0 1) 5555 0)" 1 1 3 "[]" "[]"]
  by (auto simp: newPubSubClient_def newQueue_def queueInv_def newPubSubServer_def mkIpv4_def pub_defs)

end
