(* ===== verification/PackageService.thy ===== *)
theory PackageService
  imports Ucm Rpc
begin

text \<open>
  \<open>src-gen/package_management\<close>: the package manager of \<open>Ucm\<close> as a service. The skeleton puts its operations
  behind the RPC server of \<open>Rpc\<close>, the proxy calls them through an RPC client and waits for the answer. The
  skeleton and the proxy have the same serialisation functions; they are defined once. The constructors
  read addresses from manifests and open sockets; what is modelled of them are the handlers they register.
\<close>

section \<open>Serialisation\<close>

definition cUcmServiceId :: u16 where "cUcmServiceId = 0x00C0"
definition cMethodTransferStart :: u16 where "cMethodTransferStart = 1"
definition cMethodTransferData :: u16 where "cMethodTransferData = 2"
definition cMethodTransferExit :: u16 where "cMethodTransferExit = 3"
definition cMethodProcessSwPackage :: u16 where "cMethodProcessSwPackage = 4"
definition cMethodActivate :: u16 where "cMethodActivate = 5"
definition cMethodGetSwClusterInfo :: u16 where "cMethodGetSwClusterInfo = 6"
definition cMethodGetCurrentStatus :: u16 where "cMethodGetCurrentStatus = 7"
definition cUcmProtocolVersion :: u8 where "cUcmProtocolVersion = 1"
definition cUcmInterfaceVersion :: u8 where "cUcmInterfaceVersion = 1"
definition cVucmClientId :: u16 where "cVucmClientId = 0x0010"
definition cWireOk :: u8 where "cWireOk = 0x00"

definition appendU8 :: "bytes \<Rightarrow> u8 \<Rightarrow> bytes" where
  "appendU8 v val = v @ [val]"

definition appendU16 :: "bytes \<Rightarrow> u16 \<Rightarrow> bytes" where
  "appendU16 v val = v @ [ucast (drop_bit 8 val)] @ [ucast (val AND 0xff)]"

definition appendU32 :: "bytes \<Rightarrow> u32 \<Rightarrow> bytes" where
  "appendU32 v val =
     v @ [ucast (drop_bit 24 val)] @ [ucast (drop_bit 16 val AND 0xff)] @ [ucast (drop_bit 8 val AND 0xff)]
       @ [ucast (val AND 0xff)]"

definition appendU64 :: "bytes \<Rightarrow> u64 \<Rightarrow> bytes" where
  "appendU64 v val = fold (\<lambda>i v. v @ [ucast (drop_bit (i * 8) val AND 0xff)]) (rev [0..<8]) v"

definition appendString :: "bytes \<Rightarrow> string \<Rightarrow> bytes" where
  "appendString v s = appendU16 v (word_of_nat (length s)) @ stringBytes s"

definition appendBytes :: "bytes \<Rightarrow> bytes \<Rightarrow> bytes" where
  "appendBytes v b = appendU32 v (word_of_nat (length b)) @ b"

text \<open>The loops that collect a number from its bytes, from the highest one down.\<close>

fun extractBytesOf :: "nat \<Rightarrow> bytes \<Rightarrow> nat \<Rightarrow> 'w::len word \<Rightarrow> ('w word \<times> nat) res" where
  "extractBytesOf 0 v offset val = Inr (val, offset)"
| "extractBytesOf (Suc i) v offset val =
     bindR (at v offset) (\<lambda>b. extractBytesOf i v (offset + 1) (val OR push_bit (i * 8) (ucast b)))"

definition extractU32 :: "bytes \<Rightarrow> nat \<Rightarrow> (u32 \<times> nat) res" where
  "extractU32 v offset = extractBytesOf 4 v offset 0"

definition extractU64 :: "bytes \<Rightarrow> nat \<Rightarrow> (u64 \<times> nat) res" where
  "extractU64 v offset = extractBytesOf 8 v offset 0"

text \<open>The characters and the bytes are taken from the storage of the vector without a check.\<close>

definition extractString :: "bytes \<Rightarrow> nat \<Rightarrow> (string \<times> nat) res" where
  "extractString v offset =
     bindR (at v offset) (\<lambda>high.
     bindR (at v (offset + 1)) (\<lambda>low.
       let len = unat (push_bit 8 (ucast high) OR ucast low :: u16); offset = offset + 2
       in if offset + len \<le> length v then Inr (bytesString (take len (drop offset v)), offset + len)
          else Inl Undefined))"

definition extractBytes :: "bytes \<Rightarrow> nat \<Rightarrow> (bytes \<times> nat) res" where
  "extractBytes v offset =
     bindR (extractU32 v offset) (\<lambda>(len, offset).
       if offset + unat len \<le> length v then Inr (take (unat len) (drop offset v), offset + unat len)
       else Inl Undefined)"

section \<open>The skeleton\<close>

fun UcmErrc_value :: "UcmErrc \<Rightarrow> u8" where
  "UcmErrc_value kInvalidTransferId = 1"
| "UcmErrc_value kTransferNotComplete = 2"
| "UcmErrc_value kPackageMalformed = 3"
| "UcmErrc_value kActivationFailed = 4"
| "UcmErrc_value kRollbackFailed = 5"
| "UcmErrc_value kInsufficientSpace = 6"
| "UcmErrc_value kOperationInProgress = 7"

fun UpdateState_value :: "UpdateStateType \<Rightarrow> u8" where
  "UpdateState_value kIdle = 0"
| "UpdateState_value kTransferring = 1"
| "UpdateState_value kProcessing = 2"
| "UpdateState_value kActivating = 3"
| "UpdateState_value kActivated = 4"
| "UpdateState_value kRollingBack = 5"
| "UpdateState_value kRolledBack = 6"

text \<open>What the handlers work on, and what is given from outside while one of them runs.\<close>

record UcmHost =
  hostManager :: PackageManager
  hostFiles :: FileSystem

record ('p, 'd) UcmOutside =
  exitFault :: IoFault
  unpack :: "string \<Rightarrow> FileSystem \<Rightarrow> bool \<times> FileSystem"
  readBinaryName :: "bytes \<Rightarrow> string option"
  activateFaults :: ActivateFaults
  xmlLibrary :: "('p, 'd) XmlLibrary"
  renderJson :: "(string \<times> JsonValue) list \<Rightarrow> bytes"

definition errorResponse :: "UcmErrc \<Rightarrow> bytes" where
  "errorResponse code = [UcmErrc_value code]"

text \<open>\<open>catch (...)\<close> around a handler, which throws before it has called the manager; undefined behaviour is not caught.\<close>

definition catchAll :: "UcmErrc \<Rightarrow> exn \<Rightarrow> 's \<Rightarrow> (bool \<times> bytes) res \<times> 's" where
  "catchAll code e st =
     (if e \<in> {Undefined, Terminated} then (Inl e, st) else (Inr (True, errorResponse code), st))"

definition statusByte :: "UcmErrc + unit \<Rightarrow> u8" where
  "statusByte r = (case r of Inr _ \<Rightarrow> cWireOk | Inl e \<Rightarrow> UcmErrc_value e)"

definition extractInfo :: "bytes \<Rightarrow> nat \<Rightarrow> (PackageInfo \<times> nat) res" where
  "extractInfo v offset =
     bindR (extractString v offset) (\<lambda>(name, offset).
     bindR (extractString v offset) (\<lambda>(version, offset).
     bindR (extractU64 v offset) (\<lambda>(bytecount, offset).
       Inr (\<lparr> piName = name, piVersion = version, piSize = bytecount \<rparr>, offset))))"

definition handleTransferStart :: "UcmHost handler" where
  "handleTransferStart request host =
     (case extractInfo request 0 of
        Inl e \<Rightarrow> catchAll kPackageMalformed e host
      | Inr (info, _) \<Rightarrow>
          (case TransferStart info (hostManager host) of
             (Inr ident, pm) \<Rightarrow>
               (Inr (True, appendU32 (appendU8 [] cWireOk) ident), host\<lparr> hostManager := pm \<rparr>)
           | (Inl e, pm) \<Rightarrow> (Inr (True, appendU8 [] (UcmErrc_value e)), host\<lparr> hostManager := pm \<rparr>)))"

definition handleTransferData :: "UcmHost handler" where
  "handleTransferData request host =
     (case bindR (extractU32 request 0) (\<lambda>(ident, offset).
           bindR (extractBytes request offset) (\<lambda>(block, offset).
           bindR (extractU32 request offset) (\<lambda>(blockCounter, offset). Inr (ident, block)))) of
        Inl e \<Rightarrow> catchAll kPackageMalformed e host
      | Inr (ident, block) \<Rightarrow>
          (case Pm_TransferData ident block (hostManager host) of
             (r, pm) \<Rightarrow> (Inr (True, appendU8 [] (statusByte r)), host\<lparr> hostManager := pm \<rparr>)))"

definition handleTransferExit :: "('p, 'd) UcmOutside \<Rightarrow> UcmHost handler" where
  "handleTransferExit outside request host =
     (case extractU32 request 0 of
        Inl e \<Rightarrow> catchAll kPackageMalformed e host
      | Inr (ident, _) \<Rightarrow>
          (case TransferExit (exitFault outside) ident (hostManager host) (hostFiles host) of
             (r, pm, fs) \<Rightarrow>
               (Inr (True, appendU8 [] (statusByte r)), \<lparr> hostManager = pm, hostFiles = fs \<rparr>)))"

definition handleProcessSwPackage :: "('p, 'd) UcmOutside \<Rightarrow> UcmHost handler" where
  "handleProcessSwPackage outside request host =
     (case extractU32 request 0 of
        Inl e \<Rightarrow> catchAll kPackageMalformed e host
      | Inr (ident, _) \<Rightarrow>
          (case ProcessSwPackage (unpack outside) (readBinaryName outside) ident (hostManager host) (hostFiles host) of
             (r, pm, fs) \<Rightarrow>
               (Inr (True, appendU8 [] (statusByte r)), \<lparr> hostManager = pm, hostFiles = fs \<rparr>)))"

definition handleActivate :: "('p, 'd) UcmOutside \<Rightarrow> UcmHost handler" where
  "handleActivate outside request host =
     (case bindR (extractString request 0) (\<lambda>(installRoot, offset).
           bindR (extractString request offset) (\<lambda>(manifestPath, offset). Inr (installRoot, manifestPath))) of
        Inl e \<Rightarrow> catchAll kActivationFailed e host
      | Inr (installRoot, manifestPath) \<Rightarrow>
          (case Activate (activateFaults outside) (xmlLibrary outside) (renderJson outside) installRoot manifestPath
                  (hostManager host) (hostFiles host) of
             (r, pm, fs) \<Rightarrow>
               (Inr (True, appendU8 [] (statusByte r)), \<lparr> hostManager = pm, hostFiles = fs \<rparr>)))"

definition appendInfo :: "bytes \<Rightarrow> PackageInfo \<Rightarrow> bytes" where
  "appendInfo v info = appendU64 (appendString (appendString v (piName info)) (piVersion info)) (piSize info)"

definition handleGetSwClusterInfo :: "UcmHost handler" where
  "handleGetSwClusterInfo request host =
     (let clusters = GetSwClusterInfo (hostManager host);
          response = appendU32 (appendU8 [] cWireOk) (word_of_nat (length clusters))
      in (Inr (True, fold (\<lambda>c v. appendInfo v c) clusters response), host))"

definition handleGetCurrentStatus :: "UcmHost handler" where
  "handleGetCurrentStatus request host =
     (Inr (True, appendU8 (appendU8 [] cWireOk) (UpdateState_value (mState (hostManager host)))), host)"

definition Skeleton_registerHandlers :: "('p, 'd) UcmOutside \<Rightarrow> UcmHost RpcServer \<Rightarrow> UcmHost RpcServer" where
  "Skeleton_registerHandlers outside srv =
     (let srv = Server_SetHandler srv cUcmServiceId cMethodTransferStart handleTransferStart;
          srv = Server_SetHandler srv cUcmServiceId cMethodTransferData handleTransferData;
          srv = Server_SetHandler srv cUcmServiceId cMethodTransferExit (handleTransferExit outside);
          srv = Server_SetHandler srv cUcmServiceId cMethodProcessSwPackage (handleProcessSwPackage outside);
          srv = Server_SetHandler srv cUcmServiceId cMethodActivate (handleActivate outside);
          srv = Server_SetHandler srv cUcmServiceId cMethodGetSwClusterInfo handleGetSwClusterInfo
      in Server_SetHandler srv cUcmServiceId cMethodGetCurrentStatus handleGetCurrentStatus)"

text \<open>The disconnect handler.\<close>

definition onClientDisconnected :: "UcmHost \<Rightarrow> UcmHost" where
  "onClientDisconnected host =
     (if mState (hostManager host) \<noteq> kIdle \<and> mState (hostManager host) \<noteq> kActivated
      then host\<lparr> hostManager := Pm_Reset (hostManager host) \<rparr> else host)"

lemma disconnected_state: "mState (hostManager (onClientDisconnected host)) \<in> {kIdle, kActivated}"
  by (auto simp: onClientDisconnected_def Pm_Reset_def)

section \<open>The proxy\<close>

record PackageProxy =
  pxClient :: "unit RpcClient"
  pxReceiveBuffer :: bytes
  mLastResponse :: bytes
  mResponseReady :: bool

text \<open>All handlers of the proxy do the same.\<close>

definition Proxy_registerHandlers :: "unit RpcClient \<Rightarrow> unit RpcClient" where
  "Proxy_registerHandlers c =
     fold (\<lambda>methodId c. Client_SetHandler c cUcmServiceId methodId ())
       [cMethodTransferStart, cMethodTransferData, cMethodTransferExit, cMethodProcessSwPackage, cMethodActivate,
        cMethodGetSwClusterInfo, cMethodGetCurrentStatus] c"

definition newPackageProxy :: "u8 \<Rightarrow> PackageProxy" where
  "newPackageProxy protocolVersion =
     \<lparr> pxClient = Proxy_registerHandlers (newRpcClient protocolVersion cUcmInterfaceVersion),
       pxReceiveBuffer = [], mLastResponse = [], mResponseReady = False \<rparr>"

definition onResponse :: "SomeIpRpcMessage \<Rightarrow> PackageProxy \<Rightarrow> PackageProxy" where
  "onResponse msg px = px\<lparr> mLastResponse := mRpcPayload msg, mResponseReady := True \<rparr>"

text \<open>One poll, in which the socket receives some bytes or none.\<close>

definition Proxy_poll :: "bytes \<Rightarrow> PackageProxy \<Rightarrow> PackageProxy res" where
  "Proxy_poll received px =
     bindR (Client_onReceive (pxClient px) (pxReceiveBuffer px) received) (\<lambda>(buffer, calls).
       Inr (fold (\<lambda>(_, msg). onResponse msg) calls (px\<lparr> pxReceiveBuffer := buffer \<rparr>)))"

text \<open>The request that is sent; its bytes leave with the polls.\<close>

definition Proxy_send :: "u16 \<times> bytes \<Rightarrow> PackageProxy \<Rightarrow> (bytes \<times> PackageProxy) res" where
  "Proxy_send call px =
     bindR (Client_Send (pxClient px) cUcmServiceId (fst call) cVucmClientId (snd call))
       (\<lambda>(request, c). Inr (request, px\<lparr> pxClient := c, mLastResponse := [], mResponseReady := False \<rparr>))"

text \<open>
  \<open>polls\<close>: the polls that end before the deadline, \<open>lastPoll\<close>: the one that ends after it. There are at most
  as many as milliseconds in the timeout of five seconds.
\<close>

fun waitForResponse :: "bytes list \<Rightarrow> bytes \<Rightarrow> PackageProxy \<Rightarrow> (bool \<times> PackageProxy) res" where
  "waitForResponse polls lastPoll px =
     (if mResponseReady px then Inr (True, px)
      else (case polls of
              [] \<Rightarrow> bindR (Proxy_poll lastPoll px) (\<lambda>px. Inr (False, px))
            | p # polls \<Rightarrow> bindR (Proxy_poll p px) (waitForResponse polls lastPoll)))"

declare waitForResponse.simps [simp del]

text \<open>The request and the response, if there is one.\<close>

definition sendAndWait ::
    "u16 \<times> bytes \<Rightarrow> bytes list \<Rightarrow> bytes \<Rightarrow> PackageProxy \<Rightarrow> (bytes \<times> bytes option \<times> PackageProxy) res" where
  "sendAndWait call polls lastPoll px =
     bindR (Proxy_send call px) (\<lambda>(request, px).
     bindR (waitForResponse polls lastPoll px) (\<lambda>(ready, px).
       Inr (request, if ready then Some (mLastResponse px) else None,
            if ready then px\<lparr> mLastResponse := [] \<rparr> else px)))"

text \<open>
  The results of the proxy. An error is the number of a \<open>UcmErrc\<close>, a state the number of an
  \<open>UpdateStateType\<close>: the casts take any byte.
\<close>

definition statusOf :: "bytes option \<Rightarrow> (bytes \<Rightarrow> 'a res) \<Rightarrow> (u8 + 'a) res" where
  "statusOf response decode =
     (case response of
        None \<Rightarrow> Inr (Inl (UcmErrc_value kActivationFailed))
      | Some [] \<Rightarrow> Inr (Inl (UcmErrc_value kActivationFailed))
      | Some (status # rest) \<Rightarrow>
          if status \<noteq> cWireOk then Inr (Inl status)
          else bindR (decode (status # rest)) (\<lambda>x. Inr (Inr x)))"

definition voidResult :: "bytes option \<Rightarrow> (u8 + unit) res" where
  "voidResult response = statusOf response (\<lambda>_. Inr ())"

definition startRequest :: "PackageInfo \<Rightarrow> u16 \<times> bytes" where
  "startRequest info =
     (cMethodTransferStart, appendU64 (appendString (appendString [] (piName info)) (piVersion info)) (piSize info))"

definition startResult :: "bytes option \<Rightarrow> (u8 + u32) res" where
  "startResult response = statusOf response (\<lambda>resp. bindR (extractU32 resp 1) (\<lambda>(ident, _). Inr ident))"

definition dataRequest :: "u32 \<Rightarrow> bytes \<Rightarrow> u32 \<Rightarrow> u16 \<times> bytes" where
  "dataRequest ident block blockCounter =
     (cMethodTransferData, appendU32 (appendBytes (appendU32 [] ident) block) blockCounter)"

definition exitRequest :: "u32 \<Rightarrow> u16 \<times> bytes" where
  "exitRequest ident = (cMethodTransferExit, appendU32 [] ident)"

definition processRequest :: "u32 \<Rightarrow> u16 \<times> bytes" where
  "processRequest ident = (cMethodProcessSwPackage, appendU32 [] ident)"

definition activateRequest :: "string \<Rightarrow> string \<Rightarrow> u16 \<times> bytes" where
  "activateRequest installRoot manifestPath =
     (cMethodActivate, appendString (appendString [] installRoot) manifestPath)"

fun extractInfos :: "nat \<Rightarrow> bytes \<Rightarrow> nat \<Rightarrow> PackageInfo list \<Rightarrow> PackageInfo list res" where
  "extractInfos 0 v offset clusters = Inr clusters"
| "extractInfos (Suc n) v offset clusters =
     bindR (extractInfo v offset) (\<lambda>(info, offset). extractInfos n v offset (clusters @ [info]))"

definition clusterResult :: "bytes option \<Rightarrow> (u8 + PackageInfo list) res" where
  "clusterResult response =
     statusOf response (\<lambda>resp. bindR (extractU32 resp 1) (\<lambda>(count, offset).
       extractInfos (unat count) resp offset []))"

definition stateResult :: "bytes option \<Rightarrow> (u8 + u8) res" where
  "stateResult response =
     (case response of
        None \<Rightarrow> Inr (Inl (UcmErrc_value kActivationFailed))
      | Some resp \<Rightarrow>
          if length resp < 2 then Inr (Inl (UcmErrc_value kActivationFailed))
          else statusOf response (\<lambda>resp. at resp 1))"

section \<open>Reading back what was serialised\<close>

definition bytesBE :: "nat \<Rightarrow> 'w::len word \<Rightarrow> bytes" where
  "bytesBE n val = map (\<lambda>i. ucast (drop_bit (i * 8) val)) (rev [0..<n])"

lemma bytesBE_Suc: "bytesBE (Suc n) val = ucast (drop_bit (n * 8) val) # bytesBE n val"
  by (simp add: bytesBE_def)

lemma length_bytesBE [simp]: "length (bytesBE n val) = n"
  by (simp add: bytesBE_def)

lemma ucast_low_byte [simp]: "(ucast (x AND 0xff) :: u8) = ucast (x :: 'w::len word)"
proof -
  have "x AND 0xff = take_bit 8 x" by (simp add: take_bit_eq_mask mask_eq_exp_minus_1)
  then show ?thesis by (auto intro!: bit_word_eqI simp: bit_simps bit_imp_le_length)
qed

lemma append_numbers:
  "appendU16 v a = v @ be16 a" "appendU32 v b = v @ bytesBE 4 b" "appendU64 v c = v @ bytesBE 8 c"
  by (simp_all add: appendU16_def appendU32_def appendU64_def bytesBE_def be16_def upt_rec numeral_eq_Suc
      del: drop_bit_numeral_bit1)

lemma push_or_take:
  "push_bit (n * 8) (ucast (ucast (drop_bit (n * 8) val) :: u8)) OR take_bit (n * 8) val =
     take_bit (Suc n * 8) (val :: 'w::len word)"
proof (rule bit_word_eqI)
  fix i assume "i < LENGTH('w)"
  then show "bit (push_bit (n * 8) (ucast (ucast (drop_bit (n * 8) val) :: u8)) OR take_bit (n * 8) val) i =
      bit (take_bit (Suc n * 8) val) i"
    by (auto simp: bit_simps)
qed

lemma extractBytesOf_bytesBE:
  "take n (drop off v) = bytesBE n val \<Longrightarrow>
     extractBytesOf n v off acc = Inr (acc OR take_bit (n * 8) val, off + n)"
proof (induction n arbitrary: off acc)
  case (Suc n)
  have l: "off < length v" "at v off = Inr (ucast (drop_bit (n * 8) val))" "take n (drop (Suc off) v) = bytesBE n val"
    using at_take_drop [OF Suc.prems, of 0] sub_take [of "bytesBE (Suc n) val" off v 1 n] Suc.prems
    by (simp_all add: bytesBE_Suc at_def split: if_splits)
  then show ?case using Suc.IH [OF l(3)] push_or_take [of n val] by (simp add: or.assoc)
qed simp

lemma extractBytesOf_short: "\<lbrakk> 0 < n; length v < off + n \<rbrakk> \<Longrightarrow> extractBytesOf n v off acc = Inl Out_of_range"
proof (induction n arbitrary: off acc)
  case (Suc n)
  then show ?case by (cases "n = 0") (auto simp: at_def)
qed simp

interpretation wire32: fixed_codec "\<lambda>_. True" "bytesBE 4" extractU32 4
  by unfold_locales (simp_all add: extractU32_def extractBytesOf_bytesBE extractBytesOf_short take_bit_word_eq_self)

interpretation wire64: fixed_codec "\<lambda>_. True" "bytesBE 8" extractU64 8
  by unfold_locales (simp_all add: extractU64_def extractBytesOf_bytesBE extractBytesOf_short take_bit_word_eq_self)

definition wireString :: "string \<Rightarrow> bytes" where
  "wireString s = be16 (word_of_nat (length s)) @ stringBytes s"

definition wireBytes :: "bytes \<Rightarrow> bytes" where
  "wireBytes b = bytesBE 4 (word_of_nat (length b) :: u32) @ b"

lemma be16_join: "push_bit 8 (ucast (ucast (drop_bit 8 w) :: u8)) OR ucast (ucast w :: u8) = (w :: u16)"
  by (auto intro!: bit_word_eqI simp: bit_simps)

interpretation wireStr: codec "\<lambda>s. length s < 2 ^ 16" wireString extractString
proof
  fix s :: string and off v
  assume s: "length s < 2 ^ 16" and t: "take (length (wireString s)) (drop off v) = wireString s"
  have "at v off = Inr (ucast (drop_bit 8 (word_of_nat (length s) :: u16)))"
    "at v (off + 1) = Inr (ucast (word_of_nat (length s) :: u16))"
    using at_take_drop [OF t, of 0] at_take_drop [OF t, of 1] by (simp_all add: wireString_def be16_def)
  moreover have "take (length s) (drop (off + 2) v) = stringBytes s"
    using sub_take [of "wireString s" off v 2 "length s" "off + 2"] t by (simp add: wireString_def be16_def)
  moreover have "length (take (length (wireString s)) (drop off v)) = length s + 2"
    unfolding t by (simp add: wireString_def be16_def)
  then have "off + 2 + length s \<le> length v" by simp
  ultimately show "extractString v off = Inr (s, off + length (wireString s))"
    using s by (simp add: extractString_def be16_join unat_of_nat take_bit_nat_eq_self Let_def wireString_def
        be16_def)
qed

interpretation wireVec: codec "\<lambda>b. length b < 2 ^ 32" wireBytes extractBytes
proof
  fix b :: bytes and off v
  assume b: "length b < 2 ^ 32" and t: "take (length (wireBytes b)) (drop off v) = wireBytes b"
  have "take 4 (drop off v) = bytesBE 4 (word_of_nat (length b) :: u32)"
    using sub_take [of "wireBytes b" off v 0 4 off] t by (simp add: wireBytes_def)
  then have "extractU32 v off = Inr (word_of_nat (length b), off + 4)" by (rule wire32.dec_fixed [OF TrueI])
  moreover have "take (length b) (drop (off + 4) v) = b"
    using sub_take [of "wireBytes b" off v 4 "length b" "off + 4"] t by (simp add: wireBytes_def)
  moreover have "length (take (length (wireBytes b)) (drop off v)) = length b + 4"
    unfolding t by (simp add: wireBytes_def)
  then have "off + 4 + length b \<le> length v" by simp
  ultimately show "extractBytes v off = Inr (b, off + length (wireBytes b))"
    using b by (simp add: extractBytes_def unat_of_nat take_bit_nat_eq_self wireBytes_def)
qed

definition wfInfo :: "PackageInfo \<Rightarrow> bool" where
  "wfInfo info \<longleftrightarrow> length (piName info) < 2 ^ 16 \<and> length (piVersion info) < 2 ^ 16"

definition wireInfo :: "PackageInfo \<Rightarrow> bytes" where
  "wireInfo info = wireString (piName info) @ wireString (piVersion info) @ bytesBE 8 (piSize info)"

lemma appends [simp]:
  "appendString v s = v @ wireString s" "appendBytes v b = v @ wireBytes b" "appendInfo v info = v @ wireInfo info"
  by (simp_all add: appendString_def appendBytes_def appendInfo_def append_numbers wireString_def wireBytes_def
      wireInfo_def)

interpretation wireInf: codec wfInfo wireInfo extractInfo
proof
  fix info off v
  assume w: "wfInfo info" and t: "take (length (wireInfo info)) (drop off v) = wireInfo info"
  let ?n = "wireString (piName info)" and ?v = "wireString (piVersion info)"
  have "take (length ?n) (drop off v) = ?n" "take (length ?v) (drop (off + length ?n) v) = ?v"
    "take 8 (drop (off + length ?n + length ?v) v) = bytesBE 8 (piSize info)"
    using sub_take [of "wireInfo info" off v 0 "length ?n" off]
      sub_take [of "wireInfo info" off v "length ?n" "length ?v" "off + length ?n"]
      sub_take [of "wireInfo info" off v "length ?n + length ?v" 8 "off + length ?n + length ?v"] t
    by (simp_all add: wireInfo_def)
  then show "extractInfo v off = Inr (info, off + length (wireInfo info))"
    using w wireStr.dec_enc [of "piName info" off v] wireStr.dec_enc [of "piVersion info" "off + length ?n" v]
      wire64.dec_fixed [OF TrueI, of "off + length ?n + length ?v" v "piSize info"]
    by (simp add: extractInfo_def wfInfo_def wireInfo_def)
qed

lemma extractInfos_wire:
  "list_all wfInfo infos \<Longrightarrow> extractInfos (length infos) (pre @ concat (map wireInfo infos) @ suf) (length pre) acc =
     Inr (acc @ infos)"
proof (induction infos arbitrary: pre acc)
  case (Cons info infos)
  have "extractInfo (pre @ wireInfo info @ concat (map wireInfo infos) @ suf) (length pre) =
      Inr (info, length pre + length (wireInfo info))"
    using Cons.prems by (intro wireInf.dec_enc_at) simp
  then show ?case using Cons.IH [of "pre @ wireInfo info" "acc @ [info]"] Cons.prems by simp
qed simp

text \<open>A length that reaches beyond the request is not noticed.\<close>

lemma unchecked_length:
  assumes "2 \<le> length request" "length request < 2 + unat (push_bit 8 (ucast (request ! 0)) OR ucast (request ! 1) :: u16)"
  shows "handleTransferStart request host = (Inl Undefined, host)" "handleActivate outside request host = (Inl Undefined, host)"
  using assms
  by (auto simp: handleTransferStart_def handleActivate_def extractInfo_def extractString_def at_def catchAll_def)

section \<open>A call through the proxy\<close>

datatype UcmCall = StartCall PackageInfo | DataCall u32 bytes u32 | ExitCall u32 | ProcessCall u32
  | ActivateCall string string | ClustersCall | StateCall

datatype UcmReply = NoReply | IdReply u32 | ClustersReply "PackageInfo list" | StateReply u8

fun callRequest :: "UcmCall \<Rightarrow> u16 \<times> bytes" where
  "callRequest (StartCall info) = startRequest info"
| "callRequest (DataCall ident block blockCounter) = dataRequest ident block blockCounter"
| "callRequest (ExitCall ident) = exitRequest ident"
| "callRequest (ProcessCall ident) = processRequest ident"
| "callRequest (ActivateCall installRoot manifestPath) = activateRequest installRoot manifestPath"
| "callRequest ClustersCall = (cMethodGetSwClusterInfo, [])"
| "callRequest StateCall = (cMethodGetCurrentStatus, [])"

definition mapReply :: "('a \<Rightarrow> UcmReply) \<Rightarrow> (u8 + 'a) res \<Rightarrow> (u8 + UcmReply) res" where
  "mapReply f r = bindR r (\<lambda>x. Inr (map_sum id f x))"

fun callResult :: "UcmCall \<Rightarrow> bytes option \<Rightarrow> (u8 + UcmReply) res" where
  "callResult (StartCall info) response = mapReply IdReply (startResult response)"
| "callResult ClustersCall response = mapReply ClustersReply (clusterResult response)"
| "callResult StateCall response = mapReply StateReply (stateResult response)"
| "callResult (DataCall ident block blockCounter) response = mapReply (\<lambda>_. NoReply) (voidResult response)"
| "callResult (ExitCall ident) response = mapReply (\<lambda>_. NoReply) (voidResult response)"
| "callResult (ProcessCall ident) response = mapReply (\<lambda>_. NoReply) (voidResult response)"
| "callResult (ActivateCall installRoot manifestPath) response = mapReply (\<lambda>_. NoReply) (voidResult response)"

text \<open>What is sent, what is returned, and the proxy afterwards.\<close>

definition proxyCall ::
    "UcmCall \<Rightarrow> bytes list \<Rightarrow> bytes \<Rightarrow> PackageProxy \<Rightarrow> (bytes \<times> (u8 + UcmReply) \<times> PackageProxy) res" where
  "proxyCall call polls lastPoll px =
     bindR (sendAndWait (callRequest call) polls lastPoll px) (\<lambda>(request, response, px).
     bindR (callResult call response) (\<lambda>r. Inr (request, r, px)))"

text \<open>The same call on the package manager itself.\<close>

fun localCall :: "('p, 'd) UcmOutside \<Rightarrow> UcmCall \<Rightarrow> UcmHost \<Rightarrow> (UcmErrc + UcmReply) \<times> UcmHost" where
  "localCall outside (StartCall info) host =
     (case TransferStart info (hostManager host) of
        (r, pm) \<Rightarrow> (map_sum id IdReply r, host\<lparr> hostManager := pm \<rparr>))"
| "localCall outside (DataCall ident block blockCounter) host =
     (case Pm_TransferData ident block (hostManager host) of
        (r, pm) \<Rightarrow> (map_sum id (\<lambda>_. NoReply) r, host\<lparr> hostManager := pm \<rparr>))"
| "localCall outside (ExitCall ident) host =
     (case TransferExit (exitFault outside) ident (hostManager host) (hostFiles host) of
        (r, pm, fs) \<Rightarrow> (map_sum id (\<lambda>_. NoReply) r, \<lparr> hostManager = pm, hostFiles = fs \<rparr>))"
| "localCall outside (ProcessCall ident) host =
     (case ProcessSwPackage (unpack outside) (readBinaryName outside) ident (hostManager host) (hostFiles host) of
        (r, pm, fs) \<Rightarrow> (map_sum id (\<lambda>_. NoReply) r, \<lparr> hostManager = pm, hostFiles = fs \<rparr>))"
| "localCall outside (ActivateCall installRoot manifestPath) host =
     (case Activate (activateFaults outside) (xmlLibrary outside) (renderJson outside) installRoot manifestPath
             (hostManager host) (hostFiles host) of
        (r, pm, fs) \<Rightarrow> (map_sum id (\<lambda>_. NoReply) r, \<lparr> hostManager = pm, hostFiles = fs \<rparr>))"
| "localCall outside ClustersCall host = (Inr (ClustersReply (GetSwClusterInfo (hostManager host))), host)"
| "localCall outside StateCall host = (Inr (StateReply (UpdateState_value (mState (hostManager host)))), host)"

text \<open>
  What the wire can carry: strings of less than 65536 characters and payloads whose length, with the second
  half of the header, is a 32-bit number.
\<close>

fun callFits :: "UcmCall \<Rightarrow> bool" where
  "callFits (StartCall info) \<longleftrightarrow> wfInfo info"
| "callFits (DataCall ident block blockCounter) \<longleftrightarrow> 20 + length block < 2 ^ 32"
| "callFits (ActivateCall installRoot manifestPath) \<longleftrightarrow> length installRoot < 2 ^ 16 \<and> length manifestPath < 2 ^ 16"
| "callFits _ \<longleftrightarrow> True"

fun replyFits :: "UcmErrc + UcmReply \<Rightarrow> bool" where
  "replyFits (Inr (ClustersReply infos)) \<longleftrightarrow>
     list_all wfInfo infos \<and> 13 + length (concat (map wireInfo infos)) < 2 ^ 32"
| "replyFits _ \<longleftrightarrow> True"

fun isVoidCall :: "UcmCall \<Rightarrow> bool" where
  "isVoidCall (StartCall info) \<longleftrightarrow> False"
| "isVoidCall ClustersCall \<longleftrightarrow> False"
| "isVoidCall StateCall \<longleftrightarrow> False"
| "isVoidCall _ \<longleftrightarrow> True"

definition ucmServer :: "('p, 'd) UcmOutside \<Rightarrow> UcmHost RpcServer" where
  "ucmServer outside =
     Skeleton_registerHandlers outside (newRpcServer cUcmProtocolVersion cUcmInterfaceVersion)"

text \<open>
  A call over the connection: the server handles the request and its response arrives cut into any polls.
\<close>

definition remoteCall ::
    "(bytes \<Rightarrow> bytes list) \<Rightarrow> ('p, 'd) UcmOutside \<Rightarrow> UcmCall \<Rightarrow> PackageProxy \<Rightarrow> UcmHost \<Rightarrow>
     ((u8 + UcmReply) \<times> PackageProxy \<times> UcmHost) res" where
  "remoteCall split outside call px host =
     bindR (Proxy_send (callRequest call) px) (\<lambda>(request, _).
       case TryInvokeHandler (ucmServer outside) request host of
         (Inl e, host) \<Rightarrow> Inl e
       | (Inr response, host) \<Rightarrow>
           bindR (proxyCall call (case response of Some r \<Rightarrow> split r | None \<Rightarrow> []) [] px) (\<lambda>(_, r, px).
             Inr (r, px, host)))"

fun remoteSession ::
    "(bytes \<Rightarrow> bytes list) \<Rightarrow> (('p, 'd) UcmOutside \<times> UcmCall) list \<Rightarrow> PackageProxy \<Rightarrow> UcmHost \<Rightarrow>
     ((u8 + UcmReply) list \<times> PackageProxy \<times> UcmHost) res" where
  "remoteSession split [] px host = Inr ([], px, host)"
| "remoteSession split ((outside, call) # calls) px host =
     bindR (remoteCall split outside call px host) (\<lambda>(r, px, host).
     bindR (remoteSession split calls px host) (\<lambda>(rs, px, host). Inr (r # rs, px, host)))"

fun localSession :: "(('p, 'd) UcmOutside \<times> UcmCall) list \<Rightarrow> UcmHost \<Rightarrow> (UcmErrc + UcmReply) list \<times> UcmHost" where
  "localSession [] host = ([], host)"
| "localSession ((outside, call) # calls) host =
     (case localCall outside call host of
        (r, host) \<Rightarrow> (case localSession calls host of (rs, host) \<Rightarrow> (r # rs, host)))"

lemmas ucm_constants = cUcmServiceId_def cMethodTransferStart_def cMethodTransferData_def cMethodTransferExit_def
  cMethodProcessSwPackage_def cMethodActivate_def cMethodGetSwClusterInfo_def cMethodGetCurrentStatus_def
  cUcmProtocolVersion_def cUcmInterfaceVersion_def

lemma UcmErrc_value_error [simp]: "UcmErrc_value e \<noteq> cWireOk"
  by (cases e) (simp_all add: cWireOk_def)

lemma statusOf_status:
  "statusOf (Some (statusByte r # rest)) decode =
     (case r of Inl e \<Rightarrow> Inr (Inl (UcmErrc_value e)) | Inr _ \<Rightarrow> bindR (decode (cWireOk # rest)) (\<lambda>x. Inr (Inr x)))"
  by (cases r) (simp_all add: statusOf_def statusByte_def)

lemma voidResult_status: "mapReply (\<lambda>_. NoReply) (voidResult (Some [statusByte r])) =
    Inr (map_sum UcmErrc_value (\<lambda>_. NoReply) r)"
  by (cases r) (simp_all add: voidResult_def statusOf_status mapReply_def)

fun handlerOf :: "('p, 'd) UcmOutside \<Rightarrow> UcmCall \<Rightarrow> UcmHost handler" where
  "handlerOf outside (StartCall info) = handleTransferStart"
| "handlerOf outside (DataCall ident block blockCounter) = handleTransferData"
| "handlerOf outside (ExitCall ident) = handleTransferExit outside"
| "handlerOf outside (ProcessCall ident) = handleProcessSwPackage outside"
| "handlerOf outside (ActivateCall installRoot manifestPath) = handleActivate outside"
| "handlerOf outside ClustersCall = handleGetSwClusterInfo"
| "handlerOf outside StateCall = handleGetCurrentStatus"

lemma registered:
  "sHandlers (ucmServer outside) (mkMessageId cUcmServiceId (fst (callRequest call))) = Some (handlerOf outside call)"
  "mServices (ucmServer outside) = {cUcmServiceId}" "sProtocolVersion (ucmServer outside) = cUcmProtocolVersion"
  "sInterfaceVersion (ucmServer outside) = cUcmInterfaceVersion"
  by (cases call; simp add: ucmServer_def Skeleton_registerHandlers_def Server_SetHandler_def newRpcServer_def
      mkMessageId_def ucm_constants startRequest_def dataRequest_def exitRequest_def processRequest_def
      activateRequest_def Let_def)+

text \<open>What the handlers do with the requests of the proxy.\<close>

lemma wire_reads:
  "extractU32 (bytesBE 4 a @ suf) 0 = Inr (a, 4)"
  "extractU32 (x # bytesBE 4 a @ suf) (Suc 0) = Inr (a, 5)"
  "extractU32 (pre @ bytesBE 4 a @ suf) (length pre) = Inr (a, length pre + 4)"
  using wire32.dec_enc_at [OF TrueI, of "[]" a suf] wire32.dec_enc_at [OF TrueI, of "[x]" a suf]
    wire32.dec_enc_at [OF TrueI, of pre a suf] by simp_all

lemma data_request_handled:
  assumes "20 + length block < 2 ^ 32" "Pm_TransferData ident block (hostManager host) = (q, pm)"
  shows "handleTransferData (snd (dataRequest ident block n)) host =
    (Inr (True, [statusByte q]), host\<lparr> hostManager := pm \<rparr>)"
proof -
  have "extractBytes (bytesBE 4 ident @ wireBytes block @ bytesBE 4 n) (length (bytesBE 4 ident)) =
      Inr (block, length (bytesBE 4 ident) + length (wireBytes block))"
    by (rule wireVec.dec_enc_at) (use assms in simp)
  moreover have "extractU32 ((bytesBE 4 ident @ wireBytes block) @ bytesBE 4 n @ [])
      (length (bytesBE 4 ident @ wireBytes block)) = Inr (n, length (bytesBE 4 ident @ wireBytes block) + 4)"
    by (rule wire_reads)
  ultimately show ?thesis
    by (simp add: handleTransferData_def dataRequest_def append_numbers wire_reads assms(2) appendU8_def)
qed

lemma activate_request_handled:
  assumes "length r < 2 ^ 16" "length p < 2 ^ 16"
    "Activate (activateFaults outside) (xmlLibrary outside) (renderJson outside) r p (hostManager host) (hostFiles host) =
      (q, pm, fs)"
  shows "handleActivate outside (snd (activateRequest r p)) host =
    (Inr (True, [statusByte q]), \<lparr> hostManager = pm, hostFiles = fs \<rparr>)"
  using wireStr.dec_enc_at [OF assms(1), of "[]" "wireString p"]
    wireStr.dec_enc_at [OF assms(2), of "wireString r" "[]"]
  by (simp add: handleActivate_def activateRequest_def assms(3) appendU8_def)

lemma start_request_read: "wfInfo info \<Longrightarrow> \<exists>n. extractInfo (snd (startRequest info)) 0 = Inr (info, n)"
  using wireInf.dec_enc_0 by (simp add: startRequest_def append_numbers wireInfo_def)

lemma fold_appendInfo: "fold (\<lambda>c v. v @ wireInfo c) infos v = v @ concat (map wireInfo infos)"
  by (induction infos arbitrary: v) simp_all

lemma length_wireString [simp]: "length (wireString s) = length s + 2"
  by (simp add: wireString_def be16_def)

lemma wireInfo_pos: "length infos \<le> length (concat (map wireInfo infos))"
  by (induction infos) (simp_all add: wireInfo_def)

lemma clusters_read:
  assumes "list_all wfInfo infos" "13 + length (concat (map wireInfo infos)) < 2 ^ 32"
  shows "clusterResult (Some (cWireOk # bytesBE 4 (word_of_nat (length infos) :: u32) @ concat (map wireInfo infos))) =
    Inr (Inr infos)"
proof -
  let ?n = "word_of_nat (length infos) :: u32"
  have "unat ?n = length infos"
    using wireInfo_pos [of infos] assms(2) by (simp add: unat_of_nat take_bit_nat_eq_self)
  then show ?thesis
    using extractInfos_wire [OF assms(1), of "cWireOk # bytesBE 4 ?n" "[]" "[]"]
    by (simp add: clusterResult_def statusOf_def wire_reads)
qed

lemma handled_call:
  assumes "callFits call" "localCall outside call host = (r, host')" "replyFits r"
  obtains pdu where "handlerOf outside call (snd (callRequest call)) host = (Inr (True, pdu), host')"
    "callResult call (Some pdu) = Inr (map_sum UcmErrc_value id r)" "8 + length pdu < 2 ^ 32"
proof (cases call)
  case (StartCall info)
  obtain q pm n where q: "TransferStart info (hostManager host) = (q, pm)" "extractInfo (snd (startRequest info)) 0 = Inr (info, n)"
    using start_request_read [of info] assms(1) StartCall by (metis callFits.simps(1) prod.collapse)
  have "r = map_sum id IdReply q" "host' = host\<lparr> hostManager := pm \<rparr>" using assms(2) q StartCall by auto
  then show thesis
    using that [of "case q of Inr ident \<Rightarrow> cWireOk # bytesBE 4 ident | Inl e \<Rightarrow> [statusByte (Inl e)]"] q StartCall
      wire_reads(2) [of cWireOk _ "[]"]
    by (cases q) (simp_all add: handleTransferStart_def appendU8_def append_numbers startResult_def mapReply_def
        statusByte_def statusOf_def)
next
  case (DataCall ident block n)
  obtain q pm where q: "Pm_TransferData ident block (hostManager host) = (q, pm)" by fastforce
  then show thesis
    using that [of "[statusByte q]"] assms DataCall data_request_handled [OF _ q] voidResult_status [of q]
    by (cases q) auto
next
  case (ExitCall ident)
  obtain q pm fs where q: "TransferExit (exitFault outside) ident (hostManager host) (hostFiles host) = (q, pm, fs)"
    by (metis prod_cases3)
  then show thesis
    using that [of "[statusByte q]"] assms ExitCall wire_reads(1) [of ident "[]"] voidResult_status [of q]
    by (cases q) (auto simp: handleTransferExit_def appendU8_def exitRequest_def append_numbers)
next
  case (ProcessCall ident)
  obtain q pm fs where q: "ProcessSwPackage (unpack outside) (readBinaryName outside) ident (hostManager host)
      (hostFiles host) = (q, pm, fs)" by (metis prod_cases3)
  then show thesis
    using that [of "[statusByte q]"] assms ProcessCall wire_reads(1) [of ident "[]"] voidResult_status [of q]
    by (cases q) (auto simp: handleProcessSwPackage_def appendU8_def processRequest_def append_numbers)
next
  case (ActivateCall rt mp)
  obtain q pm fs where q: "Activate (activateFaults outside) (xmlLibrary outside) (renderJson outside) rt mp
      (hostManager host) (hostFiles host) = (q, pm, fs)" by (metis prod_cases3)
  then show thesis
    using that [of "[statusByte q]"] assms ActivateCall activate_request_handled [OF _ _ q] voidResult_status [of q]
    by (cases q) auto
next
  case ClustersCall
  then show thesis
    using that [of "cWireOk # bytesBE 4 (word_of_nat (length (GetSwClusterInfo (hostManager host))) :: u32) @
        concat (map wireInfo (GetSwClusterInfo (hostManager host)))"] assms clusters_read
    by (auto simp: handleGetSwClusterInfo_def fold_appendInfo appendU8_def append_numbers mapReply_def Let_def)
next
  case StateCall
  then show thesis
    using that [of "[cWireOk, UpdateState_value (mState (hostManager host))]"] assms
    by (auto simp: handleGetCurrentStatus_def appendU8_def mapReply_def stateResult_def statusOf_def)
qed


section \<open>Sessions\<close>

definition proxyReady :: "PackageProxy \<Rightarrow> bool" where
  "proxyReady px \<longleftrightarrow> cProtocolVersion (pxClient px) = cUcmProtocolVersion \<and>
     cInterfaceVersion (pxClient px) = cUcmInterfaceVersion \<and> pxReceiveBuffer px = [] \<and>
     (\<forall>call. cHandlers (pxClient px) (mkMessageId cUcmServiceId (fst (callRequest call))) \<noteq> None)"

lemma newPackageProxy_ready: "proxyReady (newPackageProxy cUcmProtocolVersion)"
  unfolding proxyReady_def
proof (intro conjI allI)
  fix call
  show "cHandlers (pxClient (newPackageProxy cUcmProtocolVersion))
      (mkMessageId cUcmServiceId (fst (callRequest call))) \<noteq> None"
    by (cases call) (simp_all add: newPackageProxy_def Proxy_registerHandlers_def Client_SetHandler_def
        startRequest_def dataRequest_def exitRequest_def processRequest_def activateRequest_def)
qed (simp_all add: newPackageProxy_def Proxy_registerHandlers_def Client_SetHandler_def newRpcClient_def)

lemma Proxy_poll_Nil [simp]: "Proxy_poll [] px = Inr px"
  by (simp add: Proxy_poll_def Client_onReceive_def)

text \<open>A response that arrives in any pieces is taken when its last piece has arrived.\<close>

lemma waitForResponse_arrives:
  assumes "wfRpc r" "cHandlers (pxClient px) (mMessageId r) \<noteq> None" "\<not> mResponseReady px"
    and "pxReceiveBuffer px @ concat polls = Rpc_Payload r" "length (pxReceiveBuffer px) < length (Rpc_Payload r)"
  shows "waitForResponse (polls @ rest) lastPoll px =
    Inr (True, px\<lparr> pxReceiveBuffer := [], mLastResponse := mRpcPayload r, mResponseReady := True \<rparr>)"
  using assms
proof (induction polls arbitrary: px)
  case (Cons p polls)
  then have e: "pxReceiveBuffer px @ p @ concat polls = Rpc_Payload r" by auto
  show ?case
  proof (cases "p = []")
    case True
    with Cons show ?thesis by (subst waitForResponse.simps) simp
  next
    case ne: False
    let ?b = "pxReceiveBuffer px @ p"
    show ?thesis
    proof (cases "length ?b < length (Rpc_Payload r)")
      case True
      have "?b = take (length ?b) (Rpc_Payload r)" by (simp flip: e)
      then have "receiveLoop (clientProcess (pxClient px)) ?b [] = Inr (?b, [])"
        using receiveLoop_partial [OF Cons.prems(1) True, of "clientProcess (pxClient px)" "[]"] by metis
      then have "Proxy_poll p px = Inr (px\<lparr> pxReceiveBuffer := ?b \<rparr>)"
        using ne by (simp add: Proxy_poll_def Client_onReceive_def)
      then show ?thesis
        using Cons.IH [of "px\<lparr> pxReceiveBuffer := ?b \<rparr>"] Cons.prems True e
        by (subst waitForResponse.simps) simp
    next
      case False
      have "length ?b + length (concat polls) = length (Rpc_Payload r)" by (simp flip: e)
      then have "length (concat polls) = 0" using False by linarith
      then have b: "?b = Rpc_Payload r" using e by (metis append_Nil2 append_assoc length_0_conv)
      obtain h where h: "cHandlers (pxClient px) (mMessageId r) = Some h" using Cons.prems(2) by blast
      have "receiveLoop (clientProcess (pxClient px)) ?b [] = Inr ([], [(h, r)])"
        using receiveLoop_frame [OF Cons.prems(1), of "clientProcess (pxClient px)" "[]" "[]"] h
        by (simp add: b receiveLoop_Nil clientProcess_def Client_InvokeHandler_def rpc.parse_exact [OF Cons.prems(1)])
      then have "Proxy_poll p px = Inr (onResponse r (px\<lparr> pxReceiveBuffer := [] \<rparr>))"
        using ne by (simp add: Proxy_poll_def Client_onReceive_def)
      then show ?thesis
        using Cons.prems(3) by (subst waitForResponse.simps) (simp add: onResponse_def waitForResponse.simps)
    qed
  qed
qed simp


lemma request_fits: "callFits call \<Longrightarrow> 8 + length (snd (callRequest call)) < 2 ^ 32"
  by (cases call) (simp_all add: startRequest_def dataRequest_def exitRequest_def processRequest_def
      activateRequest_def append_numbers wfInfo_def wireBytes_def)

text \<open>The server's side of a call, with the response as a message.\<close>

lemma server_handles:
  assumes "proxyReady px" "callFits call" "localCall outside call host = (r, host')" "replyFits r"
  obtains px' request m where "Proxy_send (callRequest call) px = Inr (request, px')"
    "proxyReady px'" "mLastResponse px' = []" "\<not> mResponseReady px'"
    "TryInvokeHandler (ucmServer outside) request host = (Inr (Some (Rpc_Payload m)), host')" "wfRpc m"
    "mMessageId m = mkMessageId cUcmServiceId (fst (callRequest call))"
    "callResult call (Some (mRpcPayload m)) = Inr (map_sum UcmErrc_value id r)"
proof -
  obtain pdu where h: "handlerOf outside call (snd (callRequest call)) host = (Inr (True, pdu), host')"
    "callResult call (Some pdu) = Inr (map_sum UcmErrc_value id r)" "8 + length pdu < 2 ^ 32"
    using handled_call [OF assms(2-4)] .
  let ?q = "requestMessage (pxClient px) cUcmServiceId (fst (callRequest call)) cVucmClientId (snd (callRequest call))"
  have ver: "cProtocolVersion (pxClient px) = cUcmProtocolVersion" "cInterfaceVersion (pxClient px) = cUcmInterfaceVersion"
    using assms(1) by (simp_all add: proxyReady_def)
  have "(ucast (drop_bit 16 (mkMessageId cUcmServiceId m)) :: u16) = cUcmServiceId" for m
    by (auto intro!: bit_word_eqI simp: mkMessageId_def bit_simps bit_u16_high)
  then have "validate (ucmServer outside) ?q = eOK" by (simp add: validate_def registered ver)
  then have "answer (ucmServer outside) ?q host = (getResponsePayload (ucmServer outside) ?q eOK pdu, host')"
    using h(1) registered(1) [of outside call] by (simp add: answer_def)
  then obtain m where m: "TryInvokeHandler (ucmServer outside) (Rpc_Payload ?q) host = (Inr (Some (Rpc_Payload m)), host')"
    "wfRpc m" "mMessageId m = mMessageId ?q" "mRpcPayload m = pdu"
    by (rule request_answered [OF wfRpc_requestMessage [OF request_fits [OF assms(2)]] _ _ h(3)])
      (simp_all add: ReturnCode_cast_def)
  obtain c' where "Proxy_send (callRequest call) px =
      Inr (Rpc_Payload ?q, px\<lparr> pxClient := c', mLastResponse := [], mResponseReady := False \<rparr>)"
    "cHandlers c' = cHandlers (pxClient px)" "cProtocolVersion c' = cProtocolVersion (pxClient px)"
    "cInterfaceVersion c' = cInterfaceVersion (pxClient px)"
    by (simp add: Proxy_send_def Client_Send_requestMessage)
  then show thesis using that m h(2) assms(1) by (simp add: proxyReady_def)
qed

lemma response_arrives:
  assumes "Proxy_send (callRequest call) px = Inr (request, px')" "proxyReady px'" "\<not> mResponseReady px'"
    and "wfRpc m" "mMessageId m = mkMessageId cUcmServiceId (fst (callRequest call'))" "concat polls = Rpc_Payload m"
    and "callResult call (Some (mRpcPayload m)) = Inr r"
  shows "\<exists>px''. proxyCall call (polls @ rest) lastPoll px = Inr (request, r, px'') \<and> proxyReady px''"
proof -
  have "waitForResponse (polls @ rest) lastPoll px' =
      Inr (True, px'\<lparr> pxReceiveBuffer := [], mLastResponse := mRpcPayload m, mResponseReady := True \<rparr>)"
    using assms(2-6) by (intro waitForResponse_arrives) (auto simp: proxyReady_def length_Rpc_Payload)
  then show ?thesis
    using assms(1,2,7) by (simp add: proxyCall_def sendAndWait_def proxyReady_def)
qed


text \<open>A call over the connection is the call on the package manager.\<close>

lemma remoteCall_local:
  assumes "proxyReady px" "callFits call" "localCall outside call host = (r, host')" "replyFits r"
    and "\<And>response. concat (split response) = response"
  shows "\<exists>px'. remoteCall split outside call px host = Inr (map_sum UcmErrc_value id r, px', host') \<and> proxyReady px'"
proof -
  obtain px1 request m where s: "Proxy_send (callRequest call) px = Inr (request, px1)"
    "proxyReady px1" "mLastResponse px1 = []" "\<not> mResponseReady px1"
    "TryInvokeHandler (ucmServer outside) request host = (Inr (Some (Rpc_Payload m)), host')" "wfRpc m"
    "mMessageId m = mkMessageId cUcmServiceId (fst (callRequest call))"
    "callResult call (Some (mRpcPayload m)) = Inr (map_sum UcmErrc_value id r)"
    by (rule server_handles [OF assms(1-4)])
  obtain px2 where "proxyCall call (split (Rpc_Payload m) @ []) [] px = Inr (request, map_sum UcmErrc_value id r, px2)"
    "proxyReady px2"
    using response_arrives [OF s(1,2,4,6,7) assms(5) s(8)] by blast
  then show ?thesis using s(1,5) by (auto simp: remoteCall_def id_def)
qed

text \<open>C20: over the connection the package manager behaves as if it was called directly: in any session of
  calls whose strings and replies fit the wire, and however the responses are cut on their way, the proxy returns
  what the operations of the package manager return, errors as their numbers, and leaves the package manager and
  its files as the operations do.\<close>

theorem remote_package_management:
  assumes "localSession calls host = (rs, host')" "proxyReady px"
    and "list_all (\<lambda>(outside, call). callFits call) calls" "list_all replyFits rs"
    and "\<And>response. concat (split response) = response"
  shows "\<exists>px'. remoteSession split calls px host = Inr (map (map_sum UcmErrc_value id) rs, px', host') \<and>
    proxyReady px'"
  using assms(1-4)
proof (induction calls arbitrary: px host rs)
  case (Cons oc calls)
  obtain outside call where oc: "oc = (outside, call)" by fastforce
  obtain r host1 rs' where l: "localCall outside call host = (r, host1)" "localSession calls host1 = (rs', host')"
    "rs = r # rs'"
    using Cons.prems(1) oc by (auto split: prod.splits)
  obtain px2 where "remoteCall split outside call px host = Inr (map_sum UcmErrc_value id r, px2, host1)" "proxyReady px2"
    using remoteCall_local [OF Cons.prems(2) _ l(1) _ assms(5)] Cons.prems(3,4) oc l(3) by auto
  then show ?case
    using Cons.IH [OF l(2), of px2] Cons.prems(3,4) oc l(3) by (auto simp: id_def)
qed simp

definition sampleOutside :: "(unit, unit) UcmOutside" where
  "sampleOutside = \<lparr> exitFault = NoFault, unpack = (\<lambda>_ fs. (False, fs)), readBinaryName = (\<lambda>_. None),
     activateFaults = \<lparr> copyFault = NoFault, saveFailure = None, syncFault = NoFault \<rparr>,
     xmlLibrary = \<lparr> loadProcess = (\<lambda>_. None), loadManifest = (\<lambda>_. None), processesOf = (\<lambda>_. None),
       appendCopy = (\<lambda>_ d. d), renderManifest = (\<lambda>_. []) \<rparr>, renderJson = (\<lambda>_. []) \<rparr>"

definition sampleHost :: UcmHost where
  "sampleHost = \<lparr> hostManager = emptyManager, hostFiles = Map.empty \<rparr>"

theorem remote_package_management_witness:
  "\<exists>px' host'. remoteSession (map (\<lambda>b. [b])) [(sampleOutside, StartCall (samplePackage ''p'' 3)),
       (sampleOutside, DataCall 1 [7, 8] 0), (sampleOutside, DataCall 2 [9] 1), (sampleOutside, StateCall)]
     (newPackageProxy cUcmProtocolVersion) sampleHost =
     Inr ([Inr (IdReply 1), Inr NoReply, Inl 1, Inr (StateReply 1)], px', host')"
proof -
  let ?calls = "[(sampleOutside, StartCall (samplePackage ''p'' 3)),
       (sampleOutside, DataCall 1 [7, 8] 0), (sampleOutside, DataCall 2 [9] 1), (sampleOutside, StateCall)]"
  obtain host' where l: "localSession ?calls sampleHost =
      ([Inr (IdReply 1), Inr NoReply, Inl kInvalidTransferId, Inr (StateReply 1)], host')"
    by (simp add: sampleHost_def emptyManager_def newPackageManager_def TransferStart_def Pm_TransferData_def)
  have c: "list_all (\<lambda>(outside, call). callFits call) ?calls"
    "list_all replyFits [Inr (IdReply 1), Inr NoReply, Inl kInvalidTransferId, Inr (StateReply 1)]"
    by (simp_all add: wfInfo_def samplePackage_def)
  have s: "concat (map (\<lambda>b. [b]) response) = response" for response :: bytes by (induction response) simp_all
  show ?thesis
    using remote_package_management [OF l newPackageProxy_ready c, of "map (\<lambda>b. [b])", OF s] by auto
qed

text \<open>The proxy takes any response for the answer to its present call: when a call times out and is
  answered late, during the next call, then the next call returns the result of the call before, although neither
  the method nor the session identifier is its own and the server has not handled it.\<close>

lemma late_response_accepted:
  assumes "proxyReady px" "isVoidCall call" "isVoidCall call'" "callFits call"
    and "localCall outside call host = (r, host')"
  shows "\<exists>request px' response request' px''.
    proxyCall call [] [] px = Inr (request, Inl (UcmErrc_value kActivationFailed), px') \<and>
    TryInvokeHandler (ucmServer outside) request host = (Inr (Some response), host') \<and>
    proxyCall call' (response # polls) lastPoll px' = Inr (request', map_sum UcmErrc_value id r, px'')"
proof -
  have "replyFits (map_sum id (\<lambda>_. NoReply) q)" for q :: "UcmErrc + unit" by (cases q) simp_all
  then have "replyFits r" using assms(2,5) by (cases call) (auto split: prod.splits)
  then obtain px1 request m where s: "Proxy_send (callRequest call) px = Inr (request, px1)"
    "proxyReady px1" "mLastResponse px1 = []" "\<not> mResponseReady px1"
    "TryInvokeHandler (ucmServer outside) request host = (Inr (Some (Rpc_Payload m)), host')" "wfRpc m"
    "mMessageId m = mkMessageId cUcmServiceId (fst (callRequest call))"
    "callResult call (Some (mRpcPayload m)) = Inr (map_sum UcmErrc_value id r)"
    using server_handles [OF assms(1,4,5)] by blast
  have "callResult call None = Inr (Inl (UcmErrc_value kActivationFailed))"
    using assms(2) by (cases call) (simp_all add: voidResult_def statusOf_def mapReply_def)
  then have t: "proxyCall call [] [] px = Inr (request, Inl (UcmErrc_value kActivationFailed), px1)"
    using s(1,4) by (simp add: proxyCall_def sendAndWait_def waitForResponse.simps)
  obtain request' px2 where s': "Proxy_send (callRequest call') px1 = Inr (request', px2)" "\<not> mResponseReady px2"
    "proxyReady px2"
    using s(2) by (simp add: Proxy_send_def Client_Send_requestMessage proxyReady_def)
  have "callResult call' (Some (mRpcPayload m)) = callResult call (Some (mRpcPayload m))"
    using assms(2,3) by (cases call; cases call') simp_all
  then have "callResult call' (Some (mRpcPayload m)) = Inr (map_sum UcmErrc_value id r)" using s(8) by simp
  from response_arrives [OF s'(1,3,2) s(6,7) _ this, of "[Rpc_Payload m]" polls lastPoll] t s(5) show ?thesis by auto
qed


end
