(* ===== verification/Arxml.thy ===== *)
theory Arxml
  imports SdOption
begin

text \<open>
  \<open>arxml/arxml_reader.cpp\<close> and \<open>arxml_node.cpp\<close>: manifests. Of pugixml, which is vendored in the repository, the
  access functions the reader calls are modelled: child, attribute, text and the reading of numbers; its parser and
  its printer are given from outside here (\<open>PugiManifest\<close> puts them in), and so is the comparison of the XML version as
  a float. With them the
  configuration helpers \<open>application/helper/{network,rpc,argument}_configuration\<close>.
\<close>

section \<open>XML nodes\<close>

text \<open>
  With the parse flags of the reader a document has elements, text and a declaration; comments, CDATA sections and
  text of white space only are left out. A node handle of the library may be empty.
\<close>

datatype XmlNode =
    XmlElement string "(string \<times> string) list" "XmlNode list"
  | XmlText string
  | XmlDeclaration "(string \<times> string) list"

type_synonym ArxmlNode = "XmlNode option"

fun xmlName :: "XmlNode \<Rightarrow> string option" where
  "xmlName (XmlElement name attributes children) = Some name"
| "xmlName (XmlText value) = None"
| "xmlName (XmlDeclaration attributes) = Some ''xml''"

fun xml_children :: "ArxmlNode \<Rightarrow> XmlNode list" where
  "xml_children (Some (XmlElement name attributes children)) = children"
| "xml_children _ = []"

fun xml_attributes :: "ArxmlNode \<Rightarrow> (string \<times> string) list" where
  "xml_attributes (Some (XmlElement name attributes children)) = attributes"
| "xml_attributes (Some (XmlDeclaration attributes)) = attributes"
| "xml_attributes _ = []"

definition xml_child :: "string \<Rightarrow> ArxmlNode \<Rightarrow> ArxmlNode" where
  "xml_child name node = find (\<lambda>i. xmlName i = Some name) (xml_children node)"

definition xml_attribute :: "string \<Rightarrow> ArxmlNode \<Rightarrow> string option" where
  "xml_attribute name node = map_of (xml_attributes node) name"

fun is_text_node :: "XmlNode \<Rightarrow> bool" where
  "is_text_node (XmlText value) \<longleftrightarrow> True"
| "is_text_node _ \<longleftrightarrow> False"

fun nodeValue :: "XmlNode \<Rightarrow> string" where
  "nodeValue (XmlText value) = value"
| "nodeValue _ = []"

text \<open>The text of a node is the node itself or its first text child.\<close>

definition xml_text_data :: "ArxmlNode \<Rightarrow> XmlNode option" where
  "xml_text_data node =
     (case node of
        None \<Rightarrow> None
      | Some n \<Rightarrow> if is_text_node n then Some n else find is_text_node (xml_children node))"

definition xml_as_string :: "string \<Rightarrow> ArxmlNode \<Rightarrow> string" where
  "xml_as_string def node = (case xml_text_data node of None \<Rightarrow> def | Some d \<Rightarrow> nodeValue d)"

subsection \<open>Numbers\<close>

definition charCode :: "char \<Rightarrow> nat" where
  "charCode c = of_char c"

definition isXmlSpace :: "char \<Rightarrow> bool" where
  "isXmlSpace c \<longleftrightarrow> charCode c \<in> {13, 10, 32, 9}"

definition isDecimal :: "char \<Rightarrow> bool" where
  "isDecimal c \<longleftrightarrow> 48 \<le> charCode c \<and> charCode c < 58"

text \<open>The letters of hexadecimal numbers, in both cases: the code sets the bit of lower case.\<close>

definition lowerCode :: "char \<Rightarrow> nat" where
  "lowerCode c = charCode c OR 32"

definition isHexLetter :: "char \<Rightarrow> bool" where
  "isHexLetter c \<longleftrightarrow> 97 \<le> lowerCode c \<and> lowerCode c < 103"

definition hexDigit :: "char \<Rightarrow> nat" where
  "hexDigit c = (if isDecimal c then charCode c - 48 else lowerCode c - 97 + 10)"

definition isHexPrefix :: "string \<Rightarrow> bool" where
  "isHexPrefix s \<longleftrightarrow> (case s of c # d # _ \<Rightarrow> c = CHR ''0'' \<and> lowerCode d = 120 | _ \<Rightarrow> False)"

definition digitsOf :: "nat \<Rightarrow> (char \<Rightarrow> nat) \<Rightarrow> string \<Rightarrow> u32" where
  "digitsOf radix digit s = fold (\<lambda>c result. result * word_of_nat radix + word_of_nat (digit c)) s 0"

text \<open>The instance of \<open>string_to_integer\<close> for \<open>unsigned int\<close>. Overflow is seen from the number of digits.\<close>

definition decimalOverflow :: "string \<Rightarrow> u32 \<Rightarrow> bool" where
  "decimalOverflow digits result \<longleftrightarrow>
     10 \<le> length digits \<and>
     \<not> (length digits = 10 \<and>
        (charCode (hd digits) < 52 \<or> charCode (hd digits) = 52 \<and> drop_bit 31 result \<noteq> 0))"

definition string_to_integer :: "u32 \<Rightarrow> u32 \<Rightarrow> string \<Rightarrow> u32" where
  "string_to_integer minv maxv value =
     (let s = dropWhile isXmlSpace value;
          negative = (s \<noteq> [] \<and> hd s = CHR ''-'');
          s = (if s \<noteq> [] \<and> (hd s = CHR ''+'' \<or> hd s = CHR ''-'') then tl s else s);
          (overflow, result) =
            (if isHexPrefix s
             then let digits = takeWhile (\<lambda>c. isDecimal c \<or> isHexLetter c) (dropWhile (\<lambda>c. c = CHR ''0'') (drop 2 s))
                  in (length digits > 8, digitsOf 16 hexDigit digits)
             else let digits = takeWhile isDecimal (dropWhile (\<lambda>c. c = CHR ''0'') s);
                      result = digitsOf 10 (\<lambda>c. charCode c - 48) digits
                  in (decimalOverflow digits result, result))
      in if negative then (if overflow \<or> result > 0 - minv then minv else 0 - result)
         else (if overflow \<or> result > maxv then maxv else result))"

definition get_value_uint :: "string \<Rightarrow> u32" where
  "get_value_uint value = string_to_integer 0 0xffffffff value"

definition xml_as_uint :: "u32 \<Rightarrow> ArxmlNode \<Rightarrow> u32" where
  "xml_as_uint def node = (case xml_text_data node of None \<Rightarrow> def | Some d \<Rightarrow> get_value_uint (nodeValue d))"

section \<open>The reader\<close>

text \<open>\<open>Arxml_GetValue\<close> for an integer type reads an \<open>unsigned int\<close> and casts it.\<close>

definition Arxml_GetValue :: "ArxmlNode \<Rightarrow> 'w::len word" where
  "Arxml_GetValue node = ucast (xml_as_uint 0 node)"

definition Arxml_GetString :: "ArxmlNode \<Rightarrow> string" where
  "Arxml_GetString node = xml_as_string [] node"

definition GetShortName :: "ArxmlNode \<Rightarrow> string" where
  "GetShortName node = xml_as_string [] (xml_child ''SHORT-NAME'' node)"

definition TryGetReference :: "string \<Rightarrow> string \<Rightarrow> ArxmlNode \<Rightarrow> string option" where
  "TryGetReference sourceNode destinationType node =
     (let child = xml_child sourceNode node;
          actualType = (case xml_attribute ''DEST'' child of Some value \<Rightarrow> value | None \<Rightarrow> [])
      in if destinationType = actualType then Some (xml_as_string [] child) else None)"

text \<open>What a load of the library reports, and the library.\<close>

record XmlParseResult =
  statusOk :: bool
  encodingUtf8 :: bool
  parsedNodes :: "XmlNode list"

record XmlLib =
  load_file :: "string \<Rightarrow> XmlParseResult"
  load_buffer :: "string \<Rightarrow> XmlParseResult"
  isVersionOne :: "string \<Rightarrow> bool"
  printNode :: "XmlNode \<Rightarrow> string"

text \<open>A reader is its document node.\<close>

type_synonym ArxmlReader = XmlNode

definition xmlDocument :: "XmlNode list \<Rightarrow> XmlNode" where
  "xmlDocument nodes = XmlElement [] [] nodes"

definition Arxml_validate :: "XmlLib \<Rightarrow> XmlParseResult \<Rightarrow> bool" where
  "Arxml_validate lib parseResult =
     (if statusOk parseResult \<and> encodingUtf8 parseResult
      then (case xml_child ''xml'' (Some (xmlDocument (parsedNodes parseResult))) of
              Some (XmlDeclaration attributes) \<Rightarrow>
                (case map_of attributes ''version'' of Some version \<Rightarrow> isVersionOne lib version | None \<Rightarrow> False)
            | _ \<Rightarrow> True)
      else False)"

definition readerOf :: "XmlLib \<Rightarrow> XmlParseResult \<Rightarrow> ArxmlReader res" where
  "readerOf lib parseResult =
     (if Arxml_validate lib parseResult then Inr (xmlDocument (parsedNodes parseResult)) else Inl Invalid_argument)"

definition ArxmlReader_file :: "XmlLib \<Rightarrow> string \<Rightarrow> ArxmlReader res" where
  "ArxmlReader_file lib filePath = readerOf lib (load_file lib filePath)"

definition ArxmlReader_content :: "XmlLib \<Rightarrow> string \<Rightarrow> ArxmlReader res" where
  "ArxmlReader_content lib content = readerOf lib (load_buffer lib content)"

definition GetRootNode :: "string list \<Rightarrow> ArxmlReader \<Rightarrow> ArxmlNode" where
  "GetRootNode children reader = fold xml_child children (Some reader)"

definition GetNodes :: "string list \<Rightarrow> ArxmlReader \<Rightarrow> XmlNode list" where
  "GetNodes children reader = xml_children (fold xml_child children (Some reader))"

definition GetContent :: "XmlLib \<Rightarrow> ArxmlNode \<Rightarrow> string" where
  "GetContent lib node = (case node of Some n \<Rightarrow> printNode lib n | None \<Rightarrow> [])"

section \<open>Network and RPC configurations\<close>

definition cElementsPath :: "string list" where
  "cElementsPath = [''AUTOSAR'', ''AR-PACKAGES'', ''AR-PACKAGE'', ''ELEMENTS'']"

definition cIpAddressShallowChildren :: "string list" where
  "cIpAddressShallowChildren = cElementsPath @
     [''COMMUNICATION-CLUSTER'', ''ETHERNET-PHYSICAL-CHANNEL'', ''NETWORK-ENDPOINTS'']"

definition cIpAddressDeepChildren :: "string list" where
  "cIpAddressDeepChildren =
     [''NETWORK-ENDPOINT'', ''NETWORK-ENDPOINT-ADDRESSES'', ''IPV-4-CONFIGURATION'', ''IPV-4-ADDRESS'']"

definition cPortNumberShallowChildren :: "string list" where
  "cPortNumberShallowChildren = cElementsPath @ [''ETHERNET-COMMUNICATION-CONNECTOR'', ''AP-APPLICATION-ENDPOINTS'']"

definition cTcpPortNumberDeepChildren :: "string list" where
  "cTcpPortNumberDeepChildren =
     [''AP-APPLICATION-ENDPOINT'', ''TP-CONFIGURATION'', ''TCP-TP'', ''TCP-TP-PORT'', ''PORT-NUMBER'']"

definition cUdpPortNumberDeepChildren :: "string list" where
  "cUdpPortNumberDeepChildren =
     [''AP-APPLICATION-ENDPOINT'', ''TP-CONFIGURATION'', ''UDP-TP'', ''UDP-TP-PORT'', ''PORT-NUMBER'']"

definition cProtocolVersionShallowChildren :: "string list" where
  "cProtocolVersionShallowChildren = cElementsPath @ [''COMMUNICATION-CLUSTER'', ''PROTOCOL-VERSION'']"

fun extractDeep ::
    "XmlLib \<Rightarrow> string list \<Rightarrow> string \<Rightarrow> (ArxmlNode \<Rightarrow> 'v) \<Rightarrow> XmlNode list \<Rightarrow> 'v option res" where
  "extractDeep lib deepChildren shortNameFilter getValue [] = Inr None"
| "extractDeep lib deepChildren shortNameFilter getValue (node # nodes) =
     (if shortNameFilter = [] then Inr (Some (getValue (Some node)))
      else if GetShortName (Some node) = shortNameFilter
      then bindR (ArxmlReader_content lib (GetContent lib (Some node)))
             (\<lambda>deepReader. Inr (Some (getValue (GetRootNode deepChildren deepReader))))
      else extractDeep lib deepChildren shortNameFilter getValue nodes)"

definition TryExtractDeepValue ::
    "XmlLib \<Rightarrow> ArxmlReader \<Rightarrow> string list \<Rightarrow> string list \<Rightarrow> string \<Rightarrow> (ArxmlNode \<Rightarrow> 'v) \<Rightarrow> 'v option res" where
  "TryExtractDeepValue lib shallowReader shallowChildren deepChildren shortNameFilter getValue =
     extractDeep lib deepChildren shortNameFilter getValue (GetNodes shallowChildren shallowReader)"

record NetworkConfiguration =
  ipAddress :: string
  portNumber :: u16

fun portPath :: "Layer4ProtocolType \<Rightarrow> string list option" where
  "portPath Tcp = Some cTcpPortNumberDeepChildren"
| "portPath Udp = Some cUdpPortNumberDeepChildren"
| "portPath (L4Other _) = None"

definition TryGetNetworkConfiguration ::
    "XmlLib \<Rightarrow> ArxmlReader \<Rightarrow> string \<Rightarrow> string \<Rightarrow> Layer4ProtocolType \<Rightarrow> ('x NetworkConfiguration_scheme) \<Rightarrow>
     (bool \<times> 'x NetworkConfiguration_scheme) res" where
  "TryGetNetworkConfiguration lib reader networkEndpoint applicationEndpoint protocol configuration =
     bindR (TryExtractDeepValue lib reader cIpAddressShallowChildren cIpAddressDeepChildren networkEndpoint Arxml_GetString)
       (\<lambda>address. case address of
          None \<Rightarrow> Inr (False, configuration)
        | Some address \<Rightarrow>
            (case portPath protocol of
               None \<Rightarrow> Inr (False, configuration)
             | Some deepChildren \<Rightarrow>
                 bindR (TryExtractDeepValue lib reader cPortNumberShallowChildren deepChildren applicationEndpoint
                          Arxml_GetValue)
                   (\<lambda>port. case port of
                      None \<Rightarrow> Inr (False, configuration)
                    | Some port \<Rightarrow>
                        Inr (True, configuration\<lparr> ipAddress := address, portNumber := port \<rparr>))))"

definition TryGetNetworkConfiguration_file ::
    "XmlLib \<Rightarrow> string \<Rightarrow> string \<Rightarrow> string \<Rightarrow> Layer4ProtocolType \<Rightarrow> NetworkConfiguration \<Rightarrow>
     (bool \<times> NetworkConfiguration) res" where
  "TryGetNetworkConfiguration_file lib configFilepath networkEndpoint applicationEndpoint protocol configuration =
     bindR (ArxmlReader_file lib configFilepath) (\<lambda>reader.
       TryGetNetworkConfiguration lib reader networkEndpoint applicationEndpoint protocol configuration)"

record RpcConfiguration = NetworkConfiguration +
  protocolVersion :: u8

text \<open>Whether the network configuration was found is not looked at.\<close>

definition TryGetRpcConfiguration ::
    "XmlLib \<Rightarrow> string \<Rightarrow> string \<Rightarrow> string \<Rightarrow> RpcConfiguration \<Rightarrow> (bool \<times> RpcConfiguration) res" where
  "TryGetRpcConfiguration lib configFilepath networkEndpoint applicationEndpoint configuration =
     bindR (ArxmlReader_file lib configFilepath) (\<lambda>reader.
     bindR (TryGetNetworkConfiguration lib reader networkEndpoint applicationEndpoint Tcp configuration)
       (\<lambda>(_, configuration).
     bindR (TryExtractDeepValue lib reader cProtocolVersionShallowChildren [] [] Arxml_GetValue) (\<lambda>version.
       case version of
         None \<Rightarrow> Inr (False, configuration)
       | Some version \<Rightarrow> Inr (True, configuration\<lparr> protocolVersion := version \<rparr>))))"

section \<open>Reading decimal numbers\<close>

definition decimalValue :: "string \<Rightarrow> nat" where
  "decimalValue s = fold (\<lambda>c value. value * 10 + (charCode c - 48)) s 0"

lemma decimal_fold: "fold (\<lambda>c value. value * 10 + (charCode c - 48)) s k = k * 10 ^ length s + decimalValue s"
proof (induction s arbitrary: k)
  case (Cons c s)
  show ?case
    using Cons [of "k * 10 + (charCode c - 48)"] Cons [of "charCode c - 48"]
    by (simp add: decimalValue_def algebra_simps)
qed (simp add: decimalValue_def)

lemma decimalValue_Cons: "decimalValue (c # s) = (charCode c - 48) * 10 ^ length s + decimalValue s"
  using decimal_fold [of s "charCode c - 48"] by (simp add: decimalValue_def)

lemma decimalValue_less: "list_all isDecimal s \<Longrightarrow> decimalValue s < 10 ^ length s"
proof (induction s)
  case (Cons c s)
  then have "charCode c - 48 \<le> 9" "decimalValue s < 10 ^ length s" by (auto simp: isDecimal_def)
  then have "(charCode c - 48) * 10 ^ length s + decimalValue s < 9 * 10 ^ length s + 10 ^ length s"
    by (meson add_le_less_mono mult_le_mono1)
  then show ?case by (simp add: decimalValue_Cons)
qed (simp add: decimalValue_def)

lemma decimalValue_zeros: "decimalValue (dropWhile (\<lambda>c. c = CHR ''0'') s) = decimalValue s"
  by (induction s) (auto simp: decimalValue_Cons charCode_def)

lemma digitsOf_decimal: "digitsOf 10 (\<lambda>c. charCode c - 48) s = word_of_nat (decimalValue s)"
proof -
  have "fold (\<lambda>c result. result * word_of_nat 10 + word_of_nat (charCode c - 48)) s (word_of_nat k) =
      (word_of_nat (fold (\<lambda>c value. value * 10 + (charCode c - 48)) s k) :: u32)" for k
  proof (induction s arbitrary: k)
    case (Cons c s)
    have "word_of_nat k * word_of_nat 10 + word_of_nat (charCode c - 48) =
        (word_of_nat (k * 10 + (charCode c - 48)) :: u32)"
      by (simp only: of_nat_add of_nat_mult)
    then show ?case using Cons [of "k * 10 + (charCode c - 48)"] by (simp only: fold_simps)
  qed simp
  from this [of 0] show ?thesis by (simp add: digitsOf_def decimalValue_def)
qed

lemma unat_high_bit: "drop_bit 31 (w :: u32) \<noteq> 0 \<longleftrightarrow> 2 ^ 31 \<le> unat w"
proof -
  have "unat (drop_bit 31 w) = unat w div 2 ^ 31" by (simp only: unat_drop_bit_eq) (simp only: drop_bit_eq_div)
  moreover have "drop_bit 31 w = 0 \<longleftrightarrow> unat (drop_bit 31 w) = 0" by (simp only: unat_eq_zero)
  ultimately show ?thesis by (simp add: div_eq_0_iff not_less)
qed

text \<open>The overflow that is guessed from the digits is an overflow.\<close>

lemma decimalOverflow_iff:
  assumes "list_all isDecimal s" "s \<noteq> [] \<Longrightarrow> hd s \<noteq> CHR ''0''"
  shows "decimalOverflow s (word_of_nat (decimalValue s)) \<longleftrightarrow> 2 ^ 32 \<le> decimalValue s"
proof (cases s)
  case (Cons c t)
  define l where "l = charCode c - 48"
  have code: "charCode c = l + 48" "l \<le> 9" using assms(1) Cons by (auto simp: isDecimal_def l_def)
  have "charCode c \<noteq> 48"
  proof
    assume "charCode c = 48"
    then have "char_of (of_char c :: nat) = (char_of (48 :: nat) :: char)" by (simp add: charCode_def)
    then have "c = char_of (48 :: nat)" by (metis char_of_char)
    then show False using assms(2) Cons by (simp add: char_of_def bit_simps)
  qed
  then have l1: "1 \<le> l" using code by auto
  have d: "decimalValue t < 10 ^ length t" using decimalValue_less [of t] assms(1) Cons by simp
  then have v: "l * 10 ^ length t \<le> decimalValue s" "decimalValue s < (l + 1) * 10 ^ length t"
    by (simp_all add: Cons decimalValue_Cons l_def)
  consider "length t < 9" | "length t = 9" | "9 < length t" by linarith
  then show ?thesis
  proof cases
    case 1
    have "decimalValue s < 10 ^ length s" using decimalValue_less assms(1) by blast
    also have "\<dots> \<le> 10 ^ 9" by (rule power_increasing) (use 1 Cons in auto)
    finally show ?thesis using 1 Cons by (simp add: decimalOverflow_def)
  next
    case 2
    have r: "drop_bit 31 (word_of_nat (decimalValue s) :: u32) \<noteq> 0 \<longleftrightarrow> 2 ^ 31 \<le> decimalValue s mod 2 ^ 32"
      unfolding unat_high_bit by (simp only: unat_of_nat take_bit_eq_mod) simp
    show ?thesis
    proof (cases "l = 4")
      case True
      then have b: "4000000000 \<le> decimalValue s" "decimalValue s < 5000000000" using v 2 by simp_all
      show ?thesis
      proof (cases "decimalValue s < 2 ^ 32")
        case True
        then show ?thesis using b r 2 Cons code \<open>l = 4\<close> by (simp add: decimalOverflow_def)
      next
        case False
        then have "decimalValue s mod 2 ^ 32 = decimalValue s - 2 ^ 32"
          using b by (simp add: mod_if)
        then show ?thesis using b r False 2 Cons code \<open>l = 4\<close> by (simp add: decimalOverflow_def)
      qed
    next
      case False
      then consider "l \<le> 3" | "5 \<le> l" by linarith
      then show ?thesis
      proof cases
        case 1
        then have "(l + 1) * 10 ^ 9 \<le> (4 * 10 ^ 9 :: nat)" by simp
        then show ?thesis using v 2 1 Cons code by (simp add: decimalOverflow_def)
      next
        case 2
        then have "(5 * 10 ^ 9 :: nat) \<le> l * 10 ^ 9" by simp
        then show ?thesis using v 2 \<open>length t = 9\<close> Cons code by (simp add: decimalOverflow_def)
      qed
    qed
  next
    case 3
    have "(10 :: nat) ^ 10 \<le> 10 ^ length t" by (rule power_increasing) (use 3 in auto)
    also have "\<dots> \<le> l * 10 ^ length t" using l1 by simp
    finally show ?thesis using v 3 Cons by (simp add: decimalOverflow_def)
  qed
qed (simp add: decimalOverflow_def decimalValue_def)

lemma takeWhile_all: "list_all P s \<Longrightarrow> takeWhile P s = s"
  by (induction s) auto

lemma list_all_dropWhile: "list_all P s \<Longrightarrow> list_all P (dropWhile Q s)"
  by (induction s) auto

lemma digit_no_space: "isDecimal c \<Longrightarrow> \<not> isXmlSpace c \<and> c \<noteq> CHR ''+'' \<and> c \<noteq> CHR ''-''"
  by (auto simp: isDecimal_def isXmlSpace_def charCode_def)

lemma digits_no_hex: "list_all isDecimal s \<Longrightarrow> \<not> isHexPrefix s"
proof
  assume "list_all isDecimal s" "isHexPrefix s"
  then obtain d where d: "isDecimal d" "lowerCode d = 120"
    by (auto simp: isHexPrefix_def split: list.splits)
  then have d: "charCode d < 64" "charCode d OR 32 = 120" by (auto simp: isDecimal_def lowerCode_def)
  then have "\<not> bit (charCode d) 6" by (simp add: bit_iff_odd)
  then have "\<not> bit (charCode d OR 32) 6" by (simp add: bit_or_iff bit_iff_odd [of 32])
  moreover have "bit (120 :: nat) 6" by (simp add: bit_iff_odd)
  ultimately show False using d(2) by simp
qed

lemma get_value_uint_decimal:
  assumes "list_all isDecimal s"
  shows "get_value_uint s = word_of_nat (min (decimalValue s) (2 ^ 32 - 1))"
proof -
  let ?d = "dropWhile (\<lambda>c. c = CHR ''0'') s"
  have sp: "dropWhile isXmlSpace s = s"
    using assms by (cases s) (auto dest: digit_no_space)
  have sg: "\<not> (s \<noteq> [] \<and> (hd s = CHR ''+'' \<or> hd s = CHR ''-''))" "\<not> (s \<noteq> [] \<and> hd s = CHR ''-'')"
    using assms by (cases s; auto dest: digit_no_space)+
  have d: "list_all isDecimal ?d" "takeWhile isDecimal ?d = ?d"
    using assms by (simp_all add: list_all_dropWhile takeWhile_all)
  have ov: "decimalOverflow ?d (word_of_nat (decimalValue s)) \<longleftrightarrow> 2 ^ 32 \<le> decimalValue s"
    using decimalOverflow_iff [OF d(1)] hd_dropWhile [of "\<lambda>c. c = CHR ''0''" s] by (simp add: decimalValue_zeros)
  have "\<not> isHexPrefix s" by (rule digits_no_hex [OF assms])
  moreover have "\<not> 0xffffffff < w" for w :: u32
    using unsigned_less [of w, where ?'a = nat] by (simp add: not_less word_le_nat_alt)
  ultimately have "get_value_uint s =
      (if 2 ^ 32 \<le> decimalValue s then 0xffffffff else word_of_nat (decimalValue s))"
    using sg by (simp only: get_value_uint_def string_to_integer_def sp Let_def d(2) digitsOf_decimal decimalValue_zeros
        ov prod.case if_False if_True) simp
  then show ?thesis by (simp add: min_def)
qed

text \<open>C36: numbers of a manifest.\<close>

theorem manifest_number:
  assumes "list_all isDecimal s" "node = XmlElement name attributes (XmlText s # rest)"
  shows "(Arxml_GetValue (Some node) :: 'w::len word) = word_of_nat (min (decimalValue s) (2 ^ 32 - 1))"
proof -
  have "take_bit 32 (min (decimalValue s) 4294967295) = min (decimalValue s) 4294967295"
    by (simp add: take_bit_nat_eq_self_iff)
  then show ?thesis
    using get_value_uint_decimal [OF assms(1)] assms(2)
    by (simp add: Arxml_GetValue_def xml_as_uint_def xml_text_data_def unsigned_of_nat)
qed

theorem manifest_number_witness:
  "(Arxml_GetValue (Some (XmlElement ''GID'' [] [XmlText ''5000000000''])) :: u64) = 4294967295 \<and>
   (Arxml_GetValue (Some (XmlElement ''PORT-NUMBER'' [] [XmlText ''65616''])) :: u16) = 80"
proof -
  have d: "list_all isDecimal ''5000000000''" "list_all isDecimal ''65616''"
    by (simp_all add: isDecimal_def charCode_def)
  have v: "decimalValue ''5000000000'' = 5000000000" "decimalValue ''65616'' = 65616"
    by (simp_all add: decimalValue_def charCode_def)
  show ?thesis
    using manifest_number [OF d(1) refl, of "''GID''" "[]" "[]", where 'w = 64]
      manifest_number [OF d(2) refl, of "''PORT-NUMBER''" "[]" "[]", where 'w = 16] v by simp
qed

section \<open>What is found\<close>

definition endpointNamed :: "string \<Rightarrow> XmlNode \<Rightarrow> bool" where
  "endpointNamed name node \<longleftrightarrow> GetShortName (Some node) = name"

text \<open>A node printed and parsed again.\<close>

definition readsBack :: "XmlLib \<Rightarrow> XmlNode \<Rightarrow> bool" where
  "readsBack lib node \<longleftrightarrow> ArxmlReader_content lib (printNode lib node) = Inr (xmlDocument [node])"

lemma extractDeep_find:
  "\<lbrakk> name \<noteq> []; list_all (readsBack lib) nodes \<rbrakk> \<Longrightarrow>
     extractDeep lib deep name getValue nodes =
       Inr (map_option (\<lambda>n. getValue (GetRootNode deep (xmlDocument [n]))) (find (endpointNamed name) nodes))"
  by (induction nodes) (simp_all add: readsBack_def GetContent_def endpointNamed_def)

text \<open>
  A configuration is found exactly when both endpoints are there by name. An endpoint without an address or
  without a port of the protocol counts as found: the address is then empty, the port zero.
\<close>

lemma network_configuration:
  assumes "networkEndpoint \<noteq> []" "applicationEndpoint \<noteq> []"
    and "list_all (readsBack lib) (GetNodes cIpAddressShallowChildren reader)"
    and "list_all (readsBack lib) (GetNodes cPortNumberShallowChildren reader)"
  shows "TryGetNetworkConfiguration lib reader networkEndpoint applicationEndpoint protocol configuration =
    Inr (case (find (endpointNamed networkEndpoint) (GetNodes cIpAddressShallowChildren reader),
               find (endpointNamed applicationEndpoint) (GetNodes cPortNumberShallowChildren reader), portPath protocol) of
           (Some n, Some a, Some deep) \<Rightarrow>
             (True, configuration\<lparr> ipAddress := Arxml_GetString (GetRootNode cIpAddressDeepChildren (xmlDocument [n])),
                                   portNumber := Arxml_GetValue (GetRootNode deep (xmlDocument [a])) \<rparr>)
         | _ \<Rightarrow> (False, configuration))"
  using assms
  by (auto simp: TryGetNetworkConfiguration_def TryExtractDeepValue_def extractDeep_find split: option.splits)

text \<open>Without a network configuration the RPC configuration is reported as found all the same.\<close>

lemma rpc_configuration_unchecked:
  assumes "ArxmlReader_file lib path = Inr reader"
    and "TryGetNetworkConfiguration lib reader networkEndpoint applicationEndpoint Tcp configuration = Inr (False, configuration)"
    and "GetNodes cProtocolVersionShallowChildren reader = node # nodes"
  shows "TryGetRpcConfiguration lib path networkEndpoint applicationEndpoint configuration =
    Inr (True, configuration\<lparr> protocolVersion := Arxml_GetValue (Some node) \<rparr>)"
  using assms by (simp add: TryGetRpcConfiguration_def TryExtractDeepValue_def)

text \<open>
  An instance of the library for a manifest: it prints names and texts, and parses exactly what it has printed of the
  given parts.
\<close>

fun plainPrint :: "XmlNode \<Rightarrow> string" where
  "plainPrint (XmlElement name attributes children) = name @ concat (map plainPrint children)"
| "plainPrint (XmlText text) = text"
| "plainPrint (XmlDeclaration attributes) = []"

definition instanceLib :: "XmlNode list \<Rightarrow> XmlNode list \<Rightarrow> XmlLib" where
  "instanceLib manifest parts =
     \<lparr> load_file = (\<lambda>_. \<lparr> statusOk = True, encodingUtf8 = True, parsedNodes = manifest \<rparr>),
       load_buffer = (\<lambda>text. \<lparr> statusOk = True, encodingUtf8 = True,
         parsedNodes = filter (\<lambda>node. plainPrint node = text) parts \<rparr>),
       isVersionOne = (\<lambda>_. True), printNode = plainPrint \<rparr>"

definition textElement :: "string \<Rightarrow> string \<Rightarrow> XmlNode" where
  "textElement name text = XmlElement name [] [XmlText text]"

section \<open>Arguments of the program\<close>

definition cConfigArgument :: string where "cConfigArgument = ''config''"
definition cEvConfigArgument :: string where "cEvConfigArgument = ''evconfig''"
definition cDmConfigArgument :: string where "cDmConfigArgument = ''dmconfig''"
definition cPhmConfigArgument :: string where "cPhmConfigArgument = ''phmconfig''"
definition cWatchdogConfigArgument :: string where "cWatchdogConfigArgument = ''watchdogconfig''"
definition cApiKeyArgument :: string where "cApiKeyArgument = ''vccapikey''"
definition cBearerTokenArgument :: string where "cBearerTokenArgument = ''bearertoken''"

type_synonym arguments = "string \<rightharpoonup> string"

text \<open>The path up to its last separator, a slash or a backslash (character 92).\<close>

definition directoryOf :: "string \<Rightarrow> string" where
  "directoryOf path = rev (dropWhile (\<lambda>c. c \<noteq> CHR ''/'' \<and> charCode c \<noteq> 92) (rev path))"

text \<open>\<open>argv\<close> with the name of the program.\<close>

definition newArgumentConfiguration ::
    "string list \<Rightarrow> string \<Rightarrow> string \<Rightarrow> string \<Rightarrow> string \<Rightarrow> string \<Rightarrow> arguments" where
  "newArgumentConfiguration argv defaultConfigFile extendedVehicleConfigFile diagnosticManagerConfigFile
      healthMonitoringConfigFile watchdogConfigFile =
     (if length argv > 4
      then [cConfigArgument \<mapsto> argv ! 1, cEvConfigArgument \<mapsto> argv ! 2, cDmConfigArgument \<mapsto> argv ! 3,
            cPhmConfigArgument \<mapsto> argv ! 4,
            cWatchdogConfigArgument \<mapsto>
              (if length argv > 5 then argv ! 5 else directoryOf (argv ! 1) @ ''watchdog_manifest.arxml'')]
      else [cConfigArgument \<mapsto> defaultConfigFile, cEvConfigArgument \<mapsto> extendedVehicleConfigFile,
            cDmConfigArgument \<mapsto> diagnosticManagerConfigFile, cPhmConfigArgument \<mapsto> healthMonitoringConfigFile,
            cWatchdogConfigArgument \<mapsto> watchdogConfigFile])"

text \<open>\<open>echoOff\<close>, \<open>echoOn\<close>: whether the terminal mode could be set; \<open>input\<close>: the word that is read.\<close>

definition tryAskSafely :: "bool \<Rightarrow> string \<Rightarrow> bool \<Rightarrow> string \<Rightarrow> arguments \<Rightarrow> bool \<times> arguments" where
  "tryAskSafely echoOff input echoOn argumentKey arguments =
     (if echoOff
      then (let arguments = arguments(argumentKey \<mapsto> input)
            in if echoOn then (True, arguments) else (False, arguments(argumentKey := None)))
      else (False, arguments))"

definition SetDemoMode :: "arguments \<Rightarrow> arguments" where
  "SetDemoMode arguments = arguments(cApiKeyArgument \<mapsto> [], cBearerTokenArgument \<mapsto> [])"

lemma arguments_complete:
  "cConfigArgument \<in> dom (newArgumentConfiguration argv a b c d e)"
  "cEvConfigArgument \<in> dom (newArgumentConfiguration argv a b c d e)"
  "cDmConfigArgument \<in> dom (newArgumentConfiguration argv a b c d e)"
  "cPhmConfigArgument \<in> dom (newArgumentConfiguration argv a b c d e)"
  "cWatchdogConfigArgument \<in> dom (newArgumentConfiguration argv a b c d e)"
  by (simp_all add: newArgumentConfiguration_def)

end
