(* ===== verification/VehicleStatus.thy ===== *)
theory VehicleStatus
  imports Arxml SdServer SdNetwork
begin

text \<open>
  \<open>src-gen/vehicle_status\<close>: the data of the vehicle status event, its skeleton, which offers the service and
  publishes, and its proxy, which subscribes and receives. Both are configured from a manifest.
\<close>

section \<open>The data\<close>

record VehicleStatusData =
  Vin :: string
  ConnectedToCloud :: bool
  SenderInstanceId :: u8

definition cVinLength :: nat where "cVinLength = 17"
definition cPayloadSize :: nat where "cPayloadSize = 19"

definition Vsd_Serialize :: "VehicleStatusData \<Rightarrow> bytes" where
  "Vsd_Serialize data =
     (let payload = replicate cPayloadSize 0;
          copyLen = (if length (Vin data) < cVinLength then length (Vin data) else cVinLength);
          payload = take copyLen (stringBytes (Vin data)) @ drop copyLen payload;
          payload = payload[cVinLength := (if ConnectedToCloud data then 1 else 0)]
      in payload[cVinLength + 1 := SenderInstanceId data])"

text \<open>The loop that looks for the end of the VIN.\<close>

function vinEnd :: "bytes \<Rightarrow> nat \<Rightarrow> nat res" where
  "vinEnd payload i =
     (if i < cVinLength then bindR (subscript payload i) (\<lambda>b. if b = 0 then Inr i else vinEnd payload (i + 1))
      else Inr cVinLength)"
  by pat_completeness auto
termination by (relation "measure (\<lambda>(payload, i). cVinLength - i)") auto

declare vinEnd.simps [simp del]

definition Vsd_Deserialize :: "bytes \<Rightarrow> VehicleStatusData res" where
  "Vsd_Deserialize payload =
     bindR (vinEnd payload 0) (\<lambda>end.
     bindR (subscript payload cVinLength) (\<lambda>connected.
     bindR (subscript payload (cVinLength + 1)) (\<lambda>sender.
       Inr \<lparr> Vin = bytesString (take end payload), ConnectedToCloud = connected \<noteq> 0, SenderInstanceId = sender \<rparr>)))"

section \<open>The skeleton\<close>

definition cTelematicEventId :: u16 where "cTelematicEventId = 0x8001"

record VehicleStatusSkeleton =
  vsNetworkLayer :: "unit SdNetworkLayer"
  vsSdServer :: "SdServer option"
  vsPubSubServer :: PubSubServer
  vsInstanceId :: u16

definition cProvided :: "string list" where
  "cProvided = cElementsPath @ [''PROVIDED-SOMEIP-SERVICE-INSTANCE'']"

definition cNicIpPath :: "string list" where
  "cNicIpPath = cIpAddressShallowChildren @ cIpAddressDeepChildren"

text \<open>
  The peers: the children of the first peer element, with their text. \<open>Arxml_GetValue\<close> for a signed integer casts
  the unsigned value.
\<close>

definition unicastPeers :: "string list \<Rightarrow> ArxmlReader \<Rightarrow> string list" where
  "unicastPeers path reader =
     filter (\<lambda>ip. ip \<noteq> []) (map (\<lambda>node. Arxml_GetString (Some node))
       (GetNodes (path @ [''UNICAST-PEERS'', ''UNICAST-PEER'']) reader))"

definition Arxml_GetInt :: "ArxmlNode \<Rightarrow> int" where
  "Arxml_GetInt node = sint (xml_as_uint 0 node)"

text \<open>\<open>sdSocket\<close>, \<open>eventSocket\<close>: whether the sockets of the two layers can be set up.\<close>

definition Vss_configureFromManifest ::
    "XmlLib \<Rightarrow> bool \<Rightarrow> bool \<Rightarrow> int \<Rightarrow> string \<Rightarrow> VehicleStatusSkeleton res" where
  "Vss_configureFromManifest lib sdSocket eventSocket uninitialised manifestPath =
     bindR (ArxmlReader_file lib manifestPath) (\<lambda>reader.
     let group = cProvided @ [''PROVIDED-EVENT-GROUPS'', ''SOMEIP-PROVIDED-EVENT-GROUP''];
         deployment = cProvided @ [''SERVICE-INTERFACE-DEPLOYMENT''];
         behavior = cProvided @ [''SD-SERVER-CONFIG'', ''INITIAL-OFFER-BEHAVIOR''];
         multicastPort = Arxml_GetValue (GetRootNode (group @ [''EVENT-MULTICAST-UDP-PORT'']) reader);
         multicastIp = Arxml_GetString (GetRootNode (group @ [''IPV-4-MULTICAST-IP-ADDRESS'']) reader);
         peers = unicastPeers (cProvided @ [''SD-SERVER-CONFIG'']) reader
     in bindR (newSdNetworkLayer sdSocket multicastIp multicastPort peers) (\<lambda>networkLayer.
     let serviceId = Arxml_GetValue (GetRootNode (deployment @ [''SERVICE-INTERFACE-ID'']) reader);
         instanceId = Arxml_GetValue (GetRootNode (cProvided @ [''SERVICE-INSTANCE-ID'']) reader);
         majorVersion = Arxml_GetValue (GetRootNode (deployment @ [''SERVICE-INTERFACE-VERSION'', ''MAJOR-VERSION'']) reader);
         minorVersion = Arxml_GetValue (GetRootNode (deployment @ [''SERVICE-INTERFACE-VERSION'', ''MINOR-VERSION'']) reader);
         initialDelayMin = Arxml_GetInt (GetRootNode (behavior @ [''INITIAL-DELAY-MIN-VALUE'']) reader);
         initialDelayMax = Arxml_GetInt (GetRootNode (behavior @ [''INITIAL-DELAY-MAX-VALUE'']) reader);
         unicastIp = Arxml_GetString (GetRootNode cNicIpPath reader);
         unicastPort = Arxml_GetValue (GetRootNode (cPortNumberShallowChildren @ cTcpPortNumberDeepChildren) reader)
     in bindR (Ipv4_ofString unicastIp) (\<lambda>unicastAddress.
        bindR (newSdServer serviceId instanceId majorVersion minorVersion unicastAddress unicastPort
                 initialDelayMin initialDelayMax 30 1000 3) (\<lambda>sdServer.
        bindR (Ipv4_ofString multicastIp) (\<lambda>multicastAddress.
        let eventGroupId = Arxml_GetValue (GetRootNode (group @ [''EVENT-GROUP-ID'']) reader);
            pubSubServer = newPubSubServer serviceId instanceId majorVersion eventGroupId multicastAddress
                             multicastPort uninitialised
        in if eventSocket
           then Inr \<lparr> vsNetworkLayer = networkLayer, vsSdServer = Some sdServer,
                      vsPubSubServer = SetEventLayer pubSubServer (Some newQueue), vsInstanceId = instanceId \<rparr>
           else Inl Runtime_error)))))"

definition Vss_OfferService :: "VehicleStatusSkeleton \<Rightarrow> VehicleStatusSkeleton res" where
  "Vss_OfferService sk =
     (let sk = sk\<lparr> vsPubSubServer := Pub_Start (vsPubSubServer sk) \<rparr>
      in case vsSdServer sk of
           None \<Rightarrow> Inr sk
         | Some server \<Rightarrow> bindR (Sd_Start server) (\<lambda>server. Inr (sk\<lparr> vsSdServer := Some server \<rparr>)))"

text \<open>The server is destroyed, which stops it; it is returned as it was stopped.\<close>

definition Vss_StopOfferService :: "VehicleStatusSkeleton \<Rightarrow> VehicleStatusSkeleton \<times> SdServer option" where
  "Vss_StopOfferService sk =
     (sk\<lparr> vsPubSubServer := Pub_Stop (vsPubSubServer sk), vsSdServer := None \<rparr>,
      map_option requestStop (vsSdServer sk))"

definition VehicleStatus_Send :: "VehicleStatusData \<Rightarrow> VehicleStatusSkeleton \<Rightarrow> VehicleStatusSkeleton" where
  "VehicleStatus_Send data sk =
     (let injected = data\<lparr> SenderInstanceId := ucast (vsInstanceId sk) \<rparr>
      in sk\<lparr> vsPubSubServer := Publish (vsPubSubServer sk) cTelematicEventId (Vsd_Serialize injected) \<rparr>)"

text \<open>After it was stopped the service can be started, but it is not offered any more.\<close>

lemma offer_after_stop:
  "Vss_OfferService (fst (Vss_StopOfferService sk)) =
     Inr (sk\<lparr> vsPubSubServer := Pub_Start (Pub_Stop (vsPubSubServer sk)), vsSdServer := None \<rparr>)"
  by (simp add: Vss_OfferService_def Vss_StopOfferService_def Let_def)

section \<open>The proxy\<close>

text \<open>The receive handler works on a state \<open>'s\<close>.\<close>

record 's VehicleStatusProxy =
  vpSdNetworkLayer :: "unit SdNetworkLayer"
  vpSdClient :: PubSubClient
  vpBindIp :: string
  mSelfInstanceId :: u16
  mPeerInstanceId :: u16
  mReceiveHandler :: "(VehicleStatusData \<Rightarrow> 's \<Rightarrow> 's) option"

definition cRequired :: "string list" where
  "cRequired = cElementsPath @ [''REQUIRED-SOMEIP-SERVICE-INSTANCE'']"

definition Vsp_configureFromManifest ::
    "XmlLib \<Rightarrow> bool \<Rightarrow> bool \<Rightarrow> string \<Rightarrow> 's VehicleStatusProxy res" where
  "Vsp_configureFromManifest lib sdSocket eventSocket manifestPath =
     bindR (ArxmlReader_file lib manifestPath) (\<lambda>reader.
     let group = cRequired @ [''REQUIRED-EVENT-GROUPS'', ''SOMEIP-REQUIRED-EVENT-GROUP''];
         deployment = cRequired @ [''SERVICE-INTERFACE-DEPLOYMENT''];
         serviceId = Arxml_GetValue (GetRootNode (deployment @ [''SERVICE-INTERFACE-ID'']) reader);
         instanceId = Arxml_GetValue (GetRootNode (cRequired @ [''SERVICE-INSTANCE-ID'']) reader);
         majorVersion = Arxml_GetValue (GetRootNode (deployment @ [''SERVICE-INTERFACE-VERSION'', ''MAJOR-VERSION'']) reader);
         eventGroupId = Arxml_GetValue (GetRootNode (group @ [''EVENT-GROUP-ID'']) reader);
         multicastIp = Arxml_GetString (GetRootNode (group @ [''IPV-4-MULTICAST-IP-ADDRESS'']) reader);
         multicastPort = Arxml_GetValue (GetRootNode (group @ [''EVENT-MULTICAST-UDP-PORT'']) reader);
         selfInstanceId = Arxml_GetValue (GetRootNode (cRequired @ [''WATCHDOG-INSTANCE-ID'']) reader);
         peers = unicastPeers (cRequired @ [''SD-CLIENT-CONFIG'']) reader
     in bindR (newSdNetworkLayer sdSocket multicastIp multicastPort peers) (\<lambda>networkLayer.
        let client = newPubSubClient 1;
            bindIp = (if peers = [] then multicastIp else ''0.0.0.0'')
        in if \<not> eventSocket then Inl Runtime_error
           else bindR (Subscribe serviceId instanceId majorVersion eventGroupId client) (\<lambda>message.
             Inr \<lparr> vpSdNetworkLayer = SdNet_Send message networkLayer, vpSdClient = client, vpBindIp = bindIp,
                   mSelfInstanceId = selfInstanceId, mPeerInstanceId = instanceId, mReceiveHandler = None \<rparr>)))"

text \<open>The callback of the event receiver.\<close>

definition Vsp_onEvent :: "'s VehicleStatusProxy \<Rightarrow> bytes \<Rightarrow> 's \<Rightarrow> 's res" where
  "Vsp_onEvent px raw st =
     (if length raw < cPayloadSize then Inr st
      else bindR (Vsd_Deserialize raw) (\<lambda>data.
        if SenderInstanceId data \<noteq> ucast (mPeerInstanceId px) then Inr st
        else (case mReceiveHandler px of Some handler \<Rightarrow> Inr (handler data st) | None \<Rightarrow> Inr st)))"

definition SetReceiveHandler ::
    "(VehicleStatusData \<Rightarrow> 's \<Rightarrow> 's) \<Rightarrow> 's VehicleStatusProxy \<Rightarrow> 's VehicleStatusProxy" where
  "SetReceiveHandler handler px = px\<lparr> mReceiveHandler := Some handler \<rparr>"

definition UnsetReceiveHandler :: "'s VehicleStatusProxy \<Rightarrow> 's VehicleStatusProxy" where
  "UnsetReceiveHandler px = px\<lparr> mReceiveHandler := None \<rparr>"

section \<open>The data on the wire\<close>

lemma Vsd_Serialize_bytes:
  "Vsd_Serialize data =
     take 17 (stringBytes (Vin data)) @ replicate (17 - length (Vin data)) 0 @
     [if ConnectedToCloud data then 1 else 0, SenderInstanceId data]"
proof -
  let ?zs = "take 17 (stringBytes (Vin data)) @ replicate (17 - length (Vin data)) 0"
  let ?k = "if length (Vin data) < 17 then length (Vin data) else 17"
  have "replicate (19 - ?k) (0 :: u8) = replicate ((17 - length (Vin data)) + 2) 0"
    by (rule arg_cong2 [of _ _ _ _ replicate]) auto
  also have "\<dots> = replicate (17 - length (Vin data)) 0 @ [0, 0]"
    by (simp only: replicate_add) (simp add: numeral_2_eq_2)
  finally have c: "take ?k (stringBytes (Vin data)) @ drop ?k (replicate 19 0) = ?zs @ [0, 0]"
    by (simp only: drop_replicate) simp
  have u: "(zs @ [0, 0])[17 := a, 18 := b] = zs @ [a, b]" if "length zs = 17" for zs and a b :: u8
    using that by (simp add: list_update_append)
  have "Vsd_Serialize data = (?zs @ [0, 0])[17 := if ConnectedToCloud data then 1 else 0, 18 := SenderInstanceId data]"
    by (simp only: Vsd_Serialize_def Let_def cVinLength_def cPayloadSize_def c) simp
  also have "\<dots> = ?zs @ [if ConnectedToCloud data then 1 else 0, SenderInstanceId data]"
    by (rule u) simp
  finally show ?thesis by simp
qed

lemma Vsd_Serialize_split:
  obtains zs where "length zs = 17"
    "Vsd_Serialize data = zs @ [if ConnectedToCloud data then 1 else 0, SenderInstanceId data]"
proof
  show "length (take 17 (stringBytes (Vin data)) @ replicate (17 - length (Vin data)) (0 :: u8)) = 17" by simp
qed (simp add: Vsd_Serialize_bytes)

lemma vinEnd_clean:
  assumes "length payload \<ge> 17" "n \<le> 17" "\<forall>i < n. payload ! i \<noteq> 0" "n < 17 \<Longrightarrow> payload ! n = 0" "i \<le> n"
  shows "vinEnd payload i = Inr n"
  using assms(5)
proof (induction "n - i" arbitrary: i)
  case 0
  then show ?case using assms(1,2,4) by (subst vinEnd.simps) (auto simp: cVinLength_def)
next
  case (Suc k)
  then have "vinEnd payload (i + 1) = Inr n" by simp
  then show ?case using Suc.hyps(2) assms(1-3) by (subst vinEnd.simps) (auto simp: cVinLength_def)
qed

text \<open>The VIN is cut at 17 characters and, when it is read, at its first NUL.\<close>

definition shownVin :: "string \<Rightarrow> string" where
  "shownVin vin = takeWhile (\<lambda>c. c \<noteq> CHR 0x00) (take 17 vin)"

lemma stringBytes_zero: "stringBytes s ! i = 0 \<longleftrightarrow> s ! i = CHR 0x00" if "i < length s"
proof -
  have "stringBytes s ! i = of_char (s ! i)" using that by (simp add: stringBytes_def)
  moreover have "(of_char c :: u8) = 0 \<longleftrightarrow> c = CHR 0x00" for c
  proof
    assume z: "(of_char c :: u8) = 0"
    have "[c] = bytesString (stringBytes [c])" by simp
    also have "\<dots> = bytesString [0]" by (simp only: stringBytes_def list.map z)
    also have "\<dots> = [CHR 0x00]" by (simp add: bytesString_def char_of_def)
    finally show "c = CHR 0x00" by simp
  qed simp
  ultimately show ?thesis by simp
qed

lemma Vsd_roundtrip:
  "Vsd_Deserialize (Vsd_Serialize data @ suf) = Inr (data\<lparr> Vin := shownVin (Vin data) \<rparr>)"
proof -
  let ?p = "Vsd_Serialize data @ suf" and ?n = "length (shownVin (Vin data))"
  have n: "?n \<le> 17" "?n \<le> length (Vin data)"
    using length_takeWhile_le [of "\<lambda>c. c \<noteq> CHR 0x00" "take 17 (Vin data)"] by (simp_all add: shownVin_def)
  have pre: "?p ! i = stringBytes (Vin data) ! i" if "i < 17" "i < length (Vin data)" for i
    using that by (simp add: Vsd_Serialize_bytes nth_append)
  have "?p ! i \<noteq> 0" if "i < ?n" for i
  proof -
    have "take 17 (Vin data) ! i \<noteq> CHR 0x00"
      using nth_mem [OF that] takeWhile_nth [of i "\<lambda>c. c \<noteq> CHR 0x00" "take 17 (Vin data)"] that
      by (auto simp: shownVin_def dest: set_takeWhileD)
    then show ?thesis using that n pre [of i] stringBytes_zero [of i "Vin data"] by simp
  qed
  moreover have "?p ! ?n = 0" if "?n < 17"
  proof (cases "?n < length (Vin data)")
    case True
    then have "Vin data ! ?n = CHR 0x00"
      using nth_length_takeWhile [of "\<lambda>c. c \<noteq> CHR 0x00" "take 17 (Vin data)"] that by (simp add: shownVin_def)
    then show ?thesis using pre [OF that True] stringBytes_zero [OF True] by simp
  next
    case False
    then show ?thesis using that n by (simp add: Vsd_Serialize_bytes nth_append)
  qed
  ultimately have "vinEnd ?p 0 = Inr ?n"
    using n by (intro vinEnd_clean) (simp_all add: Vsd_Serialize_bytes)
  moreover have "take ?n ?p = stringBytes (shownVin (Vin data))"
  proof -
    have "take ?n ?p = take ?n (stringBytes (Vin data))"
      using n by (simp add: Vsd_Serialize_bytes min_def)
    also have "\<dots> = stringBytes (take ?n (take 17 (Vin data)))"
      using n by (simp add: stringBytes_def take_map min_def)
    also have "take ?n (take 17 (Vin data)) = shownVin (Vin data)"
      unfolding shownVin_def by (rule takeWhile_eq_take [symmetric])
    finally show ?thesis .
  qed
  moreover have "?p ! 17 = (if ConnectedToCloud data then 1 else 0)" "?p ! 18 = SenderInstanceId data"
    "18 < length ?p"
    by (rule Vsd_Serialize_split [of data]; simp add: nth_append)+
  ultimately show ?thesis by (simp add: Vsd_Deserialize_def cVinLength_def)
qed

section \<open>From the skeleton to the handler\<close>

text \<open>C35: a status published while someone is subscribed is queued as one notification, whose datagram is taken by the
  event receiver; the handler of a proxy is called with it exactly when the low bytes of the instance identifiers
  of the skeleton and of the peer of the proxy agree, and is given the VIN up to its first NUL and at most 17
  characters, the connection flag and the low byte of the instance identifier.\<close>

theorem vehicle_status_end_to_end:
  assumes "Pub_GetState (vsPubSubServer sk) = Subscribed" "pEventLayer (vsPubSubServer sk) = Some queue"
    "\<not> mLocked queue" "pServiceId (vsPubSubServer sk) \<noteq> 0xffff" "mReceiveHandler px = Some handler"
  shows "\<exists>queue' n d raw. pEventLayer (vsPubSubServer (VehicleStatus_Send data sk)) = Some queue' \<and>
    mQueue queue' = mQueue queue @ [n] \<and> eventDatagram n = Inr d \<and> Event_onReceive d = Some raw \<and>
    Vsp_onEvent px raw st =
      Inr (if (ucast (vsInstanceId sk) :: u8) = ucast (mPeerInstanceId px)
           then handler \<lparr> Vin = shownVin (Vin data), ConnectedToCloud = ConnectedToCloud data,
                          SenderInstanceId = ucast (vsInstanceId sk) \<rparr> st
           else st)"
proof -
  let ?data = "data\<lparr> SenderInstanceId := ucast (vsInstanceId sk) \<rparr>"
  let ?n = "notification (vsPubSubServer sk) cTelematicEventId (Vsd_Serialize ?data)"
  have l: "length (Vsd_Serialize ?data) = 19" by (simp add: Vsd_Serialize_bytes)
  have q: "pEventLayer (vsPubSubServer (VehicleStatus_Send data sk)) = Some (snd (TryEnqueue queue ?n))"
    "mQueue (snd (TryEnqueue queue ?n)) = mQueue queue @ [?n]"
    using assms(1-3) by (simp_all add: VehicleStatus_Send_def Publish_def TryEnqueue_def Let_def)
  obtain d where d: "eventDatagram ?n = Inr d"
    "Event_onReceive d = Some (Vsd_Serialize ?data @ replicate 221 0)"
    using publication_received [OF assms(4), of cTelematicEventId "Vsd_Serialize ?data"] l
    by (auto simp: bindR_eq_Inr)
  have "Vsp_onEvent px (Vsd_Serialize ?data @ replicate 221 0) st =
      Inr (if (ucast (vsInstanceId sk) :: u8) = ucast (mPeerInstanceId px)
           then handler (?data\<lparr> Vin := shownVin (Vin data) \<rparr>) st else st)"
    using assms(5) l Vsd_roundtrip [of ?data "replicate 221 0"] by (simp add: Vsp_onEvent_def cPayloadSize_def)
  with q d show ?thesis by (cases data) auto
qed

definition sampleSkeleton :: VehicleStatusSkeleton where
  "sampleSkeleton =
     \<lparr> vsNetworkLayer = \<lparr> snMulticastGroup = ''239.0.0.1'', snPort = 5555, mUnicastPeers = [], snSendingQueue = newQueue,
         mReceiverCallbacks = [] \<rparr>, vsSdServer = None,
       vsPubSubServer = SetEventLayer (pubTransit NotSubscribed Subscribed
         (Pub_Start (newPubSubServer 7 258 1 3 (mkIpv4 224 0 0 1) 5555 0))) (Some newQueue), vsInstanceId = 258 \<rparr>"

definition sampleProxy :: "string VehicleStatusProxy" where
  "sampleProxy =
     \<lparr> vpSdNetworkLayer = vsNetworkLayer sampleSkeleton, vpSdClient = newPubSubClient 1, vpBindIp = [],
       mSelfInstanceId = 1, mPeerInstanceId = 2, mReceiveHandler = Some (\<lambda>data _. Vin data) \<rparr>"

theorem vehicle_status_end_to_end_witness:
  "\<exists>d raw. Event_onReceive d = Some raw \<and> Vsp_onEvent sampleProxy raw [] = Inr ''AB''"
proof -
  have s: "Pub_GetState (vsPubSubServer sampleSkeleton) = Subscribed"
    "pEventLayer (vsPubSubServer sampleSkeleton) = Some newQueue"
    "\<not> mLocked (newQueue :: bytes ConcurrentQueue)" "pServiceId (vsPubSubServer sampleSkeleton) \<noteq> 0xffff"
    "mReceiveHandler sampleProxy = Some (\<lambda>data _. Vin data)"
    by (simp_all add: sampleSkeleton_def sampleProxy_def SetEventLayer_def newQueue_def pub_defs newPubSubServer_def)
  have "shownVin ''AB'' = ''AB''" by (simp add: shownVin_def)
  moreover have "(ucast (vsInstanceId sampleSkeleton) :: u8) = ucast (mPeerInstanceId sampleProxy)"
    by (simp add: sampleSkeleton_def sampleProxy_def)
  ultimately show ?thesis
    using vehicle_status_end_to_end [OF s, of "\<lparr> Vin = ''AB'', ConnectedToCloud = True, SenderInstanceId = 0 \<rparr>" "[]"]
    by auto
qed

end
