(* ===== verification/Doip.thy ===== *)
theory Doip
  imports UdsRouting DiagEvents ConcurrentQueue
begin

text \<open>
  \<open>application/helper/{memory_cache.h,read_data_by_identifier.cpp}\<close> and \<open>application/doip\<close>: vehicle data read through a
  REST interface and cached, the DoIP server that routes diagnostic messages to that service, the DoIP client, and
  the converter that answers requests of the on-board diagnostics itself or through the client. The DoIP library,
  the HTTP client, the JSON parser and floating-point arithmetic are given from outside.
\<close>

section \<open>The memory cache\<close>

text \<open>Times are those of the system clock in nanoseconds, which may be set back.\<close>

record ('k, 'v) MemoryCache =
  cLifetime :: int
  mCachedItems :: "'k \<rightharpoonup> int \<times> 'v"

definition newMemoryCache :: "int \<Rightarrow> ('k, 'v) MemoryCache" where
  "newMemoryCache seconds = \<lparr> cLifetime = seconds * 10 ^ 9, mCachedItems = Map.empty \<rparr>"

definition Cache_Add :: "int \<Rightarrow> 'k \<Rightarrow> 'v \<Rightarrow> ('k, 'v) MemoryCache \<Rightarrow> ('k, 'v) MemoryCache" where
  "Cache_Add now key item cache =
     (if mCachedItems cache key = None
      then cache\<lparr> mCachedItems := (mCachedItems cache)(key \<mapsto> (now, item)) \<rparr> else cache)"

definition Cache_TryGet :: "int \<Rightarrow> 'k \<Rightarrow> ('k, 'v) MemoryCache \<Rightarrow> 'v option \<times> ('k, 'v) MemoryCache" where
  "Cache_TryGet now key cache =
     (case mCachedItems cache key of
        Some (added, item) \<Rightarrow>
          if now - added < cLifetime cache then (Some item, cache)
          else (None, cache\<lparr> mCachedItems := (mCachedItems cache)(key := None) \<rparr>)
      | None \<Rightarrow> (None, cache))"

text \<open>What a user of a cache relies on: a key has the item added last while it is fresh, and adding does not replace.\<close>

locale expiring_store =
  fixes add :: "int \<Rightarrow> 'k \<Rightarrow> 'v \<Rightarrow> 's \<Rightarrow> 's"
    and get :: "int \<Rightarrow> 'k \<Rightarrow> 's \<Rightarrow> 'v option \<times> 's"
    and lifetime :: "'s \<Rightarrow> int"
  assumes get_miss_add: "\<lbrakk> get now key s = (None, s'); later - now' < lifetime s \<rbrakk> \<Longrightarrow>
      fst (get later key (add now' key item s')) = Some item"
    and get_hit_same: "get now key s = (Some item, s') \<Longrightarrow> s' = s"
    and lifetime_add: "lifetime (add now key item s) = lifetime s"
    and lifetime_get: "lifetime (snd (get now key s)) = lifetime s"
begin

lemma cached_again:
  assumes "get now key s = (None, s')" "later - now' < lifetime s" "latest - now' < lifetime s"
  shows "fst (get latest key (snd (get later key (add now' key item s')))) = Some item"
proof -
  have l: "lifetime s' = lifetime s" using lifetime_get [of now key s] assms(1) by simp
  have "get later key (add now' key item s') = (Some item, add now' key item s')"
    using get_miss_add [OF assms(1,2)] get_hit_same by (metis prod.collapse)
  then show ?thesis using get_miss_add [OF assms(1,3)] l by simp
qed

end

interpretation cache: expiring_store Cache_Add Cache_TryGet cLifetime
  by unfold_locales (auto simp: Cache_Add_def Cache_TryGet_def split: option.splits if_splits)

section \<open>Reading data by identifier\<close>

definition cAverageSpeedDid :: u16 where "cAverageSpeedDid = 0xf50d"
definition cFuelAmountDid :: u16 where "cFuelAmountDid = 0xf52f"
definition cExternalTemperatureDid :: u16 where "cExternalTemperatureDid = 0xf546"
definition cAverageFuelConsumptionDid :: u16 where "cAverageFuelConsumptionDid = 0xf55e"
definition cEngineCoolantTemperatureDid :: u16 where "cEngineCoolantTemperatureDid = 0xf505"
definition cOdometerValueDid :: u16 where "cOdometerValueDid = 0xf5a6"
definition cReadDataSid :: u8 where "cReadDataSid = 0x22"

text \<open>
  \<open>fetch\<close>: the text of a resource's value by its URL, None when the request or the parser fails, an exception
  when the value has no text. The conversions that multiply with a floating-point number.
\<close>

record VehicleData =
  fetch :: "string \<Rightarrow> string res option"
  fuelGain :: "u64 \<Rightarrow> u8"
  consumptionOf :: "string \<Rightarrow> u16 res"
  odometerOf :: "string \<Rightarrow> u32 res"

record ReadDataByIdentifier =
  rdResourcesUrl :: string
  rdCache :: "(u16, bytes) MemoryCache"
  rdConversations :: "Conversation list"

definition newReadDataByIdentifier :: "string \<Rightarrow> Conversation list \<Rightarrow> ReadDataByIdentifier" where
  "newReadDataByIdentifier resourcesUrl conversations =
     \<lparr> rdResourcesUrl = resourcesUrl, rdCache = newMemoryCache 60, rdConversations = conversations \<rparr>"

definition getDid :: "bytes \<Rightarrow> u16 res" where
  "getDid requestData =
     bindR (at requestData 1) (\<lambda>high.
     bindR (at requestData 2) (\<lambda>low. Inr (push_bit 8 (ucast high) OR ucast low)))"

definition generateResponse :: "u16 \<Rightarrow> bytes" where
  "generateResponse did = [cReadDataSid + 0x40, ucast (drop_bit 8 did), ucast (did AND 0x00ff)]"

text \<open>What the six functions that read a resource have in common; \<open>now\<close> is the time of the addition.\<close>

definition getResource ::
    "VehicleData \<Rightarrow> int \<Rightarrow> string \<Rightarrow> u16 \<Rightarrow> (string \<Rightarrow> bytes res) \<Rightarrow> ReadDataByIdentifier \<Rightarrow>
     bytes res \<times> ReadDataByIdentifier" where
  "getResource vehicle now resourceKey did encode rd =
     (case fetch vehicle (rdResourcesUrl rd @ ''/'' @ resourceKey) of
        None \<Rightarrow> (Inr (GenerateNegativeResponse cReadDataSid 0x22), rd)
      | Some text \<Rightarrow>
          (case bindR text encode of
             Inl e \<Rightarrow> (Inl e, rd)
           | Inr data \<Rightarrow>
               (let response = generateResponse did @ data
                in (Inr response, rd\<lparr> rdCache := Cache_Add now did response (rdCache rd) \<rparr>))))"

definition getAverageSpeed :: "VehicleData \<Rightarrow> int \<Rightarrow> ReadDataByIdentifier \<Rightarrow> bytes res \<times> ReadDataByIdentifier" where
  "getAverageSpeed vehicle now =
     getResource vehicle now ''averageSpeed'' cAverageSpeedDid (\<lambda>text. bindR (stoul text) (\<lambda>n. Inr [ucast n]))"

definition getFuelAmount :: "VehicleData \<Rightarrow> int \<Rightarrow> ReadDataByIdentifier \<Rightarrow> bytes res \<times> ReadDataByIdentifier" where
  "getFuelAmount vehicle now =
     getResource vehicle now ''fuelAmount'' cFuelAmountDid
       (\<lambda>text. bindR (stoul text) (\<lambda>n. Inr [fuelGain vehicle n]))"

definition getExternalTemperature ::
    "VehicleData \<Rightarrow> int \<Rightarrow> ReadDataByIdentifier \<Rightarrow> bytes res \<times> ReadDataByIdentifier" where
  "getExternalTemperature vehicle now =
     getResource vehicle now ''externalTemp'' cExternalTemperatureDid
       (\<lambda>text. bindR (stoul text) (\<lambda>n. Inr [ucast (n + 40)]))"

definition getAverageFuelConsumption ::
    "VehicleData \<Rightarrow> int \<Rightarrow> ReadDataByIdentifier \<Rightarrow> bytes res \<times> ReadDataByIdentifier" where
  "getAverageFuelConsumption vehicle now =
     getResource vehicle now ''averageFuelConsumption'' cAverageFuelConsumptionDid
       (\<lambda>text. bindR (consumptionOf vehicle text) (\<lambda>n. Inr [ucast (n div 256), ucast (n mod 256)]))"

definition getEngineCoolantTemperature ::
    "VehicleData \<Rightarrow> int \<Rightarrow> ReadDataByIdentifier \<Rightarrow> bytes res \<times> ReadDataByIdentifier" where
  "getEngineCoolantTemperature vehicle now =
     getResource vehicle now ''engineCoolantTemp'' cEngineCoolantTemperatureDid
       (\<lambda>text. bindR (stoul text) (\<lambda>n. Inr [ucast (n + 40)]))"

fun odometerBytes :: "u32 list \<Rightarrow> u32 \<Rightarrow> bytes" where
  "odometerBytes [] n = [ucast n]"
| "odometerBytes (conversionBase # bases) n = ucast (n div conversionBase) # odometerBytes bases (n mod conversionBase)"

definition getOdometerValue :: "VehicleData \<Rightarrow> int \<Rightarrow> ReadDataByIdentifier \<Rightarrow> bytes res \<times> ReadDataByIdentifier" where
  "getOdometerValue vehicle now =
     getResource vehicle now ''odometer'' cOdometerValueDid
       (\<lambda>text. bindR (odometerOf vehicle text) (\<lambda>n. Inr (odometerBytes [16777216, 65536, 256] n)))"

text \<open>
  \<open>clock\<close>: the times at which the cache is asked and added to. An exception leaves the conversation active.
\<close>

definition readDid :: "VehicleData \<Rightarrow> int \<Rightarrow> u16 \<Rightarrow> ReadDataByIdentifier \<Rightarrow> bytes res \<times> ReadDataByIdentifier" where
  "readDid vehicle now did rd =
     (if did = cAverageSpeedDid then getAverageSpeed vehicle now rd
      else if did = cFuelAmountDid then getFuelAmount vehicle now rd
      else if did = cExternalTemperatureDid then getExternalTemperature vehicle now rd
      else if did = cAverageFuelConsumptionDid then getAverageFuelConsumption vehicle now rd
      else if did = cEngineCoolantTemperatureDid then getEngineCoolantTemperature vehicle now rd
      else if did = cOdometerValueDid then getOdometerValue vehicle now rd
      else (Inr (GenerateNegativeResponse cReadDataSid 0x31), rd))"

definition Rdbi_HandleMessage ::
    "VehicleData \<Rightarrow> int \<times> int \<Rightarrow> bytes \<Rightarrow> ReadDataByIdentifier \<Rightarrow> bytes res \<times> ReadDataByIdentifier" where
  "Rdbi_HandleMessage vehicle clock requestData rd =
     (case getDid requestData of
        Inl e \<Rightarrow> (Inl e, rd)
      | Inr did \<Rightarrow>
          (case Cache_TryGet (fst clock) did (rdCache rd) of
             (Some response, cache) \<Rightarrow> (Inr response, rd\<lparr> rdCache := cache \<rparr>)
           | (None, cache) \<Rightarrow>
               (case GetConversation (rdConversations rd) of
                  (conversation, conversations) \<Rightarrow>
                    (case readDid vehicle (snd clock) did (rd\<lparr> rdCache := cache, rdConversations := conversations \<rparr>) of
                       (Inl e, rd) \<Rightarrow> (Inl e, rd)
                     | (Inr response, rd) \<Rightarrow>
                         (Inr response, rd\<lparr> rdConversations :=
                            (rdConversations rd)[conversation := Deactivate (rdConversations rd ! conversation)] \<rparr>)))))"

lemma getDid_request: "getDid (sid # ucast (drop_bit 8 did) # ucast did # rest) = Inr did"
proof -
  have "push_bit 8 (ucast (ucast (drop_bit 8 did) :: u8)) OR ucast (ucast did :: u8) = (did :: u16)"
    by (auto intro!: bit_word_eqI simp: bit_simps)
  then show ?thesis by (simp add: getDid_def)
qed

lemma odometerBytes_be32: "odometerBytes [16777216, 65536, 256] n = be32 n"
proof -
  have d: "n div 16777216 = drop_bit 24 n" "n mod 16777216 = take_bit 24 n"
    "m div 65536 = drop_bit 16 m" "m mod 65536 = take_bit 16 m" "m div 256 = drop_bit 8 m" "m mod 256 = take_bit 8 m"
    for n m :: u32
    by (simp_all add: drop_bit_eq_div take_bit_eq_mod)
  show ?thesis
    by (auto simp: be32_def d intro!: bit_word_eqI) (auto simp: bit_simps)
qed

text \<open>
  What a reading gives apart from the cache: the response depends on the vehicle, the URL and the identifier only.
\<close>

definition freshDid :: "VehicleData \<Rightarrow> string \<Rightarrow> u16 \<Rightarrow> bytes res" where
  "freshDid vehicle resourcesUrl did = fst (readDid vehicle 0 did (newReadDataByIdentifier resourcesUrl []))"

lemmas readDid_defs = readDid_def getAverageSpeed_def getFuelAmount_def getExternalTemperature_def
  getAverageFuelConsumption_def getEngineCoolantTemperature_def getOdometerValue_def

lemma getResource_fst:
  "fst (getResource vehicle now key did encode rd) =
     fst (getResource vehicle 0 key did encode (newReadDataByIdentifier (rdResourcesUrl rd) []))"
  by (simp add: getResource_def newReadDataByIdentifier_def Let_def split: option.splits sum.splits)

lemma readDid_fst: "fst (readDid vehicle now did rd) = freshDid vehicle (rdResourcesUrl rd) did"
  unfolding freshDid_def readDid_defs
  by (simp add: getResource_fst [of vehicle now] cong: if_cong)

text \<open>A response of the service: the identifier with at most four bytes, or a negative response.\<close>

definition didResponse :: "u16 \<Rightarrow> bytes \<Rightarrow> bool" where
  "didResponse did response \<longleftrightarrow>
     (\<exists>data. response = generateResponse did @ data \<and> 0 < length data \<and> length data \<le> 4) \<or>
     response = GenerateNegativeResponse cReadDataSid 0x22 \<or> response = GenerateNegativeResponse cReadDataSid 0x31"

lemma getResource_response:
  assumes "\<And>text data. encode text = Inr data \<Longrightarrow> 0 < length data \<and> length data \<le> 4"
    "getResource vehicle now key did encode rd = (Inr response, rd')"
  shows "didResponse did response \<and>
     rd' = (if hd response = 0x7f then rd else rd\<lparr> rdCache := Cache_Add now did response (rdCache rd) \<rparr>)"
  using assms
  by (fastforce simp: getResource_def didResponse_def Let_def generateResponse_def cReadDataSid_def bindR_eq_Inr
      GenerateNegativeResponse_def split: option.splits sum.splits)

lemma readDid_response:
  assumes "readDid vehicle now did rd = (Inr response, rd')"
  shows "didResponse did response \<and>
     rd' = (if hd response = 0x7f then rd else rd\<lparr> rdCache := Cache_Add now did response (rdCache rd) \<rparr>)"
  using assms
  by (auto simp: readDid_defs bindR_eq_Inr odometerBytes_be32 didResponse_def GenerateNegativeResponse_def
      split: if_splits dest!: getResource_response [rotated])

text \<open>
  The vehicle over time: every cached response is what the vehicle gave when it was added.
\<close>

definition rdInv :: "(int \<Rightarrow> VehicleData) \<Rightarrow> ReadDataByIdentifier \<Rightarrow> bool" where
  "rdInv vehicleAt rd \<longleftrightarrow> cLifetime (rdCache rd) = 60 * 10 ^ 9 \<and>
     (\<forall>did t response. mCachedItems (rdCache rd) did = Some (t, response) \<longrightarrow>
        freshDid (vehicleAt t) (rdResourcesUrl rd) did = Inr response \<and> didResponse did response \<and> hd response \<noteq> 0x7f)"

lemma rdInv_new: "rdInv vehicleAt (newReadDataByIdentifier resourcesUrl conversations)"
  by (simp add: rdInv_def newReadDataByIdentifier_def newMemoryCache_def)

lemma rdInv_cong:
  "\<lbrakk> rdInv vehicleAt rd; mCachedItems (rdCache rd') = mCachedItems (rdCache rd);
     cLifetime (rdCache rd') = cLifetime (rdCache rd); rdResourcesUrl rd' = rdResourcesUrl rd \<rbrakk> \<Longrightarrow> rdInv vehicleAt rd'"
  by (simp add: rdInv_def)

lemma TryGet_inv:
  assumes "rdInv vehicleAt rd" "Cache_TryGet now did (rdCache rd) = (found, cache)"
  shows "rdInv vehicleAt (rd\<lparr> rdCache := cache \<rparr>)"
    and "found = Some response \<Longrightarrow> \<exists>t. mCachedItems (rdCache rd) did = Some (t, response) \<and> now - t < 60 * 10 ^ 9"
  using assms by (auto simp: rdInv_def Cache_TryGet_def split: option.splits if_splits)

lemma Add_inv:
  assumes "rdInv vehicleAt rd" "readDid (vehicleAt now) now did rd = (Inr response, rd')"
  shows "rdInv vehicleAt rd' \<and> rdResourcesUrl rd' = rdResourcesUrl rd"
proof -
  have "freshDid (vehicleAt now) (rdResourcesUrl rd) did = Inr response"
    using readDid_fst [of "vehicleAt now" now did rd] assms(2) by simp
  with readDid_response [OF assms(2)] assms(1) show ?thesis
    by (auto simp: rdInv_def Cache_Add_def)
qed

lemma getResource_Inl: "getResource vehicle now key did encode rd = (Inl e, rd') \<Longrightarrow> rd' = rd"
  by (auto simp: getResource_def Let_def split: option.splits sum.splits)

lemma readDid_Inl: "readDid vehicle now did rd = (Inl e, rd') \<Longrightarrow> rd' = rd"
  by (auto simp: readDid_defs dest!: getResource_Inl split: if_splits)

lemma Rdbi_HandleMessage_spec:
  assumes inv: "rdInv vehicleAt rd"
    and h: "Rdbi_HandleMessage (vehicleAt (snd clock)) clock req rd = (r, rd')"
  shows "rdInv vehicleAt rd' \<and> rdResourcesUrl rd' = rdResourcesUrl rd"
    and "r = Inr response \<Longrightarrow> \<exists>did t. getDid req = Inr did \<and> didResponse did response \<and>
      freshDid (vehicleAt t) (rdResourcesUrl rd) did = Inr response \<and> (t = snd clock \<or> fst clock - t < 60 * 10 ^ 9)"
proof -
  have "(rdInv vehicleAt rd' \<and> rdResourcesUrl rd' = rdResourcesUrl rd) \<and>
    (r = Inr response \<longrightarrow> (\<exists>did t. getDid req = Inr did \<and> didResponse did response \<and>
      freshDid (vehicleAt t) (rdResourcesUrl rd) did = Inr response \<and> (t = snd clock \<or> fst clock - t < 60 * 10 ^ 9)))"
  proof (cases "getDid req")
    case (Inl e)
    with h inv show ?thesis by (auto simp: Rdbi_HandleMessage_def)
  next
    case did: (Inr did)
    obtain found cache where g: "Cache_TryGet (fst clock) did (rdCache rd) = (found, cache)" by fastforce
    show ?thesis
    proof (cases found)
      case (Some item)
      with TryGet_inv(2) [OF inv g Some] obtain t where
        "mCachedItems (rdCache rd) did = Some (t, item)" "fst clock - t < 60 * 10 ^ 9" by blast
      with did g h Some inv TryGet_inv(1) [OF inv g] show ?thesis
        by (auto simp: Rdbi_HandleMessage_def rdInv_def)
    next
      case None
      let ?rd = "rd\<lparr> rdCache := cache, rdConversations := rdConversations rd @ [newConversation] \<rparr>"
      have i: "rdInv vehicleAt ?rd" by (rule rdInv_cong [OF TryGet_inv(1) [OF inv g]]) simp_all
      obtain rr rd2 where rr: "readDid (vehicleAt (snd clock)) (snd clock) did ?rd = (rr, rd2)" by fastforce
      show ?thesis
      proof (cases rr)
        case (Inl e)
        with readDid_Inl rr have "rd2 = ?rd" by blast
        with Inl rr did g None h i show ?thesis by (auto simp: Rdbi_HandleMessage_def GetConversation_def)
      next
        case (Inr x)
        note rr = rr [unfolded Inr]
        have e: "r = Inr x" "rdInv vehicleAt rd'" "rdResourcesUrl rd' = rdResourcesUrl rd"
          using rr did g None h Add_inv [OF i rr]
          by (auto simp: Rdbi_HandleMessage_def GetConversation_def elim: rdInv_cong)
        have "freshDid (vehicleAt (snd clock)) (rdResourcesUrl rd) did = Inr x"
          using readDid_fst [of "vehicleAt (snd clock)" "snd clock" did ?rd] rr by simp
        with e did readDid_response [OF rr] show ?thesis by auto
      qed
    qed
  qed
  then show "rdInv vehicleAt rd' \<and> rdResourcesUrl rd' = rdResourcesUrl rd"
    and "r = Inr response \<Longrightarrow> \<exists>did t. getDid req = Inr did \<and> didResponse did response \<and>
      freshDid (vehicleAt t) (rdResourcesUrl rd) did = Inr response \<and> (t = snd clock \<or> fst clock - t < 60 * 10 ^ 9)"
    by auto
qed

text \<open>A service after a history of requests, each with the times it was handled at.\<close>

definition rdRun ::
    "(int \<Rightarrow> VehicleData) \<Rightarrow> ((int \<times> int) \<times> bytes) list \<Rightarrow> ReadDataByIdentifier \<Rightarrow> ReadDataByIdentifier" where
  "rdRun vehicleAt history rd =
     fold (\<lambda>(clock, req) rd. snd (Rdbi_HandleMessage (vehicleAt (snd clock)) clock req rd)) history rd"

lemma rdRun_inv:
  "rdInv vehicleAt rd \<Longrightarrow>
     rdInv vehicleAt (rdRun vehicleAt history rd) \<and> rdResourcesUrl (rdRun vehicleAt history rd) = rdResourcesUrl rd"
proof (induction history arbitrary: rd)
  case (Cons entry history)
  obtain clock req where e: "entry = (clock, req)" by fastforce
  let ?rd = "snd (Rdbi_HandleMessage (vehicleAt (snd clock)) clock req rd)"
  have "rdInv vehicleAt ?rd \<and> rdResourcesUrl ?rd = rdResourcesUrl rd"
    using Rdbi_HandleMessage_spec(1) [OF Cons.prems, of clock req] by (metis prod.collapse)
  with Cons.IH [of ?rd] show ?case by (simp add: rdRun_def e)
qed (simp add: rdRun_def)

text \<open>Whatever requests a service has handled, a response it gives is the one the vehicle gave to a reading of that
  identifier now or less than a minute ago: it echoes the identifier with one to four bytes, or is a negative response.\<close>

lemma identifier_value_recent:
  assumes "Rdbi_HandleMessage (vehicleAt (snd clock)) clock req
      (rdRun vehicleAt history (newReadDataByIdentifier resourcesUrl conversations)) = (Inr response, rd)"
  shows "\<exists>did t. getDid req = Inr did \<and> didResponse did response \<and>
    freshDid (vehicleAt t) resourcesUrl did = Inr response \<and> (t = snd clock \<or> fst clock - t < 60 * 10 ^ 9)"
  using Rdbi_HandleMessage_spec(2) [OF conjunct1 [OF rdRun_inv [OF rdInv_new]] assms refl]
    rdRun_inv [OF rdInv_new, of vehicleAt history resourcesUrl conversations]
  by (simp add: newReadDataByIdentifier_def)

definition steadyVehicle :: "string \<Rightarrow> VehicleData" where
  "steadyVehicle text = \<lparr> fetch = (\<lambda>_. Some (Inr text)), fuelGain = (\<lambda>n. ucast n),
     consumptionOf = (\<lambda>_. Inr 300), odometerOf = (\<lambda>_. Inr 70000) \<rparr>"

lemma stoul_small: "stoul ''50'' = Inr 50" "stoul ''80'' = Inr 80"
  by (simp_all add: stoul_def isSpace_def isDigit_def digitsValue_def Let_def)

section \<open>The DoIP entities\<close>

datatype DoipMessage =
    VehicleIdRequest
  | VehicleIdResponse string u16 bytes bytes u8
  | DiagMessage u16 u16 bytes
  | DiagMessageAck u16 u16 bytes

datatype PayloadType = kVehicleIdRequest | kVehicleAnnoucementIdResponse | kDiagMessage
  | kDiagMessagePositiveAcknowledgement | kOtherPayload

text \<open>
  The DoIP library: how a message of a protocol version is written, the payload type of a packet, how a packet is
  read as a message of a type, and what the controller answers to a packet that no handler has handled.
\<close>

record DoipLib =
  dlSerialize :: "u8 \<Rightarrow> DoipMessage \<Rightarrow> bytes"
  dlPayloadType :: "bytes \<Rightarrow> PayloadType option"
  dlDeserialize :: "PayloadType \<Rightarrow> bytes \<Rightarrow> DoipMessage option"
  dlUnhandled :: "bytes \<Rightarrow> bytes option"

fun payloadTypeOf :: "DoipMessage \<Rightarrow> PayloadType" where
  "payloadTypeOf VehicleIdRequest = kVehicleIdRequest"
| "payloadTypeOf (VehicleIdResponse vin logicalAddress eid gid furtherAction) = kVehicleAnnoucementIdResponse"
| "payloadTypeOf (DiagMessage sourceAddress targetAddress userData) = kDiagMessage"
| "payloadTypeOf (DiagMessageAck sourceAddress targetAddress previousMessage) = kDiagMessagePositiveAcknowledgement"

text \<open>
  What is relied on: a diagnostic message and its acknowledgement (13 bytes and the data) are read back, whatever
  follows them in the packet.
\<close>

definition doipLib :: "DoipLib \<Rightarrow> u8 \<Rightarrow> bool" where
  "doipLib lib version \<longleftrightarrow>
     (\<forall>message source target userData rest.
        (message = DiagMessage source target userData \<or> message = DiagMessageAck source target userData) \<and>
        length userData \<le> 51 \<longrightarrow>
        length (dlSerialize lib version message) \<le> 13 + length userData \<and>
        dlPayloadType lib (dlSerialize lib version message @ rest) = Some (payloadTypeOf message) \<and>
        dlDeserialize lib (payloadTypeOf message) (dlSerialize lib version message @ rest) = Some message)"

definition cDoipPacketSize :: nat where "cDoipPacketSize = 64"

subsection \<open>Handlers of the server\<close>

text \<open>The service is offered and the only one of the router; another exception than an invalid argument is not caught.\<close>

definition rdbiRouter :: "VehicleData \<Rightarrow> int \<times> int \<Rightarrow> ReadDataByIdentifier UdsServiceRouter" where
  "rdbiRouter vehicle clock =
     AddService Map.empty cReadDataSid
       \<lparr> usOffered = (\<lambda>_. True), usHandle = Rdbi_HandleMessage vehicle clock \<rparr>"

definition DiagMessageHandler_TryHandle ::
    "DoipLib \<Rightarrow> u8 \<Rightarrow> VehicleData \<Rightarrow> int \<times> int \<Rightarrow> DoipMessage \<Rightarrow> ReadDataByIdentifier \<Rightarrow>
     bytes option res \<times> ReadDataByIdentifier" where
  "DiagMessageHandler_TryHandle lib version vehicle clock request rd =
     (case request of
        DiagMessage source target userData \<Rightarrow>
          (case Route (rdbiRouter vehicle clock) userData rd of
             (Inr responseData, rd) \<Rightarrow> (Inr (Some (dlSerialize lib version (DiagMessageAck source target responseData))), rd)
           | (Inl e, rd) \<Rightarrow> (if e = Invalid_argument then Inr None else Inl e, rd))
      | _ \<Rightarrow> (Inr None, rd))"

fun macOctets :: "nat list \<Rightarrow> u64 \<Rightarrow> u64 \<Rightarrow> bytes" where
  "macOctets [] mk n = []"
| "macOctets (i # is) mk n = ucast (drop_bit (i * 8) (n AND mk)) # macOctets is (push_bit (i * 8) mk) n"

definition convertToMacAddress :: "u64 \<Rightarrow> bytes" where
  "convertToMacAddress n = macOctets [0..<6] 0xff n"

definition newVehicleIdResponse :: "string \<Rightarrow> u16 \<Rightarrow> u64 \<Rightarrow> u64 \<Rightarrow> DoipMessage" where
  "newVehicleIdResponse vin logicalAddress eid gid =
     VehicleIdResponse vin logicalAddress (convertToMacAddress eid) (convertToMacAddress gid) 0"

definition VehicleIdRequestHandler_TryHandle :: "DoipLib \<Rightarrow> u8 \<Rightarrow> DoipMessage \<Rightarrow> DoipMessage \<Rightarrow> bytes option" where
  "VehicleIdRequestHandler_TryHandle lib version response request =
     (if request = VehicleIdRequest then Some (dlSerialize lib version response) else None)"

text \<open>Four of the six octets of an identifier are lost.\<close>

lemma mac_address_octets:
  "convertToMacAddress n = [ucast n, 0, 0, ucast (drop_bit 24 n), 0, 0]"
proof -
  have m: "(0xff :: u64) = mask 8" by (simp add: mask_eq_exp_minus_1)
  show ?thesis unfolding convertToMacAddress_def m
    by (auto simp: upt_rec intro!: bit_word_eqI) (auto simp: bit_simps)
qed

subsection \<open>Server and client\<close>

record DoipServer =
  dsVersion :: u8
  dsVehicleIdResponse :: DoipMessage
  dsService :: ReadDataByIdentifier
  dsSendQueue :: "bytes ConcurrentQueue"

definition newDoipServer :: "u8 \<Rightarrow> string \<Rightarrow> string \<Rightarrow> u16 \<Rightarrow> u64 \<Rightarrow> u64 \<Rightarrow> DoipServer" where
  "newDoipServer version resourcesUrl vin logicalAddress eid gid =
     \<lparr> dsVersion = version, dsVehicleIdResponse = newVehicleIdResponse vin logicalAddress eid gid,
       dsService = newReadDataByIdentifier resourcesUrl [], dsSendQueue = newQueue \<rparr>"

text \<open>The controller finds the handler of the packet's payload type and has it handle the message read from the packet.\<close>

definition Controller_TryHandle ::
    "DoipLib \<Rightarrow> VehicleData \<Rightarrow> int \<times> int \<Rightarrow> bytes \<Rightarrow> DoipServer \<Rightarrow> bytes option res \<times> DoipServer" where
  "Controller_TryHandle lib vehicle clock packet server =
     (let unhandled = dlUnhandled lib packet in
      case dlPayloadType lib packet of
        Some kVehicleIdRequest \<Rightarrow>
          (case dlDeserialize lib kVehicleIdRequest packet of
             None \<Rightarrow> (Inr unhandled, server)
           | Some request \<Rightarrow>
               (case VehicleIdRequestHandler_TryHandle lib (dsVersion server) (dsVehicleIdResponse server) request of
                  Some response \<Rightarrow> (Inr (Some response), server)
                | None \<Rightarrow> (Inr unhandled, server)))
      | Some kDiagMessage \<Rightarrow>
          (case dlDeserialize lib kDiagMessage packet of
             None \<Rightarrow> (Inr unhandled, server)
           | Some request \<Rightarrow>
               (case DiagMessageHandler_TryHandle lib (dsVersion server) vehicle clock request (dsService server) of
                  (Inr (Some response), service) \<Rightarrow> (Inr (Some response), server\<lparr> dsService := service \<rparr>)
                | (Inr None, service) \<Rightarrow> (Inr unhandled, server\<lparr> dsService := service \<rparr>)
                | (Inl e, service) \<Rightarrow> (Inl e, server\<lparr> dsService := service \<rparr>)))
      | _ \<Rightarrow> (Inr unhandled, server))"

definition DoipServer_onReceive ::
    "DoipLib \<Rightarrow> VehicleData \<Rightarrow> int \<times> int \<Rightarrow> bytes \<Rightarrow> DoipServer \<Rightarrow> unit res \<times> DoipServer" where
  "DoipServer_onReceive lib vehicle clock receiveBuffer server =
     (case Controller_TryHandle lib vehicle clock receiveBuffer server of
        (Inl e, server) \<Rightarrow> (Inl e, server)
      | (Inr None, server) \<Rightarrow> (Inr (), server)
      | (Inr (Some serializedResponse), server) \<Rightarrow>
          (Inr (), server\<lparr> dsSendQueue := snd (TryEnqueue (dsSendQueue server) serializedResponse) \<rparr>))"

text \<open>Sending is the same in the server and the client.\<close>

definition doip_onSend ::
    "bytes \<Rightarrow> bytes ConcurrentQueue \<Rightarrow> bytes list \<Rightarrow> (bytes list \<times> bytes ConcurrentQueue) res option" where
  "doip_onSend = sendPackets cDoipPacketSize"

record DoipClient =
  dcVersion :: u8
  dcLogicalAddress :: "u16 option"
  dcSendQueue :: "bytes ConcurrentQueue"

definition newDoipClient :: "DoipLib \<Rightarrow> u8 \<Rightarrow> DoipClient res" where
  "newDoipClient lib version =
     (case TryEnqueue newQueue (dlSerialize lib version VehicleIdRequest) of
        (True, q) \<Rightarrow> Inr \<lparr> dcVersion = version, dcLogicalAddress = None, dcSendQueue = q \<rparr>
      | (False, q) \<Rightarrow> Inl Runtime_error)"

definition handleVehicleIdResponse :: "DoipLib \<Rightarrow> bytes \<Rightarrow> DoipClient \<Rightarrow> DoipClient" where
  "handleVehicleIdResponse lib serializedMessage client =
     (case dlDeserialize lib kVehicleAnnoucementIdResponse serializedMessage of
        Some (VehicleIdResponse vin logicalAddress eid gid furtherAction) \<Rightarrow>
          client\<lparr> dcLogicalAddress := Some logicalAddress \<rparr>
      | _ \<Rightarrow> client)"

text \<open>The data handed to the callback.\<close>

definition handleDiagMessageAck :: "DoipLib \<Rightarrow> bytes \<Rightarrow> bytes option" where
  "handleDiagMessageAck lib serializedMessage =
     (case dlDeserialize lib kDiagMessagePositiveAcknowledgement serializedMessage of
        Some (DiagMessageAck source target previousMessage) \<Rightarrow> Some previousMessage
      | _ \<Rightarrow> None)"

definition DoipClient_onReceive :: "DoipLib \<Rightarrow> bytes \<Rightarrow> DoipClient \<Rightarrow> bytes option \<times> DoipClient" where
  "DoipClient_onReceive lib receiveBuffer client =
     (case dlPayloadType lib receiveBuffer of
        Some kVehicleAnnoucementIdResponse \<Rightarrow> (None, handleVehicleIdResponse lib receiveBuffer client)
      | Some kDiagMessagePositiveAcknowledgement \<Rightarrow> (handleDiagMessageAck lib receiveBuffer, client)
      | _ \<Rightarrow> (None, client))"

definition TrySendDiagMessage :: "DoipLib \<Rightarrow> bytes \<Rightarrow> DoipClient \<Rightarrow> bool \<times> DoipClient" where
  "TrySendDiagMessage lib userData client =
     (case dcLogicalAddress client of
        None \<Rightarrow> (False, client)
      | Some address \<Rightarrow>
          (case TryEnqueue (dcSendQueue client) (dlSerialize lib (dcVersion client) (DiagMessage address address userData)) of
             (result, q) \<Rightarrow> (result, client\<lparr> dcSendQueue := q \<rparr>)))"

section \<open>The converter of on-board diagnostics\<close>

definition tryParseUdsData :: "bytes \<Rightarrow> (u8 \<times> bytes) option" where
  "tryParseUdsData received =
     (if length received < 3 then None
      else if received ! 0 = 0x7f then None
      else Some (received ! 2, drop 3 received))"

text \<open>The answers given to the OBD side: a parameter identifier and its data.\<close>

definition onUdsDataReceived :: "bytes \<Rightarrow> (bytes \<times> bytes) list" where
  "onUdsDataReceived receivedUdsData =
     (case tryParseUdsData receivedUdsData of
        Some (pid, obdData) \<Rightarrow> [([pid], obdData)]
      | None \<Rightarrow> [])"

definition trySendAsDoip :: "DoipLib \<Rightarrow> u8 \<Rightarrow> DoipClient \<Rightarrow> bool \<times> DoipClient" where
  "trySendAsDoip lib pid client = TrySendDiagMessage lib [cReadDataSid, 0xf5, pid] client"

text \<open>The parameters answered at once, and those that are read over DoIP.\<close>

definition obdAnswers :: "(u8 \<times> bytes) list" where
  "obdAnswers =
    [(0x00, [0x3e, 0x7f, 0xf0, 0x15]), (0x03, [0x02, 0x00]), (0x04, [0x33]), (0x06, [0x8c]), (0x07, [0x80]),
     (0x0a, [0x50]), (0x0b, [0x4b]), (0x0c, [0x20, 0x00]), (0x0e, [0x92]), (0x0f, [0x50]), (0x10, [0x02, 0x08]),
     (0x11, [0x33]), (0x12, [0x04]), (0x13, [0x01]), (0x14, [0xc8, 0xff]), (0x1c, [0x01]), (0x1e, [0x00]),
     (0x20, [0xd0, 0x02, 0x70, 0x11]), (0x21, [0x00, 0x00]), (0x22, [0x19, 0x78]), (0x24, [0x80, 0x00, 0x20, 0x00]),
     (0x32, [0x6a, 0x40]), (0x33, [0x65]), (0x34, [0x80, 0x00, 0xe4, 0x00]), (0x3c, [0x19, 0x00]),
     (0x40, [0x5c, 0x0b, 0xb0, 0xd5]), (0x42, [0x2e, 0xe0]), (0x44, [0x80, 0x00]), (0x45, [0x33]),
     (0x4d, [0x00, 0x00]), (0x4f, [0x02, 0x08, 0x80, 0x19]), (0x50, [0x41, 0x00, 0x00, 0x00]), (0x51, [0x01]),
     (0x53, [0x54, 0x38]), (0x54, [0x1a, 0x90]), (0x59, [0x4e, 0x20]), (0x5a, [0x33]), (0x5c, [0xd2]),
     (0x60, [0xe3, 0x00, 0x00, 0x01]), (0x61, [0x91]), (0x62, [0x91]), (0x63, [0x01, 0x00]),
     (0x67, [0x01, 0x6e, 0x00]), (0x68, [0x01, 0x50, 0x00]), (0x80, [0x00, 0x00, 0x00, 0x01]),
     (0xa0, [0x04, 0x00, 0x00, 0x00])]"

definition obdDoipPids :: "u8 list" where
  "obdDoipPids = [0x0d, 0x2f, 0x46, 0x5e, 0x05, 0xa6]"

definition Obd_TryGetResponse :: "bytes \<Rightarrow> bytes \<Rightarrow> bool \<times> bytes" where
  "Obd_TryGetResponse pid response = (False, response)"

text \<open>The answers given before it returns, the result, and the client.\<close>

definition Obd_TryGetResponseAsync ::
    "DoipLib \<Rightarrow> bytes \<Rightarrow> DoipClient \<Rightarrow> ((bytes \<times> bytes) list \<times> bool \<times> DoipClient) res" where
  "Obd_TryGetResponseAsync lib pid client =
     bindR (at pid 0) (\<lambda>queriedPid.
       Inr (case map_of obdAnswers queriedPid of
              Some data \<Rightarrow> ([(pid, data)], True, client)
            | None \<Rightarrow>
                if queriedPid \<in> set obdDoipPids
                then (case trySendAsDoip lib queriedPid client of (result, client) \<Rightarrow> ([], result, client))
                else ([], False, client)))"

text \<open>
  The parameters a tester may ask for: those of the first range, and every further range whose first
  identifier is announced, by the bits of the answers to 0x00, 0x20, 0x40, 0x60, 0x80 and 0xa0.
\<close>

definition announcedIn :: "u8 \<Rightarrow> u8 list" where
  "announcedIn pid0 =
     (case map_of obdAnswers pid0 of
        Some [b0, b1, b2, b3] \<Rightarrow>
          map (\<lambda>i. pid0 + of_nat i) (filter (\<lambda>i. bit (join32 b0 b1 b2 b3) (32 - i)) [1..<33])
      | _ \<Rightarrow> [])"

fun announced :: "nat \<Rightarrow> u8 \<Rightarrow> u8 list" where
  "announced 0 pid0 = []"
| "announced (Suc n) pid0 =
     announcedIn pid0 @ (if pid0 + 32 \<in> set (announcedIn pid0) then announced n (pid0 + 32) else [])"

lemma announced_answered: "set (0 # announced 7 0) = set (map fst obdAnswers @ obdDoipPids)"
proof -
  have "sort (map unat (0 # announced 7 0)) = sort (map unat (map fst obdAnswers @ obdDoipPids))" by code_simp
  then have "set (map unat (0 # announced 7 0)) = set (map unat (map fst obdAnswers @ obdDoipPids))"
    by (metis set_sort)
  then show ?thesis by (metis inj_image_eq_iff inj_unsigned list.set_map)
qed

text \<open>C31: A tester is told of exactly the parameters it gets an answer for: once the vehicle's address is known, a
  request succeeds if and only if the bit fields announce the parameter, starting from the one that is always there.\<close>

theorem obd_supported_pids:
  assumes "dcLogicalAddress client = Some address" "\<not> mLocked (dcSendQueue client)"
  shows "(\<exists>callbacks client'. Obd_TryGetResponseAsync lib [pid] client = Inr (callbacks, True, client')) \<longleftrightarrow>
    pid = 0 \<or> pid \<in> set (announced 7 0)"
proof -
  have "(\<exists>callbacks client'. Obd_TryGetResponseAsync lib [pid] client = Inr (callbacks, True, client')) \<longleftrightarrow>
      map_of obdAnswers pid \<noteq> None \<or> pid \<in> set obdDoipPids"
    using assms by (auto simp: Obd_TryGetResponseAsync_def at_def trySendAsDoip_def TrySendDiagMessage_def TryEnqueue_def
        split: option.splits)
  also have "\<dots> \<longleftrightarrow> pid \<in> set (map fst obdAnswers @ obdDoipPids)" by (simp add: map_of_eq_None_iff)
  also have "\<dots> \<longleftrightarrow> pid \<in> set (0 # announced 7 0)" by (simp only: announced_answered)
  finally show ?thesis by simp
qed

definition plainLib :: DoipLib where
  "plainLib = \<lparr> dlSerialize = (\<lambda>_ _. []), dlPayloadType = (\<lambda>_. None), dlDeserialize = (\<lambda>_ _. None),
     dlUnhandled = (\<lambda>_. None) \<rparr>"

theorem obd_supported_pids_witness:
  "(\<exists>callbacks client'. Obd_TryGetResponseAsync plainLib [0x0d]
      \<lparr> dcVersion = 2, dcLogicalAddress = Some 1, dcSendQueue = newQueue \<rparr> = Inr (callbacks, True, client')) \<longleftrightarrow>
    0x0d = (0 :: u8) \<or> (0x0d :: u8) \<in> set (announced 7 0)"
  by (rule obd_supported_pids [of _ 1]) (simp_all add: newQueue_def)

section \<open>A reading through all of it\<close>

text \<open>What one message in an idle queue becomes.\<close>

lemma doip_onSend_one:
  assumes "idleQueue q" "length x \<le> 64"
  shows "\<exists>q'. doip_onSend former (snd (TryEnqueue q x)) [] = Some (Inr ([x @ drop (length x) former], q')) \<and> idleQueue q'"
  using sendPackets_after_enqueue [OF assms(1), of cDoipPacketSize former "[x]"] assms(2)
  by (simp add: doip_onSend_def cDoipPacketSize_def)

text \<open>
  A request from the OBD side, the server's turn on the packets sent, and the client's on the replies; \<open>former1\<close> and
  \<open>former2\<close> are what the packet buffers held before.
\<close>

fun serverReceives ::
    "DoipLib \<Rightarrow> VehicleData \<Rightarrow> int \<times> int \<Rightarrow> bytes list \<Rightarrow> DoipServer \<Rightarrow> unit res \<times> DoipServer" where
  "serverReceives lib vehicle clock [] server = (Inr (), server)"
| "serverReceives lib vehicle clock (p # ps) server =
     (case DoipServer_onReceive lib vehicle clock p server of
        (Inl e, server) \<Rightarrow> (Inl e, server)
      | (Inr _, server) \<Rightarrow> serverReceives lib vehicle clock ps server)"

fun clientReceives :: "DoipLib \<Rightarrow> bytes list \<Rightarrow> DoipClient \<Rightarrow> (bytes \<times> bytes) list \<times> DoipClient" where
  "clientReceives lib [] client = ([], client)"
| "clientReceives lib (p # ps) client =
     (case DoipClient_onReceive lib p client of
        (received, client) \<Rightarrow>
          (case clientReceives lib ps client of
             (callbacks, client) \<Rightarrow>
               ((case received of Some data \<Rightarrow> onUdsDataReceived data | None \<Rightarrow> []) @ callbacks, client)))"

definition obdRound ::
    "DoipLib \<Rightarrow> bytes \<times> bytes \<Rightarrow> VehicleData \<Rightarrow> int \<times> int \<Rightarrow> bytes \<Rightarrow> DoipClient \<Rightarrow> DoipServer \<Rightarrow>
     ((bytes \<times> bytes) list \<times> bool \<times> DoipClient \<times> DoipServer) res option" where
  "obdRound lib former vehicle clock pid client server =
     (case Obd_TryGetResponseAsync lib pid client of
        Inl e \<Rightarrow> Some (Inl e)
      | Inr (callbacks, result, client) \<Rightarrow>
          (case doip_onSend (fst former) (dcSendQueue client) [] of
             None \<Rightarrow> None
           | Some (Inl e) \<Rightarrow> Some (Inl e)
           | Some (Inr (packets, q)) \<Rightarrow>
               (case serverReceives lib vehicle clock packets server of
                  (Inl e, server) \<Rightarrow> Some (Inl e)
                | (Inr _, server) \<Rightarrow>
                    (case doip_onSend (snd former) (dsSendQueue server) [] of
                       None \<Rightarrow> None
                     | Some (Inl e) \<Rightarrow> Some (Inl e)
                     | Some (Inr (replies, q')) \<Rightarrow>
                         (case clientReceives lib replies (client\<lparr> dcSendQueue := q \<rparr>) of
                            (answers, client) \<Rightarrow>
                              Some (Inr (callbacks @ answers, result, client, server\<lparr> dsSendQueue := q' \<rparr>)))))))"

lemma doipLibD:
  assumes "doipLib lib version" "length userData \<le> 51"
    "message = DiagMessage source target userData \<or> message = DiagMessageAck source target userData"
  shows "length (dlSerialize lib version message) \<le> 13 + length userData"
    and "dlPayloadType lib (dlSerialize lib version message @ rest) = Some (payloadTypeOf message)"
    and "dlDeserialize lib (payloadTypeOf message) (dlSerialize lib version message @ rest) = Some message"
  using assms unfolding doipLib_def by blast+

lemma doip_server_answers:
  assumes "doipLib lib (dsVersion server)" "length userData \<le> 50"
    "Rdbi_HandleMessage vehicle clock (cReadDataSid # userData) (dsService server) = (Inr response, service)"
  shows "DoipServer_onReceive lib vehicle clock
      (dlSerialize lib (dsVersion server) (DiagMessage source target (cReadDataSid # userData)) @ rest) server =
    (Inr (), server\<lparr> dsService := service, dsSendQueue := snd (TryEnqueue (dsSendQueue server)
        (dlSerialize lib (dsVersion server) (DiagMessageAck source target response))) \<rparr>)"
  using assms doipLibD(2,3) [OF assms(1), of "cReadDataSid # userData" "DiagMessage source target (cReadDataSid # userData)"]
  by (simp add: DoipServer_onReceive_def Controller_TryHandle_def DiagMessageHandler_TryHandle_def Route_def
      rdbiRouter_def AddService_def Let_def)

lemma client_hears:
  assumes "doipLib lib version" "length response \<le> 51"
  shows "DoipClient_onReceive lib (dlSerialize lib version (DiagMessageAck source target response) @ rest) client =
    (Some response, client)"
  using assms doipLibD(2,3) [OF assms, of "DiagMessageAck source target response"]
  by (simp add: DoipClient_onReceive_def handleDiagMessageAck_def)

lemma response_parsed:
  assumes "didResponse did response" "getDid [sid, high, pid] = Inr did"
  shows "length response \<le> 51"
    and "onUdsDataReceived response = (if hd response = 0x7f then [] else [([pid], drop 3 response)])"
proof -
  have "ucast (did AND 0xff) = pid"
  proof -
    have "did = push_bit 8 (ucast high) OR ucast pid" using assms(2) by (simp add: getDid_def at_def)
    moreover have m: "(0xff :: u16) = mask 8" by (simp add: mask_eq_exp_minus_1)
    ultimately show ?thesis unfolding m by (auto intro!: bit_word_eqI simp: bit_simps)
  qed
  with assms(1) show "length response \<le> 51"
    and "onUdsDataReceived response = (if hd response = 0x7f then [] else [([pid], drop 3 response)])"
    by (auto simp: didResponse_def onUdsDataReceived_def tryParseUdsData_def generateResponse_def cReadDataSid_def
        GenerateNegativeResponse_def nth_Cons)
qed

lemma Async_doip:
  assumes "pid \<in> set obdDoipPids" "dcLogicalAddress client = Some address" "idleQueue (dcSendQueue client)"
  shows "Obd_TryGetResponseAsync lib [pid] client = Inr ([], True, client\<lparr> dcSendQueue :=
    snd (TryEnqueue (dcSendQueue client)
      (dlSerialize lib (dcVersion client) (DiagMessage address address [cReadDataSid, 0xf5, pid]))) \<rparr>)"
proof -
  have "map_of obdAnswers pid = None" using assms(1) by (auto simp: obdDoipPids_def obdAnswers_def)
  with assms show ?thesis
    by (simp add: Obd_TryGetResponseAsync_def at_def trySendAsDoip_def TrySendDiagMessage_def TryEnqueue_def idleQueue_def)
qed

text \<open>C7: A parameter that is read over DoIP goes through the client, the network, the server's router and the service,
  and comes back to the OBD side with its identifier and the data the service gave; a negative response never reaches
  the OBD side. No response is too long for a packet, and both queues are empty again.\<close>

theorem obd_read_end_to_end:
  assumes lib: "doipLib lib (dsVersion server)" "dcVersion client = dsVersion server"
    and address: "dcLogicalAddress client = Some address"
    and idle: "idleQueue (dcSendQueue client)" "idleQueue (dsSendQueue server)"
    and pid: "pid \<in> set obdDoipPids"
    and service: "rdInv vehicleAt (dsService server)"
      "Rdbi_HandleMessage (vehicleAt (snd clock)) clock [cReadDataSid, 0xf5, pid] (dsService server) = (Inr response, service)"
  shows "\<exists>client' server'. obdRound lib former (vehicleAt (snd clock)) clock [pid] client server =
      Some (Inr (if hd response = 0x7f then [] else [([pid], drop 3 response)], True, client', server')) \<and>
    dsService server' = service \<and> idleQueue (dcSendQueue client') \<and> idleQueue (dsSendQueue server')"
proof -
  let ?request = "dlSerialize lib (dsVersion server) (DiagMessage address address [cReadDataSid, 0xf5, pid])"
  let ?reply = "dlSerialize lib (dsVersion server) (DiagMessageAck address address response)"
  from Rdbi_HandleMessage_spec(2) [OF service refl] obtain did where
    "getDid [cReadDataSid, 0xf5, pid] = Inr did" "didResponse did response" by blast
  note parsed = response_parsed [OF this(2,1)]
  have "length ?request \<le> 13 + length [cReadDataSid, 0xf5, pid]" by (rule doipLibD(1) [OF lib(1)]) auto
  then have "length ?request \<le> 64" by simp
  from doip_onSend_one [OF idle(1) this, of "fst former"] obtain q1 where
    sent: "doip_onSend (fst former) (snd (TryEnqueue (dcSendQueue client) ?request)) [] =
      Some (Inr ([?request @ drop (length ?request) (fst former)], q1))" "idleQueue q1" by blast
  have "length response \<le> 7" using \<open>didResponse did response\<close>
    by (auto simp: didResponse_def generateResponse_def GenerateNegativeResponse_def)
  moreover have "length ?reply \<le> 13 + length response" by (rule doipLibD(1) [OF lib(1) parsed(1)]) blast
  ultimately have "length ?reply \<le> 64" by simp
  from doip_onSend_one [OF idle(2) this, of "snd former"] obtain q2 where
    replied: "doip_onSend (snd former) (snd (TryEnqueue (dsSendQueue server) ?reply)) [] =
      Some (Inr ([?reply @ drop (length ?reply) (snd former)], q2))" "idleQueue q2" by blast
  note server = doip_server_answers [OF lib(1), of "[0xf5, pid]", OF _ service(2)]
  note client = client_hears [OF lib(1) parsed(1)]
  show ?thesis
    using sent replied
    by (simp add: obdRound_def Async_doip [OF pid address idle(1)] lib(2) server client parsed(2))
qed

text \<open>An instance of the library, with the generic header and the payloads of ISO 13400-2.\<close>

fun isoPayload :: "DoipMessage \<Rightarrow> bytes" where
  "isoPayload VehicleIdRequest = []"
| "isoPayload (VehicleIdResponse vin logicalAddress eid gid furtherAction) =
     stringBytes vin @ be16 logicalAddress @ eid @ gid @ [furtherAction]"
| "isoPayload (DiagMessage source target userData) = be16 source @ be16 target @ userData"
| "isoPayload (DiagMessageAck source target previousMessage) = be16 source @ be16 target @ 0 # previousMessage"

fun isoType :: "PayloadType \<Rightarrow> u16" where
  "isoType kVehicleIdRequest = 0x0001"
| "isoType kVehicleAnnoucementIdResponse = 0x0004"
| "isoType kDiagMessage = 0x8001"
| "isoType kDiagMessagePositiveAcknowledgement = 0x8002"
| "isoType kOtherPayload = 0x0000"

definition isoSerialize :: "u8 \<Rightarrow> DoipMessage \<Rightarrow> bytes" where
  "isoSerialize version message =
     version # NOT version # be16 (isoType (payloadTypeOf message)) @
     be32 (of_nat (length (isoPayload message))) @ isoPayload message"

fun isoPayloadType :: "bytes \<Rightarrow> PayloadType option" where
  "isoPayloadType (version # inverted # b0 # b1 # rest) =
     map_of (map (\<lambda>t. (isoType t, t))
       [kVehicleIdRequest, kVehicleAnnoucementIdResponse, kDiagMessage, kDiagMessagePositiveAcknowledgement]) (join16 b0 b1)"
| "isoPayloadType _ = None"

definition isoField :: "bytes \<Rightarrow> nat \<Rightarrow> u16" where
  "isoField packet i = join16 (packet ! i) (packet ! (i + 1))"

definition isoData :: "nat \<Rightarrow> bytes \<Rightarrow> bytes" where
  "isoData offset packet =
     take (unat (join32 (packet ! 4) (packet ! 5) (packet ! 6) (packet ! 7)) - offset) (drop (8 + offset) packet)"

fun isoDeserialize :: "PayloadType \<Rightarrow> bytes \<Rightarrow> DoipMessage option" where
  "isoDeserialize kDiagMessage packet =
     Some (DiagMessage (isoField packet 8) (isoField packet 10) (isoData 4 packet))"
| "isoDeserialize kDiagMessagePositiveAcknowledgement packet =
     Some (DiagMessageAck (isoField packet 8) (isoField packet 10) (isoData 5 packet))"
| "isoDeserialize kVehicleIdRequest packet = Some VehicleIdRequest"
| "isoDeserialize _ packet = None"

definition isoLib :: DoipLib where
  "isoLib = \<lparr> dlSerialize = isoSerialize, dlPayloadType = isoPayloadType, dlDeserialize = isoDeserialize,
     dlUnhandled = (\<lambda>_. None) \<rparr>"

lemma isoLib_doipLib: "doipLib isoLib version"
proof -
  have n: "unat (of_nat n :: u32) = n" if "n < 2 ^ 32" for n
    using that by (simp add: unat_of_nat take_bit_nat_eq_self)
  have j: "join32 (ucast (drop_bit 24 w)) (ucast (drop_bit 16 w)) (ucast (drop_bit 8 w)) (ucast w) = w" for w :: u32
    using join32_be32 by (simp add: be32_def)
  show ?thesis
    by (auto simp: doipLib_def isoLib_def isoSerialize_def isoField_def isoData_def be16_def be32_def j n simp del: of_nat_add of_nat_Suc)
qed

theorem obd_read_end_to_end_witness:
  "\<exists>client' server'. obdRound isoLib (replicate 64 0xcc, replicate 64 0xcd) (steadyVehicle ''50'') (1, 2) [0x0d]
      \<lparr> dcVersion = 2, dcLogicalAddress = Some 5, dcSendQueue = newQueue \<rparr>
      (newDoipServer 2 ''u'' ''vin'' 5 1 2) = Some (Inr ([([0x0d], [50])], True, client', server'))"
proof -
  let ?server = "newDoipServer 2 ''u'' ''vin'' 5 1 2"
  let ?client = "\<lparr> dcVersion = 2, dcLogicalAddress = Some 5, dcSendQueue = newQueue \<rparr>"
  have s: "dsVersion ?server = 2" "dsService ?server = newReadDataByIdentifier ''u'' []" "dsSendQueue ?server = newQueue"
    by (simp_all add: newDoipServer_def)
  have idle: "idleQueue newQueue" by (simp add: idleQueue_def newQueue_def queueInv_def)
  have "fst (Rdbi_HandleMessage (steadyVehicle ''50'') (1, 2) [cReadDataSid, 0xf5, 0x0d] (newReadDataByIdentifier ''u'' [])) =
      Inr [0x62, 0xf5, 0x0d, 50]"
    by (simp add: Rdbi_HandleMessage_def getDid_def at_def steadyVehicle_def newReadDataByIdentifier_def
        newMemoryCache_def Cache_TryGet_def GetConversation_def readDid_defs cAverageSpeedDid_def getResource_def
        stoul_small generateResponse_def cReadDataSid_def Cache_Add_def Let_def)
  then obtain service where "Rdbi_HandleMessage (steadyVehicle ''50'') (1, 2) [cReadDataSid, 0xf5, 0x0d]
      (newReadDataByIdentifier ''u'' []) = (Inr [0x62, 0xf5, 0x0d, 50], service)"
    by (metis prod.collapse)
  with obd_read_end_to_end [of isoLib ?server ?client 5 "0x0d" "\<lambda>_. steadyVehicle ''50''" "(1, 2)" "[0x62, 0xf5, 0x0d, 50]"
      service "(replicate 64 0xcc, replicate 64 0xcd)"] isoLib_doipLib idle rdInv_new s
  show ?thesis by (auto simp: obdDoipPids_def)
qed

text \<open>
  What goes wrong. A request of the service's identifier alone ends the server: the exception is not the one that is
  caught. A reading that throws leaves its conversation active.
\<close>

lemma short_read_request_escapes:
  "DiagMessageHandler_TryHandle lib version vehicle clock (DiagMessage source target [cReadDataSid]) rd =
     (Inl Out_of_range, rd)"
  by (simp add: DiagMessageHandler_TryHandle_def Route_def rdbiRouter_def AddService_def Rdbi_HandleMessage_def
      getDid_def at_def)

lemma failed_reading_stays_active:
  assumes "fst (Cache_TryGet (fst clock) did (rdCache rd)) = None" "getDid req = Inr did"
    "freshDid vehicle (rdResourcesUrl rd) did = Inl e"
  shows "\<exists>rd'. Rdbi_HandleMessage vehicle clock req rd = (Inl e, rd') \<and>
    rdConversations rd' = rdConversations rd @ [newConversation]"
proof -
  obtain cache where c: "Cache_TryGet (fst clock) did (rdCache rd) = (None, cache)"
    using assms(1) by (metis prod.collapse)
  let ?rd = "rd\<lparr> rdCache := cache, rdConversations := rdConversations rd @ [newConversation] \<rparr>"
  obtain rd' where "readDid vehicle (snd clock) did ?rd = (Inl e, rd')"
    using readDid_fst [of vehicle "snd clock" did ?rd] assms(3) by (cases "readDid vehicle (snd clock) did ?rd") simp
  moreover from this have "rd' = ?rd" by (rule readDid_Inl)
  ultimately show ?thesis using assms(2) c by (simp add: Rdbi_HandleMessage_def GetConversation_def)
qed

end
