(* ===== verification/Health.thy ===== *)
theory Health
  imports E2E Phm Arxml ConcurrentQueue
begin

text \<open>
  The health monitoring chain: \<open>ara/phm/{supervised_entity,checkpoint_communicator,recovery_action}\<close>,
  \<open>application/helper/{fifo_checkpoint_communicator,log_recovery_action}.cpp\<close> and
  \<open>application/platform/platform_health_management.cpp\<close>. An application reports checkpoints over a FIFO with
  end-to-end protection; the health manager gives them to its supervisions, and an expired global status to the
  recovery action. Its loop and its supervision threads are the events of \<open>phmStep\<close>.
\<close>

section \<open>Checkpoints over a FIFO\<close>

text \<open>\<open>fcCallback\<close>: whether a callback is set.\<close>

record FifoCheckpointCommunicator =
  fcProfile11 :: Profile11
  fcSendQueue :: "bytes ConcurrentQueue"
  fcCallback :: bool

definition newFifoCheckpointCommunicator :: FifoCheckpointCommunicator where
  "newFifoCheckpointCommunicator =
     \<lparr> fcProfile11 = Profile11_init, fcSendQueue = newQueue, fcCallback = False \<rparr>"

definition Communicator_SetCallback :: "FifoCheckpointCommunicator \<Rightarrow> FifoCheckpointCommunicator" where
  "Communicator_SetCallback fc = fc\<lparr> fcCallback := True \<rparr>"

definition Communicator_ResetCallback :: "FifoCheckpointCommunicator \<Rightarrow> FifoCheckpointCommunicator" where
  "Communicator_ResetCallback fc = fc\<lparr> fcCallback := False \<rparr>"

definition cE2eHeaderSize :: nat where "cE2eHeaderSize = 2"
definition cFifoBufferSize :: nat where "cFifoBufferSize = cE2eHeaderSize + 4"

definition Fifo_onCheckpointSend ::
    "bytes \<Rightarrow> bytes ConcurrentQueue \<Rightarrow> bytes list \<Rightarrow> (bytes list \<times> bytes ConcurrentQueue) res option" where
  "Fifo_onCheckpointSend = sendPackets cFifoBufferSize"

text \<open>\<open>received\<close>: whether the read gave more than zero bytes; the buffer after it; the checkpoint given to the callback.\<close>

definition Fifo_onCheckpointReceive ::
    "bool \<Rightarrow> bytes \<Rightarrow> FifoCheckpointCommunicator \<Rightarrow> u32 option res \<times> FifoCheckpointCommunicator" where
  "Fifo_onCheckpointReceive received buffer fc =
     (if received \<and> fcCallback fc
      then (case CheckE2E (fcProfile11 fc) buffer of
              (profile, status) \<Rightarrow>
                (if status = E2E.kOk
                 then (case ExtractInteger buffer cE2eHeaderSize of
                         Inl e \<Rightarrow> (Inl e, fc\<lparr> fcProfile11 := profile \<rparr>)
                       | Inr (checkpoint, _) \<Rightarrow> (Inr (Some checkpoint), fc\<lparr> fcProfile11 := profile \<rparr>))
                 else (Inr None, fc\<lparr> fcProfile11 := profile \<rparr>)))
      else (Inr None, fc))"

definition Fifo_TrySend :: "u32 \<Rightarrow> FifoCheckpointCommunicator \<Rightarrow> bool \<times> FifoCheckpointCommunicator" where
  "Fifo_TrySend checkpoint fc =
     (case TryProtect (fcProfile11 fc) (Inject32 [] checkpoint) of
        (profile, None) \<Rightarrow> (False, fc\<lparr> fcProfile11 := profile \<rparr>)
      | (profile, Some protectedPayload) \<Rightarrow>
          (case TryEnqueue (fcSendQueue fc) protectedPayload of
             (result, q) \<Rightarrow> (result, fc\<lparr> fcProfile11 := profile, fcSendQueue := q \<rparr>)))"

text \<open>A supervised entity drops the result.\<close>

definition ReportCheckpoint :: "u32 \<Rightarrow> FifoCheckpointCommunicator \<Rightarrow> FifoCheckpointCommunicator" where
  "ReportCheckpoint checkpoint fc = snd (Fifo_TrySend checkpoint fc)"

subsection \<open>Delivery\<close>

text \<open>The frames a sender makes, apart from its queue, and what a receiver takes from frames.\<close>

fun framesOf :: "Profile11 \<Rightarrow> u32 list \<Rightarrow> bytes list \<times> Profile11" where
  "framesOf p [] = ([], p)"
| "framesOf p (c # cs) =
     (case TryProtect p (be32 c) of
        (p', Some m) \<Rightarrow> (case framesOf p' cs of (ms, p'') \<Rightarrow> (m # ms, p''))
      | (p', None) \<Rightarrow> framesOf p' cs)"

fun receiveFrames :: "bytes list \<Rightarrow> FifoCheckpointCommunicator \<Rightarrow> u32 list" where
  "receiveFrames [] fc = []"
| "receiveFrames (m # ms) fc =
     (case Fifo_onCheckpointReceive True m fc of
        (Inr (Some c), fc') \<Rightarrow> c # receiveFrames ms fc'
      | (_, fc') \<Rightarrow> receiveFrames ms fc')"

lemma TryProtect_be32: "\<exists>p' m. TryProtect p (be32 c) = (p', Some m)"
  using profile11.protects [of "be32 c" p] by (metis length_be32 list.size(3) zero_neq_numeral)

lemma frame_checkpoint:
  assumes "TryProtect p (be32 c) = (p', Some m)"
  shows "ExtractInteger m cE2eHeaderSize = Inr (c, 6)" "length m = 6"
proof -
  obtain b0 b1 where m: "m = b0 # b1 # be32 c" using TryProtect_frame(1) [OF assms] by blast
  show "ExtractInteger m cE2eHeaderSize = Inr (c, 6)" "length m = 6"
    using join32_be32 [of c] by (simp_all add: m cE2eHeaderSize_def ExtractInteger_join at_def be32_def)
qed

lemma receive_in_sync:
  assumes "inSync11 p (fcProfile11 fc)" "fcCallback fc"
  shows "receiveFrames (fst (framesOf p cs)) fc = cs"
  using assms
proof (induction cs arbitrary: p fc)
  case (Cons c cs)
  obtain p' m where m: "TryProtect p (be32 c) = (p', Some m)" using TryProtect_be32 by blast
  from profile11.accepts [OF Cons.prems(1) m] obtain r where
    r: "CheckE2E (fcProfile11 fc) m = (r, E2E.kOk)" "inSync11 p' r" by blast
  have "receiveFrames (fst (framesOf p' cs)) (fc\<lparr> fcProfile11 := r \<rparr>) = cs"
    by (rule Cons.IH) (simp_all add: r(2) Cons.prems(2))
  then show ?case
    by (simp add: m r(1) Cons.prems(2) Fifo_onCheckpointReceive_def frame_checkpoint(1) [OF m] split: prod.splits)
      (metis fst_conv)
qed simp

text \<open>A fresh sender, whatever the receiver has seen before.\<close>

lemma receive_from_restarted:
  assumes "mCheckingCounter (fcProfile11 fc) \<le> cCounterMax" "fcCallback fc"
  shows "receiveFrames (fst (framesOf Profile11_init cs)) fc =
    (if mCheckingCounter (fcProfile11 fc) = 0 \<or> mCheckingCounter (fcProfile11 fc) = cCounterMax then cs else tl cs)"
proof (cases cs)
  case (Cons c ds)
  obtain p' m where m: "TryProtect Profile11_init (be32 c) = (p', Some m)" using TryProtect_be32 by blast
  have p': "mProtectingCounter p' = 1"
    using TryProtect_frame(2) [OF m] by (simp add: Profile11_init_def cCounterMax_def)
  let ?k = "mCheckingCounter (fcProfile11 fc)"
  let ?fc = "fc\<lparr> fcProfile11 := (fcProfile11 fc)\<lparr> mCheckingCounter := 1 \<rparr> \<rparr>"
  have k: "1 = ?k \<longrightarrow> ?k \<noteq> 0 \<and> ?k \<noteq> cCounterMax" "?k = 0 \<longrightarrow> \<not> 1 < ?k" "1 \<noteq> ?k \<and> \<not> 1 < ?k \<longrightarrow> ?k = 0"
    using u8_upto_14 [of ?k] assms(1) by (auto simp: cCounterMax_def)
  have chk: "CheckE2E (fcProfile11 fc) m = ((fcProfile11 fc)\<lparr> mCheckingCounter := 1 \<rparr>,
      if 1 = ?k then kRepeated else if 1 < ?k \<and> ?k \<noteq> cCounterMax then kWrongSequence else E2E.kOk)"
    using CheckE2E_counter [OF m _ assms(1)] p' by (simp add: cCounterMax_def)
  have rest: "receiveFrames (fst (framesOf p' ds)) ?fc = ds"
    by (rule receive_in_sync) (simp_all add: inSync11_def p' cCounterMax_def assms(2))
  have first: "Fifo_onCheckpointReceive True m fc =
      (Inr (if ?k = 0 \<or> ?k = cCounterMax then Some c else None), ?fc)"
    using k chk by (auto simp: Fifo_onCheckpointReceive_def assms(2) frame_checkpoint(1) [OF m])
  show ?thesis
    using rest by (simp add: Cons m first split: prod.splits) (metis fst_conv)
qed simp

lemma ReportCheckpoint_all:
  "fold ReportCheckpoint cs fc =
     fc\<lparr> fcProfile11 := snd (framesOf (fcProfile11 fc) cs),
         fcSendQueue := fold (\<lambda>x q. snd (TryEnqueue q x)) (fst (framesOf (fcProfile11 fc) cs)) (fcSendQueue fc) \<rparr>"
proof (induction cs arbitrary: fc)
  case (Cons c cs)
  obtain p' m where m: "TryProtect (fcProfile11 fc) (be32 c) = (p', Some m)" using TryProtect_be32 by blast
  obtain b q where q: "TryEnqueue (fcSendQueue fc) m = (b, q)" by fastforce
  have "ReportCheckpoint c fc = fc\<lparr> fcProfile11 := p', fcSendQueue := q \<rparr>"
    by (simp add: ReportCheckpoint_def Fifo_TrySend_def Inject32_be32 m q)
  then show ?case by (simp add: m q Cons.IH split: prod.splits)
qed simp

lemma framesOf_length: "x \<in> set (fst (framesOf p cs)) \<Longrightarrow> length x = 6"
proof (induction cs arbitrary: p)
  case (Cons c cs)
  obtain p' m where m: "TryProtect p (be32 c) = (p', Some m)" using TryProtect_be32 by blast
  with Cons.IH [of p'] Cons.prems frame_checkpoint(2) [OF m] show ?case
    by (cases "framesOf p' cs") auto
qed simp

text \<open>C30: The checkpoints a freshly started application reports reach the health manager in order, each exactly once,
  whatever counter the manager has from an earlier run of the application; exactly the first one is lost when that
  counter is neither zero nor the last one.\<close>

theorem checkpoints_after_restart:
  assumes "fcCallback manager" "mCheckingCounter (fcProfile11 manager) \<le> cCounterMax" "length former = 6"
  shows "\<exists>frames q. Fifo_onCheckpointSend former
        (fcSendQueue (fold ReportCheckpoint checkpoints newFifoCheckpointCommunicator)) [] = Some (Inr (frames, q)) \<and>
      receiveFrames frames manager =
        (if mCheckingCounter (fcProfile11 manager) \<in> {0, cCounterMax} then checkpoints else tl checkpoints)"
proof -
  let ?frames = "fst (framesOf Profile11_init checkpoints)"
  have six: "length x = 6" if "x \<in> set ?frames" for x using framesOf_length that by blast
  then have "map (\<lambda>x. x @ drop (length x) former) (filter (\<lambda>x. length x \<le> 6) ?frames) = ?frames"
    using assms(3) by (auto intro!: map_idI simp: filter_id_conv)
  moreover obtain q where "sendPackets 6 former (fold (\<lambda>x q. snd (TryEnqueue q x)) ?frames newQueue) [] =
      Some (Inr (map (\<lambda>x. x @ drop (length x) former) (filter (\<lambda>x. length x \<le> 6) ?frames), q))"
    using sendPackets_after_enqueue [OF idleQueue_new, of 6 former ?frames] by blast
  ultimately show ?thesis
    using receive_from_restarted [OF assms(2,1), of checkpoints]
    by (simp add: Fifo_onCheckpointSend_def cFifoBufferSize_def cE2eHeaderSize_def ReportCheckpoint_all
        newFifoCheckpointCommunicator_def)
qed

theorem checkpoints_after_restart_witness:
  "\<exists>frames q. Fifo_onCheckpointSend [0, 0, 0, 0, 0, 0]
        (fcSendQueue (fold ReportCheckpoint [1, 2, 3] newFifoCheckpointCommunicator)) [] = Some (Inr (frames, q)) \<and>
      receiveFrames frames \<lparr> fcProfile11 = \<lparr> mProtectingCounter = 0, mCheckingCounter = 5 \<rparr>, fcSendQueue = newQueue,
        fcCallback = True \<rparr> = [2, 3]"
  using checkpoints_after_restart [of "\<lparr> fcProfile11 = \<lparr> mProtectingCounter = 0, mCheckingCounter = 5 \<rparr>,
      fcSendQueue = newQueue, fcCallback = True \<rparr>" "[0, 0, 0, 0, 0, 0]" "[1, 2, 3]"]
  by (simp add: cCounterMax_def)

section \<open>The recovery action\<close>

text \<open>The action of the manager writes a log entry; only its own error code and two types are supported.\<close>

record LogRecoveryAction =
  mOffered :: bool
  recoveryLog :: "string list"

definition newLogRecoveryAction :: LogRecoveryAction where
  "newLogRecoveryAction = \<lparr> mOffered = False, recoveryLog = [] \<rparr>"

definition Recovery_Offer :: "LogRecoveryAction \<Rightarrow> LogRecoveryAction" where
  "Recovery_Offer ra = ra\<lparr> mOffered := True \<rparr>"

definition Recovery_StopOffer :: "LogRecoveryAction \<Rightarrow> LogRecoveryAction" where
  "Recovery_StopOffer ra = ra\<lparr> mOffered := False \<rparr>"

definition RecoveryHandler :: "u32 \<Rightarrow> string \<Rightarrow> TypeOfSupervision \<Rightarrow> LogRecoveryAction \<Rightarrow> LogRecoveryAction" where
  "RecoveryHandler executionError functionGroup supervisionType ra =
     (if mOffered ra \<and> executionError = 0
      then (case supervisionType of
              AliveSupervisionType \<Rightarrow>
                ra\<lparr> recoveryLog := recoveryLog ra @ [''Alive supervision'' @ '' is expired on '' @ functionGroup] \<rparr>
            | DeadlineSupervisionType \<Rightarrow>
                ra\<lparr> recoveryLog := recoveryLog ra @ [''Deadline supervision'' @ '' is expired on '' @ functionGroup] \<rparr>
            | _ \<Rightarrow> ra)
      else ra)"

section \<open>The health manager\<close>

datatype CheckpointDelegate = ReportsAliveness | ReportsSource | ReportsTarget

record PlatformHealthManagement =
  pmFunctionGroup :: string
  mReportDelegates :: "u32 \<rightharpoonup> CheckpointDelegate"
  mAliveSupervision :: "AliveSupervision option"
  mDeadlineSupervision :: "DeadlineSupervision option"
  mGlobalSupervision :: "GlobalSupervision option"
  mRecoveryAction :: LogRecoveryAction

definition newPlatformHealthManagement :: "string \<Rightarrow> PlatformHealthManagement" where
  "newPlatformHealthManagement functionGroup =
     \<lparr> pmFunctionGroup = functionGroup, mReportDelegates = Map.empty, mAliveSupervision = None,
       mDeadlineSupervision = None, mGlobalSupervision = None, mRecoveryAction = newLogRecoveryAction \<rparr>"

subsection \<open>Configuration\<close>

definition getCheckpointId :: "XmlLib \<Rightarrow> string \<Rightarrow> u32 res" where
  "getCheckpointId lib content =
     bindR (ArxmlReader_content lib content) (\<lambda>checkpointReader.
       Inr (Arxml_GetValue (GetRootNode [''SUPERVISION-CHECKPOINT'', ''CHECKPOINT-ID''] checkpointReader)))"

definition fillCheckpoints :: "XmlLib \<Rightarrow> ArxmlReader \<Rightarrow> u32 set res" where
  "fillCheckpoints lib reader =
     fold (\<lambda>node checkpoints. bindR checkpoints (\<lambda>cps.
            bindR (getCheckpointId lib (GetContent lib (Some node))) (\<lambda>checkpointId. Inr (insert checkpointId cps))))
       (GetNodes (cElementsPath @ [''GLOBAL-SUPERVISION'', ''CHECKPOINTS'']) reader) (Inr {})"

text \<open>An inserted delegate does not replace another one of the checkpoint.\<close>

definition tryAddReportDelegate ::
    "string \<Rightarrow> u32 set \<Rightarrow> CheckpointDelegate \<Rightarrow> PlatformHealthManagement \<Rightarrow> bool res \<times> PlatformHealthManagement" where
  "tryAddReportDelegate checkpointIdStr checkpoints delegate pm =
     (case stoul checkpointIdStr of
        Inl e \<Rightarrow> (Inl e, pm)
      | Inr n \<Rightarrow>
          (let checkpointId = ucast n in
           if checkpointId \<in> checkpoints
           then (Inr True,
                 if mReportDelegates pm checkpointId = None
                 then pm\<lparr> mReportDelegates := (mReportDelegates pm)(checkpointId \<mapsto> delegate) \<rparr> else pm)
           else (Inr False, pm)))"

text \<open>Adding the delegate of a reference; both failures are a runtime error.\<close>

definition addReference ::
    "string option \<Rightarrow> u32 set \<Rightarrow> CheckpointDelegate \<Rightarrow> PlatformHealthManagement \<Rightarrow> unit res \<times> PlatformHealthManagement" where
  "addReference reference checkpoints delegate pm =
     (case reference of
        None \<Rightarrow> (Inl Runtime_error, pm)
      | Some checkpointIdStr \<Rightarrow>
          (case tryAddReportDelegate checkpointIdStr checkpoints delegate pm of
             (Inl e, pm) \<Rightarrow> (Inl e, pm)
           | (Inr successful, pm) \<Rightarrow> (if successful then Inr () else Inl Runtime_error, pm)))"

definition configureAliveSupervision ::
    "XmlLib \<Rightarrow> ArxmlReader \<Rightarrow> u32 set \<Rightarrow> PlatformHealthManagement \<Rightarrow> unit res \<times> PlatformHealthManagement" where
  "configureAliveSupervision lib reader checkpoints pm =
     (let node = GetRootNode (cElementsPath @ [''GLOBAL-SUPERVISION'', ''ALIVE-SUPERVISION'']) reader in
      case ArxmlReader_content lib (GetContent lib node) of
        Inl e \<Rightarrow> (Inl e, pm)
      | Inr r \<Rightarrow>
          (case newAliveSupervision
                  (Arxml_GetValue (GetRootNode [''ALIVE-SUPERVISION'', ''EXPECTED-ALIVE-INDICATIONS''] r))
                  (Arxml_GetValue (GetRootNode [''ALIVE-SUPERVISION'', ''MIN-MARGIN''] r))
                  (Arxml_GetValue (GetRootNode [''ALIVE-SUPERVISION'', ''MAX-MARGIN''] r))
                  (uint (Arxml_GetValue (GetRootNode [''ALIVE-SUPERVISION'', ''ALIVE-REFERENCE-CYCLE''] r) :: u32))
                  (Arxml_GetValue (GetRootNode [''ALIVE-SUPERVISION'', ''FAILED-REFERENCE-CYCLES-TOLERANCE''] r)) of
             Inl e \<Rightarrow> (Inl e, pm)
           | Inr alive \<Rightarrow>
               addReference (TryGetReference ''CHECKPOINT-REF'' ''SUPERVISION-CHECKPOINT'' node) checkpoints
                 ReportsAliveness (pm\<lparr> mAliveSupervision := Some alive \<rparr>)))"

definition configureDeadlineSupervision ::
    "XmlLib \<Rightarrow> ArxmlReader \<Rightarrow> u32 set \<Rightarrow> PlatformHealthManagement \<Rightarrow> unit res \<times> PlatformHealthManagement" where
  "configureDeadlineSupervision lib reader checkpoints pm =
     (let node = GetRootNode (cElementsPath @ [''GLOBAL-SUPERVISION'', ''DEADLINE-SUPERVISION'']) reader in
      case ArxmlReader_content lib (GetContent lib node) of
        Inl e \<Rightarrow> (Inl e, pm)
      | Inr r \<Rightarrow>
          (case newDeadlineSupervision
                  (uint (Arxml_GetValue (GetRootNode [''DEADLINE-SUPERVISION'', ''MIN-DEADLINE''] r) :: u32))
                  (uint (Arxml_GetValue (GetRootNode [''DEADLINE-SUPERVISION'', ''MAX-DEADLINE''] r) :: u32)) of
             Inl e \<Rightarrow> (Inl e, pm)
           | Inr deadline \<Rightarrow>
               (let transition = GetRootNode [''DEADLINE-SUPERVISION'', ''TRANSITION'', ''CHECKPOINT-TRANSITION''] r in
                case addReference (TryGetReference ''SOURCE-REF'' ''SUPERVISION-CHECKPOINT'' transition) checkpoints
                       ReportsSource (pm\<lparr> mDeadlineSupervision := Some deadline \<rparr>) of
                  (Inl e, pm) \<Rightarrow> (Inl e, pm)
                | (Inr _, pm) \<Rightarrow>
                    addReference (TryGetReference ''TARGET-REF'' ''SUPERVISION-CHECKPOINT'' transition) checkpoints
                      ReportsTarget pm)))"

text \<open>The two statuses as the global supervision reads them when it is made.\<close>

definition startGlobalSupervision :: "PlatformHealthManagement \<Rightarrow> PlatformHealthManagement" where
  "startGlobalSupervision pm =
     (case (mAliveSupervision pm, mDeadlineSupervision pm) of
        (Some alive, Some deadline) \<Rightarrow>
          pm\<lparr> mRecoveryAction := Recovery_Offer (mRecoveryAction pm),
              mGlobalSupervision := Some (newGlobalSupervision
                [(AliveSupervisionType, asStatus alive), (DeadlineSupervisionType, dsStatus deadline)]) \<rparr>
      | _ \<Rightarrow> pm)"

text \<open>
  \<open>Main\<close> up to its loop: the exit code when it ends there, or an exception that leaves it (only runtime errors are
  caught).
\<close>

definition Phm_Main ::
    "XmlLib \<Rightarrow> arguments \<Rightarrow> PlatformHealthManagement \<Rightarrow> int option res \<times> PlatformHealthManagement" where
  "Phm_Main lib arguments pm =
     (let caught = (\<lambda>e. if e = Runtime_error then Inr (Some 1) else Inl e) in
      case arguments cPhmConfigArgument of
        None \<Rightarrow> (caught Out_of_range, pm)
      | Some configFilepath \<Rightarrow>
          (case ArxmlReader_file lib configFilepath of
             Inl e \<Rightarrow> (caught e, pm)
           | Inr reader \<Rightarrow>
               (case fillCheckpoints lib reader of
                  Inl e \<Rightarrow> (caught e, pm)
                | Inr checkpoints \<Rightarrow>
                    (case configureAliveSupervision lib reader checkpoints pm of
                       (Inl e, pm) \<Rightarrow> (caught e, pm)
                     | (Inr _, pm) \<Rightarrow>
                         (case configureDeadlineSupervision lib reader checkpoints pm of
                            (Inl e, pm) \<Rightarrow> (caught e, pm)
                          | (Inr _, pm) \<Rightarrow> (Inr None, startGlobalSupervision pm))))))"

subsection \<open>Running\<close>

text \<open>The global callback, called for each update the global supervision has made since \<open>before\<close>.\<close>

definition onGlobalStatusChanged :: "SupervisionStatus \<times> TypeOfSupervision \<Rightarrow> PlatformHealthManagement \<Rightarrow> PlatformHealthManagement" where
  "onGlobalStatusChanged update pm =
     (if fst update = kExpired
      then pm\<lparr> mRecoveryAction := RecoveryHandler 0 (pmFunctionGroup pm) (snd update) (mRecoveryAction pm) \<rparr>
      else pm)"

text \<open>The callback of an elementary supervision at position \<open>i\<close>.\<close>

definition elementaryChanged :: "nat \<Rightarrow> SupervisionStatus option \<Rightarrow> PlatformHealthManagement \<Rightarrow> PlatformHealthManagement" where
  "elementaryChanged i cb pm =
     (case (cb, mGlobalSupervision pm) of
        (Some status, Some g) \<Rightarrow>
          (let g' = onElementaryStatusChanged
                      (g\<lparr> mSupervisors := (mSupervisors g)[i := (fst (mSupervisors g ! i), status)] \<rparr>)
           in fold onGlobalStatusChanged (drop (length (globalUpdates g)) (globalUpdates g'))
                (pm\<lparr> mGlobalSupervision := Some g' \<rparr>))
      | _ \<Rightarrow> pm)"

definition aliveEvent :: "AliveEvent \<Rightarrow> PlatformHealthManagement \<Rightarrow> PlatformHealthManagement" where
  "aliveEvent e pm =
     (case mAliveSupervision pm of
        None \<Rightarrow> pm
      | Some s \<Rightarrow> (case aliveStep e s of (s', cb) \<Rightarrow> elementaryChanged 0 cb (pm\<lparr> mAliveSupervision := Some s' \<rparr>)))"

definition deadlineEvent :: "DeadlineEvent \<Rightarrow> PlatformHealthManagement \<Rightarrow> PlatformHealthManagement" where
  "deadlineEvent e pm =
     (case mDeadlineSupervision pm of
        None \<Rightarrow> pm
      | Some s \<Rightarrow> (case deadlineStep e s of (s', cb) \<Rightarrow> elementaryChanged 1 cb (pm\<lparr> mDeadlineSupervision := Some s' \<rparr>)))"

definition onReportCheckpoint :: "int \<Rightarrow> u32 \<Rightarrow> PlatformHealthManagement \<Rightarrow> PlatformHealthManagement" where
  "onReportCheckpoint now checkpoint pm =
     (case mReportDelegates pm checkpoint of
        None \<Rightarrow> pm
      | Some ReportsAliveness \<Rightarrow> aliveEvent Aliveness pm
      | Some ReportsSource \<Rightarrow> deadlineEvent (SourceCheckpoint now) pm
      | Some ReportsTarget \<Rightarrow> deadlineEvent TargetCheckpoint pm)"

text \<open>A checkpoint is received, a reference cycle ends, or the deadline worker wakes up.\<close>

datatype PhmEvent = CheckpointReceived int u32 | AliveCycleEnds | DeadlineWakes bool int

fun phmStep :: "PhmEvent \<Rightarrow> PlatformHealthManagement \<Rightarrow> PlatformHealthManagement" where
  "phmStep (CheckpointReceived now checkpoint) pm = onReportCheckpoint now checkpoint pm"
| "phmStep AliveCycleEnds pm = aliveEvent CycleEnds pm"
| "phmStep (DeadlineWakes timeout now) pm = deadlineEvent (WorkerWakes timeout now) pm"

section \<open>A silent application is recovered\<close>

text \<open>
  The state of a configured manager: the global supervision has the statuses of both supervisions and the worst of
  them, and the recovery action has been invoked once if that is the expired status, and never otherwise.
\<close>

definition phmInv :: "PlatformHealthManagement \<Rightarrow> bool" where
  "phmInv pm \<longleftrightarrow>
     (\<exists>alive deadline g. mAliveSupervision pm = Some alive \<and> mDeadlineSupervision pm = Some deadline \<and>
        mGlobalSupervision pm = Some g \<and> mOffered (mRecoveryAction pm) \<and>
        mSupervisors g = [(AliveSupervisionType, asStatus alive), (DeadlineSupervisionType, dsStatus deadline)] \<and>
        gsStatus g = max (asStatus alive) (dsStatus deadline) \<and>
        length (recoveryLog (mRecoveryAction pm)) = (if gsStatus g = kExpired then 1 else 0) \<and>
        0 < mExpectedAliveIndicationsMin alive \<and>
        (if mRunning alive then mAliveCounter alive < mFailedReferenceCyclesTolerance alive
         else asStatus alive = kExpired))"

lemma getGlobalUpdate_two:
  "getGlobalUpdate [(AliveSupervisionType, a), (DeadlineSupervisionType, d)] =
     (if a < d then (d, DeadlineSupervisionType) else (a, AliveSupervisionType))"
  by (simp add: getGlobalUpdate_def)

lemma expired_max: "max a b = kExpired \<longleftrightarrow> a = kExpired \<or> b = kExpired"
  by (cases a; cases b) (simp_all add: max_def less_eq_SupervisionStatus_def)

text \<open>A new elementary status, from which the expired status is not left.\<close>

lemma elementaryChanged_inv:
  assumes "mGlobalSupervision pm = Some g" "mOffered (mRecoveryAction pm)"
    "mSupervisors g = [(AliveSupervisionType, a), (DeadlineSupervisionType, d)]" "gsStatus g = max a d"
    "length (recoveryLog (mRecoveryAction pm)) = (if gsStatus g = kExpired then 1 else 0)"
    and new: "i = 0 \<and> a' = s \<and> d' = d \<and> a \<noteq> kExpired \<or> i = 1 \<and> d' = s \<and> a' = a \<and> d \<noteq> kExpired"
  shows "\<exists>g' ra. elementaryChanged i (Some s) pm = pm\<lparr> mGlobalSupervision := Some g', mRecoveryAction := ra \<rparr> \<and>
    mOffered ra \<and> mSupervisors g' = [(AliveSupervisionType, a'), (DeadlineSupervisionType, d')] \<and>
    gsStatus g' = max a' d' \<and> length (recoveryLog ra) = (if gsStatus g' = kExpired then 1 else 0)"
proof -
  define sups where "sups = [(AliveSupervisionType, a'), (DeadlineSupervisionType, d')]"
  have sups: "(mSupervisors g)[i := (fst (mSupervisors g ! i), s)] = sups"
    using new assms(3) by (auto simp: sups_def)
  have up: "getGlobalUpdate sups = (max a' d', if a' < d' then DeadlineSupervisionType else AliveSupervisionType)"
    by (auto simp: sups_def getGlobalUpdate_two max_def)
  have keep: "gsStatus g = kExpired \<Longrightarrow> max a' d' = kExpired"
    using new assms(4) by (auto simp: expired_max)
  show ?thesis
  proof (cases "max a' d' = gsStatus g")
    case True
    then have "elementaryChanged i (Some s) pm = pm\<lparr> mGlobalSupervision := Some (g\<lparr> mSupervisors := sups \<rparr>),
        mRecoveryAction := mRecoveryAction pm \<rparr>"
      by (simp add: elementaryChanged_def assms(1) sups onElementaryStatusChanged_def up Let_def)
    with True assms keep show ?thesis
      by (intro exI [of _ "g\<lparr> mSupervisors := sups \<rparr>"] exI [of _ "mRecoveryAction pm"]) (simp add: sups_def)
  next
    case False
    let ?g = "g\<lparr> mSupervisors := sups, gsStatus := max a' d', globalUpdates := globalUpdates g @ [getGlobalUpdate sups] \<rparr>"
    let ?pm = "pm\<lparr> mGlobalSupervision := Some ?g \<rparr>"
    have e: "elementaryChanged i (Some s) pm = onGlobalStatusChanged (getGlobalUpdate sups) ?pm"
      using False by (simp add: elementaryChanged_def assms(1) sups onElementaryStatusChanged_def up Let_def)
    have ng: "gsStatus g \<noteq> kExpired" using keep False by auto
    let ?ra = "mRecoveryAction (onGlobalStatusChanged (getGlobalUpdate sups) ?pm)"
    have "onGlobalStatusChanged (getGlobalUpdate sups) ?pm = pm\<lparr> mGlobalSupervision := Some ?g, mRecoveryAction := ?ra \<rparr>"
      by (simp add: onGlobalStatusChanged_def)
    moreover have "mOffered ?ra \<and> length (recoveryLog ?ra) = (if max a' d' = kExpired then 1 else 0)"
      using assms(2,5) ng by (simp add: onGlobalStatusChanged_def up RecoveryHandler_def)
    ultimately show ?thesis unfolding e by (intro exI [of _ ?g] exI [of _ ?ra]) (simp add: sups_def)
  qed
qed

text \<open>What the events of the two supervisions do to their statuses.\<close>

lemma aliveStep_facts:
  assumes "aliveStep e s = (s', cb)" "e \<noteq> AliveDestroyed" "0 < mExpectedAliveIndicationsMin s"
    "if mRunning s then mAliveCounter s < mFailedReferenceCyclesTolerance s else asStatus s = kExpired"
  shows "mExpectedAliveIndicationsMin s' = mExpectedAliveIndicationsMin s"
    and "mFailedReferenceCyclesTolerance s' = mFailedReferenceCyclesTolerance s"
    and "if mRunning s' then mAliveCounter s' < mFailedReferenceCyclesTolerance s' else asStatus s' = kExpired"
    and "cb = (if asStatus s' = asStatus s then None else Some (asStatus s'))"
    and "asStatus s = kExpired \<Longrightarrow> asStatus s' = kExpired"
proof -
  have cb: "cb = (if asStatus s' = asStatus s then None else Some (asStatus s')) \<and>
      (asStatus s = kExpired \<longrightarrow> asStatus s' = kExpired)"
    using alive.reports [OF assms(1)] by (auto simp: Report_def split: if_splits SupervisionStatus.splits)
  then show "cb = (if asStatus s' = asStatus s then None else Some (asStatus s'))"
    and "asStatus s = kExpired \<Longrightarrow> asStatus s' = kExpired" by auto
  have less: "mAliveCounter s - 1 < mFailedReferenceCyclesTolerance s"
    if "mAliveCounter s < mFailedReferenceCyclesTolerance s" "0 < mAliveCounter s"
  proof -
    have "unat (mAliveCounter s - 1) = unat (mAliveCounter s) - 1" by (rule unat_minus_one) (use that in auto)
    then show ?thesis using that by (simp add: word_less_nat_alt)
  qed
  show "mExpectedAliveIndicationsMin s' = mExpectedAliveIndicationsMin s"
    "mFailedReferenceCyclesTolerance s' = mFailedReferenceCyclesTolerance s"
    "if mRunning s' then mAliveCounter s' < mFailedReferenceCyclesTolerance s' else asStatus s' = kExpired"
    using assms less
    by (cases e; force simp: superviseCycle_def ReportAliveness_def reportAlive_def Report_def Let_def
        split: if_splits prod.splits SupervisionStatus.splits)+
qed

lemma elementaryChanged_None: "elementaryChanged i None pm = pm"
  by (simp add: elementaryChanged_def)

lemma aliveEvent_inv:
  assumes "phmInv pm" "mAliveSupervision pm = Some s" "e \<noteq> AliveDestroyed"
  shows "phmInv (aliveEvent e pm) \<and> mAliveSupervision (aliveEvent e pm) = Some (fst (aliveStep e s)) \<and>
    mReportDelegates (aliveEvent e pm) = mReportDelegates pm"
proof -
  obtain d g where pm: "mDeadlineSupervision pm = Some d" "mGlobalSupervision pm = Some g"
      "mOffered (mRecoveryAction pm)"
      "mSupervisors g = [(AliveSupervisionType, asStatus s), (DeadlineSupervisionType, dsStatus d)]"
      "gsStatus g = max (asStatus s) (dsStatus d)"
      "length (recoveryLog (mRecoveryAction pm)) = (if gsStatus g = kExpired then 1 else 0)"
    and s: "0 < mExpectedAliveIndicationsMin s"
      "if mRunning s then mAliveCounter s < mFailedReferenceCyclesTolerance s else asStatus s = kExpired"
    using assms(1,2) by (auto simp: phmInv_def)
  obtain s' cb where st: "aliveStep e s = (s', cb)" by fastforce
  note facts = aliveStep_facts [OF st assms(3) s]
  show ?thesis
  proof (cases "asStatus s' = asStatus s")
    case True
    then show ?thesis using pm s facts st
      by (simp add: aliveEvent_def assms(2) elementaryChanged_None phmInv_def)
  next
    case False
    then have ne: "asStatus s \<noteq> kExpired" using facts(5) by auto
    obtain g' ra where "elementaryChanged 0 (Some (asStatus s')) (pm\<lparr> mAliveSupervision := Some s' \<rparr>) =
        pm\<lparr> mAliveSupervision := Some s', mGlobalSupervision := Some g', mRecoveryAction := ra \<rparr>"
      "mOffered ra" "mSupervisors g' = [(AliveSupervisionType, asStatus s'), (DeadlineSupervisionType, dsStatus d)]"
      "gsStatus g' = max (asStatus s') (dsStatus d)"
      "length (recoveryLog ra) = (if gsStatus g' = kExpired then 1 else 0)"
      using elementaryChanged_inv [of "pm\<lparr> mAliveSupervision := Some s' \<rparr>" g "asStatus s" "dsStatus d" 0
          "asStatus s'" "asStatus s'" "dsStatus d"] pm ne by auto
    then show ?thesis using facts s st False
      by (simp add: aliveEvent_def assms(2) phmInv_def pm(1))
  qed
qed

lemma deadlineEvent_inv:
  assumes "phmInv pm"
  shows "phmInv (deadlineEvent e pm) \<and> mAliveSupervision (deadlineEvent e pm) = mAliveSupervision pm \<and>
    mReportDelegates (deadlineEvent e pm) = mReportDelegates pm"
proof -
  obtain s d g where pm: "mAliveSupervision pm = Some s" "mDeadlineSupervision pm = Some d" "mGlobalSupervision pm = Some g"
      "mOffered (mRecoveryAction pm)"
      "mSupervisors g = [(AliveSupervisionType, asStatus s), (DeadlineSupervisionType, dsStatus d)]"
      "gsStatus g = max (asStatus s) (dsStatus d)"
      "length (recoveryLog (mRecoveryAction pm)) = (if gsStatus g = kExpired then 1 else 0)"
    and s: "0 < mExpectedAliveIndicationsMin s"
      "if mRunning s then mAliveCounter s < mFailedReferenceCyclesTolerance s else asStatus s = kExpired"
    using assms by (auto simp: phmInv_def)
  obtain d' cb where st: "deadlineStep e d = (d', cb)" by fastforce
  have cb: "cb = (if dsStatus d' = dsStatus d then None else Some (dsStatus d'))"
      "dsStatus d = kExpired \<Longrightarrow> dsStatus d' = kExpired"
    using deadline.reports [OF st] by (auto simp: Report_def split: if_splits SupervisionStatus.splits)
  show ?thesis
  proof (cases "dsStatus d' = dsStatus d")
    case True
    then show ?thesis using pm s cb st
      by (simp add: deadlineEvent_def elementaryChanged_None phmInv_def)
  next
    case False
    then have ne: "dsStatus d \<noteq> kExpired" using cb(2) by auto
    obtain g' ra where "elementaryChanged 1 (Some (dsStatus d')) (pm\<lparr> mDeadlineSupervision := Some d' \<rparr>) =
        pm\<lparr> mDeadlineSupervision := Some d', mGlobalSupervision := Some g', mRecoveryAction := ra \<rparr>"
      "mOffered ra" "mSupervisors g' = [(AliveSupervisionType, asStatus s), (DeadlineSupervisionType, dsStatus d')]"
      "gsStatus g' = max (asStatus s) (dsStatus d')"
      "length (recoveryLog ra) = (if gsStatus g' = kExpired then 1 else 0)"
      using elementaryChanged_inv [of "pm\<lparr> mDeadlineSupervision := Some d' \<rparr>" g "asStatus s" "dsStatus d" 1
          "asStatus s" "dsStatus d'" "dsStatus d'"] pm ne by auto
    then show ?thesis using s st cb False
      by (simp add: deadlineEvent_def phmInv_def pm(1,2))
  qed
qed

lemma phmStep_inv:
  assumes "phmInv pm"
  shows "phmInv (phmStep e pm) \<and> mReportDelegates (phmStep e pm) = mReportDelegates pm"
proof -
  obtain s where "mAliveSupervision pm = Some s" using assms by (auto simp: phmInv_def)
  with assms aliveEvent_inv [OF assms this] deadlineEvent_inv [OF assms] show ?thesis
    by (cases e) (auto simp: onReportCheckpoint_def split: option.splits CheckpointDelegate.splits)
qed

lemma phmRun_inv:
  "phmInv pm \<Longrightarrow> phmInv (fold phmStep es pm) \<and> mReportDelegates (fold phmStep es pm) = mReportDelegates pm"
  by (induction es arbitrary: pm) (auto simp: phmStep_inv)

text \<open>A supervision that has seen no indication in the last \<open>k\<close> cycles is at most one cycle behind.\<close>

definition quiet :: "nat \<Rightarrow> AliveSupervision \<Rightarrow> bool" where
  "quiet k s \<longleftrightarrow> \<not> mRunning s \<or> k = 0 \<or> mAliveIndications s = 0 \<and> k \<le> unat (mAliveCounter s) + 1"

lemma quiet_cycle:
  assumes "quiet k s" "0 < mExpectedAliveIndicationsMin s"
    "mRunning s \<Longrightarrow> mAliveCounter s < mFailedReferenceCyclesTolerance s"
  shows "quiet (k + 1) (fst (superviseCycle s))"
proof (cases "mRunning s \<and> 0 < k")
  case True
  have "mAliveCounter s < mFailedReferenceCyclesTolerance s" using assms(3) True by simp
  then have "unat (mAliveCounter s + 1) = unat (mAliveCounter s) + 1"
    using unsigned_less [of "mFailedReferenceCyclesTolerance s", where ?'a = nat]
    by (simp add: unat_word_ariths word_less_nat_alt)
  with True assms(1,2) show ?thesis
    by (auto simp: quiet_def superviseCycle_def reportAlive_def Let_def not_le split: prod.splits)
next
  case False
  with assms(1) show ?thesis
    by (auto simp: quiet_def superviseCycle_def reportAlive_def Let_def split: prod.splits)
qed

definition silentEvent :: "(u32 \<rightharpoonup> CheckpointDelegate) \<Rightarrow> PhmEvent \<Rightarrow> bool" where
  "silentEvent delegates e \<longleftrightarrow>
     (case e of CheckpointReceived now checkpoint \<Rightarrow> delegates checkpoint \<noteq> Some ReportsAliveness | _ \<Rightarrow> True)"

lemma silent_run:
  assumes "phmInv pm" "mAliveSupervision pm = Some s" "quiet k s" "list_all (silentEvent (mReportDelegates pm)) es"
  shows "\<exists>s'. mAliveSupervision (fold phmStep es pm) = Some s' \<and> quiet (k + length (filter (\<lambda>e. e = AliveCycleEnds) es)) s' \<and>
    mFailedReferenceCyclesTolerance s' = mFailedReferenceCyclesTolerance s"
  using assms
proof (induction es arbitrary: pm s k)
  case (Cons e es)
  note inv = phmStep_inv [OF Cons.prems(1), of e]
  have s: "0 < mExpectedAliveIndicationsMin s"
      "if mRunning s then mAliveCounter s < mFailedReferenceCyclesTolerance s else asStatus s = kExpired"
    using Cons.prems(1,2) by (auto simp: phmInv_def)
  have "\<exists>s1. mAliveSupervision (phmStep e pm) = Some s1 \<and> quiet (k + (if e = AliveCycleEnds then 1 else 0)) s1 \<and>
      mFailedReferenceCyclesTolerance s1 = mFailedReferenceCyclesTolerance s"
  proof (cases "e = AliveCycleEnds")
    case True
    obtain s1 cb where st: "aliveStep CycleEnds s = (s1, cb)" by fastforce
    show ?thesis
      using aliveEvent_inv [OF Cons.prems(1,2), of CycleEnds] aliveStep_facts(2) [OF st _ s] True st
        quiet_cycle [OF Cons.prems(3) s(1)] s(2) by (auto split: if_splits)
  next
    case False
    then have "mAliveSupervision (phmStep e pm) = mAliveSupervision pm"
      using Cons.prems(4) deadlineEvent_inv [OF Cons.prems(1)]
      by (cases e) (auto simp: silentEvent_def onReportCheckpoint_def split: option.splits CheckpointDelegate.splits)
    then show ?thesis using False Cons.prems(2,3) by auto
  qed
  then obtain s1 where s1: "mAliveSupervision (phmStep e pm) = Some s1"
      "quiet (k + (if e = AliveCycleEnds then 1 else 0)) s1"
      "mFailedReferenceCyclesTolerance s1 = mFailedReferenceCyclesTolerance s" by blast
  from Cons.IH [OF conjunct1 [OF inv] s1(1,2)] Cons.prems(4) inv s1(3) show ?case by (auto split: if_splits)
qed simp

lemma addReference_keeps:
  "addReference reference checkpoints delegate pm = (r, pm') \<Longrightarrow> \<exists>f. pm' = pm\<lparr> mReportDelegates := f \<rparr>"
  by (auto simp: addReference_def tryAddReportDelegate_def Let_def split: option.splits sum.splits prod.splits if_splits)
    (metis PlatformHealthManagement.surjective PlatformHealthManagement.update_convs(2))+

lemma newAlive_facts:
  "newAliveSupervision expected minMargin maxMargin cycle tolerance = Inr s \<Longrightarrow>
     asStatus s = kDeactivated \<and> mRunning s \<and> 0 < mExpectedAliveIndicationsMin s \<and>
     mAliveCounter s < mFailedReferenceCyclesTolerance s"
  by (auto simp: newAliveSupervision_def word_less_nat_alt unat_sub_if_size split: if_splits)

lemma newDeadline_facts: "newDeadlineSupervision minDeadline maxDeadline = Inr d \<Longrightarrow> dsStatus d = kDeactivated"
  by (auto simp: newDeadlineSupervision_def split: if_splits)

lemma configureAlive_facts:
  assumes "configureAliveSupervision lib reader checkpoints pm = (Inr u, pm')"
  shows "\<exists>f s. pm' = pm\<lparr> mAliveSupervision := Some s, mReportDelegates := f \<rparr> \<and> asStatus s = kDeactivated \<and> mRunning s \<and>
    0 < mExpectedAliveIndicationsMin s \<and> mAliveCounter s < mFailedReferenceCyclesTolerance s"
proof -
  obtain a b c d e s t where
    s: "newAliveSupervision a b c d e = Inr s" and
    r: "addReference t checkpoints ReportsAliveness (pm\<lparr> mAliveSupervision := Some s \<rparr>) = (Inr u, pm')"
    using assms by (fastforce simp: configureAliveSupervision_def Let_def split: sum.splits)
  from addReference_keeps [OF r] newAlive_facts [OF s] show ?thesis by auto
qed

lemma configureDeadline_facts:
  assumes "configureDeadlineSupervision lib reader checkpoints pm = (Inr u, pm')"
  shows "\<exists>f d. pm' = pm\<lparr> mDeadlineSupervision := Some d, mReportDelegates := f \<rparr> \<and> dsStatus d = kDeactivated"
proof -
  obtain x y t1 t2 d pm1 w where d: "newDeadlineSupervision x y = Inr d"
    and a: "addReference t1 checkpoints ReportsSource (pm\<lparr> mDeadlineSupervision := Some d \<rparr>) = (Inr w, pm1)"
      "addReference t2 checkpoints ReportsTarget pm1 = (Inr u, pm')"
    using assms by (fastforce simp: configureDeadlineSupervision_def Let_def split: sum.splits prod.splits)
  obtain f where pm1: "pm1 = pm\<lparr> mDeadlineSupervision := Some d, mReportDelegates := f \<rparr>"
    using addReference_keeps [OF a(1)] by blast
  obtain f' where "pm' = pm1\<lparr> mReportDelegates := f' \<rparr>" using addReference_keeps [OF a(2)] by blast
  then have "pm' = pm\<lparr> mDeadlineSupervision := Some d, mReportDelegates := f' \<rparr>" by (simp add: pm1)
  with newDeadline_facts [OF d] show ?thesis by blast
qed

lemma Phm_Main_inv:
  assumes "Phm_Main lib arguments (newPlatformHealthManagement functionGroup) = (Inr None, pm)"
  shows "phmInv pm"
proof -
  obtain reader checkpoints pm1 pm2 u v where
    a: "configureAliveSupervision lib reader checkpoints (newPlatformHealthManagement functionGroup) = (Inr u, pm1)" and
    d: "configureDeadlineSupervision lib reader checkpoints pm1 = (Inr v, pm2)" and
    pm: "pm = startGlobalSupervision pm2"
    using assms by (auto simp: Phm_Main_def Let_def split: option.splits sum.splits prod.splits if_splits)
  from configureAlive_facts [OF a] obtain f s where
    s: "pm1 = (newPlatformHealthManagement functionGroup)\<lparr> mAliveSupervision := Some s, mReportDelegates := f \<rparr>"
      "asStatus s = kDeactivated" "mRunning s" "0 < mExpectedAliveIndicationsMin s"
      "mAliveCounter s < mFailedReferenceCyclesTolerance s" by blast
  from configureDeadline_facts [OF d] obtain f' d where
    "pm2 = pm1\<lparr> mDeadlineSupervision := Some d, mReportDelegates := f' \<rparr>" "dsStatus d = kDeactivated" by blast
  with s show ?thesis
    by (simp add: pm startGlobalSupervision_def phmInv_def newGlobalSupervision_def getGlobalUpdate_two Recovery_Offer_def
        newPlatformHealthManagement_def newLogRecoveryAction_def)
qed

text \<open>C6: Once the health manager is configured, an application that stops reporting aliveness is recovered, whatever
  happened before and whatever else happens: after one reference cycle more than the tolerance the global status is
  expired and the recovery action has been invoked, exactly once.\<close>

theorem silent_application_recovered:
  assumes "Phm_Main lib arguments (newPlatformHealthManagement functionGroup) = (Inr None, pm0)"
    "mAliveSupervision pm0 = Some alive"
    and "list_all (silentEvent (mReportDelegates pm0)) es"
    and "unat (mFailedReferenceCyclesTolerance alive) < length (filter (\<lambda>e. e = AliveCycleEnds) es)"
    and "pm = fold phmStep es (fold phmStep history pm0)"
  shows "map_option gsStatus (mGlobalSupervision pm) = Some kExpired \<and> length (recoveryLog (mRecoveryAction pm)) = 1"
proof -
  note inv0 = Phm_Main_inv [OF assms(1)]
  let ?pm1 = "fold phmStep history pm0"
  note inv1 = phmRun_inv [OF inv0, of history]
  have tol: "\<exists>s. mAliveSupervision (fold phmStep h pm0) = Some s \<and>
      mFailedReferenceCyclesTolerance s = mFailedReferenceCyclesTolerance alive" for h
  proof (induction h rule: rev_induct)
    case (snoc e h)
    then obtain s where s: "mAliveSupervision (fold phmStep h pm0) = Some s"
      "mFailedReferenceCyclesTolerance s = mFailedReferenceCyclesTolerance alive" by blast
    have i: "phmInv (fold phmStep h pm0)" using phmRun_inv [OF inv0] by blast
    have a: "0 < mExpectedAliveIndicationsMin s"
      "if mRunning s then mAliveCounter s < mFailedReferenceCyclesTolerance s else asStatus s = kExpired"
      using i s(1) by (auto simp: phmInv_def)
    have step: "\<exists>s'. mAliveSupervision (aliveEvent e' (fold phmStep h pm0)) = Some s' \<and>
        mFailedReferenceCyclesTolerance s' = mFailedReferenceCyclesTolerance alive" if "e' \<noteq> AliveDestroyed" for e'
      using aliveEvent_inv [OF i s(1) that] aliveStep_facts(2) [OF prod.collapse [symmetric] that a] s(2) by auto
    show ?case
      using step deadlineEvent_inv [OF i] s
      by (cases e) (auto simp: onReportCheckpoint_def split: option.splits CheckpointDelegate.splits)
  qed (simp add: assms(2))
  obtain s1 where s1: "mAliveSupervision ?pm1 = Some s1"
    "mFailedReferenceCyclesTolerance s1 = mFailedReferenceCyclesTolerance alive" using tol by blast
  have "quiet 0 s1" by (simp add: quiet_def)
  from silent_run [OF conjunct1 [OF inv1] s1(1) this] assms(3,5) inv1 obtain s2 where
    s2: "mAliveSupervision pm = Some s2" "quiet (length (filter (\<lambda>e. e = AliveCycleEnds) es)) s2"
      "mFailedReferenceCyclesTolerance s2 = mFailedReferenceCyclesTolerance alive"
    using s1(2) by auto
  have inv: "phmInv pm" using phmRun_inv [OF conjunct1 [OF inv1], of es] assms(5) by simp
  have "\<not> mRunning s2"
  proof
    assume r: "mRunning s2"
    then have "mAliveCounter s2 < mFailedReferenceCyclesTolerance s2" using inv s2(1) by (auto simp: phmInv_def)
    with s2(2,3) assms(4) r show False by (auto simp: quiet_def word_less_nat_alt)
  qed
  with inv s2(1) show ?thesis by (auto simp: phmInv_def expired_max)
qed

text \<open>A manifest, and a library that reads its parts back.\<close>

definition checkpointRef :: "string \<Rightarrow> string \<Rightarrow> XmlNode" where
  "checkpointRef name text = XmlElement name [(''DEST'', ''SUPERVISION-CHECKPOINT'')] [XmlText text]"

definition checkpointNode :: "string \<Rightarrow> XmlNode" where
  "checkpointNode text = XmlElement ''SUPERVISION-CHECKPOINT'' [] [textElement ''CHECKPOINT-ID'' text]"

definition aliveNode :: XmlNode where
  "aliveNode = XmlElement ''ALIVE-SUPERVISION'' []
     [textElement ''EXPECTED-ALIVE-INDICATIONS'' ''3'', textElement ''MIN-MARGIN'' ''1'', textElement ''MAX-MARGIN'' ''1'',
      textElement ''ALIVE-REFERENCE-CYCLE'' ''9'', textElement ''FAILED-REFERENCE-CYCLES-TOLERANCE'' ''2'',
      checkpointRef ''CHECKPOINT-REF'' ''0'']"

definition deadlineNode :: XmlNode where
  "deadlineNode = XmlElement ''DEADLINE-SUPERVISION'' []
     [textElement ''MIN-DEADLINE'' ''3'', textElement ''MAX-DEADLINE'' ''9'',
      XmlElement ''TRANSITION'' [] [XmlElement ''CHECKPOINT-TRANSITION'' []
        [checkpointRef ''SOURCE-REF'' ''1'', checkpointRef ''TARGET-REF'' ''2'']]]"

definition phmDocument :: "XmlNode list" where
  "phmDocument = [foldr (\<lambda>name node. XmlElement name [] [node]) cElementsPath
     (XmlElement ''GLOBAL-SUPERVISION'' []
       [XmlElement ''CHECKPOINTS'' [] [checkpointNode ''0'', checkpointNode ''1'', checkpointNode ''2''],
        aliveNode, deadlineNode])]"

definition phmLib :: XmlLib where
  "phmLib = instanceLib phmDocument
     [checkpointNode ''0'', checkpointNode ''1'', checkpointNode ''2'', aliveNode, deadlineNode]"

definition configuredPhm :: PlatformHealthManagement where
  "configuredPhm = snd (Phm_Main phmLib [cPhmConfigArgument \<mapsto> ''m''] (newPlatformHealthManagement ''MachineFG''))"

lemma configured: "fst (Phm_Main phmLib [cPhmConfigArgument \<mapsto> ''m''] (newPlatformHealthManagement ''MachineFG'')) = Inr None"
  by code_simp

lemma configured_tolerance:
  "map_option mFailedReferenceCyclesTolerance (mAliveSupervision configuredPhm) = Some 2"
  by code_simp

theorem silent_application_recovered_witness:
  "length (recoveryLog (mRecoveryAction (fold phmStep [AliveCycleEnds, CheckpointReceived 8 1, AliveCycleEnds, AliveCycleEnds]
     (fold phmStep [CheckpointReceived 5 0, AliveCycleEnds] configuredPhm)))) = 1"
proof -
  obtain alive where "mAliveSupervision configuredPhm = Some alive" "mFailedReferenceCyclesTolerance alive = 2"
    using configured_tolerance by auto
  moreover have "Phm_Main phmLib [cPhmConfigArgument \<mapsto> ''m''] (newPlatformHealthManagement ''MachineFG'') =
      (Inr None, configuredPhm)"
    using configured by (simp add: configuredPhm_def prod_eq_iff)
  moreover have "mReportDelegates configuredPhm 1 = Some ReportsSource" by code_simp
  ultimately show ?thesis
    using silent_application_recovered [of phmLib "[cPhmConfigArgument \<mapsto> ''m'']" "''MachineFG''" configuredPhm alive
        "[AliveCycleEnds, CheckpointReceived 8 1, AliveCycleEnds, AliveCycleEnds]" _ "[CheckpointReceived 5 0, AliveCycleEnds]",
        OF _ _ _ _ refl]
    by (simp add: silentEvent_def)
qed

text \<open>
  A checkpoint that two supervisions refer to reports to the first one only, and the manager is told that the second
  one was added.
\<close>

lemma shared_checkpoint_lost:
  assumes "stoul checkpointIdStr = Inr n" "ucast n \<in> checkpoints" "mReportDelegates pm (ucast n) = Some other"
  shows "tryAddReportDelegate checkpointIdStr checkpoints delegate pm = (Inr True, pm)"
  using assms by (simp add: tryAddReportDelegate_def)

text \<open>A reference that is not a number ends the process: only runtime errors are caught.\<close>

lemma bad_reference_escapes:
  "stoul checkpointIdStr = Inl Invalid_argument \<Longrightarrow>
     addReference (Some checkpointIdStr) checkpoints delegate pm = (Inl Invalid_argument, pm)"
  by (simp add: addReference_def tryAddReportDelegate_def)

end
