(* ===== verification/Platform.thy ===== *)
theory Platform
  imports Exec Arxml
begin

text \<open>
  \<open>application/platform/{execution_management,process_manager,state_management}.cpp\<close>: execution management, which
  reads the function groups and processes of the manifest, serves their states and starts the processes of a state,
  and state management, which requests the start-up state of the machine. The operating system is given by the process
  identifiers that \<open>fork\<close> returns and by the children that have finished when they are waited for.
\<close>

section \<open>The process manager\<close>

text \<open>
  The children by process identifier, the number of forks so far, and the program images started
  with their arguments.
\<close>

record ProcessManager =
  mChildren :: "int \<rightharpoonup> string"
  forks :: nat
  started :: "(int \<times> string \<times> string list) list"

definition newProcessManager :: ProcessManager where
  "newProcessManager = \<lparr> mChildren = Map.empty, forks = 0, started = [] \<rparr>"

definition Spawn :: "(nat \<Rightarrow> int) \<Rightarrow> string \<Rightarrow> string list \<Rightarrow> ProcessManager \<Rightarrow> int \<times> ProcessManager" where
  "Spawn fork executable argv pm =
     (let pid = fork (forks pm); pm = pm\<lparr> forks := forks pm + 1 \<rparr>
      in (pid,
          if pid > 0
          then pm\<lparr> mChildren := (mChildren pm)(pid \<mapsto> executable), started := started pm @ [(pid, executable, argv)] \<rparr>
          else pm))"

datatype WaitStatus = Exited int | Signaled

definition exitCodeOf :: "WaitStatus \<Rightarrow> int" where
  "exitCodeOf status = (case status of Exited code \<Rightarrow> code | Signaled \<Rightarrow> 1)"

text \<open>\<open>finished\<close>: what the calls of \<open>waitpid\<close> return until no child has a status.\<close>

definition ReapFinished :: "(int \<times> WaitStatus) list \<Rightarrow> ProcessManager \<Rightarrow> (int \<times> int) list \<times> ProcessManager" where
  "ReapFinished finished pm =
     (map (\<lambda>(pid, status). (pid, exitCodeOf status)) finished,
      pm\<lparr> mChildren := fold (\<lambda>(pid, status) children. children(pid := None)) finished (mChildren pm) \<rparr>)"

text \<open>
  The loop of \<open>TerminateAll\<close>, which sleeps 50 ms per poll; \<open>polls\<close> are the finished children of each poll. The second
  result is the number of polls.
\<close>

function terminateLoop ::
    "int \<Rightarrow> (nat \<Rightarrow> (int \<times> WaitStatus) list) \<Rightarrow> nat \<Rightarrow> int \<Rightarrow> ProcessManager \<Rightarrow> nat \<times> ProcessManager" where
  "terminateLoop timeoutMs polls n elapsed pm =
     (if mChildren pm \<noteq> Map.empty \<and> elapsed < timeoutMs
      then (let pm = snd (ReapFinished (polls n) pm)
            in terminateLoop timeoutMs polls (n + 1)
                 (if mChildren pm \<noteq> Map.empty then elapsed + 50 else elapsed) pm)
      else (n, pm))"
  by pat_completeness auto
termination
proof (relation "measures [\<lambda>(timeoutMs, polls, n, elapsed, pm). nat (timeoutMs - elapsed),
    \<lambda>(timeoutMs, polls, n, elapsed, pm). if mChildren pm \<noteq> Map.empty then 1 else 0]", goal_cases)
  case (2 timeoutMs polls n elapsed pm x)
  then show ?case by auto
qed simp

declare terminateLoop.simps [simp del]

datatype Signal = SIGTERM | SIGKILL

text \<open>The signals sent to children, the number of polls, and the manager; the last wait is for the killed children.\<close>

definition TerminateAll ::
    "int \<Rightarrow> (nat \<Rightarrow> (int \<times> WaitStatus) list) \<Rightarrow> ProcessManager \<Rightarrow> (int \<Rightarrow> Signal list) \<times> nat \<times> ProcessManager" where
  "TerminateAll timeoutMs polls pm =
     (case terminateLoop timeoutMs polls 0 0 pm of
        (n, pm') \<Rightarrow>
          ((\<lambda>pid. (if mChildren pm pid \<noteq> None then [SIGTERM] else []) @
                  (if mChildren pm' pid \<noteq> None then [SIGKILL] else [])),
           n, pm'\<lparr> mChildren := Map.empty \<rparr>))"

lemma reaped: "fold (\<lambda>(pid, status) children. children(pid := None)) finished m pid =
    (if pid \<in> fst ` set finished then None else m pid)"
  by (induction finished arbitrary: m) auto

lemma terminateLoop_result:
  assumes "terminateLoop timeoutMs polls n elapsed pm = (n', pm')"
  shows "n \<le> n' \<and> (n' = n \<or> 50 * (int n' - int n - 1) < timeoutMs - elapsed) \<and>
    (\<forall>pid. mChildren pm' pid = (if \<exists>i. n \<le> i \<and> i < n' \<and> pid \<in> fst ` set (polls i) then None else mChildren pm pid))"
  using assms
proof (induction timeoutMs polls n elapsed pm rule: terminateLoop.induct)
  case (1 timeoutMs polls n elapsed pm)
  show ?case
  proof (cases "mChildren pm \<noteq> Map.empty \<and> elapsed < timeoutMs")
    case False
    with "1.prems" show ?thesis by (auto simp: terminateLoop.simps [of timeoutMs polls n elapsed pm])
  next
    case True
    let ?pm = "snd (ReapFinished (polls n) pm)"
    let ?e = "if mChildren ?pm \<noteq> Map.empty then elapsed + 50 else elapsed"
    have rec: "terminateLoop timeoutMs polls (n + 1) ?e ?pm = (n', pm')"
      using "1.prems" True by (simp add: terminateLoop.simps [of timeoutMs polls n elapsed pm] Let_def)
    note ih = "1.IH" [OF True refl rec]
    have over: "mChildren ?pm = Map.empty \<Longrightarrow> n' = n + 1"
      using rec by (simp add: terminateLoop.simps [of timeoutMs polls "Suc n"])
    have c: "mChildren ?pm pid = (if pid \<in> fst ` set (polls n) then None else mChildren pm pid)" for pid
      by (simp add: ReapFinished_def reaped)
    have "50 * (int n' - int n - 1) < timeoutMs - elapsed"
      using ih over True by (cases "mChildren ?pm = Map.empty") auto
    moreover have "mChildren pm' pid = (if \<exists>i. n \<le> i \<and> i < n' \<and> pid \<in> fst ` set (polls i) then None else mChildren pm pid)" for pid
    proof -
      have "(\<exists>i. n \<le> i \<and> i < n' \<and> pid \<in> fst ` set (polls i)) \<longleftrightarrow>
          pid \<in> fst ` set (polls n) \<or> (\<exists>i. n + 1 \<le> i \<and> i < n' \<and> pid \<in> fst ` set (polls i))"
        using ih by (metis Suc_eq_plus1 Suc_leD Suc_le_eq le_eq_less_or_eq)
      with ih c [of pid] show ?thesis by auto
    qed
    ultimately show ?thesis using ih by auto
  qed
qed

text \<open>C18: With its grace period of two seconds the process manager returns after at most forty polls without any child
  left; each child has been asked to terminate, and is killed exactly when no poll has seen it finish.\<close>

theorem terminate_all_children:
  assumes "TerminateAll 2000 polls pm = (signals, n, pm')"
  shows "mChildren pm' = Map.empty \<and> n \<le> 40 \<and>
    (\<forall>pid. signals pid =
       (if mChildren pm pid = None then []
        else SIGTERM # (if \<exists>i < n. pid \<in> fst ` set (polls i) then [] else [SIGKILL])))"
proof -
  obtain k pm1 where l: "terminateLoop 2000 polls 0 0 pm = (k, pm1)" by fastforce
  note r = terminateLoop_result [OF l]
  have "n = k" "mChildren pm' = Map.empty"
    "signals = (\<lambda>pid. (if mChildren pm pid \<noteq> None then [SIGTERM] else []) @
                  (if mChildren pm1 pid \<noteq> None then [SIGKILL] else []))"
    using assms l by (auto simp: TerminateAll_def)
  with r show ?thesis by (auto simp del: not_None_eq)
qed

theorem terminate_all_children_witness:
  "fst (snd (TerminateAll 2000 (\<lambda>i. if i = 2 then [(7, Exited 0)] else [])
     \<lparr> mChildren = [7 \<mapsto> ''a'', 8 \<mapsto> ''b''], forks = 2, started = [] \<rparr>)) \<le> 40"
proof -
  let ?r = "TerminateAll 2000 (\<lambda>i. if i = 2 then [(7, Exited 0)] else [])
     \<lparr> mChildren = [7 \<mapsto> ''a'', 8 \<mapsto> ''b''], forks = 2, started = [] \<rparr>"
  obtain signals n pm' where r: "?r = (signals, n, pm')" by (metis prod_cases3)
  from terminate_all_children [OF r] r show ?thesis by simp
qed

section \<open>The manifest of execution management\<close>

record ProcessDescriptor =
  shortName :: string
  executablePath :: string
  pdArguments :: "string list"
  fifoPath :: string
  isBootstrap :: bool
  activatingStates :: "(string \<times> string) set"

definition cMachineFunctionGroup :: string where "cMachineFunctionGroup = ''MachineFG''"
definition cStartUpState :: string where "cStartUpState = ''StartUp''"

definition fillFunctionGroupStates ::
    "XmlLib \<Rightarrow> string \<Rightarrow> string \<Rightarrow> (string \<times> string) list \<Rightarrow> (string \<times> string) list res" where
  "fillFunctionGroupStates lib functionGroup content functionGroupStates =
     bindR (ArxmlReader_content lib content) (\<lambda>reader.
       Inr (fold (\<lambda>node states. List.insert (functionGroup, GetShortName (Some node)) states)
              (GetNodes [''FUNCTION-GROUP'', ''MODE-DECLARATION-GROUP'', ''MODE-DECLARATIONS''] reader)
              functionGroupStates))"

text \<open>The initial states are a map: a later group of the same name replaces the entry.\<close>

definition fillInitialStates ::
    "XmlLib \<Rightarrow> string \<Rightarrow> string \<Rightarrow> (string \<times> string) list \<Rightarrow> (string \<times> string) list res" where
  "fillInitialStates lib functionGroup content initialStates =
     bindR (ArxmlReader_content lib content) (\<lambda>reader.
       case TryGetReference ''INITIAL-MODE-REF'' ''MODE-DECLARATION''
              (GetRootNode [''FUNCTION-GROUP'', ''MODE-DECLARATION-GROUP''] reader) of
         Some state \<Rightarrow> Inr ((functionGroup, state) # filter (\<lambda>p. fst p \<noteq> functionGroup) initialStates)
       | None \<Rightarrow> Inl Runtime_error)"

fun fillStatesOf ::
    "XmlLib \<Rightarrow> XmlNode list \<Rightarrow> (string \<times> string) list \<Rightarrow> (string \<times> string) list \<Rightarrow>
     ((string \<times> string) list \<times> (string \<times> string) list) res" where
  "fillStatesOf lib [] functionGroupStates initialStates = Inr (functionGroupStates, initialStates)"
| "fillStatesOf lib (node # nodes) functionGroupStates initialStates =
     (let name = GetShortName (Some node); content = GetContent lib (Some node) in
      bindR (fillInitialStates lib name content initialStates) (\<lambda>initialStates.
      bindR (fillFunctionGroupStates lib name content functionGroupStates) (\<lambda>functionGroupStates.
        fillStatesOf lib nodes functionGroupStates initialStates)))"

definition cFunctionGroupsPath :: "string list" where
  "cFunctionGroupsPath = cElementsPath @ [''FUNCTION-GROUPS'']"

definition fillStates :: "XmlLib \<Rightarrow> string \<Rightarrow> ((string \<times> string) list \<times> (string \<times> string) list) res" where
  "fillStates lib configFilepath =
     bindR (ArxmlReader_file lib configFilepath) (\<lambda>reader. fillStatesOf lib (GetNodes cFunctionGroupsPath reader) [] [])"

fun readIrefs :: "XmlLib \<Rightarrow> XmlNode list \<Rightarrow> (string \<times> string) set \<Rightarrow> (string \<times> string) set res" where
  "readIrefs lib [] states = Inr states"
| "readIrefs lib (node # nodes) states =
     bindR (ArxmlReader_content lib (GetContent lib (Some node))) (\<lambda>reader.
       readIrefs lib nodes
         (insert (Arxml_GetString (GetRootNode [''FUNCTION-GROUP-STATE-IREF'', ''FUNCTION-GROUP-REF''] reader),
                  Arxml_GetString (GetRootNode [''FUNCTION-GROUP-STATE-IREF'', ''FUNCTION-GROUP-STATE-REF''] reader)) states))"

definition parseProcessDescriptor :: "XmlLib \<Rightarrow> XmlNode \<Rightarrow> ProcessDescriptor res" where
  "parseProcessDescriptor lib node =
     bindR (ArxmlReader_content lib (GetContent lib (Some node))) (\<lambda>reader.
     bindR (readIrefs lib (GetNodes [''PROCESS'', ''FUNCTION-GROUP-STATE-IREFS''] reader) {}) (\<lambda>states.
       Inr \<lparr> shortName = GetShortName (Some node),
             executablePath = Arxml_GetString (GetRootNode [''PROCESS'', ''EXECUTABLE-PATH''] reader),
             pdArguments = map (\<lambda>n. Arxml_GetString (Some n)) (GetNodes [''PROCESS'', ''PROCESS-ARGUMENTS''] reader),
             fifoPath = Arxml_GetString (GetRootNode [''PROCESS'', ''FIFO-PATH''] reader),
             isBootstrap = (Arxml_GetString (GetRootNode [''PROCESS'', ''BOOTSTRAP''] reader) = ''true''),
             activatingStates = states \<rparr>))"

fun parseProcesses :: "XmlLib \<Rightarrow> XmlNode list \<Rightarrow> ProcessDescriptor list res" where
  "parseProcesses lib [] = Inr []"
| "parseProcesses lib (node # nodes) =
     bindR (parseProcessDescriptor lib node) (\<lambda>descriptor.
     bindR (parseProcesses lib nodes) (\<lambda>descriptors. Inr (descriptor # descriptors)))"

definition parseProcessDescriptors :: "XmlLib \<Rightarrow> string \<Rightarrow> ProcessDescriptor list res" where
  "parseProcessDescriptors lib configFilepath =
     bindR (ArxmlReader_file lib configFilepath) (\<lambda>reader.
       parseProcesses lib (GetNodes (cElementsPath @ [''PROCESSES'']) reader))"

section \<open>Execution management\<close>

record ExecutionManagement =
  mProcessManager :: ProcessManager
  mApplicationProcesses :: "ModelledProcess list"
  mProcessDescriptors :: "ProcessDescriptor list"
  mStateServer :: StateServer
  mExecutionServer :: ExecutionServer

definition processArguments :: "ProcessDescriptor \<Rightarrow> string list" where
  "processArguments d = executablePath d # pdArguments d @ (if fifoPath d \<noteq> [] then [fifoPath d] else [])"

definition spawnAll :: "(nat \<Rightarrow> int) \<Rightarrow> ProcessDescriptor list \<Rightarrow> ProcessManager \<Rightarrow> ProcessManager" where
  "spawnAll fork descriptors pm = fold (\<lambda>d pm. snd (Spawn fork (executablePath d) (processArguments d) pm)) descriptors pm"

text \<open>The callback of the machine's notifier; \<open>busy\<close>: another thread holds the lock of the states.\<close>

definition onStateChange :: "(nat \<Rightarrow> int) \<Rightarrow> bool \<Rightarrow> ExecutionManagement \<Rightarrow> ExecutionManagement" where
  "onStateChange fork busy em =
     (case TryGetState busy (mStateServer em) cMachineFunctionGroup of
        None \<Rightarrow> em
      | Some currentState \<Rightarrow>
          em\<lparr> mApplicationProcesses :=
                 (if currentState = cStartUpState then map (\<lambda>p. fst (Initialize p)) (mApplicationProcesses em)
                  else mApplicationProcesses em),
              mProcessManager :=
                 spawnAll fork
                   (filter (\<lambda>d. \<not> isBootstrap d \<and> (cMachineFunctionGroup, currentState) \<in> activatingStates d)
                      (mProcessDescriptors em))
                   (mProcessManager em) \<rparr>)"

text \<open>An exception of the type that \<open>Main\<close> catches becomes the exit code 1.\<close>

definition catchRuntime :: "'a res \<Rightarrow> (int + 'a) res" where
  "catchRuntime r = (case r of Inr x \<Rightarrow> Inr (Inr x) | Inl e \<Rightarrow> if e = Runtime_error then Inr (Inl 1) else Inl e)"

definition getRpcConfiguration :: "XmlLib \<Rightarrow> string \<Rightarrow> RpcConfiguration res" where
  "getRpcConfiguration lib configFilepath =
     bindR (TryGetRpcConfiguration lib configFilepath ''RpcServerEP'' ''ServerUnicastTcp''
              \<lparr> ipAddress = [], portNumber = 0, protocolVersion = 0 \<rparr>)
       (\<lambda>(successful, result). if successful then Inr result else Inl Runtime_error)"

text \<open>\<open>Main\<close> up to its loop: the configuration of the RPC server and the state.\<close>

definition EM_configure ::
    "XmlLib \<Rightarrow> (nat \<Rightarrow> int) \<Rightarrow> arguments \<Rightarrow> ModelledProcess list \<Rightarrow> (RpcConfiguration \<times> ExecutionManagement) res" where
  "EM_configure lib fork arguments processes =
     (case arguments cConfigArgument of
        None \<Rightarrow> Inl Out_of_range
      | Some configFilepath \<Rightarrow>
          bindR (getRpcConfiguration lib configFilepath) (\<lambda>rpc.
          bindR (parseProcessDescriptors lib configFilepath) (\<lambda>descriptors.
          bindR (fillStates lib configFilepath) (\<lambda>(functionGroupStates, initialStates).
          bindR (newStateServer functionGroupStates initialStates) (\<lambda>stateServer.
          bindR (SetNotifier cMachineFunctionGroup stateServer) (\<lambda>stateServer.
            Inr (rpc, \<lparr> mProcessManager = spawnAll fork (filter isBootstrap descriptors) newProcessManager,
                        mApplicationProcesses = processes, mProcessDescriptors = descriptors,
                        mStateServer = stateServer, mExecutionServer = newExecutionServer \<rparr>)))))))"

definition EM_Main ::
    "XmlLib \<Rightarrow> (nat \<Rightarrow> int) \<Rightarrow> arguments \<Rightarrow> ModelledProcess list \<Rightarrow>
     (int + (RpcConfiguration \<times> ExecutionManagement)) res" where
  "EM_Main lib fork arguments processes = catchRuntime (EM_configure lib fork arguments processes)"

text \<open>An activation of the loop, and the end: the exit codes of the application processes are added.\<close>

definition EM_activation :: "(int \<times> WaitStatus) list \<Rightarrow> ExecutionManagement \<Rightarrow> ExecutionManagement" where
  "EM_activation finished em = em\<lparr> mProcessManager := snd (ReapFinished finished (mProcessManager em)) \<rparr>"

definition EM_terminate ::
    "(nat \<Rightarrow> (int \<times> WaitStatus) list) \<Rightarrow> int list \<Rightarrow> ExecutionManagement \<Rightarrow> int \<times> ExecutionManagement" where
  "EM_terminate polls exitCodes em =
     (case TerminateAll 2000 polls (mProcessManager em) of
        (signals, n, pm) \<Rightarrow>
          (let ended = map2 Terminate exitCodes (mApplicationProcesses em)
           in (sum_list (map fst ended), em\<lparr> mProcessManager := pm, mApplicationProcesses := map snd ended \<rparr>)))"

text \<open>
  The handlers of the RPC server: the execution server and the state server, whose notifier of the machine's
  group calls back. \<open>busy\<close>: another thread holds the lock at the request, and at the callback.
\<close>

definition em_handleSetState :: "(nat \<Rightarrow> int) \<Rightarrow> bool \<times> bool \<Rightarrow> ExecutionManagement handler" where
  "em_handleSetState fork busy rpcRequestPayload em =
     (case handleSetState (fst busy) rpcRequestPayload (mStateServer em) of
        (response, stateServer) \<Rightarrow>
          (response,
           fold (\<lambda>(functionGroup, state). if functionGroup = cMachineFunctionGroup then onStateChange fork (snd busy) else id)
             (drop (length (notified (mStateServer em))) (notified stateServer)) (em\<lparr> mStateServer := stateServer \<rparr>)))"

definition em_handleStateTransition :: "ExecutionManagement handler" where
  "em_handleStateTransition rpcRequestPayload em =
     (case handleStateTransition rpcRequestPayload (mStateServer em) of
        (response, stateServer) \<Rightarrow> (response, em\<lparr> mStateServer := stateServer \<rparr>))"

definition em_handleExecutionStateReport :: "ExecutionManagement handler" where
  "em_handleExecutionStateReport rpcRequestPayload em =
     (case handleExecutionStateReport rpcRequestPayload (mExecutionServer em) of
        (response, executionServer) \<Rightarrow> (response, em\<lparr> mExecutionServer := executionServer \<rparr>))"

definition emRpcServer :: "(nat \<Rightarrow> int) \<Rightarrow> bool \<times> bool \<Rightarrow> u8 \<Rightarrow> ExecutionManagement RpcServer" where
  "emRpcServer fork busy version =
     Server_SetHandler (Server_SetHandler (Server_SetHandler (newRpcServer version 1)
       1 1 em_handleExecutionStateReport) 3 1 (em_handleSetState fork busy)) 3 2 em_handleStateTransition"

section \<open>State management\<close>

text \<open>
  The function groups are elements of a vector, and a state refers to its group by address: the storage the vector had
  (\<open>fgStorage\<close> counts them) and the index. \<open>grow\<close> is the capacity the vector gets when it is full.
\<close>

record FunctionGroupState =
  fgsGroup :: "nat \<times> nat"
  fgsState :: string

record StateManagement =
  mFunctionGroups :: "string list"
  fgCapacity :: nat
  fgStorage :: nat
  smFunctionGroupStates :: "FunctionGroupState list"

definition newStateManagement :: StateManagement where
  "newStateManagement = \<lparr> mFunctionGroups = [], fgCapacity = 0, fgStorage = 0, smFunctionGroupStates = [] \<rparr>"

definition pushFunctionGroup :: "(nat \<Rightarrow> nat) \<Rightarrow> string \<Rightarrow> StateManagement \<Rightarrow> StateManagement" where
  "pushFunctionGroup grow name sm =
     (if length (mFunctionGroups sm) < fgCapacity sm then sm\<lparr> mFunctionGroups := mFunctionGroups sm @ [name] \<rparr>
      else sm\<lparr> mFunctionGroups := mFunctionGroups sm @ [name], fgCapacity := grow (length (mFunctionGroups sm)),
               fgStorage := fgStorage sm + 1 \<rparr>)"

definition configureStates :: "XmlLib \<Rightarrow> nat \<times> nat \<Rightarrow> string \<Rightarrow> StateManagement \<Rightarrow> StateManagement res" where
  "configureStates lib functionGroup functionGroupContent sm =
     bindR (ArxmlReader_content lib functionGroupContent) (\<lambda>reader.
       Inr (sm\<lparr> smFunctionGroupStates := smFunctionGroupStates sm @
              map (\<lambda>node. \<lparr> fgsGroup = functionGroup, fgsState = GetShortName (Some node) \<rparr>)
                (GetNodes [''FUNCTION-GROUP'', ''MODE-DECLARATION-GROUP'', ''MODE-DECLARATIONS''] reader) \<rparr>))"

fun configureGroupsOf :: "(nat \<Rightarrow> nat) \<Rightarrow> XmlLib \<Rightarrow> XmlNode list \<Rightarrow> StateManagement \<Rightarrow> StateManagement res" where
  "configureGroupsOf grow lib [] sm = Inr sm"
| "configureGroupsOf grow lib (node # nodes) sm =
     (let sm = pushFunctionGroup grow (GetShortName (Some node)) sm
      in bindR (configureStates lib (fgStorage sm, length (mFunctionGroups sm) - 1) (GetContent lib (Some node)) sm)
           (configureGroupsOf grow lib nodes))"

definition configureFunctionGroups :: "(nat \<Rightarrow> nat) \<Rightarrow> XmlLib \<Rightarrow> string \<Rightarrow> StateManagement \<Rightarrow> StateManagement res" where
  "configureFunctionGroups grow lib configFilepath sm =
     bindR (ArxmlReader_file lib configFilepath) (\<lambda>reader.
       configureGroupsOf grow lib (GetNodes cFunctionGroupsPath reader) sm)"

text \<open>Reading a group through an address of a storage that was given up is undefined.\<close>

definition GetFunctionGroup :: "StateManagement \<Rightarrow> FunctionGroupState \<Rightarrow> string res" where
  "GetFunctionGroup sm state =
     (if fst (fgsGroup state) = fgStorage sm then at (mFunctionGroups sm) (snd (fgsGroup state)) else Inl Undefined)"

text \<open>The function group and the state that are requested.\<close>

fun findStartUp :: "StateManagement \<Rightarrow> FunctionGroupState list \<Rightarrow> (string \<times> string) res" where
  "findStartUp sm [] = Inl Runtime_error"
| "findStartUp sm (state # states) =
     bindR (GetFunctionGroup sm state) (\<lambda>functionGroup.
       if functionGroup = cMachineFunctionGroup \<and> fgsState state = cStartUpState
       then Inr (functionGroup, fgsState state) else findStartUp sm states)"

definition transitToStartUpState :: "StateManagement \<Rightarrow> (string \<times> string) res" where
  "transitToStartUpState sm = findStartUp sm (smFunctionGroupStates sm)"

text \<open>
  A future that is looked at: whether it is valid, and its outcome if it is ready (None in it is success); a stored
  exception becomes a runtime error.
\<close>

definition checkFuture :: "bool \<Rightarrow> u32 option option \<Rightarrow> bool res" where
  "checkFuture valid result =
     (if \<not> valid then Inr valid
      else case result of
             None \<Rightarrow> Inr valid
           | Some None \<Rightarrow> Inr False
           | Some (Some error) \<Rightarrow> Inl Runtime_error)"

fun checkFutures :: "(bool \<times> u32 option option) list \<Rightarrow> bool list res" where
  "checkFutures [] = Inr []"
| "checkFutures ((valid, result) # futures) =
     bindR (checkFuture valid result) (\<lambda>valid. bindR (checkFutures futures) (\<lambda>valids. Inr (valid # valids)))"

section \<open>The start-up of the machine\<close>

lemma fold_insert_set: "set (fold (\<lambda>n s. List.insert (f n) s) nodes states) = set states \<union> f ` set nodes"
  by (induction nodes arbitrary: states) auto

text \<open>Every state with a live address refers to a declared pair.\<close>

definition smInv :: "StateManagement \<Rightarrow> (string \<times> string) list \<Rightarrow> bool" where
  "smInv sm states \<longleftrightarrow> (\<forall>s \<in> set (smFunctionGroupStates sm). fst (fgsGroup s) \<le> fgStorage sm \<and>
     (fst (fgsGroup s) = fgStorage sm \<longrightarrow> snd (fgsGroup s) < length (mFunctionGroups sm) \<and>
        (mFunctionGroups sm ! snd (fgsGroup s), fgsState s) \<in> set states))"

lemma smInv_push: "smInv sm states \<Longrightarrow> smInv (pushFunctionGroup grow name sm) states"
  by (fastforce simp: smInv_def pushFunctionGroup_def nth_append)

lemma configureGroups_inv:
  assumes "configureGroupsOf grow lib nodes sm = Inr sm'" "fillStatesOf lib nodes states initial = Inr (states', initial')"
    "smInv sm states"
  shows "smInv sm' states'"
  using assms
proof (induction nodes arbitrary: sm states initial)
  case (Cons node nodes)
  let ?name = "GetShortName (Some node)" let ?content = "GetContent lib (Some node)"
  let ?sm = "pushFunctionGroup grow ?name sm"
  obtain sm1 where sm1: "configureStates lib (fgStorage ?sm, length (mFunctionGroups ?sm) - 1) ?content ?sm = Inr sm1"
      "configureGroupsOf grow lib nodes sm1 = Inr sm'"
    using Cons.prems(1) by (auto simp: Let_def bindR_eq_Inr)
  obtain initial1 states1 where st: "fillFunctionGroupStates lib ?name ?content states = Inr states1"
      "fillStatesOf lib nodes states1 initial1 = Inr (states', initial')"
    using Cons.prems(2) by (auto simp: Let_def bindR_eq_Inr)
  obtain reader where r: "ArxmlReader_content lib ?content = Inr reader"
    using st(1) by (auto simp: fillFunctionGroupStates_def bindR_eq_Inr)
  let ?modes = "GetNodes [''FUNCTION-GROUP'', ''MODE-DECLARATION-GROUP'', ''MODE-DECLARATIONS''] reader"
  have s1: "set states1 = set states \<union> (\<lambda>n. (?name, GetShortName (Some n))) ` set ?modes"
    using st(1) r by (auto simp: fillFunctionGroupStates_def fold_insert_set)
  have last: "mFunctionGroups ?sm ! (length (mFunctionGroups ?sm) - 1) = ?name" "mFunctionGroups ?sm \<noteq> []"
    by (simp_all add: pushFunctionGroup_def)
  have "smInv sm1 states1"
    using smInv_push [OF Cons.prems(3), of grow ?name] sm1(1) r s1 last
    by (auto simp: configureStates_def smInv_def)
  from Cons.IH [OF sm1(2) st(2) this] show ?case .
qed simp

lemma findStartUp_found:
  "findStartUp sm states = Inr (fg, st) \<Longrightarrow> fg = cMachineFunctionGroup \<and> st = cStartUpState \<and>
     (\<exists>s \<in> set states. GetFunctionGroup sm s = Inr fg \<and> fgsState s = st)"
  by (induction states) (auto simp: bindR_eq_Inr split: if_splits)

lemma startup_declared:
  assumes "configureFunctionGroups grow lib path newStateManagement = Inr sm" "transitToStartUpState sm = Inr (fg, st)"
    "fillStates lib path = Inr (states, initial)"
  shows "fg = cMachineFunctionGroup" "st = cStartUpState" "(fg, st) \<in> set states"
proof -
  obtain reader where "configureGroupsOf grow lib (GetNodes cFunctionGroupsPath reader) newStateManagement = Inr sm"
    "fillStatesOf lib (GetNodes cFunctionGroupsPath reader) [] [] = Inr (states, initial)"
    using assms(1,3) by (auto simp: configureFunctionGroups_def fillStates_def bindR_eq_Inr)
  from configureGroups_inv [OF this] have inv: "smInv sm states" by (simp add: smInv_def newStateManagement_def)
  note f = findStartUp_found [OF assms(2) [unfolded transitToStartUpState_def]]
  from f show "fg = cMachineFunctionGroup" "st = cStartUpState" by auto
  from f inv show "(fg, st) \<in> set states"
    by (auto simp: GetFunctionGroup_def smInv_def at_def split: if_splits)
qed

lemma spawnAll_started:
  assumes "\<forall>n. fork n > 0"
  shows "map snd (started (spawnAll fork ds pm)) =
    map snd (started pm) @ map (\<lambda>d. (executablePath d, processArguments d)) ds"
proof (induction ds arbitrary: pm)
  case (Cons d ds)
  have "started (snd (Spawn fork (executablePath d) (processArguments d) pm)) =
      started pm @ [(fork (forks pm), executablePath d, processArguments d)]"
    using assms by (simp add: Spawn_def Let_def)
  with Cons [of "snd (Spawn fork (executablePath d) (processArguments d) pm)"] show ?case
    by (simp add: spawnAll_def)
qed (simp add: spawnAll_def)

lemma EM_Main_state:
  assumes "EM_Main lib fork arguments processes = Inr (Inr (rpc, em))" "arguments cConfigArgument = Some path"
  shows "\<exists>states initial old. fillStates lib path = Inr (states, initial) \<and>
    parseProcessDescriptors lib path = Inr (mProcessDescriptors em) \<and>
    mFunctionGroupStates (mStateServer em) = states \<and> cMachineFunctionGroup \<in> set (mNotifiers (mStateServer em)) \<and>
    mCurrentStates (mStateServer em) cMachineFunctionGroup = Some old \<and> mApplicationProcesses em = processes \<and>
    mProcessManager em = spawnAll fork (filter isBootstrap (mProcessDescriptors em)) newProcessManager"
  using assms
  by (auto simp: EM_Main_def catchRuntime_def EM_configure_def bindR_eq_Inr newStateServer_def SetNotifier_def
      split: sum.splits if_splits option.splits)

text \<open>An accepted request for a state of the machine's group.\<close>

lemma em_handleSetState_machine:
  assumes "mCurrentStates (mStateServer em) cMachineFunctionGroup = Some old" "old \<noteq> st"
    "(cMachineFunctionGroup, st) \<in> set (mFunctionGroupStates (mStateServer em))"
    "cMachineFunctionGroup \<in> set (mNotifiers (mStateServer em))" "length st < 2 ^ 32"
  shows "\<exists>ss. mCurrentStates ss = (mCurrentStates (mStateServer em))(cMachineFunctionGroup \<mapsto> st) \<and>
    em_handleSetState fork (False, False) (FunctionGroupState_Serialize [] cMachineFunctionGroup st) em =
      (Inr (True, []), onStateChange fork False (em\<lparr> mStateServer := ss \<rparr>))"
proof -
  have "length cMachineFunctionGroup < 2 ^ 32" by (simp add: cMachineFunctionGroup_def)
  from handleSetState_serialized [OF this assms(5), of False "[]"] assms show ?thesis
    by (intro exI [of _ "(mStateServer em)\<lparr> mCurrentStates := (mCurrentStates (mStateServer em))(cMachineFunctionGroup \<mapsto> st),
          notified := notified (mStateServer em) @ [(cMachineFunctionGroup, st)] \<rparr>"])
      (simp add: em_handleSetState_def setState_def StateServer_notify_def Trigger_Write_def)
qed

text \<open>C5: When execution management and state management are configured from the same manifest, the request that
  state management sends for the start-up state is accepted and answered without an error; the machine is then in that
  state, every registered process is initialized, and the programs started are the bootstrap ones and then those the
  manifest assigns to the start-up state, each once, in its order and with its arguments.\<close>

theorem startup_end_to_end:
  assumes "EM_Main lib fork arguments processes = Inr (Inr (rpc, em))" "arguments cConfigArgument = Some path"
    and "configureFunctionGroups grow lib path newStateManagement = Inr sm" "transitToStartUpState sm = Inr (fg, st)"
    and "\<forall>n. fork n > 0" "mCurrentStates (mStateServer em) cMachineFunctionGroup \<noteq> Some cStartUpState"
    and "rpcExchange (emRpcServer fork (False, False) (protocolVersion rpc))
        (Client_SetHandler (newRpcClient (protocolVersion rpc) 1) 3 1 ()) 3 1 4 (FunctionGroupState_Serialize [] fg st) em =
      (reply, em')"
  shows "reply = Some [] \<and> responseOutcome [] = None \<and>
    TryGetState False (mStateServer em') cMachineFunctionGroup = Some cStartUpState \<and>
    mApplicationProcesses em' = map (\<lambda>p. fst (Initialize p)) processes \<and>
    map snd (started (mProcessManager em')) =
      map (\<lambda>d. (executablePath d, processArguments d))
        (filter isBootstrap (mProcessDescriptors em) @
         filter (\<lambda>d. \<not> isBootstrap d \<and> (cMachineFunctionGroup, cStartUpState) \<in> activatingStates d) (mProcessDescriptors em))"
proof -
  obtain states initial old where em: "fillStates lib path = Inr (states, initial)"
      "mFunctionGroupStates (mStateServer em) = states" "cMachineFunctionGroup \<in> set (mNotifiers (mStateServer em))"
      "mCurrentStates (mStateServer em) cMachineFunctionGroup = Some old" "mApplicationProcesses em = processes"
      "mProcessManager em = spawnAll fork (filter isBootstrap (mProcessDescriptors em)) newProcessManager"
    using EM_Main_state [OF assms(1,2)] by blast
  note declared = startup_declared [OF assms(3,4) em(1)]
  have old: "old \<noteq> cStartUpState" using assms(6) em(4) by simp
  let ?c = "Client_SetHandler (newRpcClient (protocolVersion rpc) 1) 3 1 ()"
  let ?srv = "emRpcServer fork (False, False) (protocolVersion rpc)"
  let ?p = "FunctionGroupState_Serialize [] fg st"
  have len: "length ?p = 24" "length st < 2 ^ 32"
    using declared(1,2) by (simp_all add: length_FunctionGroupState cMachineFunctionGroup_def cStartUpState_def)
  obtain ss where ss: "mCurrentStates ss = (mCurrentStates (mStateServer em))(cMachineFunctionGroup \<mapsto> st)"
      "em_handleSetState fork (False, False) ?p em = (Inr (True, []), onStateChange fork False (em\<lparr> mStateServer := ss \<rparr>))"
    using em_handleSetState_machine [OF em(4), of st fork] old declared em(2,3) len(2) by auto
  let ?em = "onStateChange fork False (em\<lparr> mStateServer := ss \<rparr>)"
  have sid: "ucast (drop_bit 16 (mkMessageId 3 1)) = (3 :: u16)" by (simp add: mkMessageId_def)
  have ids: "mkMessageId 3 1 \<noteq> mkMessageId 3 2" by (simp add: mkMessageId_def)
  have ok: "validate ?srv (requestMessage ?c 3 1 4 ?p) = eOK"
    using sid ids by (simp add: validate_def emRpcServer_def Server_SetHandler_def newRpcServer_def
        Client_SetHandler_def newRpcClient_def)
  have h: "sHandlers ?srv (mkMessageId 3 1) = Some (em_handleSetState fork (False, False))"
    using ids by (simp add: emRpcServer_def Server_SetHandler_def)
  have "rpcExchange ?srv ?c 3 1 4 ?p em = (Some [], ?em)"
    using ok h ss(2) len
    by (intro rpcExchange_answer [where rc = eOK]) (simp_all add: answer_def ReturnCode_cast_def Client_SetHandler_def)
  then have e: "reply = Some []" "em' = ?em" using assms(7) by simp_all
  show ?thesis
    using e ss(1) declared(2) em(5,6) spawnAll_started [OF assms(5)]
    by (simp add: onStateChange_def TryGetState_def newProcessManager_def responseOutcome_def)
qed

text \<open>
  What goes wrong. With a second function group the vector of the groups is stored elsewhere, and the states of the
  first group refer to storage that was given up; execution management starts the programs of a state each time it is
  entered; a machine without its function group ends execution management with an exception.
\<close>

lemma second_group_dangles:
  assumes "smFunctionGroupStates sm = state # states" "fst (fgsGroup state) = fgStorage sm"
    "length (mFunctionGroups sm) = fgCapacity sm"
  shows "transitToStartUpState (pushFunctionGroup grow name sm) = Inl Undefined"
  using assms by (simp add: transitToStartUpState_def pushFunctionGroup_def GetFunctionGroup_def)

lemma reentered_state_starts_again:
  assumes "\<forall>n. fork n > 0" "TryGetState False (mStateServer em) cMachineFunctionGroup = Some st"
    "ds = filter (\<lambda>d. \<not> isBootstrap d \<and> (cMachineFunctionGroup, st) \<in> activatingStates d) (mProcessDescriptors em)"
  shows "map snd (started (mProcessManager (onStateChange fork False (onStateChange fork False em)))) =
    map snd (started (mProcessManager em)) @ map (\<lambda>d. (executablePath d, processArguments d)) (ds @ ds)"
  using assms spawnAll_started [OF assms(1)] by (simp add: onStateChange_def)

lemma no_machine_group_escapes:
  assumes "arguments cConfigArgument = Some path" "getRpcConfiguration lib path = Inr rpc"
    "parseProcessDescriptors lib path = Inr ds" "fillStates lib path = Inr (states, initial)"
    "newStateServer states initial = Inr ss" "mCurrentStates ss cMachineFunctionGroup = None"
  shows "EM_Main lib fork arguments processes = Inl Out_of_range"
  using assms by (simp add: EM_Main_def catchRuntime_def EM_configure_def SetNotifier_def)

text \<open>A manifest with one function group, a bootstrap process and one of the start-up state.\<close>

definition referenceElement :: "string \<Rightarrow> string \<Rightarrow> string \<Rightarrow> XmlNode" where
  "referenceElement name destination text = XmlElement name [(''DEST'', destination)] [XmlText text]"

definition machineGroupNode :: XmlNode where
  "machineGroupNode = XmlElement ''FUNCTION-GROUP'' []
     [textElement ''SHORT-NAME'' ''MachineFG'',
      XmlElement ''MODE-DECLARATION-GROUP'' []
        [referenceElement ''INITIAL-MODE-REF'' ''MODE-DECLARATION'' ''Off'',
         XmlElement ''MODE-DECLARATIONS'' []
           [XmlElement ''MODE-DECLARATION'' [] [textElement ''SHORT-NAME'' ''Off''],
            XmlElement ''MODE-DECLARATION'' [] [textElement ''SHORT-NAME'' ''StartUp'']]]]"

definition irefNode :: XmlNode where
  "irefNode = XmlElement ''FUNCTION-GROUP-STATE-IREF'' []
     [textElement ''FUNCTION-GROUP-REF'' ''MachineFG'', textElement ''FUNCTION-GROUP-STATE-REF'' ''StartUp'']"

definition processNode :: "string \<Rightarrow> string \<Rightarrow> XmlNode list \<Rightarrow> XmlNode" where
  "processNode path bootstrap irefs = XmlElement ''PROCESS'' []
     [textElement ''SHORT-NAME'' path, textElement ''EXECUTABLE-PATH'' path, textElement ''BOOTSTRAP'' bootstrap,
      XmlElement ''PROCESS-ARGUMENTS'' [] [textElement ''A'' ''x''], XmlElement ''FUNCTION-GROUP-STATE-IREFS'' [] irefs]"

definition machineDocument :: "XmlNode list" where
  "machineDocument = [foldr (\<lambda>name node. XmlElement name [] [node]) [''AUTOSAR'', ''AR-PACKAGES'', ''AR-PACKAGE'']
     (XmlElement ''ELEMENTS'' []
       [XmlElement ''COMMUNICATION-CLUSTER'' [] [textElement ''PROTOCOL-VERSION'' ''1''],
        XmlElement ''FUNCTION-GROUPS'' [] [machineGroupNode],
        XmlElement ''PROCESSES'' [] [processNode ''sm'' ''true'' [], processNode ''ev'' ''false'' [irefNode]]])]"

definition machineLib :: XmlLib where
  "machineLib = instanceLib machineDocument
     [machineGroupNode, irefNode, processNode ''sm'' ''true'' [], processNode ''ev'' ''false'' [irefNode]]"

lemma machine_descriptors:
  assumes "parseProcessDescriptors machineLib ''m'' = Inr ds"
  shows "\<exists>a b. ds = [a, b] \<and> isBootstrap a \<and> \<not> isBootstrap b \<and>
    (cMachineFunctionGroup, cStartUpState) \<in> activatingStates b \<and>
    executablePath a = ''sm'' \<and> processArguments a = [''sm'', ''x''] \<and>
    executablePath b = ''ev'' \<and> processArguments b = [''ev'', ''x'']"
proof -
  have "map_sum id (map (\<lambda>d. (isBootstrap d, (cMachineFunctionGroup, cStartUpState) \<in> activatingStates d,
        executablePath d, processArguments d))) (parseProcessDescriptors machineLib ''m'') =
      Inr [(True, False, ''sm'', [''sm'', ''x'']), (False, True, ''ev'', [''ev'', ''x''])]"
    by code_simp
  then show ?thesis using assms by (auto simp: map_eq_Cons_conv)
qed

lemma machine_startup:
  "\<exists>sm. configureFunctionGroups (\<lambda>n. 2 * n + 1) machineLib ''m'' newStateManagement = Inr sm \<and>
     transitToStartUpState sm = Inr (''MachineFG'', ''StartUp'')"
proof -
  have "bindR (configureFunctionGroups (\<lambda>n. 2 * n + 1) machineLib ''m'' newStateManagement) transitToStartUpState =
      Inr (''MachineFG'', ''StartUp'')" by code_simp
  then show ?thesis by (auto simp: bindR_eq_Inr)
qed

theorem startup_end_to_end_witness:
  "\<exists>em reply em'. EM_Main machineLib (\<lambda>n. 100 + int n) [cConfigArgument \<mapsto> ''m''] [newModelledProcess] =
      Inr (Inr (\<lparr> ipAddress = [], portNumber = 0, protocolVersion = 1 \<rparr>, em)) \<and>
    rpcExchange (emRpcServer (\<lambda>n. 100 + int n) (False, False) 1) (Client_SetHandler (newRpcClient 1 1) 3 1 ()) 3 1 4
      (FunctionGroupState_Serialize [] ''MachineFG'' ''StartUp'') em = (reply, em') \<and>
    map snd (started (mProcessManager em')) = [(''sm'', [''sm'', ''x'']), (''ev'', [''ev'', ''x''])]"
proof -
  let ?fork = "\<lambda>n. 100 + int n" let ?args = "[cConfigArgument \<mapsto> ''m'']"
  have "map_sum id (map_sum id fst) (EM_Main machineLib ?fork ?args [newModelledProcess]) =
      Inr (Inr \<lparr> ipAddress = [], portNumber = 0, protocolVersion = 1 \<rparr>)"
    by code_simp
  then obtain em where em: "EM_Main machineLib ?fork ?args [newModelledProcess] =
      Inr (Inr (\<lparr> ipAddress = [], portNumber = 0, protocolVersion = 1 \<rparr>, em))"
    by (auto simp: map_sum_def split: sum.splits)
  have "map_sum id (map_sum id (\<lambda>(r, em). (mCurrentStates (mStateServer em) cMachineFunctionGroup)))
      (EM_Main machineLib ?fork ?args [newModelledProcess]) = Inr (Inr (Some ''Off''))"
    by code_simp
  then have off: "mCurrentStates (mStateServer em) cMachineFunctionGroup \<noteq> Some cStartUpState"
    by (simp add: em cStartUpState_def)
  have ds: "parseProcessDescriptors machineLib ''m'' = Inr (mProcessDescriptors em)"
    using EM_Main_state [OF em, of "''m''"] by auto
  from machine_descriptors [OF ds] obtain a b where d: "mProcessDescriptors em = [a, b]" "isBootstrap a" "\<not> isBootstrap b"
      "(cMachineFunctionGroup, cStartUpState) \<in> activatingStates b"
      "executablePath a = ''sm''" "processArguments a = [''sm'', ''x'']"
      "executablePath b = ''ev''" "processArguments b = [''ev'', ''x'']" by blast
  note machine_startup
  then obtain sm where sm: "configureFunctionGroups (\<lambda>n. 2 * n + 1) machineLib ''m'' newStateManagement = Inr sm"
    "transitToStartUpState sm = Inr (''MachineFG'', ''StartUp'')" by blast
  let ?x = "rpcExchange (emRpcServer ?fork (False, False) 1) (Client_SetHandler (newRpcClient 1 1) 3 1 ()) 3 1 4
      (FunctionGroupState_Serialize [] ''MachineFG'' ''StartUp'') em"
  obtain reply em' where x: "?x = (reply, em')" by fastforce
  have "map snd (started (mProcessManager em')) = [(''sm'', [''sm'', ''x'']), (''ev'', [''ev'', ''x''])]"
    using startup_end_to_end [OF em _ sm _ off, where reply = reply and em' = em'] x d by simp
  with em x show ?thesis by (intro exI conjI)
qed

end
