(* ===== verification/Update.thy ===== *)
theory Update
  imports PackageService
begin

text \<open>
  \<open>application/platform/vehicle_update_config_manager.cpp\<close> and \<open>update_config_manager.cpp\<close>: the update master
  that reads a package and sends it to the package manager of another machine, and the application that offers
  that package manager. The master calls a package manager through the proxy; \<open>call\<close> is that link.
\<close>

section \<open>The update master\<close>

type_synonym 's link = "UcmCall \<Rightarrow> 's \<Rightarrow> ((u8 + UcmReply) \<times> 's) res"

text \<open>
  What the file system gives of the package: its size, whether it can be opened, and the blocks its reads
  return, None for a read that fails; the file ends with an empty block or with the list.
\<close>

record PackageSource =
  mPackagePath :: string
  statSize :: "u64 option"
  canOpen :: bool
  fileReads :: "bytes option list"

definition endsWith :: "string \<Rightarrow> string \<Rightarrow> bool" where
  "endsWith s ending \<longleftrightarrow> length s > length ending \<and> drop (length s - length ending) s = ending"

fun stripEnding :: "string list \<Rightarrow> string \<Rightarrow> string" where
  "stripEnding [] s = s"
| "stripEnding (e # es) s = (if endsWith s e then take (length s - length e) s else stripEnding es s)"

definition packageName :: "string \<Rightarrow> string" where
  "packageName path =
     stripEnding [''.swpkg.tar.gz'', ''.tar.gz'', ''.gz''] (rev (takeWhile (\<lambda>c. c \<noteq> CHR ''/'') (rev path)))"

text \<open>The loop over the chunks: whether a read or a call failed.\<close>

fun transferChunks :: "'s link \<Rightarrow> u32 \<Rightarrow> bytes option list \<Rightarrow> u32 \<Rightarrow> 's \<Rightarrow> (bool \<times> 's) res" where
  "transferChunks call ident [] blockCounter s = Inr (False, s)"
| "transferChunks call ident (r # rs) blockCounter s =
     (case r of
        None \<Rightarrow> Inr (True, s)
      | Some chunk \<Rightarrow>
          if chunk = [] then Inr (False, s)
          else bindR (call (DataCall ident chunk blockCounter) s) (\<lambda>(res, s).
                 case res of Inl _ \<Rightarrow> Inr (True, s) | Inr _ \<Rightarrow> transferChunks call ident rs (blockCounter + 1) s))"

text \<open>Calls that must all succeed.\<close>

fun runCalls :: "'s link \<Rightarrow> UcmCall list \<Rightarrow> 's \<Rightarrow> (nat \<times> 's) res" where
  "runCalls call [] s = Inr (0, s)"
| "runCalls call (c # cs) s =
     bindR (call c s) (\<lambda>(res, s). case res of Inl _ \<Rightarrow> Inr (1, s) | Inr _ \<Rightarrow> runCalls call cs s)"

definition packageInfo :: "PackageSource \<Rightarrow> u64 \<Rightarrow> PackageInfo" where
  "packageInfo source bytecount =
     \<lparr> piName = packageName (mPackagePath source), piVersion = ''1.0.0'', piSize = bytecount \<rparr>"

definition Vucm_Run :: "'s link \<Rightarrow> string \<Rightarrow> string \<Rightarrow> PackageSource \<Rightarrow> 's \<Rightarrow> (nat \<times> 's) res" where
  "Vucm_Run call installRoot manifestPath source s =
     (case statSize source of
        None \<Rightarrow> Inr (1, s)
      | Some fileSize \<Rightarrow>
          bindR (call (StartCall (packageInfo source fileSize)) s) (\<lambda>(start, s).
            case start of
              Inr (IdReply ident) \<Rightarrow>
                if \<not> canOpen source then Inr (1, s)
                else bindR (transferChunks call ident (fileReads source) 1 s) (\<lambda>(readError, s).
                       if readError then Inr (1, s)
                       else runCalls call
                              [ExitCall ident, ProcessCall ident, ActivateCall installRoot manifestPath] s)
            | _ \<Rightarrow> Inr (1, s)))"

section \<open>The two links\<close>

definition localLink :: "('p, 'd) UcmOutside \<Rightarrow> UcmHost link" where
  "localLink outside call host = (case localCall outside call host of (r, host) \<Rightarrow> Inr (map_sum UcmErrc_value id r, host))"

definition remoteLink :: "(bytes \<Rightarrow> bytes list) \<Rightarrow> ('p, 'd) UcmOutside \<Rightarrow> (PackageProxy \<times> UcmHost) link" where
  "remoteLink split outside call s = bindR (remoteCall split outside call (fst s) (snd s)) (\<lambda>(r, px, host). Inr (r, px, host))"

text \<open>
  One link implements another for the calls that fit: related states give the same result and related states.
  The update master cannot tell the two apart.
\<close>

definition updateCall :: "UcmCall \<Rightarrow> bool" where
  "updateCall call \<longleftrightarrow> callFits call \<and> call \<notin> {ClustersCall, StateCall}"

definition sourceFits :: "string \<Rightarrow> string \<Rightarrow> PackageSource \<Rightarrow> bool" where
  "sourceFits installRoot manifestPath source \<longleftrightarrow> length (mPackagePath source) < 2 ^ 16 \<and>
     length installRoot < 2 ^ 16 \<and> length manifestPath < 2 ^ 16 \<and>
     (\<forall>chunk. Some chunk \<in> set (fileReads source) \<longrightarrow> length chunk \<le> 65536)"

lemma length_stripEnding: "length (stripEnding es s) \<le> length s"
  by (induction es) auto

lemma length_packageName: "length (packageName path) \<le> length path"
  using length_stripEnding [of _ "rev (takeWhile (\<lambda>c. c \<noteq> CHR ''/'') (rev path))"]
    length_takeWhile_le [of "\<lambda>c. c \<noteq> CHR ''/''" "rev path"]
  unfolding packageName_def length_rev by (rule order_trans)

lemma packageInfo_fits: "sourceFits installRoot manifestPath source \<Longrightarrow> wfInfo (packageInfo source n)"
  using length_packageName [of "mPackagePath source"] by (auto simp: sourceFits_def wfInfo_def packageInfo_def)

locale link_refinement =
  fixes spec :: "'h link" and impl :: "'s link" and related :: "'h \<Rightarrow> 's \<Rightarrow> bool"
  assumes call_related: "\<lbrakk> related h s; updateCall c; spec c h = Inr (r, h') \<rbrakk> \<Longrightarrow>
    \<exists>s'. impl c s = Inr (r, s') \<and> related h' s'"
begin

lemma chunks_related:
  assumes "related h s" "\<And>chunk. Some chunk \<in> set rs \<Longrightarrow> length chunk \<le> 65536"
    and "transferChunks spec ident rs n h = Inr (b, h')"
  shows "\<exists>s'. transferChunks impl ident rs n s = Inr (b, s') \<and> related h' s'"
  using assms
proof (induction rs arbitrary: n h s)
  case (Cons r rs)
  show ?case
  proof (cases "r = None \<or> r = Some []")
    case False
    then obtain chunk where r: "r = Some chunk" "chunk \<noteq> []" by auto
    have u: "updateCall (DataCall ident chunk n)" using Cons.prems(2) [of chunk] r by (simp add: updateCall_def)
    obtain q h1 where q: "spec (DataCall ident chunk n) h = Inr (q, h1)"
      "(case q of Inl _ \<Rightarrow> Inr (True, h1) | Inr _ \<Rightarrow> transferChunks spec ident rs (n + 1) h1) = Inr (b, h')"
      using Cons.prems(3) r by (auto simp: bindR_eq_Inr)
    obtain s1 where s1: "impl (DataCall ident chunk n) s = Inr (q, s1)" "related h1 s1"
      using call_related [OF Cons.prems(1) u q(1)] by blast
    then show ?thesis
      using q(2) r Cons.IH [OF s1(2), of "n + 1"] Cons.prems(2) by (cases q) auto
  qed (use Cons.prems in auto)
qed simp

lemma calls_related:
  assumes "related h s" "list_all updateCall cs" "runCalls spec cs h = Inr (n, h')"
  shows "\<exists>s'. runCalls impl cs s = Inr (n, s') \<and> related h' s'"
  using assms
proof (induction cs arbitrary: h s)
  case (Cons c cs)
  obtain q h1 where q: "spec c h = Inr (q, h1)"
    "(case q of Inl _ \<Rightarrow> Inr (1, h1) | Inr _ \<Rightarrow> runCalls spec cs h1) = Inr (n, h')"
    using Cons.prems(3) by (auto simp: bindR_eq_Inr)
  obtain s1 where "impl c s = Inr (q, s1)" "related h1 s1"
    using call_related [OF Cons.prems(1) _ q(1)] Cons.prems(2) by auto
  then show ?case using q(2) Cons.IH [of h1 s1] Cons.prems(2) by (cases q) auto
qed simp

lemma run_related:
  assumes "related h s" "sourceFits installRoot manifestPath source"
    and "Vucm_Run spec installRoot manifestPath source h = Inr (n, h')"
  shows "\<exists>s'. Vucm_Run impl installRoot manifestPath source s = Inr (n, s') \<and> related h' s'"
proof (cases "statSize source")
  case None
  then show ?thesis using assms by (auto simp: Vucm_Run_def)
next
  case (Some fileSize)
  let ?c = "StartCall (packageInfo source fileSize)"
  have u: "updateCall ?c" using packageInfo_fits [OF assms(2)] by (simp add: updateCall_def)
  obtain start h1 where q: "spec ?c h = Inr (start, h1)"
    using assms(3) Some by (auto simp: Vucm_Run_def bindR_eq_Inr)
  obtain s1 where s1: "impl ?c s = Inr (start, s1)" "related h1 s1" using call_related [OF assms(1) u q] by blast
  show ?thesis
  proof (cases "(\<exists>ident. start = Inr (IdReply ident)) \<and> canOpen source")
    case True
    then obtain ident where i: "start = Inr (IdReply ident)" by blast
    obtain b h2 where t: "transferChunks spec ident (fileReads source) 1 h1 = Inr (b, h2)"
      using assms(3) Some q i True by (auto simp: Vucm_Run_def bindR_eq_Inr)
    obtain s2 where s2: "transferChunks impl ident (fileReads source) 1 s1 = Inr (b, s2)" "related h2 s2"
      using chunks_related [OF s1(2) _ t] assms(2) by (auto simp: sourceFits_def)
    have "list_all updateCall [ExitCall ident, ProcessCall ident, ActivateCall installRoot manifestPath]"
      using assms(2) by (simp add: updateCall_def sourceFits_def)
    from calls_related [OF s2(2) this] show ?thesis
      using assms(3) Some q i True t s1 s2 by (cases b) (simp_all add: Vucm_Run_def)
  next
    case False
    then show ?thesis
      using assms(3) Some q s1 by (auto simp: Vucm_Run_def split: sum.splits UcmReply.splits if_splits)
  qed
qed

end

text \<open>The connection is such a link, for the package manager behind it.\<close>

definition atHost :: "(bytes \<Rightarrow> bytes list) \<Rightarrow> UcmHost \<Rightarrow> PackageProxy \<times> UcmHost \<Rightarrow> bool" where
  "atHost split host s \<longleftrightarrow> proxyReady (fst s) \<and> snd s = host \<and> (\<forall>response. concat (split response) = response)"

lemma update_reply_fits: "call \<notin> {ClustersCall, StateCall} \<Longrightarrow> replyFits (fst (localCall outside call host))"
proof (cases call)
  case (StartCall info)
  then show ?thesis by (cases "fst (TransferStart info (hostManager host))") (auto split: prod.splits)
next
  case (DataCall ident block n)
  then show ?thesis by (cases "fst (Pm_TransferData ident block (hostManager host))") (auto split: prod.splits)
next
  case (ExitCall ident)
  then show ?thesis
    by (cases "fst (TransferExit (exitFault outside) ident (hostManager host) (hostFiles host))") (auto split: prod.splits)
next
  case (ProcessCall ident)
  then show ?thesis
    by (cases "fst (ProcessSwPackage (unpack outside) (readBinaryName outside) ident (hostManager host) (hostFiles host))")
      (auto split: prod.splits)
next
  case (ActivateCall installRoot manifestPath)
  then show ?thesis
    by (cases "fst (Activate (activateFaults outside) (xmlLibrary outside) (renderJson outside) installRoot manifestPath
        (hostManager host) (hostFiles host))") (auto split: prod.splits)
qed simp_all

interpretation connection: link_refinement "localLink outside" "remoteLink split outside" "atHost split"
  for outside :: "('p, 'd) UcmOutside" and split
proof
  fix h s c r h'
  assume a: "atHost split h s" "updateCall c" "localLink outside c h = Inr (r, h')"
  obtain q where q: "localCall outside c h = (q, h')" "r = map_sum UcmErrc_value id q"
    using a(3) by (auto simp: localLink_def split: prod.splits)
  have "replyFits q" using update_reply_fits [of c outside h] a(2) q(1) by (simp add: updateCall_def)
  then obtain px' where "remoteCall split outside c (fst s) h = Inr (r, px', h')" "proxyReady px'"
    using remoteCall_local [OF _ _ q(1), of "fst s" split] a(1,2) q(2) by (auto simp: atHost_def updateCall_def)
  then show "\<exists>s'. remoteLink split outside c s = Inr (r, s') \<and> atHost split h' s'"
    using a(1) by (auto simp: remoteLink_def atHost_def)
qed

section \<open>A run on the package manager\<close>

fun chunksRead :: "bytes option list \<Rightarrow> bytes list" where
  "chunksRead [] = []"
| "chunksRead (r # rs) = (case r of None \<Rightarrow> [] | Some chunk \<Rightarrow> if chunk = [] then [] else chunk # chunksRead rs)"

fun readFails :: "bytes option list \<Rightarrow> bool" where
  "readFails [] \<longleftrightarrow> False"
| "readFails (r # rs) \<longleftrightarrow> (case r of None \<Rightarrow> True | Some chunk \<Rightarrow> chunk \<noteq> [] \<and> readFails rs)"

lemma local_chunks:
  "map_of (mPendingTransfers (hostManager host)) ident \<noteq> None \<Longrightarrow>
     transferChunks (localLink outside) ident rs n host =
       Inr (readFails rs, host\<lparr> hostManager := sendBlocks ident (chunksRead rs) (hostManager host) \<rparr>)"
proof (induction rs arbitrary: n host)
  case (Cons r rs)
  show ?case
  proof (cases "r = None \<or> r = Some []")
    case False
    then obtain chunk where r: "r = Some chunk" "chunk \<noteq> []" by auto
    let ?pm = "snd (Pm_TransferData ident chunk (hostManager host))"
    have "localLink outside (DataCall ident chunk n) host = Inr (Inr NoReply, host\<lparr> hostManager := ?pm \<rparr>)"
      using Cons.prems by (simp add: localLink_def Pm_TransferData_def)
    then show ?thesis
      using Cons.IH [of "host\<lparr> hostManager := ?pm \<rparr>" "n + 1"] Cons.prems r by (simp add: keeps_pending)
  qed auto
qed simp

lemma local_total: "\<exists>r h'. localLink outside c host = Inr (r, h')"
  by (cases "localCall outside c host") (simp add: localLink_def)

lemma local_calls_total: "\<exists>n h'. runCalls (localLink outside) cs host = Inr (n, h')"
proof (induction cs arbitrary: host)
  case (Cons c cs)
  obtain r h' where "localLink outside c host = Inr (r, h')" using local_total by blast
  then show ?case using Cons by (cases r) simp_all
qed simp

lemma local_run_total: "\<exists>n h'. Vucm_Run (localLink outside) installRoot manifestPath source host = Inr (n, h')"
proof (cases "statSize source")
  case (Some fileSize)
  obtain r pm where t: "TransferStart (packageInfo source fileSize) (hostManager host) = (r, pm)" by fastforce
  show ?thesis
  proof (cases r)
    case (Inr ident)
    then have "map_of (mPendingTransfers pm) ident \<noteq> None" using t by (auto simp: TransferStart_def split: if_splits)
    then show ?thesis
      using Some t Inr local_calls_total [of outside]
      by (simp del: runCalls.simps add: Vucm_Run_def local_chunks localLink_def [of outside "StartCall _"])
  qed (use Some t in \<open>simp add: Vucm_Run_def localLink_def\<close>)
qed (simp add: Vucm_Run_def)

text \<open>A run that is not refused is an upload and an activation; the calls after an error are not made.\<close>

lemma local_run_success:
  assumes "Vucm_Run (localLink outside) installRoot manifestPath source host = Inr (0, host')"
  obtains fileSize pm fs where "statSize source = Some fileSize" "canOpen source" "\<not> readFails (fileReads source)"
    "uploadPackage (packageInfo source fileSize) (chunksRead (fileReads source)) (exitFault outside) (unpack outside)
       (readBinaryName outside) (hostManager host) (hostFiles host) = (Inr (), pm, fs)"
    "Activate (activateFaults outside) (xmlLibrary outside) (renderJson outside) installRoot manifestPath pm fs =
       (Inr (), hostManager host', hostFiles host')"
proof -
  obtain fileSize where n: "statSize source = Some fileSize"
    using assms by (auto simp: Vucm_Run_def split: option.splits)
  obtain r pm1 where t: "TransferStart (packageInfo source fileSize) (hostManager host) = (r, pm1)" by fastforce
  obtain ident where i: "r = Inr ident"
    using assms n t by (cases r) (auto simp: Vucm_Run_def localLink_def)
  then have p: "map_of (mPendingTransfers pm1) ident \<noteq> None" using t by (auto simp: TransferStart_def split: if_splits)
  let ?b = "sendBlocks ident (chunksRead (fileReads source)) pm1"
  have run: "canOpen source" "\<not> readFails (fileReads source)"
    "runCalls (localLink outside) [ExitCall ident, ProcessCall ident, ActivateCall installRoot manifestPath]
       (host\<lparr> hostManager := ?b \<rparr>) = Inr (0, host')"
    using assms n t i p
    by (auto simp del: runCalls.simps simp: Vucm_Run_def local_chunks localLink_def [of outside "StartCall _"]
        split: if_splits)
  obtain re pe fe where e: "TransferExit (exitFault outside) ident ?b (hostFiles host) = (re, pe, fe)"
    by (metis prod_cases3)
  obtain rp pp fp where pr: "ProcessSwPackage (unpack outside) (readBinaryName outside) ident pe fe = (rp, pp, fp)"
    by (metis prod_cases3)
  obtain ra pa fa where a: "Activate (activateFaults outside) (xmlLibrary outside) (renderJson outside) installRoot
      manifestPath pp fp = (ra, pa, fa)" by (metis prod_cases3)
  have "re = Inr () \<and> rp = Inr () \<and> ra = Inr () \<and> host' = \<lparr> hostManager = pa, hostFiles = fa \<rparr>"
    using run(3) e pr a by (cases re; cases rp; cases ra) (auto simp: localLink_def)
  then show thesis
    using that [OF n run(1,2), of pp fp] t i e pr a by (simp add: uploadPackage_def)
qed

text \<open>What an upload and an activation leave behind.\<close>

lemma uploaded:
  assumes "uploadPackage info blocks fault tar binaryName pm fs = (Inr (), pm2, fs2)" "piSize info \<noteq> 0"
    and "mStorage pm = Some st"
  obtains fs1 where "ReadFile True st (packageFile info) fs1 = Inr (concat blocks)"
    "length (concat blocks) = unat (piSize info)" "tar (pmStorageRoot pm @ ''/'' @ packageFile info) fs1 = (True, fs2)"
    "Option.bind (fs2 (extractDir pm @ ''/metadata.json'')) binaryName = Some (mStagedBinaryName pm2)"
    "extractDir pm2 = extractDir pm" "mState pm = kIdle"
proof -
  obtain ident pm1 where t: "TransferStart info pm = (Inr ident, pm1)" "mState pm = kIdle"
    using assms(1) by (auto simp: uploadPackage_def TransferStart_def split: if_splits)
  then have p1: "map_of (mPendingTransfers pm1) ident = Some info" "mStorage pm1 = Some st" "accumulated ident pm1 = []"
    "pmStorageRoot pm1 = pmStorageRoot pm"
    using assms(3) by (auto simp: TransferStart_def accumulated_def split: if_splits)
  let ?b = "sendBlocks ident blocks pm1"
  have b: "map_of (mPendingTransfers ?b) ident = Some info" "accumulated ident ?b = concat blocks" "mStorage ?b = Some st"
    "pmStorageRoot ?b = pmStorageRoot pm"
    using sendBlocks_simps [of pm1 ident blocks] p1 by simp_all
  obtain re pe fe where e: "TransferExit fault ident ?b fs = (re, pe, fe)" by (metis prod_cases3)
  obtain states res where w: "WriteFile fault st (packageFile info) (concat blocks) fs = (states, res)" by fastforce
  have pr: "re = Inr ()" "ProcessSwPackage tar binaryName ident pe fe = (Inr (), pm2, fs2)"
    using assms(1) t(1) e by (auto simp: uploadPackage_def split: sum.splits)
  then have l: "length (concat blocks) = unat (piSize info)" "res = Inr ()" "fe = last states"
    "pe = ?b\<lparr> mStagedPackagePath := pmStorageRoot pm @ ''/'' @ packageFile info \<rparr>"
    using e assms(2) b w by (auto simp: TransferExit_def split: if_splits sum.splits)
  have "ReadFile True st (packageFile info) fe = Inr (concat blocks)" using write_read w l(2,3) by blast
  moreover have "tar (pmStorageRoot pm @ ''/'' @ packageFile info) fe = (True, fs2)"
    "Option.bind (fs2 (extractDir pm @ ''/metadata.json'')) binaryName = Some (mStagedBinaryName pm2)"
    "extractDir pm2 = extractDir pm"
    using pr(2) b(1,4) by (auto simp: ProcessSwPackage_def l(4) extractDir_def split: prod.splits bool.splits option.splits if_splits)
  ultimately show thesis using that l(1) t(2) by blast
qed

definition separatePaths :: "string \<Rightarrow> string \<Rightarrow> PackageManager \<Rightarrow> string \<Rightarrow> bool" where
  "separatePaths installRoot manifestPath pm name \<longleftrightarrow>
     (let binary = installRoot @ ''/'' @ name;
          registry = (case mRegistry pm of Some kvs \<Rightarrow> {mStoragePath kvs, tmpPath (mStoragePath kvs)} | None \<Rightarrow> {})
      in {binary, binary @ ''.ucm_tmp''} \<inter> ({manifestPath, extractDir pm @ ''/manifest/process_entry.xml''} \<union> registry) = {} \<and>
         manifestPath \<notin> registry)"

lemma installed:
  assumes "installBinary fault installRoot pm fs = (True, fs')"
  obtains binary where "fs (extractDir pm @ ''/bin/'' @ mStagedBinaryName pm) = Some binary"
    "fs' (installRoot @ ''/'' @ mStagedBinaryName pm) = Some binary"
    "\<forall>p. p \<notin> {installRoot @ ''/'' @ mStagedBinaryName pm, (installRoot @ ''/'' @ mStagedBinaryName pm) @ ''.ucm_tmp''} \<longrightarrow>
      fs' p = fs p"
proof -
  let ?p = "installRoot @ ''/'' @ mStagedBinaryName pm"
  obtain binary states where b: "fs (extractDir pm @ ''/bin/'' @ mStagedBinaryName pm) = Some binary"
    "replaceVia (?p @ ''.ucm_tmp'') fault ?p binary fs = (states, Inr ())" "fs' = last states"
    using assms by (auto simp: installBinary_def Let_def split: option.splits prod.splits sum.splits)
  have ne: "?p @ ''.ucm_tmp'' \<noteq> ?p" by simp
  show thesis using that [OF b(1)] replaceVia_result(4,5) [OF b(2) ne] b(3) by simp
qed

lemma activated:
  assumes "Activate faults xml render installRoot manifestPath pm fs = (Inr (), pm', fs')"
    and "separatePaths installRoot manifestPath pm (mStagedBinaryName pm)"
  obtains binary doc where "fs (extractDir pm @ ''/bin/'' @ mStagedBinaryName pm) = Some binary"
    "injectProcess xml (fs (extractDir pm @ ''/manifest/process_entry.xml'')) (fs manifestPath) = Some doc"
    "fs' (installRoot @ ''/'' @ mStagedBinaryName pm) = Some binary" "fs' manifestPath = Some (renderManifest xml doc)"
proof -
  obtain fs1 where i: "installBinary (copyFault faults) installRoot pm fs = (True, fs1)"
    using assms(1) by (auto simp: Activate_def split: if_splits prod.splits bool.splits)
  obtain binary where b: "fs (extractDir pm @ ''/bin/'' @ mStagedBinaryName pm) = Some binary"
    "fs1 (installRoot @ ''/'' @ mStagedBinaryName pm) = Some binary"
    "\<forall>p. p \<notin> {installRoot @ ''/'' @ mStagedBinaryName pm, (installRoot @ ''/'' @ mStagedBinaryName pm) @ ''.ucm_tmp''} \<longrightarrow>
      fs1 p = fs p"
    by (rule installed [OF i])
  have same: "fs1 (extractDir pm @ ''/manifest/process_entry.xml'') = fs (extractDir pm @ ''/manifest/process_entry.xml'')"
    "fs1 manifestPath = fs manifestPath"
    using assms(2) by (auto intro!: b(3) [rule_format] simp: separatePaths_def Let_def)
  obtain doc where d: "injectProcess xml (fs (extractDir pm @ ''/manifest/process_entry.xml'')) (fs manifestPath) = Some doc"
    using assms(1) i by (auto simp: Activate_def Let_def same split: if_splits option.splits)
  let ?fs = "fs1(manifestPath \<mapsto> renderManifest xml doc)"
  have kept: "fs' p = ?fs p" if "\<forall>kvs. mRegistry pm = Some kvs \<longrightarrow> p \<notin> {mStoragePath kvs, tmpPath (mStoragePath kvs)}" for p
  proof -
    have "fs' = ?fs \<or> (\<exists>kvs. \<exists>info :: PackageInfo. mRegistry pm = Some kvs \<and>
        fs' = last (fst (SyncToStorage (syncFault faults) render (Kvs_SetValue (piName info) (JString (piVersion info)) kvs) ?fs)))"
      using assms(1) i d by (auto simp: Activate_def Let_def same split: if_splits option.splits list.splits)
    then consider (plain) "fs' = ?fs"
      | (stored) kvs and info :: PackageInfo where "mRegistry pm = Some kvs"
          "fs' = last (fst (SyncToStorage (syncFault faults) render (Kvs_SetValue (piName info) (JString (piVersion info)) kvs) ?fs))"
      by blast
    then show ?thesis
    proof cases
      case stored
      let ?kvs = "Kvs_SetValue (piName info) (JString (piVersion info)) kvs"
      obtain states res where s: "SyncToStorage (syncFault faults) render ?kvs ?fs = (states, res)" by fastforce
      have "mStoragePath ?kvs = mStoragePath kvs" by (simp add: Kvs_SetValue_def)
      then show ?thesis
        using replaceFile_result(5) [OF s [unfolded SyncToStorage_def], of p] that stored s by simp
    qed simp
  qed
  have "fs' (installRoot @ ''/'' @ mStagedBinaryName pm) = Some binary" "fs' manifestPath = Some (renderManifest xml doc)"
    by (subst kept; use b(2) assms(2) in \<open>auto simp: separatePaths_def Let_def\<close>)+
  with b(1) d show thesis by (rule that)
qed

text \<open>C4: an update over the connection that is reported as successful is complete, for a package file that is not empty
  and a package manager with an open storage and an open registry whose paths are apart from the installed files: the
  blocks read from the package were staged in order and have the size announced, the staged file was unpacked, the
  binary named by its metadata is installed, the manifest holds the process entry of the package and the package
  manager is activated. The registry gets the name and version of the first pending transfer, the one with the lowest
  number: those of this package when it is the only one, as in a new manager, and otherwise possibly those of an
  earlier package whose transfer failed.\<close>

theorem vehicle_update_end_to_end:
  assumes "atHost split host s" "sourceFits installRoot manifestPath source"
    and "statSize source = Some fileSize" "fileSize \<noteq> 0"
    and "mStorage (hostManager host) = Some st" "mRegistry (hostManager host) = Some kvs"
    and "\<And>name. separatePaths installRoot manifestPath (hostManager host) name"
    and "Vucm_Run (remoteLink split outside) installRoot manifestPath source s = Inr (0, s')"
  shows "\<exists>staged unpacked name binary doc registered.
    ReadFile True st (packageFile (packageInfo source fileSize)) staged = Inr (concat (chunksRead (fileReads source))) \<and>
    length (concat (chunksRead (fileReads source))) = unat fileSize \<and>
    unpack outside (pmStorageRoot (hostManager host) @ ''/'' @ packageFile (packageInfo source fileSize)) staged =
      (True, unpacked) \<and>
    Option.bind (unpacked (extractDir (hostManager host) @ ''/metadata.json'')) (readBinaryName outside) = Some name \<and>
    unpacked (extractDir (hostManager host) @ ''/bin/'' @ name) = Some binary \<and>
    injectProcess (xmlLibrary outside) (unpacked (extractDir (hostManager host) @ ''/manifest/process_entry.xml''))
      (unpacked manifestPath) = Some doc \<and>
    hostFiles (snd s') (installRoot @ ''/'' @ name) = Some binary \<and>
    hostFiles (snd s') manifestPath = Some (renderManifest (xmlLibrary outside) doc) \<and>
    mState (hostManager (snd s')) = kActivated \<and>
    registered = snd (hd (insertSorted (mNextId (hostManager host)) (packageInfo source fileSize)
      (mPendingTransfers (hostManager host)))) \<and>
    mRegistry (hostManager (snd s')) = Some (Kvs_SetValue (piName registered) (JString (piVersion registered)) kvs) \<and>
    (mPendingTransfers (hostManager host) = [] \<longrightarrow>
      piName registered = packageName (mPackagePath source) \<and> piVersion registered = ''1.0.0'')"
proof -
  let ?info = "packageInfo source fileSize" and ?blocks = "chunksRead (fileReads source)" and ?pm = "hostManager host"
  let ?transfers = "insertSorted (mNextId ?pm) ?info (mPendingTransfers ?pm)"
  obtain n host' where r: "Vucm_Run (localLink outside) installRoot manifestPath source host = Inr (n, host')"
    using local_run_total by blast
  then have l: "Vucm_Run (localLink outside) installRoot manifestPath source host = Inr (0, host')" "snd s' = host'"
    using connection.run_related [OF assms(1,2) r] assms(8) by (auto simp: atHost_def)
  obtain pm fs where u: "uploadPackage ?info ?blocks (exitFault outside) (unpack outside) (readBinaryName outside)
      ?pm (hostFiles host) = (Inr (), pm, fs)"
    "Activate (activateFaults outside) (xmlLibrary outside) (renderJson outside) installRoot manifestPath pm fs =
       (Inr (), hostManager host', hostFiles host')"
    by (rule local_run_success [OF l(1)]) (use assms(3) in auto)
  have size: "piSize ?info \<noteq> 0" "piSize ?info = fileSize" using assms(4) by (simp_all add: packageInfo_def)
  obtain staged where st: "ReadFile True st (packageFile ?info) staged = Inr (concat ?blocks)"
    "length (concat ?blocks) = unat (piSize ?info)"
    "unpack outside (pmStorageRoot ?pm @ ''/'' @ packageFile ?info) staged = (True, fs)"
    "Option.bind (fs (extractDir ?pm @ ''/metadata.json'')) (readBinaryName outside) = Some (mStagedBinaryName pm)"
    "extractDir pm = extractDir ?pm" "mState ?pm = kIdle"
    by (rule uploaded [OF u(1) size(1) assms(5)])
  note k = uploadPackage_keeps [OF st(6) u(1)]
  have sep: "separatePaths installRoot manifestPath pm (mStagedBinaryName pm)"
    using assms(7) st(5) k(2) by (simp add: separatePaths_def)
  obtain binary doc where a: "fs (extractDir pm @ ''/bin/'' @ mStagedBinaryName pm) = Some binary"
    "injectProcess (xmlLibrary outside) (fs (extractDir pm @ ''/manifest/process_entry.xml'')) (fs manifestPath) = Some doc"
    "hostFiles host' (installRoot @ ''/'' @ mStagedBinaryName pm) = Some binary"
    "hostFiles host' manifestPath = Some (renderManifest (xmlLibrary outside) doc)"
    by (rule activated [OF u(2) sep])
  have "(mNextId ?pm, ?info) \<in> set ?transfers" by (simp add: set_insertSorted)
  then have "?transfers = (fst (hd ?transfers), snd (hd ?transfers)) # tl ?transfers"
    by (cases ?transfers) simp_all
  from Activate_ok(2) [OF u(2) trans [OF k(1) this] trans [OF k(2) assms(6)]]
  have reg: "mRegistry (hostManager host') =
      Some (Kvs_SetValue (piName (snd (hd ?transfers))) (JString (piVersion (snd (hd ?transfers)))) kvs)" .
  have own: "mPendingTransfers ?pm = [] \<longrightarrow>
      piName (snd (hd ?transfers)) = packageName (mPackagePath source) \<and> piVersion (snd (hd ?transfers)) = ''1.0.0''"
    by (simp add: insertSorted_def packageInfo_def)
  show ?thesis unfolding l(2)
    by (rule exI [of _ staged], rule exI [of _ fs], rule exI [of _ "mStagedBinaryName pm"], rule exI [of _ binary],
        rule exI [of _ doc], rule exI [of _ "snd (hd ?transfers)"])
      (use st(1-4) size(2) a reg own st(5) Activate_ok(1) [OF u(2)] in simp)
qed

text \<open>
  A sample: the package file \<open>/p/app.gz\<close> of the two bytes 1 and 2, read in two blocks, for the sample tar and
  XML library of \<open>Ucm\<close>.
\<close>

definition updateOutside :: "(unit, bytes) UcmOutside" where
  "updateOutside = \<lparr> exitFault = NoFault, unpack = sampleTar, readBinaryName = (\<lambda>_. Some ''app''),
     activateFaults = noFaults, xmlLibrary = sampleXml, renderJson = (\<lambda>_. []) \<rparr>"

definition updateHost :: UcmHost where
  "updateHost = \<lparr> hostManager = emptyManager, hostFiles = [''/m'' \<mapsto> []] \<rparr>"

definition updateSource :: PackageSource where
  "updateSource = \<lparr> mPackagePath = ''/p/app.gz'', statSize = Some 2, canOpen = True, fileReads = [Some [1], Some [2], Some []] \<rparr>"

lemma updateSource_fits: "sourceFits ''/b'' ''/m'' updateSource"
  by (auto simp: sourceFits_def updateSource_def)

lemma sample_name: "packageName ''/p/app.gz'' = ''app''"
  by code_simp

lemma sample_local_run:
  "\<exists>host'. Vucm_Run (localLink updateOutside) ''/b'' ''/m'' updateSource updateHost = Inr (0, host')"
  by (simp add: Vucm_Run_def updateSource_def packageInfo_def sample_name localLink_def updateHost_def updateOutside_def
      sample_defs Activate_def installBinary_def injectProcess_def sampleXml_def noFaults_def
      split: option.splits list.splits prod.splits)

text \<open>The sample update over a connection that delivers every byte by itself.\<close>

abbreviation singly :: "bytes \<Rightarrow> bytes list" where "singly \<equiv> map (\<lambda>b. [b])"

lemma sample_link: "atHost singly host (newPackageProxy cUcmProtocolVersion, host)"
proof -
  have "concat (singly response) = response" for response :: bytes by (induction response) simp_all
  then show ?thesis by (simp add: atHost_def newPackageProxy_ready)
qed

lemma sample_remote_run:
  "\<exists>s'. Vucm_Run (remoteLink singly updateOutside) ''/b'' ''/m'' updateSource
     (newPackageProxy cUcmProtocolVersion, updateHost) = Inr (0, s')"
  using sample_local_run connection.run_related [OF sample_link updateSource_fits] by blast

theorem vehicle_update_end_to_end_witness:
  "\<exists>s'. Vucm_Run (remoteLink singly updateOutside) ''/b'' ''/m'' updateSource
     (newPackageProxy cUcmProtocolVersion, updateHost) = Inr (0, s') \<and>
   (\<exists>binary. hostFiles (snd s') ''/b/app'' = Some binary) \<and>
   mRegistry (hostManager (snd s')) =
     Some (Kvs_SetValue ''app'' (JString ''1.0.0'') \<lparr> mStoragePath = ''/u/r'', mRoot = [] \<rparr>)"
proof -
  obtain s' where s': "Vucm_Run (remoteLink singly updateOutside) ''/b'' ''/m'' updateSource
     (newPackageProxy cUcmProtocolVersion, updateHost) = Inr (0, s')"
    using sample_remote_run by blast
  have h: "hostManager updateHost = emptyManager" by (simp add: updateHost_def)
  have m: "mStorage emptyManager = Some \<lparr> mStorageRoot = ''/u'' \<rparr>"
    "mRegistry emptyManager = Some \<lparr> mStoragePath = ''/u/r'', mRoot = [] \<rparr>" "mPendingTransfers emptyManager = []"
    "separatePaths ''/b'' ''/m'' emptyManager name" for name
    by (simp_all add: emptyManager_def newPackageManager_def FileStorage_Open_def separatePaths_def extractDir_def tmpPath_def)
  have n: "statSize updateSource = Some 2" "mPackagePath updateSource = ''/p/app.gz''" by (simp_all add: updateSource_def)
  have "(2 :: u64) \<noteq> 0" by simp
  from vehicle_update_end_to_end [OF sample_link updateSource_fits n(1) this _ _ _ s', unfolded h, OF m(1,2,4)] m(3)
  have "\<exists>name binary. readBinaryName updateOutside = (\<lambda>_. Some ''app'') \<and> name = ''app'' \<and>
      hostFiles (snd s') (''/b/'' @ name) = Some binary \<and>
      mRegistry (hostManager (snd s')) =
        Some (Kvs_SetValue ''app'' (JString ''1.0.0'') \<lparr> mStoragePath = ''/u/r'', mRoot = [] \<rparr>)"
    by (auto simp: updateOutside_def n(2) sample_name bind_eq_Some_conv)
  then show ?thesis using s' by auto
qed

section \<open>After an update\<close>

lemma refused_run:
  assumes "mState (hostManager host) \<noteq> kIdle"
  shows "Vucm_Run (localLink outside) installRoot manifestPath source host = Inr (1, host)"
  using assms by (auto simp: Vucm_Run_def localLink_def TransferStart_def split: option.splits)

text \<open>C27: after one successful update the package manager accepts no other: it stays activated when the connection
  closes, so that the next run of an update master, for whatever package, is refused and changes nothing.\<close>

theorem update_only_once:
  assumes "atHost split host s" "sourceFits installRoot manifestPath source"
    and "Vucm_Run (remoteLink split outside) installRoot manifestPath source s = Inr (0, s1)"
    and "atHost split2 (onClientDisconnected (snd s1)) s2" "sourceFits installRoot2 manifestPath2 source2"
  shows "\<exists>px. Vucm_Run (remoteLink split2 outside2) installRoot2 manifestPath2 source2 s2 = Inr (1, px, snd s1)"
proof -
  obtain n host' where r: "Vucm_Run (localLink outside) installRoot manifestPath source host = Inr (n, host')"
    using local_run_total by blast
  then have l: "Vucm_Run (localLink outside) installRoot manifestPath source host = Inr (0, host')" "snd s1 = host'"
    using connection.run_related [OF assms(1,2) r] assms(3) by (auto simp: atHost_def)
  have "mState (hostManager host') = kActivated"
    by (rule local_run_success [OF l(1)]) (use Activate_ok(1) in blast)
  then have "onClientDisconnected (snd s1) = snd s1" "mState (hostManager (snd s1)) \<noteq> kIdle"
    by (simp_all add: onClientDisconnected_def l(2))
  then show ?thesis
    using connection.run_related [OF assms(4,5), of outside2 1] refused_run [of "snd s1" outside2] by (fastforce simp: atHost_def)
qed

theorem update_only_once_witness:
  "\<exists>s1 px. Vucm_Run (remoteLink singly updateOutside) ''/b'' ''/m'' updateSource
     (newPackageProxy cUcmProtocolVersion, updateHost) = Inr (0, s1) \<and>
   Vucm_Run (remoteLink singly updateOutside) ''/b'' ''/m'' (updateSource\<lparr> mPackagePath := ''/p/new.gz'' \<rparr>)
     (newPackageProxy cUcmProtocolVersion, onClientDisconnected (snd s1)) = Inr (1, px, snd s1)"
proof -
  obtain s1 where s1: "Vucm_Run (remoteLink singly updateOutside) ''/b'' ''/m'' updateSource
     (newPackageProxy cUcmProtocolVersion, updateHost) = Inr (0, s1)"
    using sample_remote_run by blast
  have "sourceFits ''/b'' ''/m'' (updateSource\<lparr> mPackagePath := ''/p/new.gz'' \<rparr>)"
    by (auto simp: sourceFits_def updateSource_def)
  from update_only_once [OF sample_link updateSource_fits s1 sample_link this] s1 show ?thesis by blast
qed

text \<open>A transfer cut short is forgotten when the connection closes, and the next update is accepted.\<close>

lemma interrupted_transfer_reset:
  assumes "mState (hostManager host) \<noteq> kActivated"
  shows "TransferStart info (hostManager (onClientDisconnected host)) =
    (Inr (mNextId (hostManager host)), snd (TransferStart info (hostManager (onClientDisconnected host))))"
  using assms by (auto simp: onClientDisconnected_def Pm_Reset_def TransferStart_def)

text \<open>
  An activation that fails at the manifest has already replaced the installed binary, which is not taken back.
\<close>

lemma failed_activation_installs:
  assumes "mStagedBinaryName pm \<noteq> []" "installBinary (copyFault faults) installRoot pm fs = (True, fs')"
    and "fs' manifestPath = None"
  shows "Activate faults xml render installRoot manifestPath pm fs = (Inl kActivationFailed, pm\<lparr> mState := kIdle \<rparr>, fs')"
  using assms by (simp add: Activate_def injectProcess_def)

end
