(* ===== verification/Log.thy ===== *)
theory Log
  imports Payload
begin

text \<open>
  \<open>ara/core/error_code.h\<close> and the error domains, and \<open>ara/log\<close>: log streams, loggers, the logging framework and
  its sinks. The clock's text and the text of floating-point numbers are given from outside; the output is the text
  written to the console and to each file.
\<close>

section \<open>Error codes\<close>

datatype ErrorDomain = ExecErrorDomain | DiagErrorDomain | PerErrorDomain | UcmErrorDomain

fun ErrorDomain_Id :: "ErrorDomain \<Rightarrow> u64" where
  "ErrorDomain_Id ExecErrorDomain = 0x8000000000000202"
| "ErrorDomain_Id DiagErrorDomain = 0x8000000000000401"
| "ErrorDomain_Id PerErrorDomain = 0x8000000000000601"
| "ErrorDomain_Id UcmErrorDomain = 0x8000000000000701"

fun ErrorDomain_Name :: "ErrorDomain \<Rightarrow> string" where
  "ErrorDomain_Name ExecErrorDomain = ''Execution Management error domain''"
| "ErrorDomain_Name DiagErrorDomain = ''Diag''"
| "ErrorDomain_Name PerErrorDomain = ''Per''"
| "ErrorDomain_Name UcmErrorDomain = ''Ucm''"

definition execMessages :: "(u32 \<times> string) list" where
  "execMessages =
    [(1, ''Unspecified error occurrence''),
     (2, ''Invalid argument while setting the state''),
     (3, ''SOME/IP or FIFO communication error occurrence''),
     (4, ''Invalid ARXML meta-model''),
     (5, ''Cancelling of the on-going state transition due to a new state trainsition request''),
     (6, ''Impossible operation to be performed''),
     (7, ''Previous function group termination while state transition''),
     (8, ''Target function group termination while state transition''),
     (9, ''Invalid state transition request''),
     (10, ''Invalid state transition due to request the current state''),
     (11, ''Transition failing due to equality to the on-going state transition''),
     (12, ''Unavailable deterministic timestamp information''),
     (13, ''Exceeding theoritical cycle time'')]"

definition diagMessages :: "(u32 \<times> string) list" where
  "diagMessages =
    [(101, ''Already offered service''),
     (102, ''Configuration misalignment with DEXT''),
     (103, ''Invalid monitor debouncing configuration''),
     (104, ''Disabled control DTC setting''),
     (105, ''Invalid passed argument from caller''),
     (106, ''Request from a not offered service''),
     (107, ''General error occurrance''),
     (108, ''Invalid DTC number''),
     (109, ''Busy interface call''),
     (110, ''Failed process''),
     (111, ''Memory error occurrance''),
     (112, ''Incorrect passed DTC number''),
     (113, ''Request rejection''),
     (114, ''Unsupported reset type by the Diagnostic Address instance''),
     (115, ''Failed diagnostic request process'')]"

definition perMessages :: "(u32 \<times> string) list" where
  "perMessages =
    [(1, ''Storage database not found''),
     (2, ''Key does not exist in storage''),
     (3, ''Write access not permitted''),
     (4, ''I/O error on backing file''),
     (5, ''Storage file is corrupt or unparseable''),
     (6, ''No space left on device''),
     (7, ''No default/init value configured''),
     (8, ''Resource is locked or in use''),
     (9, ''Named file does not exist in storage'')]"

definition ucmMessages :: "(u32 \<times> string) list" where
  "ucmMessages =
    [(1, ''Transfer ID is unknown or already finalised''),
     (2, ''TransferExit called before all data received''),
     (3, ''SW Package cannot be parsed or extracted''),
     (4, ''Activation step failed (binary copy or manifest)''),
     (5, ''Rollback could not restore previous state''),
     (6, ''Not enough disk space for the SW Package''),
     (7, ''UCM is already processing another transfer'')]"

fun domainMessages :: "ErrorDomain \<Rightarrow> (u32 \<times> string) list" where
  "domainMessages ExecErrorDomain = execMessages"
| "domainMessages DiagErrorDomain = diagMessages"
| "domainMessages PerErrorDomain = perMessages"
| "domainMessages UcmErrorDomain = ucmMessages"

definition ErrorDomain_Message :: "ErrorDomain \<Rightarrow> u32 \<Rightarrow> string" where
  "ErrorDomain_Message d code =
     (case map_of (domainMessages d) code of
        Some text \<Rightarrow> text
      | None \<Rightarrow> if d = ExecErrorDomain then ''Unsupported error code'' else ''Not supported'')"

record ErrorCode =
  ecValue :: u32
  ecDomain :: ErrorDomain

definition ErrorDomain_eq :: "ErrorDomain \<Rightarrow> ErrorDomain \<Rightarrow> bool" where
  "ErrorDomain_eq d other \<longleftrightarrow> ErrorDomain_Id d = ErrorDomain_Id other"

definition ErrorCode_Message :: "ErrorCode \<Rightarrow> string" where
  "ErrorCode_Message e = ErrorDomain_Message (ecDomain e) (ecValue e)"

definition ErrorCode_eq :: "ErrorCode \<Rightarrow> ErrorCode \<Rightarrow> bool" where
  "ErrorCode_eq e other \<longleftrightarrow> ErrorDomain_eq (ecDomain e) (ecDomain other) \<and> ecValue e = ecValue other"

definition ErrorCode_neq :: "ErrorCode \<Rightarrow> ErrorCode \<Rightarrow> bool" where
  "ErrorCode_neq e other \<longleftrightarrow> \<not> ErrorDomain_eq (ecDomain e) (ecDomain other) \<or> ecValue e \<noteq> ecValue other"

text \<open>What \<open>ThrowAsException\<close> throws: only the domain of execution management throws the code itself.\<close>

datatype Thrown = ThrownExecException ErrorCode | ThrownRuntimeError string

definition ThrowAsException :: "ErrorCode \<Rightarrow> Thrown" where
  "ThrowAsException e =
     (if ecDomain e = ExecErrorDomain then ThrownExecException e
      else ThrownRuntimeError (ErrorDomain_Message (ecDomain e) (ecValue e)))"

lemma ErrorCode_eq_iff [simp]: "ErrorCode_eq e other \<longleftrightarrow> e = other" "ErrorCode_neq e other \<longleftrightarrow> e \<noteq> other"
proof -
  have "ErrorDomain_eq d d' \<longleftrightarrow> d = d'" for d d' by (cases d; cases d') (simp_all add: ErrorDomain_eq_def)
  then show "ErrorCode_eq e other \<longleftrightarrow> e = other" "ErrorCode_neq e other \<longleftrightarrow> e \<noteq> other"
    by (cases e; cases other; auto simp: ErrorCode_eq_def ErrorCode_neq_def)+
qed

text \<open>The codes of a domain are told apart by their texts.\<close>

lemma messages_distinct: "distinct (map fst (domainMessages d)) \<and> distinct (map snd (domainMessages d))"
  by (cases d) (simp_all add: execMessages_def diagMessages_def perMessages_def ucmMessages_def)

section \<open>Log streams\<close>

datatype LogLevel = kOff | kFatal | kError | kWarn | kInfo | kDebug | kVerbose

fun levelCode :: "LogLevel \<Rightarrow> nat" where
  "levelCode kOff = 0"
| "levelCode kFatal = 1"
| "levelCode kError = 2"
| "levelCode kWarn = 3"
| "levelCode kInfo = 4"
| "levelCode kDebug = 5"
| "levelCode kVerbose = 6"

lemma levelCode_inj: "levelCode a = levelCode b \<Longrightarrow> a = b"
  by (cases a; cases b) simp_all

instantiation LogLevel :: linorder
begin

definition less_eq_LogLevel :: "LogLevel \<Rightarrow> LogLevel \<Rightarrow> bool" where
  "less_eq_LogLevel a b \<longleftrightarrow> levelCode a \<le> levelCode b"

definition less_LogLevel :: "LogLevel \<Rightarrow> LogLevel \<Rightarrow> bool" where
  "less_LogLevel a b \<longleftrightarrow> levelCode a < levelCode b"

instance
  by standard (auto simp: less_eq_LogLevel_def less_LogLevel_def dest: levelCode_inj)

end

record LogStream =
  mLogs :: string

definition newLogStream :: LogStream where
  "newLogStream = \<lparr> mLogs = [] \<rparr>"

definition logConcat :: "string \<Rightarrow> LogStream \<Rightarrow> LogStream" where
  "logConcat text st = st\<lparr> mLogs := mLogs st @ text \<rparr>"

definition LogStream_Flush :: "LogStream \<Rightarrow> LogStream" where
  "LogStream_Flush st = st\<lparr> mLogs := [] \<rparr>"

definition logStream :: "LogStream \<Rightarrow> LogStream \<Rightarrow> LogStream" where
  "logStream other st = st\<lparr> mLogs := mLogs st @ mLogs other \<rparr>"

definition logBool :: "bool \<Rightarrow> LogStream \<Rightarrow> LogStream" where
  "logBool b st = logConcat (if b then ''true'' else ''false'') st"

definition logNumber :: "'w::len word \<Rightarrow> LogStream \<Rightarrow> LogStream" where
  "logNumber n st = logConcat (to_string (unat n)) st"

text \<open>Standard strings and character arrays.\<close>

definition logString :: "string \<Rightarrow> LogStream \<Rightarrow> LogStream" where
  "logString s st = logConcat s st"

definition logLevelText :: "LogLevel \<Rightarrow> string" where
  "logLevelText level =
     (case level of kOff \<Rightarrow> ''Off'' | kFatal \<Rightarrow> ''Fatal'' | kError \<Rightarrow> ''Error'' | kWarn \<Rightarrow> ''Warning''
      | kInfo \<Rightarrow> ''Info'' | kDebug \<Rightarrow> ''Debug'' | kVerbose \<Rightarrow> ''Verbose'')"

definition logLevel :: "LogLevel \<Rightarrow> LogStream \<Rightarrow> LogStream" where
  "logLevel level st = st\<lparr> mLogs := mLogs st @ logLevelText level \<rparr>"

definition logErrorCode :: "ErrorCode \<Rightarrow> LogStream \<Rightarrow> LogStream" where
  "logErrorCode e st = logConcat (ErrorCode_Message e) st"

text \<open>An instance specifier is its text.\<close>

definition logSpecifier :: "string \<Rightarrow> LogStream \<Rightarrow> LogStream" where
  "logSpecifier specifier st = logConcat specifier st"

definition hexChar :: "nat \<Rightarrow> char" where
  "hexChar d = (if d < 10 then char_of (48 + d) else char_of (87 + d))"

text \<open>Two hexadecimal digits, filled up with 0.\<close>

definition hexByte :: "u8 \<Rightarrow> string" where
  "hexByte b = [hexChar (unat b div 16), hexChar (unat b mod 16)]"

definition logBytes :: "bytes \<Rightarrow> LogStream \<Rightarrow> LogStream" where
  "logBytes bs st = logConcat (concat (map hexByte bs)) st"

definition intText :: "int \<Rightarrow> string" where
  "intText i = (if i < 0 then CHR ''-'' # to_string (nat (- i)) else to_string (nat i))"

definition WithLocation :: "string \<Rightarrow> int \<Rightarrow> LogStream \<Rightarrow> LogStream" where
  "WithLocation file line st = logConcat (file @ '':'' @ intText line) st"

definition LogStream_ToString :: "LogStream \<Rightarrow> string" where
  "LogStream_ToString st = mLogs st"

text \<open>A quantity with identifier and unit; \<open>payloadText\<close> is what \<open>std::to_string\<close> makes of the payload.\<close>

definition Argument_ToString :: "string \<Rightarrow> string \<Rightarrow> string \<Rightarrow> string" where
  "Argument_ToString payloadText identifier unit = identifier @ '': '' @ payloadText @ '' '' @ unit"

definition logArgument :: "string \<Rightarrow> string \<Rightarrow> string \<Rightarrow> LogStream \<Rightarrow> LogStream" where
  "logArgument payloadText identifier unit st = logConcat (Argument_ToString payloadText identifier unit) st"

lemmas log_defs = newLogStream_def logConcat_def LogStream_Flush_def logStream_def logBool_def logNumber_def
  logString_def logLevel_def logErrorCode_def logSpecifier_def logBytes_def WithLocation_def LogStream_ToString_def

lemma of_char_hexChar: "d < 16 \<Longrightarrow> (of_char (hexChar d) :: nat) = (if d < 10 then 48 + d else 87 + d)"
  by (simp add: hexChar_def)

lemma hexChar_inj: "m < 16 \<Longrightarrow> n < 16 \<Longrightarrow> hexChar m = hexChar n \<Longrightarrow> m = n"
proof -
  assume a: "m < 16" "n < 16" "hexChar m = hexChar n"
  have "(if m < 10 then 48 + m else 87 + m) = (if n < 10 then 48 + n else 87 + n)"
    unfolding of_char_hexChar [OF a(1), symmetric] of_char_hexChar [OF a(2), symmetric] a(3) ..
  then show "m = n" using a(1,2) by (cases "m < 10"; cases "n < 10"; simp)
qed

text \<open>The hexadecimal text of bytes determines them.\<close>

lemma hexBytes_inj: "concat (map hexByte bs) = concat (map hexByte cs) \<Longrightarrow> bs = cs"
proof (induction bs arbitrary: cs)
  case (Cons b bs)
  then obtain c cs' where c: "cs = c # cs'" by (cases cs) (simp_all add: hexByte_def)
  have "unat b < 256" "unat c < 256" using unsigned_less [of b, where ?'a = nat] unsigned_less [of c, where ?'a = nat] by simp_all
  then have "unat b div 16 = unat c div 16" "unat b mod 16 = unat c mod 16"
    using Cons.prems c by (auto simp: hexByte_def intro!: hexChar_inj)
  then have "unat b = unat c" by (metis div_mult_mod_eq)
  then have "b = c" by (simp only: word_unat_eq_iff)
  then show ?case using Cons c by (simp add: hexByte_def)
qed (cases cs; simp add: hexByte_def)

section \<open>Loggers\<close>

datatype ClientState = kUnknown | kNotConnected | kConnected

record Logger =
  mContextId :: string
  mContextDescription :: string
  mContextDefaultLogLevel :: LogLevel

definition Logger_CreateLogger :: "string \<Rightarrow> string \<Rightarrow> LogLevel \<Rightarrow> Logger" where
  "Logger_CreateLogger ctxId ctxDescription ctxDefLogLevel =
     \<lparr> mContextId = ctxId, mContextDescription = ctxDescription, mContextDefaultLogLevel = ctxDefLogLevel \<rparr>"

definition RemoteClientState :: "Logger \<Rightarrow> ClientState" where
  "RemoteClientState logger = kNotConnected"

definition IsEnabled :: "LogLevel \<Rightarrow> Logger \<Rightarrow> bool" where
  "IsEnabled level logger \<longleftrightarrow> level \<le> mContextDefaultLogLevel logger"

definition WithLevel :: "LogLevel \<Rightarrow> Logger \<Rightarrow> LogStream" where
  "WithLevel level logger =
     (let st = logString '';'' (logString (mContextId logger) (logString ''Context ID:'' newLogStream));
          st = logString '';'' (logString (mContextDescription logger) (logString ''Context Description:'' st))
      in logString '';'' (logLevel level (logString ''Log Level:'' st)))"

definition LogFatal :: "Logger \<Rightarrow> LogStream" where "LogFatal = WithLevel kFatal"
definition LogError :: "Logger \<Rightarrow> LogStream" where "LogError = WithLevel kError"
definition LogWarn :: "Logger \<Rightarrow> LogStream" where "LogWarn = WithLevel kWarn"
definition LogInfo :: "Logger \<Rightarrow> LogStream" where "LogInfo = WithLevel kInfo"
definition LogDebug :: "Logger \<Rightarrow> LogStream" where "LogDebug = WithLevel kDebug"
definition LogVerbose :: "Logger \<Rightarrow> LogStream" where "LogVerbose = WithLevel kVerbose"

section \<open>Sinks\<close>

text \<open>The console sink and the file sink, with application identifier and description and the path of the file.\<close>

datatype LogSink = ConsoleLogSink string string | FileLogSink string string string

fun sinkApplication :: "LogSink \<Rightarrow> string \<times> string" where
  "sinkApplication (ConsoleLogSink appId appDescription) = (appId, appDescription)"
| "sinkApplication (FileLogSink appId appDescription logFilePath) = (appId, appDescription)"

definition GetAppstamp :: "LogSink \<Rightarrow> LogStream" where
  "GetAppstamp sink =
     (case sinkApplication sink of
        (appId, appDescription) \<Rightarrow>
          (let st = logString appId newLogStream
           in if appDescription \<noteq> [] then logString appDescription (logString '' '' st) else st))"

text \<open>\<open>asctime\<close> ends its text with a newline.\<close>

definition GetTimestamp :: "string \<Rightarrow> LogStream" where
  "GetTimestamp asctime = logString asctime newLogStream"

record LogOutput =
  consoleText :: string
  fileText :: "string \<Rightarrow> string"

definition sinkText :: "string \<Rightarrow> LogSink \<Rightarrow> LogStream \<Rightarrow> string" where
  "sinkText asctime sink stream =
     LogStream_ToString
       (logStream stream (logString '' '' (logStream (GetAppstamp sink) (logString '' '' (GetTimestamp asctime)))))"

text \<open>\<open>writable\<close>: the file can be opened for appending; otherwise the text is dropped.\<close>

fun Sink_Log :: "(string \<Rightarrow> bool) \<Rightarrow> string \<Rightarrow> LogSink \<Rightarrow> LogStream \<Rightarrow> LogOutput \<Rightarrow> LogOutput" where
  "Sink_Log writable asctime (ConsoleLogSink appId appDescription) stream out =
     out\<lparr> consoleText := consoleText out @ sinkText asctime (ConsoleLogSink appId appDescription) stream @ [CHR 0x0A] \<rparr>"
| "Sink_Log writable asctime (FileLogSink appId appDescription logFilePath) stream out =
     (if writable logFilePath
      then out\<lparr> fileText := (fileText out)(logFilePath := fileText out logFilePath @
             sinkText asctime (FileLogSink appId appDescription logFilePath) stream @ [CHR 0x0A]) \<rparr>
      else out)"

section \<open>The framework\<close>

text \<open>
  The loggers are elements of a vector and the callers get references to them: the storage the vector had
  (\<open>lfStorage\<close> counts them) and the index. \<open>grow\<close> is the capacity the vector gets when it is full.
\<close>

record LoggingFramework =
  mLogSink :: LogSink
  mDefaultLogLevel :: LogLevel
  mLoggers :: "Logger list"
  lfCapacity :: nat
  lfStorage :: nat

datatype LogMode = kRemote | kFile | kConsole

definition newLoggingFramework :: "LogSink \<Rightarrow> LogLevel \<Rightarrow> LoggingFramework" where
  "newLoggingFramework sink level =
     \<lparr> mLogSink = sink, mDefaultLogLevel = level, mLoggers = [], lfCapacity = 0, lfStorage = 0 \<rparr>"

definition LoggingFramework_Create :: "string \<Rightarrow> LogMode \<Rightarrow> LogLevel \<Rightarrow> string \<Rightarrow> LoggingFramework res" where
  "LoggingFramework_Create appId mode level appDescription =
     (if mode = kFile then Inl Invalid_argument
      else if mode = kConsole then Inr (newLoggingFramework (ConsoleLogSink appId appDescription) level)
      else Inl Invalid_argument)"

definition LoggingFramework_CreateFile :: "string \<Rightarrow> string \<Rightarrow> LogLevel \<Rightarrow> string \<Rightarrow> LoggingFramework" where
  "LoggingFramework_CreateFile appId filePath level appDescription =
     newLoggingFramework (FileLogSink filePath appId appDescription) level"

definition CreateLoggerLevel ::
    "(nat \<Rightarrow> nat) \<Rightarrow> string \<Rightarrow> string \<Rightarrow> LogLevel \<Rightarrow> LoggingFramework \<Rightarrow> (nat \<times> nat) \<times> LoggingFramework" where
  "CreateLoggerLevel grow ctxId ctxDescription ctxDefLogLevel lf =
     (let n = length (mLoggers lf); logger = Logger_CreateLogger ctxId ctxDescription ctxDefLogLevel;
          lf = (if n < lfCapacity lf then lf\<lparr> mLoggers := mLoggers lf @ [logger] \<rparr>
                else lf\<lparr> mLoggers := mLoggers lf @ [logger], lfCapacity := grow n, lfStorage := lfStorage lf + 1 \<rparr>)
      in ((lfStorage lf, n), lf))"

definition CreateLogger ::
    "(nat \<Rightarrow> nat) \<Rightarrow> string \<Rightarrow> string \<Rightarrow> LoggingFramework \<Rightarrow> (nat \<times> nat) \<times> LoggingFramework" where
  "CreateLogger grow ctxId ctxDescription lf = CreateLoggerLevel grow ctxId ctxDescription (mDefaultLogLevel lf) lf"

text \<open>Reading a logger through a reference into a storage that was given up is undefined.\<close>

definition loggerAt :: "nat \<times> nat \<Rightarrow> LoggingFramework \<Rightarrow> Logger res" where
  "loggerAt r lf =
     (if fst r = lfStorage lf \<and> snd r < length (mLoggers lf) then Inr (mLoggers lf ! snd r) else Inl Undefined)"

definition Framework_Log ::
    "(string \<Rightarrow> bool) \<Rightarrow> string \<Rightarrow> nat \<times> nat \<Rightarrow> LogLevel \<Rightarrow> LogStream \<Rightarrow> LoggingFramework \<Rightarrow> LogOutput \<Rightarrow> LogOutput res" where
  "Framework_Log writable asctime logger level stream lf out =
     bindR (loggerAt logger lf) (\<lambda>logger.
       if IsEnabled level logger
       then Inr (Sink_Log writable asctime (mLogSink lf) (logStream stream (WithLevel level logger)) out)
       else Inr out)"

section \<open>What is logged\<close>

text \<open>The references that are valid now, with their loggers.\<close>

lemma loggerAt_created:
  assumes "CreateLoggerLevel grow ctxId ctxDescription level lf = (r, lf')"
  shows "loggerAt r lf' = Inr (Logger_CreateLogger ctxId ctxDescription level)"
    "loggerAt r' lf = Inr logger \<Longrightarrow>
      loggerAt r' lf' = (if length (mLoggers lf) < lfCapacity lf then Inr logger else Inl Undefined)"
proof -
  let ?logger = "Logger_CreateLogger ctxId ctxDescription level" and ?n = "length (mLoggers lf)"
  have e: "r = fst (CreateLoggerLevel grow ctxId ctxDescription level lf)"
    "lf' = snd (CreateLoggerLevel grow ctxId ctxDescription level lf)"
    using assms by simp_all
  have "r = (lfStorage lf', ?n) \<and> mLoggers lf' = mLoggers lf @ [?logger] \<and>
      lfStorage lf' = (if ?n < lfCapacity lf then lfStorage lf else lfStorage lf + 1)"
    unfolding e by (simp add: CreateLoggerLevel_def Let_def)
  then show "loggerAt r lf' = Inr ?logger"
    "loggerAt r' lf = Inr logger \<Longrightarrow> loggerAt r' lf' = (if ?n < lfCapacity lf then Inr logger else Inl Undefined)"
    by (simp_all add: loggerAt_def nth_append split: if_splits)
qed

text \<open>A framework that logs to a file writes to the file named by the description of the application, which is
  empty by default, and gives the path as the identifier of the application.\<close>

lemma file_log_misplaced:
  assumes "CreateLogger grow ctxId ctxDescription (LoggingFramework_CreateFile appId filePath level appDescription) = (r, lf)"
    and "writable appDescription" "level \<ge> l"
  shows "\<exists>text. Framework_Log writable asctime r l stream lf out =
      Inr (out\<lparr> fileText := (fileText out)(appDescription := fileText out appDescription @ asctime @ '' '' @ filePath @ text) \<rparr>)"
proof -
  have sink: "mLogSink lf = FileLogSink filePath appId appDescription"
    using assms(1) by (auto simp: CreateLogger_def CreateLoggerLevel_def LoggingFramework_CreateFile_def
        newLoggingFramework_def Let_def split: if_splits)
  have "loggerAt r lf = Inr (Logger_CreateLogger ctxId ctxDescription level)"
    using loggerAt_created(1) assms(1)
    by (auto simp: CreateLogger_def LoggingFramework_CreateFile_def newLoggingFramework_def)
  then show ?thesis
    using assms(2,3) by (auto simp: Framework_Log_def sink IsEnabled_def Logger_CreateLogger_def sinkText_def GetAppstamp_def
        GetTimestamp_def log_defs Let_def)
qed

text \<open>The console: what the enabled requests of one logger leave on it, in order.\<close>

lemma console_log:
  assumes "loggerAt r lf = Inr logger" "mLogSink lf = ConsoleLogSink appId []"
  shows "Framework_Log writable asctime r l stream lf out =
    Inr (if l \<le> mContextDefaultLogLevel logger
         then out\<lparr> consoleText := consoleText out @ asctime @ '' '' @ appId @ '' '' @
                mLogs (WithLevel l logger) @ mLogs stream @ [CHR 0x0A] \<rparr>
         else out)"
  using assms by (simp add: Framework_Log_def IsEnabled_def sinkText_def GetAppstamp_def GetTimestamp_def log_defs Let_def)

end
