(* ===== verification/Deterministic.thy ===== *)
theory Deterministic
  imports Prelude
begin

text \<open>
  \<open>ara/exec/deterministic_client.cpp\<close>, \<open>worker_thread.cpp\<close>, \<open>helper/atomic_optional.h\<close> and the notifier and triggers of
  \<open>ara/sm\<close>. The members of the deterministic client are static: there is one state for all clients of a process, which
  its cycling thread and the threads of the clients share. The random engine of the standard library is given by
  \<open>seed\<close> and \<open>draw\<close>; what two threads do at once is a sequence of their atomic steps.
\<close>

section \<open>Atomic optional\<close>

record AtomicOptional =
  aoValue :: u64
  aoHasValue :: bool

definition newAtomicOptional :: "u64 \<Rightarrow> AtomicOptional" where
  "newAtomicOptional uninitialized = \<lparr> aoValue = uninitialized, aoHasValue = False \<rparr>"

definition Ao_Assign :: "u64 \<Rightarrow> AtomicOptional \<Rightarrow> AtomicOptional" where
  "Ao_Assign v ao = ao\<lparr> aoValue := v, aoHasValue := True \<rparr>"

definition Ao_Reset :: "AtomicOptional \<Rightarrow> AtomicOptional" where
  "Ao_Reset ao = ao\<lparr> aoHasValue := False \<rparr>"

definition Ao_Value :: "AtomicOptional \<Rightarrow> u64 res" where
  "Ao_Value ao = (if aoHasValue ao then Inr (aoValue ao) else Inl Runtime_error)"

section \<open>Deterministic client\<close>

definition cCycleDelayMs :: int where "cCycleDelayMs = 10"

text \<open>\<open>cycleThreads\<close>: how many cycling threads were started and have not been waited for.\<close>

record 'g DeterministicClient =
  mCounter :: u8
  dcRunning :: bool
  cycleThreads :: nat
  mSeed :: AtomicOptional
  mGenerator :: 'g
  mRandomNumber :: u64
  mActivationTime :: int

definition initialClient :: "u64 \<Rightarrow> 'g \<Rightarrow> 'g DeterministicClient" where
  "initialClient uninitialized g =
     \<lparr> mCounter = 0, dcRunning = False, cycleThreads = 0, mSeed = newAtomicOptional uninitialized, mGenerator = g,
       mRandomNumber = 0, mActivationTime = 0 \<rparr>"

text \<open>The constructor and the destructor in their atomic steps: the counter, and the look at it.\<close>

definition countUp :: "'g DeterministicClient \<Rightarrow> 'g DeterministicClient" where
  "countUp dc = dc\<lparr> mCounter := mCounter dc + 1 \<rparr>"

definition startIfFirst :: "'g DeterministicClient \<Rightarrow> 'g DeterministicClient" where
  "startIfFirst dc =
     (if mCounter dc = 1 then dc\<lparr> dcRunning := True, cycleThreads := cycleThreads dc + 1 \<rparr> else dc)"

definition Dc_Construct :: "'g DeterministicClient \<Rightarrow> 'g DeterministicClient" where
  "Dc_Construct dc = startIfFirst (countUp dc)"

definition stopIfLast :: "'g DeterministicClient \<Rightarrow> 'g DeterministicClient" where
  "stopIfLast dc = (if mCounter dc = 1 then dc\<lparr> dcRunning := False, cycleThreads := cycleThreads dc - 1 \<rparr> else dc)"

definition countDown :: "'g DeterministicClient \<Rightarrow> 'g DeterministicClient" where
  "countDown dc = dc\<lparr> mCounter := mCounter dc - 1 \<rparr>"

definition Dc_Destroy :: "'g DeterministicClient \<Rightarrow> 'g DeterministicClient" where
  "Dc_Destroy dc = countDown (stopIfLast dc)"

definition SetRandomSeed :: "u64 \<Rightarrow> 'g DeterministicClient \<Rightarrow> 'g DeterministicClient" where
  "SetRandomSeed v dc = dc\<lparr> mSeed := Ao_Assign v (mSeed dc) \<rparr>"

text \<open>
  One round of the cycling thread, at the time \<open>now\<close>. \<open>meanwhile\<close>: a seed that another thread sets after the seed
  was read and before it is reset. The second component: whether the waiting clients are notified.
\<close>

definition applySeed :: "(u64 \<Rightarrow> 'g) \<Rightarrow> u64 option \<Rightarrow> 'g DeterministicClient \<Rightarrow> 'g DeterministicClient res" where
  "applySeed seed meanwhile dc =
     (if aoHasValue (mSeed dc)
      then bindR (Ao_Value (mSeed dc)) (\<lambda>v.
             let dc = dc\<lparr> mGenerator := seed v \<rparr>;
                 dc = (case meanwhile of Some w \<Rightarrow> SetRandomSeed w dc | None \<Rightarrow> dc)
             in Inr (dc\<lparr> mSeed := Ao_Reset (mSeed dc) \<rparr>))
      else Inr (case meanwhile of Some w \<Rightarrow> SetRandomSeed w dc | None \<Rightarrow> dc))"

definition activateCycle ::
    "(u64 \<Rightarrow> 'g) \<Rightarrow> ('g \<Rightarrow> u64 \<times> 'g) \<Rightarrow> int \<Rightarrow> u64 option \<Rightarrow> 'g DeterministicClient \<Rightarrow> (bool \<times> 'g DeterministicClient) res" where
  "activateCycle seed draw now meanwhile dc =
     (if \<not> dcRunning dc then Inr (False, dc)
      else bindR (applySeed seed meanwhile dc) (\<lambda>dc.
             case draw (mGenerator dc) of
               (n, g) \<Rightarrow> Inr (True, dc\<lparr> mGenerator := g, mRandomNumber := n, mActivationTime := now \<rparr>)))"

datatype ActivationReturnType = kRegisterService | kServiceDiscovery | kInit | kRun | kTerminate

text \<open>What \<open>WaitForActivation\<close> returns once it was notified.\<close>

definition Dc_WaitForActivation :: "ActivationReturnType res" where
  "Dc_WaitForActivation = Inr kRun"

definition Dc_GetRandom :: "'g DeterministicClient \<Rightarrow> u64" where
  "Dc_GetRandom dc = mRandomNumber dc"

definition GetActivationTime :: "'g DeterministicClient \<Rightarrow> int res" where
  "GetActivationTime dc = Inr (mActivationTime dc)"

definition GetNextActivationTime :: "'g DeterministicClient \<Rightarrow> int res" where
  "GetNextActivationTime dc = Inr (mActivationTime dc + cCycleDelayMs)"

text \<open>\<open>ModelledProcess::WaitForActivation\<close>: whether the application goes on.\<close>

definition Mp_WaitForActivation :: "bool res" where
  "Mp_WaitForActivation = bindR Dc_WaitForActivation (\<lambda>a. Inr (a \<noteq> kTerminate))"

lemma always_activated [simp]: "Mp_WaitForActivation = Inr True"
  by (simp add: Mp_WaitForActivation_def Dc_WaitForActivation_def)

text \<open>
  Clients that are constructed one after the other start one cycling thread, and the last destructor ends it.
\<close>

lemma Dc_Construct_simps:
  "mCounter (Dc_Construct dc) = mCounter dc + 1"
  "cycleThreads (Dc_Construct dc) = (if mCounter dc + 1 = 1 then cycleThreads dc + 1 else cycleThreads dc)"
  by (simp_all add: Dc_Construct_def countUp_def startIfFirst_def)

lemma one_cycle_thread:
  assumes "n < 256" "mCounter dc = 0" "cycleThreads dc = 0"
  shows "unat (mCounter ((Dc_Construct ^^ n) dc)) = n \<and> cycleThreads ((Dc_Construct ^^ n) dc) = (if n = 0 then 0 else 1)"
  using assms
proof (induction n)
  case (Suc n)
  let ?dc = "(Dc_Construct ^^ n) dc"
  have i: "unat (mCounter ?dc) = n" "cycleThreads ?dc = (if n = 0 then 0 else 1)" using Suc by auto
  have c: "unat (mCounter ?dc + 1) = Suc n"
    using Suc.prems(1) i(1) by (simp add: unat_word_ariths)
  have "mCounter ?dc + 1 = 1 \<longleftrightarrow> n = 0"
    using c by (metis One_nat_def add_eq_0_iff_both_eq_0 nat.inject unat_1 word_unat_eq_iff)
  then show ?case using c i(2) by (simp only: funpow.simps o_apply Dc_Construct_simps) simp
qed simp

lemma last_client_stops:
  assumes "mCounter dc = 1" "cycleThreads dc = 1"
  shows "cycleThreads (Dc_Destroy dc) = 0 \<and> \<not> dcRunning (Dc_Destroy dc) \<and> mCounter (Dc_Destroy dc) = 0"
  using assms by (simp add: Dc_Destroy_def stopIfLast_def countDown_def)

text \<open>Two threads that construct the first clients at the same time start no cycling thread: nobody is activated.\<close>

lemma concurrent_construction:
  "mCounter dc = 0 \<Longrightarrow> cycleThreads dc = 0 \<Longrightarrow> cycleThreads (startIfFirst (startIfFirst (countUp (countUp dc)))) = 0"
  by (simp add: countUp_def startIfFirst_def)

text \<open>A seed is used by the next round, and random numbers after it depend on the seed only; a seed that is set
  while the one before is being applied is lost.\<close>

lemma seed_determines:
  assumes "dcRunning dc"
  shows "activateCycle seed draw now None (SetRandomSeed v dc) =
    Inr (True, dc\<lparr> mSeed := Ao_Reset (Ao_Assign v (mSeed dc)), mGenerator := snd (draw (seed v)),
             mRandomNumber := fst (draw (seed v)), mActivationTime := now \<rparr>)"
  using assms by (simp add: activateCycle_def applySeed_def SetRandomSeed_def Ao_Assign_def Ao_Value_def Let_def split: prod.splits)

lemma seed_lost:
  assumes "dcRunning dc" "aoHasValue (mSeed dc)" "activateCycle seed draw now (Some w) dc = Inr (b, dc')"
  shows "\<not> aoHasValue (mSeed dc') \<and> mRandomNumber dc' = fst (draw (seed (aoValue (mSeed dc))))"
  using assms by (auto simp: activateCycle_def applySeed_def SetRandomSeed_def Ao_Assign_def Ao_Reset_def Ao_Value_def Let_def
      split: prod.splits)

section \<open>Worker threads\<close>

definition cOffsetStep :: u64 where "cOffsetStep = 6"

text \<open>\<open>r\<close>: the number drawn from 0 to 5. The offset is read first and advanced afterwards.\<close>

definition workerNumber :: "u64 \<Rightarrow> u64 \<Rightarrow> u64" where
  "workerNumber offset r = offset + r"

definition advanceOffset :: "u64 \<Rightarrow> u64" where
  "advanceOffset offset = offset + cOffsetStep"

definition Worker_GetRandom :: "u64 \<Rightarrow> u64 \<Rightarrow> u64 \<times> u64" where
  "Worker_GetRandom r offset = (workerNumber offset r, advanceOffset offset)"

fun workerNumbers :: "u64 list \<Rightarrow> u64 \<Rightarrow> u64 list" where
  "workerNumbers [] offset = []"
| "workerNumbers (r # rs) offset = (case Worker_GetRandom r offset of (n, offset) \<Rightarrow> n # workerNumbers rs offset)"

text \<open>The elements are copied: what \<open>Run\<close> does to an element is lost with the copy.\<close>

definition RunWorkerPool :: "('v \<Rightarrow> 't \<Rightarrow> 'v \<times> 't) \<Rightarrow> 'v list \<Rightarrow> 't \<Rightarrow> 'v list \<times> 't" where
  "RunWorkerPool run container t = (container, fold (\<lambda>element t. snd (run element t)) container t)"

lemma workerNumbers_block:
  assumes "\<forall>r \<in> set rs. r < cOffsetStep" "unat offset + 6 * length rs < 2 ^ 64" "unat offset mod 6 = 0"
  shows "map (\<lambda>n. unat n div 6) (workerNumbers rs offset) = map (\<lambda>i. unat offset div 6 + i) [0..<length rs]"
  using assms
proof (induction rs arbitrary: offset)
  case (Cons r rs)
  have r: "unat r < 6" using Cons.prems(1) by (simp add: cOffsetStep_def word_less_nat_alt)
  have n: "unat (offset + r) = unat offset + unat r" "unat (offset + 6) = unat offset + 6"
    using Cons.prems(2) r by (simp_all add: unat_word_ariths)
  have "map (\<lambda>n. unat n div 6) (workerNumbers rs (offset + 6)) = map (\<lambda>i. unat (offset + 6) div 6 + i) [0..<length rs]"
    by (rule Cons.IH) (use Cons.prems n(2) in auto)
  moreover have "unat (offset + r) div 6 = unat offset div 6" using n(1) r Cons.prems(3) by presburger
  moreover have "[0..<length (r # rs)] = 0 # map Suc [0..<length rs]" by (simp add: upt_conv_Cons map_Suc_upt del: upt_Suc)
  moreover have "(unat offset + 6) div 6 = Suc (unat offset div 6)" by simp
  ultimately show ?case
    using n(2) by (simp add: Worker_GetRandom_def workerNumber_def advanceOffset_def cOffsetStep_def o_def del: upt_Suc)
qed simp

text \<open>The numbers handed to the workers are distinct: whatever is drawn from the six values of a step, the calls
  of one thread get pairwise different numbers until the offset reaches the end of its 64 bits.\<close>

lemma worker_numbers_distinct:
  assumes "\<forall>r \<in> set rs. r < cOffsetStep" "6 * length rs < 2 ^ 64"
  shows "distinct (workerNumbers rs 0) \<and> length (workerNumbers rs 0) = length rs"
proof -
  have m: "map (\<lambda>n. unat n div 6) (workerNumbers rs 0) = [0..<length rs]"
    using workerNumbers_block [of rs 0] assms by (simp add: map_idI)
  then have "distinct (map (\<lambda>n. unat n div 6) (workerNumbers rs 0))" by simp
  then have "distinct (workerNumbers rs 0)" by (rule distinct_map [THEN iffD1, THEN conjunct1])
  moreover have "length (workerNumbers rs 0) = length rs" using arg_cong [OF m, of length] by simp
  ultimately show ?thesis by simp
qed

section \<open>Notifiers and triggers\<close>

text \<open>A state shared by notifier and trigger; the handlers of the subscribers change the rest \<open>'s\<close> of the world.\<close>

record ('v, 's) Notifier =
  ntState :: 'v
  mSubscribers :: "('v \<Rightarrow> 's \<Rightarrow> 's) list"

definition Notifier_Read :: "('v, 's) Notifier \<Rightarrow> 'v" where
  "Notifier_Read nt = ntState nt"

definition Notifier_Subscribe :: "('v \<Rightarrow> 's \<Rightarrow> 's) \<Rightarrow> ('v, 's) Notifier \<Rightarrow> ('v, 's) Notifier" where
  "Notifier_Subscribe handler nt = nt\<lparr> mSubscribers := mSubscribers nt @ [handler] \<rparr>"

definition Notifier_Notify :: "('v, 's) Notifier \<Rightarrow> 's \<Rightarrow> 's" where
  "Notifier_Notify nt s = fold (\<lambda>subscriber. subscriber (ntState nt)) (mSubscribers nt) s"

text \<open>\<open>TriggerInOut\<close>: a trigger and a notifier of the same state; the handler may notify.\<close>

definition TriggerInOut_Write ::
    "(('v, 's) Notifier \<Rightarrow> 's \<Rightarrow> 's) \<Rightarrow> 'v \<Rightarrow> ('v, 's) Notifier \<Rightarrow> 's \<Rightarrow> ('v, 's) Notifier \<times> 's" where
  "TriggerInOut_Write handler state nt s = (let nt = nt\<lparr> ntState := state \<rparr> in (nt, handler nt s))"

text \<open>Subscribers hear the written state, in the order of their subscription.\<close>

lemma fold_Subscribe: "fold Notifier_Subscribe hs nt = nt\<lparr> mSubscribers := mSubscribers nt @ hs \<rparr>"
  by (induction hs arbitrary: nt) (simp_all add: Notifier_Subscribe_def)

lemma fold_hear: "fold (\<lambda>h. h state) (map (\<lambda>who v s. s @ [(who, v)]) whos) acc = acc @ map (\<lambda>who. (who, state)) whos"
  by (induction whos arbitrary: acc) simp_all

lemma written_state_heard:
  "TriggerInOut_Write Notifier_Notify state
     (fold Notifier_Subscribe (map (\<lambda>who v s. s @ [(who, v)]) whos) \<lparr> ntState = old, mSubscribers = [] \<rparr>) [] =
   (\<lparr> ntState = state, mSubscribers = map (\<lambda>who v s. s @ [(who, v)]) whos \<rparr>, map (\<lambda>who. (who, state)) whos)"
  by (simp add: TriggerInOut_Write_def Notifier_Notify_def Let_def fold_Subscribe fold_hear)

end
