(* ===== verification/Journal.thy ===== *)
theory Journal
  imports Per Log
begin

text \<open>
  What the applications of \<open>src/application\<close> share: the log of \<open>ModelledProcess::Log\<close> and the journal they keep in
  a key-value storage, an entry per message under the decimal number of the entry (\<open>watchdog_application.cpp\<close>,
  \<open>extended_vehicle.cpp\<close>). The state of an application extends \<open>Journal\<close>.
\<close>

section \<open>State and operations\<close>

record Journal =
  mStorage :: "KeyValueStorage option"
  jStoragePath :: string
  mLogCounter :: u32
  jLog :: "(LogLevel \<times> string) list"
  jFs :: FileSystem

definition Mp_Log :: "LogLevel \<Rightarrow> string \<Rightarrow> 'a Journal_scheme \<Rightarrow> 'a Journal_scheme" where
  "Mp_Log level text j = j\<lparr> jLog := jLog j @ [(level, text)] \<rparr>"

text \<open>\<open>preferred\<close>: \<open>/var/per\<close> could be made or exists.\<close>

definition storageDirectory :: "bool \<Rightarrow> string" where
  "storageDirectory preferred = (if preferred then ''/var/per'' else ''/tmp/per'')"

definition openStorage ::
    "(bytes \<Rightarrow> JsonDocument option) \<Rightarrow> string \<Rightarrow> 'a Journal_scheme \<Rightarrow> 'a Journal_scheme" where
  "openStorage parse path j =
     (let j = j\<lparr> jStoragePath := path \<rparr>
      in case KeyValueStorage_Open parse path (jFs j) of
           Inr kvs \<Rightarrow> Mp_Log kInfo (''[Per] Storage opened at '' @ path) (j\<lparr> mStorage := Some kvs \<rparr>)
         | Inl _ \<Rightarrow> Mp_Log kInfo (''[Per] Storage unavailable at '' @ path) j)"

definition persistLog :: "string \<Rightarrow> 'a Journal_scheme \<Rightarrow> 'a Journal_scheme" where
  "persistLog message j =
     (case mStorage j of
        None \<Rightarrow> j
      | Some kvs \<Rightarrow> j\<lparr> mStorage := Some (Kvs_SetValue (to_string (unat (mLogCounter j))) (JString message) kvs),
                     mLogCounter := mLogCounter j + 1 \<rparr>)"

text \<open>The result of the synchronisation is not looked at.\<close>

definition syncJournal ::
    "((string \<times> JsonValue) list \<Rightarrow> bytes) \<Rightarrow> IoFault \<Rightarrow> 'a Journal_scheme \<Rightarrow> 'a Journal_scheme" where
  "syncJournal render fault j =
     (case mStorage j of
        None \<Rightarrow> j
      | Some kvs \<Rightarrow>
          Mp_Log kInfo (''[Per] Synced '' @ to_string (unat (mLogCounter j)) @ '' entries to '' @ jStoragePath j)
            (j\<lparr> jFs := last (fst (SyncToStorage fault render kvs (jFs j))) \<rparr>))"

section \<open>What the journal holds\<close>

text \<open>The values of a storage whose entries are \<open>es\<close>, and those of the storage it was opened with.\<close>

definition entryMap :: "string list \<Rightarrow> string \<rightharpoonup> JsonValue" where
  "entryMap es = map_of (zip (map to_string [0..<length es]) (map JString es))"

definition journalHolds :: "(string \<rightharpoonup> JsonValue) \<Rightarrow> string list \<Rightarrow> 'a Journal_scheme \<Rightarrow> bool" where
  "journalHolds old es j \<longleftrightarrow>
     unat (mLogCounter j) = length es \<and>
     (\<exists>kvs. mStorage j = Some kvs \<and> mStoragePath kvs = jStoragePath j \<and> map_of (mRoot kvs) = old ++ entryMap es)"

lemma journal_paths [simp]:
  "jStoragePath (Mp_Log level text j) = jStoragePath j" "jStoragePath (persistLog message j) = jStoragePath j"
  "jStoragePath (openStorage parse path j) = path"
  by (auto simp: Mp_Log_def persistLog_def openStorage_def Let_def split: option.splits sum.splits)

lemma to_string_inj [simp]: "to_string m = to_string n \<longleftrightarrow> m = n"
  by (metis digitsValue_to_string of_nat_eq_iff)

lemma entryMap_Nil [simp]: "entryMap [] = Map.empty"
  by (simp add: entryMap_def)

lemma entryMap_snoc: "entryMap (es @ [e]) = (entryMap es)(to_string (length es) \<mapsto> JString e)"
proof -
  have d: "to_string (length es) \<notin> dom (entryMap es)" by (auto simp: entryMap_def dom_map_of_zip)
  have "zip (map to_string [0..<length (es @ [e])]) (map JString (es @ [e])) =
      zip (map to_string [0..<length es]) (map JString es) @ [(to_string (length es), JString e)]"
    by (simp add: zip_append)
  then have "entryMap (es @ [e]) = [to_string (length es) \<mapsto> JString e] ++ entryMap es"
    by (simp add: entryMap_def)
  also have "\<dots> = (entryMap es)(to_string (length es) \<mapsto> JString e)"
    using d by (subst map_add_comm) simp_all
  finally show ?thesis .
qed

lemma entryMap_nth: "i < length es \<Longrightarrow> entryMap es (to_string i) = Some (JString (es ! i))"
proof -
  assume i: "i < length es"
  have "distinct (map to_string [0..<length es])" by (simp add: distinct_map inj_on_def)
  then have "map_of (zip (map to_string [0..<length es]) (map JString es)) (map to_string [0..<length es] ! i) =
      Some (map JString es ! i)"
    by (intro map_of_zip_nth) (use i in simp_all)
  then show ?thesis using i by (simp add: entryMap_def)
qed

lemma openStorage_holds:
  assumes "KeyValueStorage_Open parse path (jFs j) = Inr kvs" "mLogCounter j = 0"
  shows "journalHolds (map_of (mRoot kvs)) [] (openStorage parse path j)"
proof -
  have "mStoragePath kvs = path" using assms(1)
    by (auto simp: KeyValueStorage_Open_def split: option.splits JsonDocument.splits)
  then show ?thesis using assms by (simp add: journalHolds_def openStorage_def Mp_Log_def Let_def)
qed

lemma persistLog_holds:
  assumes "journalHolds old es j" "length es + 1 < 2 ^ 32"
  shows "journalHolds old (es @ [message]) (persistLog message j)"
proof -
  obtain kvs where k: "mStorage j = Some kvs" "mStoragePath kvs = jStoragePath j" "map_of (mRoot kvs) = old ++ entryMap es"
    "unat (mLogCounter j) = length es"
    using assms(1) by (auto simp: journalHolds_def)
  have "unat (mLogCounter j + 1) = length es + 1" using k(4) assms(2) by (simp add: unat_word_ariths)
  moreover have "mStoragePath (Kvs_SetValue key v kvs) = mStoragePath kvs" for key v by (simp add: Kvs_SetValue_def)
  ultimately show ?thesis
    using k by (simp add: journalHolds_def persistLog_def Kvs_SetValue_lookup entryMap_snoc)
qed

lemma Mp_Log_holds [simp]: "journalHolds old es (Mp_Log level text j) = journalHolds old es j"
  by (simp add: journalHolds_def Mp_Log_def)

lemma syncJournal_holds [simp]: "journalHolds old es (syncJournal render fault j) = journalHolds old es j"
  by (auto simp: journalHolds_def syncJournal_def Mp_Log_def split: option.splits)

text \<open>A synchronised journal is read back when its storage is opened again.\<close>

lemma synced_journal_read:
  assumes "journalHolds old es j" "mStorage j = Some kvs"
    and "parse (render (mRoot kvs)) = Some (JsonObject root)" "map_of root = map_of (mRoot kvs)"
  shows "\<exists>kvs'. KeyValueStorage_Open parse (jStoragePath j) (jFs (syncJournal render NoFault j)) = Inr kvs' \<and>
    map_of (mRoot kvs') = old ++ entryMap es"
proof -
  obtain states result where s: "SyncToStorage NoFault render kvs (jFs j) = (states, result)" by fastforce
  note r = s [unfolded SyncToStorage_def]
  have "result = Inr ()" using replaceFile_result(3) [OF r] by simp
  then have "last states (mStoragePath kvs) = Some (render (mRoot kvs))" using replaceFile_result(4) [OF r] by simp
  then show ?thesis
    using assms s by (auto simp: journalHolds_def syncJournal_def Mp_Log_def KeyValueStorage_Open_def)
qed

text \<open>A failed one leaves the file as it was.\<close>

lemma failed_sync_keeps:
  assumes "fault \<noteq> NoFault" "mStorage j = Some kvs" "mStoragePath kvs = jStoragePath j"
  shows "jFs (syncJournal render fault j) (jStoragePath j) = jFs j (jStoragePath j)"
proof -
  obtain states result where s: "SyncToStorage fault render kvs (jFs j) = (states, result)" by fastforce
  note r = s [unfolded SyncToStorage_def]
  have "result \<noteq> Inr ()" using replaceFile_result(3) [OF r] assms(1) by simp
  then have "last states (mStoragePath kvs) = jFs j (mStoragePath kvs)" using replaceFile_result(4) [OF r] by simp
  then show ?thesis using assms s by (simp add: syncJournal_def Mp_Log_def)
qed

end
