(* ===== verification/Watchdog.thy ===== *)
theory Watchdog
  imports Journal VehicleStatus Deterministic
begin

text \<open>
  \<open>application/watchdog_application.cpp\<close>: the application that subscribes to the vehicle status and reports its
  absence. Events (on the thread of the poller) and activations (on the thread of \<open>Main\<close>) are steps that happen one
  after the other; the code does not synchronise them. The steady clock is read in nanoseconds and given with each step,
  \<open>wdClock\<close> is its reading while a step runs.
\<close>

section \<open>State and operations\<close>

definition cEventTimeout :: int where "cEventTimeout = 2000"

record Watchdog = Journal +
  wdSelfInstanceId :: u16
  mLastEventTime :: int
  mExpiredLogged :: bool
  mFirstEventReceived :: bool
  wdClock :: int

definition newWatchdog :: "FileSystem \<Rightarrow> Watchdog" where
  "newWatchdog fs =
     \<lparr> mStorage = None, jStoragePath = [], mLogCounter = 0, jLog = [], jFs = fs, wdSelfInstanceId = 0,
       mLastEventTime = 0, mExpiredLogged = False, mFirstEventReceived = False, wdClock = 0 \<rparr>"

definition restartedMessage :: "u16 \<Rightarrow> VehicleStatusData \<Rightarrow> string" where
  "restartedMessage self data =
     ''[Watchdog] '' @ to_string (unat self) @ '' restarted by ExtendedVehicle '' @ to_string (unat (SenderInstanceId data))"

definition startedMessage :: string where
  "startedMessage = ''[Watchdog] Started - timeout '' @ to_string (nat cEventTimeout) @ '' ms''"

definition expiredMessage :: string where
  "expiredMessage = ''[Watchdog] Event expired: no VehicleStatus received for >'' @ to_string (nat cEventTimeout) @ '' ms''"

definition wdOnEventReceived :: "VehicleStatusData \<Rightarrow> Watchdog \<Rightarrow> Watchdog" where
  "wdOnEventReceived data wd =
     (let wd = wd\<lparr> mLastEventTime := wdClock wd, mExpiredLogged := False, mFirstEventReceived := True \<rparr>;
          msg = restartedMessage (wdSelfInstanceId wd) data;
          wd = Mp_Log kInfo msg wd
      in case mStorage wd of
           None \<Rightarrow> wd
         | Some _ \<Rightarrow>
             let wd = persistLog msg wd
             in Mp_Log kInfo (''[Per] Entry '' @ to_string (unat (mLogCounter wd - 1)) @ '' written to '' @ jStoragePath wd) wd)"

text \<open>What \<open>Main\<close> does before its loop.\<close>

definition wdStart :: "int \<Rightarrow> Watchdog \<Rightarrow> Watchdog" where
  "wdStart now wd =
     (let wd = Mp_Log kInfo startedMessage (wd\<lparr> mLastEventTime := now \<rparr>)
      in case mStorage wd of
           None \<Rightarrow> wd
         | Some _ \<Rightarrow> Mp_Log kInfo (''[Per] Entry 0 written to '' @ jStoragePath wd) (persistLog startedMessage wd))"

definition wdStoragePath :: "bool \<Rightarrow> u16 \<Rightarrow> string" where
  "wdStoragePath preferred self = storageDirectory preferred @ ''/watchdog_'' @ to_string (unat self) @ ''.json''"

definition wdSetup ::
    "XmlLib \<Rightarrow> bool \<Rightarrow> bool \<Rightarrow> (bytes \<Rightarrow> JsonDocument option) \<Rightarrow> bool \<Rightarrow> int \<Rightarrow> arguments \<Rightarrow> Watchdog \<Rightarrow>
     (Watchdog VehicleStatusProxy \<times> Watchdog) res" where
  "wdSetup lib sdSocket eventSocket parse preferred now arguments wd =
     (case arguments cWatchdogConfigArgument of
        None \<Rightarrow> Inl Out_of_range
      | Some manifestPath \<Rightarrow>
          bindR (Vsp_configureFromManifest lib sdSocket eventSocket manifestPath) (\<lambda>px.
          let wd = wd\<lparr> wdSelfInstanceId := mSelfInstanceId px \<rparr>;
              wd = openStorage parse (wdStoragePath preferred (wdSelfInstanceId wd)) wd;
              px = SetReceiveHandler wdOnEventReceived px
          in Inr (px, wdStart now wd)))"

text \<open>The duration in whole milliseconds; \<open>duration_cast\<close> cuts towards zero.\<close>

definition toMilliseconds :: "int \<Rightarrow> int" where
  "toMilliseconds ns = (if ns < 0 then - ((- ns) div 1000000) else ns div 1000000)"

text \<open>The body of the loop after the activation.\<close>

definition wdCycle ::
    "((string \<times> JsonValue) list \<Rightarrow> bytes) \<Rightarrow> IoFault \<Rightarrow> int \<Rightarrow> Watchdog \<Rightarrow> Watchdog" where
  "wdCycle render fault now wd =
     (let elapsed = toMilliseconds (now - mLastEventTime wd)
      in if elapsed > cEventTimeout \<and> \<not> mExpiredLogged wd \<and> mFirstEventReceived wd
         then (let wd = Mp_Log kInfo expiredMessage wd; wd = wd\<lparr> mExpiredLogged := True \<rparr>
               in syncJournal render fault (persistLog expiredMessage wd))
         else wd)"

text \<open>A datagram's payload that the event receiver hands over, and an activation.\<close>

datatype WdStep = WdEvent int bytes | WdCycle int IoFault

fun wdStep ::
    "((string \<times> JsonValue) list \<Rightarrow> bytes) \<Rightarrow> Watchdog VehicleStatusProxy \<Rightarrow> WdStep \<Rightarrow> Watchdog \<Rightarrow> Watchdog res" where
  "wdStep render px (WdEvent now raw) wd = Vsp_onEvent px raw (wd\<lparr> wdClock := now \<rparr>)"
| "wdStep render px (WdCycle now fault) wd = Inr (wdCycle render fault now (wd\<lparr> wdClock := now \<rparr>))"

fun wdSteps ::
    "((string \<times> JsonValue) list \<Rightarrow> bytes) \<Rightarrow> Watchdog VehicleStatusProxy \<Rightarrow> WdStep list \<Rightarrow> Watchdog \<Rightarrow> Watchdog res" where
  "wdSteps render px [] wd = Inr wd"
| "wdSteps render px (s # ss) wd = bindR (wdStep render px s wd) (wdSteps render px ss)"

text \<open>The loop. \<open>env i\<close>: the events until the \<open>i\<close>-th activation, its time and the fault of its synchronisation.\<close>

definition roundSteps :: "(int \<times> bytes) list \<times> int \<times> IoFault \<Rightarrow> WdStep list" where
  "roundSteps r = (case r of (events, now, fault) \<Rightarrow> map (\<lambda>(t, raw). WdEvent t raw) events @ [WdCycle now fault])"

partial_function (option) wdLoop ::
    "((string \<times> JsonValue) list \<Rightarrow> bytes) \<Rightarrow> Watchdog VehicleStatusProxy \<Rightarrow>
     (nat \<Rightarrow> (int \<times> bytes) list \<times> int \<times> IoFault) \<Rightarrow> nat \<Rightarrow> Watchdog \<Rightarrow> Watchdog res option" where
  "wdLoop render px env i wd =
     (case Mp_WaitForActivation of
        Inl e \<Rightarrow> Some (Inl e)
      | Inr running \<Rightarrow>
          (case wdSteps render px (roundSteps (env i)) wd of
             Inl e \<Rightarrow> Some (Inl e)
           | Inr wd \<Rightarrow> if running then wdLoop render px env (i + 1) wd else Some (Inr wd)))"

definition wdFinish ::
    "((string \<times> JsonValue) list \<Rightarrow> bytes) \<Rightarrow> IoFault \<Rightarrow> Watchdog \<Rightarrow> int \<times> Watchdog" where
  "wdFinish render fault wd = (0, syncJournal render fault wd)"

text \<open>\<open>Main\<close>: the exit code and the state, if it returns. The cancellation token is not looked at.\<close>

definition wdMain ::
    "XmlLib \<Rightarrow> bool \<Rightarrow> bool \<Rightarrow> (bytes \<Rightarrow> JsonDocument option) \<Rightarrow> ((string \<times> JsonValue) list \<Rightarrow> bytes) \<Rightarrow> bool \<Rightarrow> int \<Rightarrow>
     (nat \<Rightarrow> (int \<times> bytes) list \<times> int \<times> IoFault) \<Rightarrow> IoFault \<Rightarrow> (nat \<Rightarrow> bool) \<Rightarrow> arguments \<Rightarrow> Watchdog \<Rightarrow>
     (int \<times> Watchdog) res option" where
  "wdMain lib sdSocket eventSocket parse render preferred now env fault cancellationToken arguments wd =
     (case wdSetup lib sdSocket eventSocket parse preferred now arguments wd of
        Inl e \<Rightarrow> Some (Inl e)
      | Inr (px, wd) \<Rightarrow>
          (case wdLoop render px env 0 wd of
             None \<Rightarrow> None
           | Some (Inl e) \<Rightarrow> Some (Inl e)
           | Some (Inr wd) \<Rightarrow> Some (Inr (wdFinish render fault wd))))"

section \<open>The events that are heard\<close>

definition heard :: "'s VehicleStatusProxy \<Rightarrow> bytes \<Rightarrow> VehicleStatusData option" where
  "heard px raw =
     (if length raw < cPayloadSize then None
      else case Vsd_Deserialize raw of
             Inl _ \<Rightarrow> None
           | Inr data \<Rightarrow> if SenderInstanceId data = ucast (mPeerInstanceId px) then Some data else None)"

lemma vinEnd_total: "length payload \<ge> 17 \<Longrightarrow> \<exists>n. vinEnd payload i = Inr n"
proof (induction "17 - i" arbitrary: i)
  case 0
  then show ?case by (subst vinEnd.simps) (simp add: cVinLength_def)
next
  case (Suc k)
  then have "\<exists>n. vinEnd payload (i + 1) = Inr n" by simp
  then show ?case using Suc.prems by (subst vinEnd.simps) (auto simp: cVinLength_def)
qed

lemma Vsp_onEvent_heard:
  "Vsp_onEvent px raw st =
     Inr (case heard px raw of
            None \<Rightarrow> st
          | Some data \<Rightarrow> (case mReceiveHandler px of Some handler \<Rightarrow> handler data st | None \<Rightarrow> st))"
proof (cases "length raw < 19")
  case False
  then obtain n where "vinEnd raw 0 = Inr n" using vinEnd_total [of raw 0] by auto
  then obtain data where "Vsd_Deserialize raw = Inr data"
    using False by (simp add: Vsd_Deserialize_def cVinLength_def)
  then show ?thesis using False by (auto simp: Vsp_onEvent_def heard_def cPayloadSize_def split: option.splits)
qed (simp add: Vsp_onEvent_def heard_def cPayloadSize_def)

section \<open>The specification of the journal\<close>

text \<open>
  \<open>Some t\<close>: the last event came at \<open>t\<close> and its absence was not reported since. A step gives the messages that are
  entered.
\<close>

fun specStep ::
    "'s VehicleStatusProxy \<Rightarrow> WdStep \<Rightarrow> int option \<Rightarrow> string list \<times> int option" where
  "specStep px (WdEvent now raw) armed =
     (case heard px raw of
        None \<Rightarrow> ([], armed)
      | Some data \<Rightarrow> ([restartedMessage (mSelfInstanceId px) data], Some now))"
| "specStep px (WdCycle now fault) armed =
     (case armed of
        None \<Rightarrow> ([], None)
      | Some t \<Rightarrow> if toMilliseconds (now - t) > cEventTimeout then ([expiredMessage], None) else ([], Some t))"

fun specJournal :: "'s VehicleStatusProxy \<Rightarrow> WdStep list \<Rightarrow> int option \<Rightarrow> string list" where
  "specJournal px [] armed = []"
| "specJournal px (s # ss) armed = fst (specStep px s armed) @ specJournal px ss (snd (specStep px s armed))"

definition armedOf :: "Watchdog \<Rightarrow> int option" where
  "armedOf wd = (if mFirstEventReceived wd \<and> \<not> mExpiredLogged wd then Some (mLastEventTime wd) else None)"

text \<open>What the steps rely on and keep.\<close>

definition wdHolds ::
    "(string \<rightharpoonup> JsonValue) \<Rightarrow> Watchdog VehicleStatusProxy \<Rightarrow> string list \<Rightarrow> Watchdog \<Rightarrow> bool" where
  "wdHolds old px es wd \<longleftrightarrow>
     journalHolds old es wd \<and> wdSelfInstanceId wd = mSelfInstanceId px \<and> mReceiveHandler px = Some wdOnEventReceived"

lemma journalHolds_fields [simp]:
  "journalHolds old es (wd\<lparr> wdClock := t \<rparr>) = journalHolds old es wd"
  "journalHolds old es (wd\<lparr> mExpiredLogged := b \<rparr>) = journalHolds old es wd"
  "journalHolds old es (wd\<lparr> mFirstEventReceived := b \<rparr>) = journalHolds old es wd"
  "journalHolds old es (wd\<lparr> mLastEventTime := t \<rparr>) = journalHolds old es wd"
  "journalHolds old es (wd\<lparr> wdSelfInstanceId := n \<rparr>) = journalHolds old es wd"
  by (simp_all add: journalHolds_def)

lemma journal_keeps [simp]:
  "mFirstEventReceived (Mp_Log l m wd) = mFirstEventReceived wd" "mExpiredLogged (Mp_Log l m wd) = mExpiredLogged wd"
  "mLastEventTime (Mp_Log l m wd) = mLastEventTime wd" "wdSelfInstanceId (Mp_Log l m wd) = wdSelfInstanceId wd"
  "mStorage (Mp_Log l m wd) = mStorage wd"
  "mFirstEventReceived (persistLog m wd) = mFirstEventReceived wd" "mExpiredLogged (persistLog m wd) = mExpiredLogged wd"
  "mLastEventTime (persistLog m wd) = mLastEventTime wd" "wdSelfInstanceId (persistLog m wd) = wdSelfInstanceId wd"
  "mFirstEventReceived (syncJournal r f wd) = mFirstEventReceived wd"
  "mExpiredLogged (syncJournal r f wd) = mExpiredLogged wd"
  "mLastEventTime (syncJournal r f wd) = mLastEventTime wd" "wdSelfInstanceId (syncJournal r f wd) = wdSelfInstanceId wd"
  by (simp_all add: Mp_Log_def persistLog_def syncJournal_def split: option.splits)

lemma journalHolds_storage: "journalHolds old es wd \<Longrightarrow> \<exists>kvs. mStorage wd = Some kvs"
  by (auto simp: journalHolds_def)

lemma wdStep_refines:
  assumes "wdHolds old px es wd" "length es + length (fst (specStep px s (armedOf wd))) < 2 ^ 32"
  shows "\<exists>wd'. wdStep render px s wd = Inr wd' \<and> wdHolds old px (es @ fst (specStep px s (armedOf wd))) wd' \<and>
    armedOf wd' = snd (specStep px s (armedOf wd))"
proof (cases s)
  case (WdEvent now raw)
  show ?thesis
  proof (cases "heard px raw")
    case None
    then show ?thesis using assms WdEvent by (simp add: Vsp_onEvent_heard wdHolds_def armedOf_def)
  next
    case (Some data)
    let ?wd = "wd\<lparr> wdClock := now, mLastEventTime := now, mExpiredLogged := False, mFirstEventReceived := True \<rparr>"
    let ?msg = "restartedMessage (mSelfInstanceId px) data"
    have h: "journalHolds old es (Mp_Log kInfo ?msg ?wd)" using assms(1) by (simp add: wdHolds_def)
    then obtain kvs where k: "mStorage ?wd = Some kvs" using journalHolds_storage [OF h] by auto
    have "journalHolds old (es @ [?msg]) (persistLog ?msg (Mp_Log kInfo ?msg ?wd))"
      by (rule persistLog_holds [OF h]) (use assms(2) WdEvent Some in simp)
    then show ?thesis
      using assms(1) WdEvent Some k
      by (simp add: Vsp_onEvent_heard wdHolds_def armedOf_def wdOnEventReceived_def Let_def)
  qed
next
  case (WdCycle now fault)
  let ?late = "toMilliseconds (now - mLastEventTime wd) > cEventTimeout"
  show ?thesis
  proof (cases "?late \<and> \<not> mExpiredLogged wd \<and> mFirstEventReceived wd")
    case False
    then show ?thesis using assms(1) WdCycle by (auto simp: wdCycle_def wdHolds_def armedOf_def)
  next
    case True
    let ?wd = "(Mp_Log kInfo expiredMessage (wd\<lparr> wdClock := now \<rparr>))\<lparr> mExpiredLogged := True \<rparr>"
    have "journalHolds old es ?wd" using assms(1) by (simp add: wdHolds_def)
    then have "journalHolds old (es @ [expiredMessage]) (persistLog expiredMessage ?wd)"
      by (rule persistLog_holds) (use assms(2) WdCycle True in \<open>simp add: armedOf_def\<close>)
    then show ?thesis using assms(1) WdCycle True by (simp add: wdCycle_def wdHolds_def armedOf_def Let_def)
  qed
qed

lemma wdSteps_refines:
  assumes "wdHolds old px es wd" "length es + length (specJournal px ss (armedOf wd)) < 2 ^ 32"
  shows "\<exists>wd'. wdSteps render px ss wd = Inr wd' \<and> wdHolds old px (es @ specJournal px ss (armedOf wd)) wd'"
  using assms
proof (induction ss arbitrary: es wd)
  case (Cons s ss)
  have "length es + length (fst (specStep px s (armedOf wd))) < 2 ^ 32" using Cons.prems(2) by simp
  from wdStep_refines [OF Cons.prems(1) this] obtain wd1 where w: "wdStep render px s wd = Inr wd1"
    "wdHolds old px (es @ fst (specStep px s (armedOf wd))) wd1" "armedOf wd1 = snd (specStep px s (armedOf wd))"
    by blast
  show ?case using Cons.IH [OF w(2)] Cons.prems(2) w by simp
qed simp

lemma wdSetup_holds:
  assumes "wdSetup lib sdSocket eventSocket parse preferred now arguments (newWatchdog fs) = Inr (px, wd)"
    and "KeyValueStorage_Open parse (jStoragePath wd) fs = Inr kvs"
  shows "wdHolds (map_of (mRoot kvs)) px [startedMessage] wd \<and> armedOf wd = None"
proof -
  obtain manifestPath where m1: "arguments cWatchdogConfigArgument = Some manifestPath"
    using assms(1) by (cases "arguments cWatchdogConfigArgument") (simp_all add: wdSetup_def)
  then obtain px0 :: "Watchdog VehicleStatusProxy"
    where "Vsp_configureFromManifest lib sdSocket eventSocket manifestPath = Inr px0"
    using assms(1) by (cases "Vsp_configureFromManifest lib sdSocket eventSocket manifestPath :: Watchdog VehicleStatusProxy res")
      (simp_all add: wdSetup_def)
  note m = m1 this
  let ?wd = "(newWatchdog fs)\<lparr> wdSelfInstanceId := mSelfInstanceId px0 \<rparr>"
  let ?path = "wdStoragePath preferred (mSelfInstanceId px0)"
  have o: "wdSelfInstanceId (openStorage parse path (w :: Watchdog)) = wdSelfInstanceId w"
    "mFirstEventReceived (openStorage parse path w) = mFirstEventReceived w"
    "jStoragePath (openStorage parse path w) = path" for path w
    by (auto simp: openStorage_def Let_def Mp_Log_def split: sum.splits)
  have s: "px = SetReceiveHandler wdOnEventReceived px0" "wd = wdStart now (openStorage parse ?path ?wd)"
    using assms(1) m by (simp_all add: wdSetup_def Let_def)
  have "jStoragePath wd = ?path"
    by (simp add: s(2) o wdStart_def Mp_Log_def persistLog_def Let_def split: option.splits)
  then have "KeyValueStorage_Open parse ?path (jFs ?wd) = Inr kvs" "mLogCounter ?wd = 0"
    using assms(2) by (simp_all add: newWatchdog_def)
  from openStorage_holds [OF this]
  have h: "journalHolds (map_of (mRoot kvs)) [] (Mp_Log kInfo startedMessage ((openStorage parse ?path ?wd)\<lparr> mLastEventTime := now \<rparr>))"
    by simp
  then obtain k where k: "mStorage (openStorage parse ?path ?wd) = Some k" using journalHolds_storage by fastforce
  have "journalHolds (map_of (mRoot kvs)) ([] @ [startedMessage]) (persistLog startedMessage
      (Mp_Log kInfo startedMessage ((openStorage parse ?path ?wd)\<lparr> mLastEventTime := now \<rparr>)))"
    by (rule persistLog_holds [OF h]) simp
  moreover have "mFirstEventReceived (newWatchdog fs) = False" by (simp add: newWatchdog_def)
  ultimately show ?thesis
    using k by (simp add: s o Let_def wdStart_def wdHolds_def armedOf_def SetReceiveHandler_def)
qed

text \<open>A stretch of activations without an event reports the absence once, and only when it is later than the timeout.\<close>

lemma silence_reported_once:
  "specJournal px (map (\<lambda>(now, fault). WdCycle now fault) cs) armed =
     (case armed of
        None \<Rightarrow> []
      | Some t \<Rightarrow> if \<exists>c \<in> set cs. toMilliseconds (fst c - t) > cEventTimeout then [expiredMessage] else [])"
proof -
  have n: "specJournal px (map (\<lambda>(now, fault). WdCycle now fault) cs) None = []"
    for cs :: "(int \<times> IoFault) list"
    by (induction cs) auto
  have "specJournal px (map (\<lambda>(now, fault). WdCycle now fault) cs) (Some t) =
      (if \<exists>c \<in> set cs. toMilliseconds (fst c - t) > cEventTimeout then [expiredMessage] else [])" for t
  proof (induction cs)
    case (Cons c cs)
    then show ?case by (cases c) (simp add: n)
  qed simp
  then show ?thesis by (simp add: n split: option.splits)
qed

section \<open>The journal and the loop\<close>

text \<open>C13: the journal of the watchdog is what its specification says: after it was set up with a storage that opens, and
  whatever events and activations follow, the storage holds, under the numbers from 0, the start message, a message for
  each event of its peer and, for each of these events that is followed by an activation more than the timeout later
  and before the next one, one message of the silence; entries of earlier runs under these numbers are overwritten, the
  others stay. A silence before the first event is never reported, however long it is, although the header and the
  design of the component say that a warning is logged whenever no event arrives within the timeout.\<close>

theorem watchdog_journal:
  assumes "wdSetup lib sdSocket eventSocket parse preferred now arguments (newWatchdog fs) = Inr (px, wd)"
    and "KeyValueStorage_Open parse (jStoragePath wd) fs = Inr kvs"
    and "length (specJournal px steps None) + 1 < 2 ^ 32"
  shows "\<exists>wd' kvs'. wdSteps render px steps wd = Inr wd' \<and> mStorage wd' = Some kvs' \<and>
    map_of (mRoot kvs') = map_of (mRoot kvs) ++ entryMap (startedMessage # specJournal px steps None) \<and>
    unat (mLogCounter wd') = 1 + length (specJournal px steps None)"
proof -
  have "wdHolds (map_of (mRoot kvs)) px [startedMessage] wd" "armedOf wd = None"
    using wdSetup_holds [OF assms(1,2)] by simp_all
  from wdSteps_refines [OF this(1), where ss = steps and render = render] assms(3) this(2)
  show ?thesis by (auto simp: wdHolds_def journalHolds_def)
qed

definition watchdogDocument :: "XmlNode list" where
  "watchdogDocument = [foldr (\<lambda>name node. XmlElement name [] [node]) cElementsPath
     (XmlElement ''REQUIRED-SOMEIP-SERVICE-INSTANCE'' []
       [textElement ''SERVICE-INSTANCE-ID'' ''1'', textElement ''WATCHDOG-INSTANCE-ID'' ''2''])]"

definition sampleSetup :: "(Watchdog VehicleStatusProxy \<times> Watchdog) res" where
  "sampleSetup = wdSetup (instanceLib watchdogDocument []) True True (\<lambda>_. None) True 5
     [cWatchdogConfigArgument \<mapsto> ''m''] (newWatchdog Map.empty)"

text \<open>A status of the peer, two late activations, and a status of someone else.\<close>

definition sampleSteps :: "WdStep list" where
  "sampleSteps = [WdEvent 0 (replicate 18 0 @ [1]), WdCycle 2000000000 NoFault, WdCycle 2001000000 NoFault,
     WdCycle 4002000000 NoFault, WdEvent 4003000000 (replicate 18 0 @ [7])]"

lemma sampleSetup_runs:
  "case sampleSetup of Inl _ \<Rightarrow> False
   | Inr (px, wd) \<Rightarrow> jStoragePath wd = ''/var/per/watchdog_2.json'' \<and>
       specJournal px sampleSteps None =
         [''[Watchdog] 2 restarted by ExtendedVehicle 1'', ''[Watchdog] Event expired: no VehicleStatus received for >2000 ms'']"
  by code_simp

theorem watchdog_journal_witness:
  "\<exists>wd' kvs'. (case sampleSetup of Inl _ \<Rightarrow> False | Inr (px, wd) \<Rightarrow> wdSteps (\<lambda>_. []) px sampleSteps wd = Inr wd') \<and>
     mStorage wd' = Some kvs' \<and> map_of (mRoot kvs') ''0'' = Some (JString startedMessage) \<and> unat (mLogCounter wd') = 3"
proof -
  obtain px wd where r: "sampleSetup = Inr (px, wd)" "jStoragePath wd = ''/var/per/watchdog_2.json''"
    "length (specJournal px sampleSteps None) = 2"
    using sampleSetup_runs by (auto split: sum.splits)
  have "KeyValueStorage_Open (\<lambda>_. None) (jStoragePath wd) Map.empty = Inr \<lparr> mStoragePath = jStoragePath wd, mRoot = [] \<rparr>"
    by (simp add: KeyValueStorage_Open_def)
  from watchdog_journal [OF r(1) [unfolded sampleSetup_def] this, of sampleSteps "\<lambda>_. []"] r(3)
  obtain wd' kvs' where w: "wdSteps (\<lambda>_. []) px sampleSteps wd = Inr wd'" "mStorage wd' = Some kvs'"
    "map_of (mRoot kvs') = entryMap (startedMessage # specJournal px sampleSteps None)" "unat (mLogCounter wd') = 3"
    by auto
  have "map_of (mRoot kvs') (to_string 0) = Some (JString startedMessage)"
    unfolding w(3) by (subst entryMap_nth) simp_all
  moreover have "to_string 0 = ''0''" by code_simp
  ultimately show ?thesis unfolding r(1) sum.case prod.case using w by auto
qed

lemma wdSteps_total: "\<exists>wd'. wdSteps render px ss wd = Inr wd'"
proof (induction ss arbitrary: wd)
  case (Cons s ss)
  obtain wd' where "wdStep render px s wd = Inr wd'" by (cases s) (simp_all add: Vsp_onEvent_heard)
  then show ?case using Cons by simp
qed simp

lemma wdLoop_none: "wdLoop render px env i wd = None"
proof (cases "wdLoop render px env i wd")
  case (Some y)
  have False
  proof (rule wdLoop.raw_induct [OF _ Some])
    fix loop render px env i wd y
    assume 1: "\<And>render px env i wd y. loop render px env i wd = Some y \<Longrightarrow> False"
      "(case Mp_WaitForActivation of
        Inl e \<Rightarrow> Some (Inl e)
      | Inr running \<Rightarrow>
          (case wdSteps render px (roundSteps (env i)) wd of
             Inl e \<Rightarrow> Some (Inl e)
           | Inr wd \<Rightarrow> if running then loop render px env (i + 1) wd else Some (Inr wd))) = Some y"
    obtain wd' where "wdSteps render px (roundSteps (env i)) wd = Inr wd'" using wdSteps_total by blast
    then have "loop render px env (i + 1) wd' = Some y" using 1(2) by simp
    then show False by (rule 1(1))
  qed
  then show ?thesis ..
qed simp

text \<open>C29: \<open>Main\<close> of the watchdog returns only when its setup throws: once set up it never returns, whatever the
  cancellation token says, so that terminating the process waits for ever.\<close>

theorem watchdog_never_returns:
  "wdMain lib sdSocket eventSocket parse render preferred now env fault cancellationToken arguments wd =
     map_option Inl (case wdSetup lib sdSocket eventSocket parse preferred now arguments wd of
       Inl e \<Rightarrow> Some e | Inr _ \<Rightarrow> None)"
  by (simp add: wdMain_def wdLoop_none split: sum.splits)

end
