(* ===== verification/ExtendedVehicle.thy ===== *)
theory ExtendedVehicle
  imports Journal VehicleStatus Deterministic Doip Health
begin

text \<open>
  \<open>application/extended_vehicle.cpp\<close>: the application that offers and publishes the vehicle status, answers diagnostic
  requests over DoIP and reports checkpoints to the health manager. The threads of the poller and of service discovery
  change the skeleton between two cycles, which is given as a function for each cycle; the diagnostic conversations are
  those that exist when the loop is left.
\<close>

section \<open>State and configuration\<close>

text \<open>\<open>_vin\<close>, \<open>cConfigured\<close> and \<open>_heartbeatCounter\<close> are variables of \<open>Main\<close>.\<close>

record ExtendedVehicle = Journal +
  evSupervisedEntity :: FifoCheckpointCommunicator
  mSkeleton :: "VehicleStatusSkeleton option"
  mCurl :: "(string \<times> string) option"
  mDoipServer :: "DoipServer option"
  mResourcesUrl :: string
  evVin :: string
  evConfigured :: bool
  evHeartbeatCounter :: u32

definition newExtendedVehicle :: "FifoCheckpointCommunicator \<Rightarrow> FileSystem \<Rightarrow> ExtendedVehicle" where
  "newExtendedVehicle communicator fs =
     \<lparr> mStorage = None, jStoragePath = [], mLogCounter = 0, jLog = [], jFs = fs, evSupervisedEntity = communicator,
       mSkeleton = None, mCurl = None, mDoipServer = None, mResourcesUrl = [], evVin = [], evConfigured = False,
       evHeartbeatCounter = 0 \<rparr>"

text \<open>
  What the application gets from outside: the XML library, whether the sockets of service discovery, of the events and
  of the DoIP server can be set up, whether the HTTP library starts, the value of an uninitialised counter, the text
  of an exception, and the text a string has after it was moved from.
\<close>

record EvEnvironment =
  evXml :: XmlLib
  sdSocketOk :: bool
  eventSocketOk :: bool
  doipListens :: bool
  curlStarts :: bool
  evUninitialised :: int
  evWhat :: "exn \<Rightarrow> string"
  movedFrom :: string

definition getNetworkConfiguration :: "XmlLib \<Rightarrow> ArxmlReader \<Rightarrow> NetworkConfiguration res" where
  "getNetworkConfiguration lib reader =
     bindR (TryGetNetworkConfiguration lib reader ''ExtendedVehicleEP'' ''ServerUnicastTcp'' Tcp \<lparr> ipAddress = [], portNumber = 0 \<rparr>)
       (\<lambda>(successful, result). if successful then Inr result else Inl Runtime_error)"

definition cDoipInstantiation :: "string list" where
  "cDoipInstantiation = cElementsPath @ [''DO-IP-INSTANTIATION'']"

definition cDoipNetwork :: "string list" where
  "cDoipNetwork = cDoipInstantiation @ [''NETWORK-INTERFACES'', ''DO-IP-NETWORK-CONFIGURATION'']"

text \<open>The fields of the library's controller configuration the code sets; times in seconds.\<close>

record DoipControllerConfig =
  doIPInitialVehicleAnnouncementTime :: int
  doIPVehicleAnnouncementCount :: u8
  doIPVehicleAnnouncementInterval :: int
  dcProtocolVersion :: u8
  doipMaxRequestBytes :: nat

definition getDoipConfiguration :: "ArxmlReader \<Rightarrow> DoipControllerConfig" where
  "getDoipConfiguration reader =
     \<lparr> doIPInitialVehicleAnnouncementTime =
         Arxml_GetInt (GetRootNode (cDoipNetwork @ [''MAX-INITIAL-VEHICLE-ANNOUNCEMENT-TIME'']) reader),
       doIPVehicleAnnouncementCount = Arxml_GetValue (GetRootNode (cDoipNetwork @ [''VEHICLE-ANNOUNCEMENT-COUNT'']) reader),
       doIPVehicleAnnouncementInterval =
         Arxml_GetInt (GetRootNode (cDoipNetwork @ [''VEHICLE-ANNOUNCEMENT-INTERVAL'']) reader),
       dcProtocolVersion = 2, doipMaxRequestBytes = cDoipPacketSize \<rparr>"

definition tryConfigureRestCommunication ::
    "EvEnvironment \<Rightarrow> string \<Rightarrow> string \<Rightarrow> ExtendedVehicle \<Rightarrow> bool res \<times> ExtendedVehicle" where
  "tryConfigureRestCommunication env apiKey bearerToken ev =
     (if \<not> curlStarts env then (Inl Runtime_error, ev)
      else (let ev = ev\<lparr> mCurl := Some (apiKey, bearerToken), evVin := ''DEMO0000000000001'',
                        mResourcesUrl := ''demo://localhost/resources'' \<rparr>
            in (Inr True, Mp_Log kInfo (''Demo mode: VIN set to '' @ evVin ev) ev)))"

text \<open>\<open>vin\<close> is the variable of \<open>Main\<close>, and is moved from by the server's vehicle identification handler.\<close>

definition configureDoipServer ::
    "EvEnvironment \<Rightarrow> ArxmlReader \<Rightarrow> ExtendedVehicle \<Rightarrow> unit res \<times> ExtendedVehicle" where
  "configureDoipServer env reader ev =
     (let logicalAddress = Arxml_GetValue (GetRootNode (cDoipInstantiation @ [''LOGICAL-ADDRESS'']) reader);
          eid = Arxml_GetValue (GetRootNode (cDoipInstantiation @ [''EID'']) reader);
          gid = Arxml_GetValue (GetRootNode (cDoipInstantiation @ [''GID'']) reader)
      in case getNetworkConfiguration (evXml env) reader of
           Inl e \<Rightarrow> (Inl e, ev)
         | Inr networkConfiguration \<Rightarrow>
             (let config = getDoipConfiguration reader;
                  server = newDoipServer (dcProtocolVersion config) (mResourcesUrl ev) (evVin ev) logicalAddress eid gid;
                  ev = ev\<lparr> evVin := movedFrom env \<rparr>
              in if doipListens env then (Inr (), ev\<lparr> mDoipServer := Some server \<rparr>) else (Inl Runtime_error, ev)))"

definition initializedMessage :: string where
  "initializedMessage = ''Extended Vehicle AA has been initialized.''"

text \<open>The part of \<open>Main\<close> inside \<open>try\<close> before the loop.\<close>

definition offerSkeleton :: "ExtendedVehicle \<Rightarrow> unit res \<times> ExtendedVehicle" where
  "offerSkeleton ev =
     (case mSkeleton ev of
        None \<Rightarrow> (Inl Undefined, ev)
      | Some sk \<Rightarrow>
          (case Vss_OfferService sk of
             Inl e \<Rightarrow> (Inl e, ev)
           | Inr sk \<Rightarrow> (Inr (), ev\<lparr> mSkeleton := Some sk \<rparr>)))"

definition evConfigure ::
    "EvEnvironment \<Rightarrow> arguments \<Rightarrow> string \<Rightarrow> ArxmlReader \<Rightarrow> ExtendedVehicle \<Rightarrow> unit res \<times> ExtendedVehicle" where
  "evConfigure env arguments configFilepath reader ev =
     (case Vss_configureFromManifest (evXml env) (sdSocketOk env) (eventSocketOk env) (evUninitialised env) configFilepath of
        Inl e \<Rightarrow> (Inl e, ev)
      | Inr sk \<Rightarrow>
          (let ev = persistLog initializedMessage (Mp_Log kInfo initializedMessage (ev\<lparr> mSkeleton := Some sk, evVin := [] \<rparr>))
           in case (arguments cApiKeyArgument, arguments cBearerTokenArgument) of
                (Some apiKey, Some bearerToken) \<Rightarrow>
                  (case tryConfigureRestCommunication env apiKey bearerToken ev of
                     (Inl e, ev) \<Rightarrow> (Inl e, ev)
                   | (Inr configured, ev) \<Rightarrow>
                       (let ev = ev\<lparr> evConfigured := configured, evHeartbeatCounter := 0 \<rparr>
                        in if configured
                           then (case configureDoipServer env reader ev of
                                   (Inl e, ev) \<Rightarrow> (Inl e, ev)
                                 | (Inr _, ev) \<Rightarrow> offerSkeleton ev)
                           else (Inr (), ev)))
              | _ \<Rightarrow> (Inl Out_of_range, ev)))"

section \<open>The loop\<close>

definition AliveCheckpoint :: u32 where "AliveCheckpoint = 0"
definition DeadlineSourceCheckpoint :: u32 where "DeadlineSourceCheckpoint = 1"
definition DeadlineTargetCheckpoint :: u32 where "DeadlineTargetCheckpoint = 2"

definition evReport :: "u32 \<Rightarrow> ExtendedVehicle \<Rightarrow> ExtendedVehicle" where
  "evReport checkpoint ev = ev\<lparr> evSupervisedEntity := ReportCheckpoint checkpoint (evSupervisedEntity ev) \<rparr>"

definition heartbeatMessage :: "string \<Rightarrow> bool \<Rightarrow> string" where
  "heartbeatMessage vin configured =
     ''[Heartbeat] ExtendedVehicle alive | VIN='' @ (if vin = [] then ''DEMO'' else vin) @ '' | SD server '' @
     (if configured then ''active'' else ''inactive'')"

text \<open>The sender identifier of the data is set by the skeleton.\<close>

definition evStatus :: "string \<Rightarrow> bool \<Rightarrow> VehicleStatusData" where
  "evStatus vin configured = \<lparr> Vin = vin, ConnectedToCloud = configured, SenderInstanceId = 0 \<rparr>"

definition evHeartbeat :: "ExtendedVehicle \<Rightarrow> ExtendedVehicle" where
  "evHeartbeat ev =
     (let msg = heartbeatMessage (evVin ev) (evConfigured ev);
          ev = persistLog msg (Mp_Log kInfo msg ev)
      in ev\<lparr> mSkeleton := map_option (VehicleStatus_Send (evStatus (evVin ev) (evConfigured ev))) (mSkeleton ev) \<rparr>)"

text \<open>\<open>meanwhile\<close>: what other threads do to the skeleton.\<close>

definition evCycle ::
    "(VehicleStatusSkeleton \<Rightarrow> VehicleStatusSkeleton) \<Rightarrow> ExtendedVehicle \<Rightarrow> bool res \<times> ExtendedVehicle" where
  "evCycle meanwhile ev =
     (let ev = evReport DeadlineSourceCheckpoint (evReport AliveCheckpoint ev);
          ev = ev\<lparr> mSkeleton := map_option meanwhile (mSkeleton ev) \<rparr>
      in case Mp_WaitForActivation of
           Inl e \<Rightarrow> (Inl e, ev)
         | Inr running \<Rightarrow>
             (let ev = evReport DeadlineTargetCheckpoint ev;
                  ev = ev\<lparr> evHeartbeatCounter := evHeartbeatCounter ev + 1 \<rparr>
              in (Inr running, if evHeartbeatCounter ev mod 100 = 0 then evHeartbeat ev else ev)))"

text \<open>\<open>cancelled i\<close>: the cancellation token before the \<open>i\<close>-th cycle.\<close>

partial_function (option) evLoop ::
    "(nat \<Rightarrow> bool) \<Rightarrow> (nat \<Rightarrow> VehicleStatusSkeleton \<Rightarrow> VehicleStatusSkeleton) \<Rightarrow> nat \<Rightarrow> ExtendedVehicle \<Rightarrow>
     (unit res \<times> ExtendedVehicle) option" where
  "evLoop cancelled meanwhile i ev =
     (if cancelled i then Some (Inr (), ev)
      else case evCycle (meanwhile i) ev of
             (Inl e, ev) \<Rightarrow> Some (Inl e, ev)
           | (Inr running, ev) \<Rightarrow> if running then evLoop cancelled meanwhile (i + 1) ev else Some (Inr (), ev))"

definition conversationMessage :: "Conversation list \<Rightarrow> string" where
  "conversationMessage conversations =
     (if length (filter (\<lambda>c. mActivityStatus c = kActive) conversations) = 0
      then ''There was no active diagnostic conversation at the termination.''
      else ''There were still some active diagnostic conversations at the termination.'')"

definition terminatedMessage :: string where
  "terminatedMessage = ''Extended Vehicle AA has been terminated.''"

definition evFinish ::
    "((string \<times> JsonValue) list \<Rightarrow> bytes) \<Rightarrow> IoFault \<Rightarrow> Conversation list \<Rightarrow> ExtendedVehicle \<Rightarrow> ExtendedVehicle" where
  "evFinish render fault conversations ev =
     (let msg = conversationMessage conversations;
          ev = persistLog msg (Mp_Log kInfo msg ev);
          ev = ev\<lparr> mSkeleton := map_option (\<lambda>sk. fst (Vss_StopOfferService sk)) (mSkeleton ev) \<rparr>;
          ev = persistLog terminatedMessage (Mp_Log kInfo terminatedMessage ev)
      in syncJournal render fault ev)"

section \<open>The main function\<close>

definition evStoragePath :: "bool \<Rightarrow> string" where
  "evStoragePath preferred = storageDirectory preferred @ ''/extended_vehicle.json''"

text \<open>Runtime errors inside \<open>try\<close> are logged and end the application with the exit code 1.\<close>

definition evCatch :: "EvEnvironment \<Rightarrow> exn \<Rightarrow> ExtendedVehicle \<Rightarrow> int res \<times> ExtendedVehicle" where
  "evCatch env e ev = (if e = Runtime_error then (Inr 1, Mp_Log kError (evWhat env e) ev) else (Inl e, ev))"

definition evMain ::
    "EvEnvironment \<Rightarrow> (bytes \<Rightarrow> JsonDocument option) \<Rightarrow> ((string \<times> JsonValue) list \<Rightarrow> bytes) \<Rightarrow> bool \<Rightarrow> arguments \<Rightarrow>
     (nat \<Rightarrow> bool) \<Rightarrow> (nat \<Rightarrow> VehicleStatusSkeleton \<Rightarrow> VehicleStatusSkeleton) \<Rightarrow> Conversation list \<Rightarrow> IoFault \<Rightarrow>
     ExtendedVehicle \<Rightarrow> (int res \<times> ExtendedVehicle) option" where
  "evMain env parse render preferred arguments cancelled meanwhile conversations fault ev =
     (case arguments cEvConfigArgument of
        None \<Rightarrow> Some (Inl Out_of_range, ev)
      | Some configFilepath \<Rightarrow>
          (case ArxmlReader_file (evXml env) configFilepath of
             Inl e \<Rightarrow> Some (Inl e, ev)
           | Inr reader \<Rightarrow>
               (case evConfigure env arguments configFilepath reader (openStorage parse (evStoragePath preferred) ev) of
                  (Inl e, ev) \<Rightarrow> Some (evCatch env e ev)
                | (Inr _, ev) \<Rightarrow>
                    (case evLoop cancelled meanwhile 0 ev of
                       None \<Rightarrow> None
                     | Some (Inl e, ev) \<Rightarrow> Some (evCatch env e ev)
                     | Some (Inr _, ev) \<Rightarrow> Some (Inr 0, evFinish render fault conversations ev)))))"

section \<open>What a run does\<close>

lemma ev_journal_fields [simp]:
  "journalHolds old es (ev\<lparr> evSupervisedEntity := a \<rparr>) = journalHolds old es ev"
  "journalHolds old es (ev\<lparr> mSkeleton := b \<rparr>) = journalHolds old es ev"
  "journalHolds old es (ev\<lparr> mCurl := c \<rparr>) = journalHolds old es ev"
  "journalHolds old es (ev\<lparr> mDoipServer := d \<rparr>) = journalHolds old es ev"
  "journalHolds old es (ev\<lparr> mResourcesUrl := e \<rparr>) = journalHolds old es ev"
  "journalHolds old es (ev\<lparr> evVin := e \<rparr>) = journalHolds old es ev"
  "journalHolds old es (ev\<lparr> evConfigured := f \<rparr>) = journalHolds old es ev"
  "journalHolds old es (ev\<lparr> evHeartbeatCounter := g \<rparr>) = journalHolds old es ev"
  by (simp_all add: journalHolds_def)

lemma ev_journal_keeps [simp]:
  "evSupervisedEntity (Mp_Log l m ev) = evSupervisedEntity ev" "mSkeleton (Mp_Log l m ev) = mSkeleton ev"
  "evVin (Mp_Log l m ev) = evVin ev" "evConfigured (Mp_Log l m ev) = evConfigured ev"
  "evHeartbeatCounter (Mp_Log l m ev) = evHeartbeatCounter ev"
  "evSupervisedEntity (persistLog m ev) = evSupervisedEntity ev" "mSkeleton (persistLog m ev) = mSkeleton ev"
  "evVin (persistLog m ev) = evVin ev" "evConfigured (persistLog m ev) = evConfigured ev"
  "evHeartbeatCounter (persistLog m ev) = evHeartbeatCounter ev"
  "evSupervisedEntity (syncJournal r f ev) = evSupervisedEntity ev" "mSkeleton (syncJournal r f ev) = mSkeleton ev"
  "evSupervisedEntity (openStorage parse path ev) = evSupervisedEntity ev"
  by (auto simp: Mp_Log_def persistLog_def syncJournal_def openStorage_def Let_def split: option.splits sum.splits)

text \<open>The rounds from \<open>i\<close> to before \<open>n\<close>.\<close>

definition evRounds ::
    "(nat \<Rightarrow> VehicleStatusSkeleton \<Rightarrow> VehicleStatusSkeleton) \<Rightarrow> nat \<Rightarrow> nat \<Rightarrow> ExtendedVehicle \<Rightarrow> ExtendedVehicle" where
  "evRounds meanwhile i n ev = fold (\<lambda>k ev. snd (evCycle (meanwhile k) ev)) [i..<n] ev"

lemma evCycle_runs: "fst (evCycle m ev) = Inr True"
  by (simp add: evCycle_def Let_def)

lemma evLoop_cancelled:
  assumes "cancelled n" "i \<le> n" "\<forall>k. i \<le> k \<and> k < n \<longrightarrow> \<not> cancelled k"
  shows "evLoop cancelled meanwhile i ev = Some (Inr (), evRounds meanwhile i n ev)"
  using assms(2,3)
proof (induction "n - i" arbitrary: i ev)
  case 0
  then show ?case using assms(1) by (subst evLoop.simps) (simp add: evRounds_def)
next
  case (Suc m)
  then have i: "i < n" "\<not> cancelled i" by auto
  obtain ev' where c: "evCycle (meanwhile i) ev = (Inr True, ev')"
    using evCycle_runs [of "meanwhile i" ev] by (metis prod.collapse)
  have "evLoop cancelled meanwhile (i + 1) ev' = Some (Inr (), evRounds meanwhile (i + 1) n ev')"
    using Suc by simp
  moreover have "evRounds meanwhile i n ev = evRounds meanwhile (i + 1) n ev'"
    using i(1) c by (simp add: evRounds_def upt_conv_Cons)
  ultimately show ?case using i(2) c by (subst evLoop.simps) simp
qed

text \<open>What becomes of the skeleton in \<open>n\<close> rounds: the other threads, and a status every hundred rounds.\<close>

primrec skeletonAfter ::
    "(nat \<Rightarrow> VehicleStatusSkeleton \<Rightarrow> VehicleStatusSkeleton) \<Rightarrow> VehicleStatusData \<Rightarrow> nat \<Rightarrow>
     VehicleStatusSkeleton \<Rightarrow> VehicleStatusSkeleton" where
  "skeletonAfter meanwhile data 0 sk = sk"
| "skeletonAfter meanwhile data (Suc n) sk =
     (let sk = meanwhile n (skeletonAfter meanwhile data n sk)
      in if Suc n mod 100 = 0 then VehicleStatus_Send data sk else sk)"

definition evAfter ::
    "(string \<rightharpoonup> JsonValue) \<Rightarrow> string list \<Rightarrow> string \<Rightarrow> bool \<Rightarrow> (nat \<Rightarrow> VehicleStatusSkeleton \<Rightarrow> VehicleStatusSkeleton) \<Rightarrow>
     nat \<Rightarrow> ExtendedVehicle \<Rightarrow> ExtendedVehicle \<Rightarrow> bool" where
  "evAfter old es vin configured meanwhile n ev ev' \<longleftrightarrow>
     journalHolds old (es @ replicate (n div 100) (heartbeatMessage vin configured)) ev' \<and>
     unat (evHeartbeatCounter ev') = n \<and> evVin ev' = vin \<and> evConfigured ev' = configured \<and>
     evSupervisedEntity ev' = fold ReportCheckpoint (concat (replicate n [AliveCheckpoint, DeadlineSourceCheckpoint,
       DeadlineTargetCheckpoint])) (evSupervisedEntity ev) \<and>
     mSkeleton ev' = map_option (skeletonAfter meanwhile (evStatus vin configured) n) (mSkeleton ev)"

lemma replicate_snoc: "replicate (Suc n) x = replicate n x @ [x]"
  by (induction n) simp_all

lemma evAfter_Suc:
  assumes "evAfter old es vin configured meanwhile n ev ev1" "Suc n < 2 ^ 32" "length es + Suc n div 100 + 1 < 2 ^ 32"
  shows "evAfter old es vin configured meanwhile (Suc n) ev (snd (evCycle (meanwhile n) ev1))"
proof -
  let ?hb = "heartbeatMessage vin configured"
  let ?ev = "(evReport DeadlineTargetCheckpoint ((evReport DeadlineSourceCheckpoint (evReport AliveCheckpoint ev1))
      \<lparr> mSkeleton := map_option (meanwhile n) (mSkeleton ev1) \<rparr>))\<lparr> evHeartbeatCounter := evHeartbeatCounter ev1 + 1 \<rparr>"
  have f: "mSkeleton (evReport c e) = mSkeleton e" "evVin (evReport c e) = evVin e"
    "evConfigured (evReport c e) = evConfigured e" "evHeartbeatCounter (evReport c e) = evHeartbeatCounter e" "journalHolds old xs (evReport c e) = journalHolds old xs e" for c e xs
    by (simp_all add: evReport_def)
  have c: "unat (evHeartbeatCounter ev1 + 1) = Suc n"
    using assms(1,2) by (simp add: evAfter_def unat_word_ariths)
  have z: "(evHeartbeatCounter ev1 + 1) mod 100 = 0 \<longleftrightarrow> Suc n mod 100 = 0"
    using c by (simp add: word_unat_eq_iff unat_mod_distrib)
  have r: "evSupervisedEntity ?ev = fold ReportCheckpoint (concat (replicate (Suc n) [AliveCheckpoint,
      DeadlineSourceCheckpoint, DeadlineTargetCheckpoint])) (evSupervisedEntity ev)"
    using assms(1) by (simp add: evAfter_def evReport_def replicate_snoc del: replicate.simps)
  have e: "snd (evCycle (meanwhile n) ev1) = (if Suc n mod 100 = 0 then evHeartbeat ?ev else ?ev)"
    using z by (simp add: evCycle_def Let_def f)
  have d: "Suc n div 100 = (if Suc n mod 100 = 0 then Suc (n div 100) else n div 100)"
    by (rule div_Suc)
  have j: "journalHolds old (es @ replicate (n div 100) ?hb) ?ev" using assms(1) by (simp add: evAfter_def f)
  have v: "unat (evHeartbeatCounter ?ev) = Suc n" "evVin ?ev = vin" "evConfigured ?ev = configured"
    using assms(1) c by (simp_all add: evAfter_def f)
  have sk: "mSkeleton ?ev = map_option (\<lambda>sk. meanwhile n (skeletonAfter meanwhile (evStatus vin configured) n sk)) (mSkeleton ev)"
    using assms(1) by (simp add: evAfter_def f option.map_comp o_def)
  show ?thesis
  proof (cases "Suc n mod 100 = 0")
    case False
    have "mSkeleton ?ev = map_option (skeletonAfter meanwhile (evStatus vin configured) (Suc n)) (mSkeleton ev)"
      unfolding sk using False by (cases "mSkeleton ev") (simp_all add: Let_def)
    then show ?thesis using j v r d False by (simp only: e evAfter_def if_False simp_thms)
  next
    case True
    have "journalHolds old ((es @ replicate (n div 100) ?hb) @ [?hb]) (persistLog ?hb (Mp_Log kInfo ?hb ?ev))"
      by (rule persistLog_holds) (use j assms(3) d True in simp_all)
    then have "journalHolds old (es @ replicate (Suc n div 100) ?hb) (evHeartbeat ?ev)"
      using d True v by (simp add: evHeartbeat_def Let_def replicate_snoc f del: replicate.simps)
    moreover have "mSkeleton (evHeartbeat ?ev) =
        map_option (skeletonAfter meanwhile (evStatus vin configured) (Suc n)) (mSkeleton ev)"
      using True sk v by (cases "mSkeleton ev") (simp_all add: evHeartbeat_def Let_def)
    moreover have "evHeartbeatCounter (evHeartbeat ?ev) = evHeartbeatCounter ?ev" "evVin (evHeartbeat ?ev) = evVin ?ev"
      "evConfigured (evHeartbeat ?ev) = evConfigured ?ev" "evSupervisedEntity (evHeartbeat ?ev) = evSupervisedEntity ?ev"
      by (simp_all add: evHeartbeat_def Let_def)
    ultimately show ?thesis using v r True by (simp only: e evAfter_def if_True simp_thms)
  qed
qed

lemma evRounds_after:
  assumes "journalHolds old es ev" "evHeartbeatCounter ev = 0" "n < 2 ^ 32" "length es + n div 100 + 1 < 2 ^ 32"
  shows "evAfter old es (evVin ev) (evConfigured ev) meanwhile n ev (evRounds meanwhile 0 n ev)"
  using assms(3,4)
proof (induction n)
  case 0
  then show ?case using assms(1,2) by (cases "mSkeleton ev") (simp_all add: evAfter_def evRounds_def)
next
  case (Suc n)
  have "n div 100 \<le> Suc n div 100" by (rule div_le_mono) simp
  then have "evAfter old es (evVin ev) (evConfigured ev) meanwhile n ev (evRounds meanwhile 0 n ev)" using Suc by simp
  from evAfter_Suc [OF this Suc.prems] show ?case by (simp add: evRounds_def)
qed

lemma evConfigure_state:
  assumes "evConfigure env arguments configFilepath reader ev = (Inr (), ev')" "journalHolds old [] ev"
  shows "journalHolds old [initializedMessage] ev' \<and> evHeartbeatCounter ev' = 0 \<and> evVin ev' = movedFrom env \<and>
    evConfigured ev' \<and> evSupervisedEntity ev' = evSupervisedEntity ev \<and>
    jStoragePath ev' = jStoragePath ev \<and> (\<exists>sk. mSkeleton ev' = Some sk)"
proof -
  obtain sk where sk: "Vss_configureFromManifest (evXml env) (sdSocketOk env) (eventSocketOk env) (evUninitialised env)
      configFilepath = Inr sk"
    using assms(1) by (cases "Vss_configureFromManifest (evXml env) (sdSocketOk env) (eventSocketOk env) (evUninitialised env)
      configFilepath") (simp_all add: evConfigure_def)
  let ?ev = "persistLog initializedMessage (Mp_Log kInfo initializedMessage (ev\<lparr> mSkeleton := Some sk, evVin := [] \<rparr>))"
  obtain a b where ab: "arguments cApiKeyArgument = Some a" "arguments cBearerTokenArgument = Some b"
    using assms(1) by (cases "arguments cApiKeyArgument"; cases "arguments cBearerTokenArgument") (simp_all add: evConfigure_def sk Let_def)
  have s: "curlStarts env" "doipListens env" "\<exists>nc. getNetworkConfiguration (evXml env) reader = Inr nc"
    using assms(1) by (auto simp: evConfigure_def sk ab Let_def tryConfigureRestCommunication_def configureDoipServer_def
        split: if_splits sum.splits)
  then obtain nc where nc: "getNetworkConfiguration (evXml env) reader = Inr nc" by blast
  have "journalHolds old [] (Mp_Log kInfo initializedMessage (ev\<lparr> mSkeleton := Some sk, evVin := [] \<rparr>))"
    using assms(2) by simp
  from persistLog_holds [OF this] have h: "journalHolds old [initializedMessage] ?ev" by simp
  obtain sk' where o: "Vss_OfferService sk = Inr sk'"
    using assms(1) s by (cases "Vss_OfferService sk")
      (simp_all add: evConfigure_def sk ab nc Let_def tryConfigureRestCommunication_def configureDoipServer_def offerSkeleton_def)
  show ?thesis
    using assms(1) s h o
    by (auto simp: evConfigure_def sk ab nc Let_def tryConfigureRestCommunication_def configureDoipServer_def offerSkeleton_def)
qed

text \<open>C12: a run of the extended vehicle that is configured and cancelled before cycle \<open>n\<close> ends with exit code 0. It
  has reported the three checkpoints of every cycle in order, published a status every hundred cycles, with the text
  its VIN was left with when it was moved into the DoIP server, withdrawn its service, and its storage holds the
  initialisation, a heartbeat every hundred cycles and the two messages of the termination.\<close>

theorem extended_vehicle_run:
  assumes "arguments cEvConfigArgument = Some path" "ArxmlReader_file (evXml env) path = Inr reader"
    and "KeyValueStorage_Open parse (evStoragePath preferred) fs = Inr kvs"
    and "evConfigure env arguments path reader
      (openStorage parse (evStoragePath preferred) (newExtendedVehicle communicator fs)) = (Inr (), ev)"
    and "cancelled n" "\<forall>k < n. \<not> cancelled k" "n < 2 ^ 32"
  shows "\<exists>ev' kvs' sk. evMain env parse render preferred arguments cancelled meanwhile conversations fault
        (newExtendedVehicle communicator fs) = Some (Inr 0, ev') \<and>
    evSupervisedEntity ev' = fold ReportCheckpoint (concat (replicate n [0, 1, 2])) communicator \<and>
    mSkeleton ev = Some sk \<and>
    mSkeleton ev' = Some (fst (Vss_StopOfferService (skeletonAfter meanwhile (evStatus (movedFrom env) True) n sk))) \<and>
    mStorage ev' = Some kvs' \<and>
    map_of (mRoot kvs') = map_of (mRoot kvs) ++
      entryMap (initializedMessage # replicate (n div 100) (heartbeatMessage (movedFrom env) True) @
        [conversationMessage conversations, terminatedMessage])"
proof -
  let ?ev0 = "openStorage parse (evStoragePath preferred) (newExtendedVehicle communicator fs)"
  let ?hbs = "initializedMessage # replicate (n div 100) (heartbeatMessage (movedFrom env) True)"
  have "journalHolds (map_of (mRoot kvs)) [] ?ev0"
    by (rule openStorage_holds) (use assms(3) in \<open>simp_all add: newExtendedVehicle_def\<close>)
  from evConfigure_state [OF assms(4) this]
  have c: "journalHolds (map_of (mRoot kvs)) [initializedMessage] ev" "evHeartbeatCounter ev = 0" "evVin ev = movedFrom env"
    "evConfigured ev" "evSupervisedEntity ev = communicator" "\<exists>sk. mSkeleton ev = Some sk"
    by (simp_all add: newExtendedVehicle_def)
  then obtain sk where sk: "mSkeleton ev = Some sk" by blast
  let ?ev1 = "evRounds meanwhile 0 n ev"
  have small: "n div 100 + 3 < 2 ^ 32" using div_le_dividend [of n 100] assms(7) by simp
  then have a: "evAfter (map_of (mRoot kvs)) [initializedMessage] (movedFrom env) True meanwhile n ev ?ev1"
    using evRounds_after [OF c(1,2) assms(7), of meanwhile] c(3,4) by simp
  let ?cm = "conversationMessage conversations"
  let ?ev2 = "(persistLog ?cm (Mp_Log kInfo ?cm ?ev1))\<lparr> mSkeleton := map_option (\<lambda>sk. fst (Vss_StopOfferService sk)) (mSkeleton ?ev1) \<rparr>"
  have "journalHolds (map_of (mRoot kvs)) (?hbs @ [?cm]) (persistLog ?cm (Mp_Log kInfo ?cm ?ev1))"
    by (rule persistLog_holds) (use a small in \<open>simp_all add: evAfter_def\<close>)
  then have "journalHolds (map_of (mRoot kvs)) ((?hbs @ [?cm]) @ [terminatedMessage])
      (persistLog terminatedMessage (Mp_Log kInfo terminatedMessage ?ev2))"
    by (intro persistLog_holds) (use small in simp_all)
  then have j: "journalHolds (map_of (mRoot kvs)) (?hbs @ [?cm, terminatedMessage]) (evFinish render fault conversations ?ev1)"
    by (simp add: evFinish_def Let_def)
  have m: "evMain env parse render preferred arguments cancelled meanwhile conversations fault (newExtendedVehicle communicator fs) =
      Some (Inr 0, evFinish render fault conversations ?ev1)"
    using evLoop_cancelled [of cancelled n 0 meanwhile ev] assms(5,6) by (simp add: evMain_def assms(1,2,4))
  show ?thesis
    using m j a sk c(5) by (auto simp: journalHolds_def evAfter_def evFinish_def Let_def AliveCheckpoint_def
        DeadlineSourceCheckpoint_def DeadlineTargetCheckpoint_def)
qed

definition vehicleEndpoint :: XmlNode where
  "vehicleEndpoint = XmlElement ''NETWORK-ENDPOINT'' []
     [textElement ''SHORT-NAME'' ''ExtendedVehicleEP'',
      foldr (\<lambda>name node. XmlElement name [] [node]) [''NETWORK-ENDPOINT-ADDRESSES'', ''IPV-4-CONFIGURATION'']
        (textElement ''IPV-4-ADDRESS'' ''127.0.0.1'')]"

definition vehicleApplicationEndpoint :: XmlNode where
  "vehicleApplicationEndpoint = XmlElement ''AP-APPLICATION-ENDPOINT'' []
     [textElement ''SHORT-NAME'' ''ServerUnicastTcp'',
      foldr (\<lambda>name node. XmlElement name [] [node]) [''TP-CONFIGURATION'', ''TCP-TP'', ''TCP-TP-PORT'']
        (textElement ''PORT-NUMBER'' ''8081'')]"

definition vehicleDocument :: "XmlNode list" where
  "vehicleDocument = [foldr (\<lambda>name node. XmlElement name [] [node]) [''AUTOSAR'', ''AR-PACKAGES'', ''AR-PACKAGE'']
     (XmlElement ''ELEMENTS'' []
       [foldr (\<lambda>name node. XmlElement name [] [node])
          [''COMMUNICATION-CLUSTER'', ''ETHERNET-PHYSICAL-CHANNEL'', ''NETWORK-ENDPOINTS''] vehicleEndpoint,
        foldr (\<lambda>name node. XmlElement name [] [node])
          [''ETHERNET-COMMUNICATION-CONNECTOR'', ''AP-APPLICATION-ENDPOINTS''] vehicleApplicationEndpoint,
        XmlElement ''PROVIDED-SOMEIP-SERVICE-INSTANCE'' []
          [textElement ''SERVICE-INSTANCE-ID'' ''1'',
           foldr (\<lambda>name node. XmlElement name [] [node]) [''PROVIDED-EVENT-GROUPS'', ''SOMEIP-PROVIDED-EVENT-GROUP'']
             (textElement ''IPV-4-MULTICAST-IP-ADDRESS'' ''239.0.0.1'')]])]"

definition vehicleEnvironment :: EvEnvironment where
  "vehicleEnvironment =
     \<lparr> evXml = instanceLib vehicleDocument [vehicleEndpoint, vehicleApplicationEndpoint], sdSocketOk = True,
       eventSocketOk = True, doipListens = True, curlStarts = True, evUninitialised = 0, evWhat = (\<lambda>_. []), movedFrom = [] \<rparr>"

definition vehicleArguments :: arguments where
  "vehicleArguments = [cEvConfigArgument \<mapsto> ''m'', cApiKeyArgument \<mapsto> [], cBearerTokenArgument \<mapsto> []]"

definition configuredVehicle :: "unit res \<times> ExtendedVehicle" where
  "configuredVehicle = evConfigure vehicleEnvironment vehicleArguments ''m'' (xmlDocument vehicleDocument)
     (openStorage (\<lambda>_. None) (evStoragePath True) (newExtendedVehicle newFifoCheckpointCommunicator Map.empty))"

lemma configuredVehicle_ok: "fst configuredVehicle = Inr ()"
  by code_simp

theorem extended_vehicle_run_witness:
  "\<exists>ev' kvs'. evMain vehicleEnvironment (\<lambda>_. None) (\<lambda>_. []) True vehicleArguments (\<lambda>k. k = 200) (\<lambda>_ sk. sk) [] NoFault
      (newExtendedVehicle newFifoCheckpointCommunicator Map.empty) = Some (Inr 0, ev') \<and>
    mStorage ev' = Some kvs' \<and>
    map_of (mRoot kvs') (to_string 2) = Some (JString ''[Heartbeat] ExtendedVehicle alive | VIN=DEMO | SD server active'')"
proof -
  have r: "ArxmlReader_file (evXml vehicleEnvironment) ''m'' = Inr (xmlDocument vehicleDocument)" by code_simp
  have o: "KeyValueStorage_Open (\<lambda>_. None) (evStoragePath True) Map.empty =
      Inr \<lparr> mStoragePath = evStoragePath True, mRoot = [] \<rparr>"
    by (simp add: KeyValueStorage_Open_def)
  have c: "evConfigure vehicleEnvironment vehicleArguments ''m'' (xmlDocument vehicleDocument)
      (openStorage (\<lambda>_. None) (evStoragePath True) (newExtendedVehicle newFifoCheckpointCommunicator Map.empty)) =
      (Inr (), snd configuredVehicle)"
    using configuredVehicle_ok by (simp add: configuredVehicle_def prod_eq_iff)
  have a: "vehicleArguments cEvConfigArgument = Some ''m''" by code_simp
  let ?es = "initializedMessage # replicate 2 (heartbeatMessage (movedFrom vehicleEnvironment) True) @
      [conversationMessage [], terminatedMessage]"
  obtain ev' kvs' where w: "evMain vehicleEnvironment (\<lambda>_. None) (\<lambda>_. []) True vehicleArguments (\<lambda>k. k = 200) (\<lambda>_ sk. sk) [] NoFault
      (newExtendedVehicle newFifoCheckpointCommunicator Map.empty) = Some (Inr 0, ev')" "mStorage ev' = Some kvs'"
      "map_of (mRoot kvs') = entryMap ?es"
    using extended_vehicle_run [OF a r o c, of "\<lambda>k. k = 200" 200 "\<lambda>_. []" "\<lambda>_ sk. sk" "[]" NoFault]
    by (auto simp del: replicate.simps)
  have "entryMap ?es (to_string 2) = Some (JString (?es ! 2))" by (rule entryMap_nth) simp
  also have "?es ! 2 = ''[Heartbeat] ExtendedVehicle alive | VIN=DEMO | SD server active''" by code_simp
  finally show ?thesis using w by auto
qed

end
