(* ===== verification/DiagManager.thy ===== *)
theory DiagManager
  imports SdClient SdNetwork DiagEvents Doip Log Arxml Deterministic
begin

text \<open>
  \<open>application/platform/diagnostic_manager.cpp\<close>: the application that looks for the telematic control module by service
  discovery, debounces what it finds into a diagnostic event and bridges on-board diagnostics to it. The main loop, the
  threads of service discovery and the thread of the debouncer are the steps of \<open>dmStep\<close>. The event and the monitor's
  pointer to it are one object, which is kept with the monitor. The emulator of the vehicle bus is given from outside:
  it runs or fails to start.
\<close>

section \<open>State and configuration\<close>

text \<open>A converter: the endpoint it is connected to, and its client.\<close>

type_synonym Converter = "string \<times> u16 \<times> DoipClient"

text \<open>\<open>dmAbandoned\<close>: converters whose emulator runs and that no pointer refers to any more.\<close>

record DiagnosticManager =
  dmNetworkLayer :: "unit SdNetworkLayer option"
  dmSdClient :: "SdClient option"
  mLastSdState :: SdClientState
  mEventSpecifier :: string
  mMonitorSpecifier :: string
  dmMonitor :: "(TimeBased \<times> TimerBasedDebouncer Monitor) option"
  mObdToDoipConverter :: "Converter option"
  mObdEmulator :: bool
  dmAbandoned :: "Converter list"
  dmHeartbeatCounter :: u32
  dmLog :: "(LogLevel \<times> string) list"

definition newDiagnosticManager :: DiagnosticManager where
  "newDiagnosticManager =
     \<lparr> dmNetworkLayer = None, dmSdClient = None, mLastSdState = ServiceNotSeen, mEventSpecifier = [], mMonitorSpecifier = [],
       dmMonitor = None, mObdToDoipConverter = None, mObdEmulator = False, dmAbandoned = [], dmHeartbeatCounter = 0, dmLog = [] \<rparr>"

definition dmLogText :: "LogLevel \<Rightarrow> string \<Rightarrow> DiagnosticManager \<Rightarrow> DiagnosticManager" where
  "dmLogText level text dm = dm\<lparr> dmLog := dmLog dm @ [(level, text)] \<rparr>"

definition configureNetworkLayer :: "XmlLib \<Rightarrow> bool \<Rightarrow> ArxmlReader \<Rightarrow> DiagnosticManager \<Rightarrow> DiagnosticManager res" where
  "configureNetworkLayer lib socketSetup reader dm =
     bindR (TryGetNetworkConfiguration lib reader ''DiagnosticManagerEP'' ''MulticastUdp'' Udp \<lparr> ipAddress = [], portNumber = 0 \<rparr>)
       (\<lambda>(successful, networkConfiguration).
          if successful
          then bindR (newSdNetworkLayer socketSetup (ipAddress networkConfiguration) (portNumber networkConfiguration) [])
                 (\<lambda>layer. Inr (dm\<lparr> dmNetworkLayer := Some layer \<rparr>))
          else Inl Runtime_error)"

text \<open>The delays of the client are not part of its model; the repetitions are three by default.\<close>

definition configureSdClient :: "bool \<Rightarrow> ArxmlReader \<Rightarrow> DiagnosticManager \<Rightarrow> DiagnosticManager res" where
  "configureSdClient anyFlag reader dm =
     (let serviceId = Arxml_GetValue (GetRootNode (cElementsPath @
            [''REQUIRED-SOMEIP-SERVICE-INSTANCE'', ''SERVICE-INTERFACE-DEPLOYMENT'', ''SERVICE-INTERFACE-ID'']) reader)
      in bindR (newSdClient anyFlag serviceId 3) (\<lambda>c. Inr (dm\<lparr> dmSdClient := Some c \<rparr>)))"

definition cEventPath :: "string list" where
  "cEventPath = cElementsPath @ [''DIAGNOSTIC-EVENT-INTERFACE'']"

definition cMonitorPath :: "string list" where
  "cMonitorPath = cElementsPath @ [''DIAGNOSTIC-MONITOR-INTERFACE'']"

definition configureEvent :: "ArxmlReader \<Rightarrow> string \<times> Event" where
  "configureEvent reader =
     (GetShortName (GetRootNode cEventPath reader),
      (SetDTCNumber (Arxml_GetValue (GetRootNode (cEventPath @ [''DTC-NUMBER'']) reader)) newEvent)\<lparr> mEventNotifier := True \<rparr>)"

fun reasonCode :: "InitMonitorReason \<Rightarrow> nat" where
  "reasonCode kClear = 0"
| "reasonCode kRestart = 1"
| "reasonCode kReenabled = 2"
| "reasonCode kDisabled = 3"

definition onInitMonitor :: "InitMonitorReason \<Rightarrow> DiagnosticManager \<Rightarrow> DiagnosticManager" where
  "onInitMonitor reason dm =
     dmLogText kInfo
       (case reason of
          kReenabled \<Rightarrow> mMonitorSpecifier dm @ '' is offered.''
        | kDisabled \<Rightarrow> mMonitorSpecifier dm @ '' offer is stopped.''
        | _ \<Rightarrow> mMonitorSpecifier dm @ [CHR 0x27] @ ''s reason is '' @ to_string (reasonCode reason)) dm"

text \<open>The callbacks of the monitor between two of its states.\<close>

definition initCallbacks :: "'d Monitor \<Rightarrow> 'd Monitor \<Rightarrow> DiagnosticManager \<Rightarrow> DiagnosticManager" where
  "initCallbacks m m' dm = fold onInitMonitor (drop (length (initCalls m)) (initCalls m')) dm"

text \<open>\<open>anyPassing\<close>: the uninitialised direction of the debouncer.\<close>

definition configureMonitor :: "bool \<Rightarrow> ArxmlReader \<Rightarrow> Event \<Rightarrow> DiagnosticManager \<Rightarrow> DiagnosticManager" where
  "configureMonitor anyPassing reader ev dm =
     (let thresholds = (\<lambda>name. Arxml_GetValue (GetRootNode (cMonitorPath @ [''DIAG-EVENT-DEBOUNCE-TIME-BASED'', name]) reader));
          timeBased = \<lparr> passedMs = thresholds ''TIME-PASSED-THRESHOLD'', failedMs = thresholds ''TIME-FAILED-THRESHOLD'' \<rparr>;
          dm = dm\<lparr> mMonitorSpecifier := GetShortName (GetRootNode cMonitorPath reader) \<rparr>;
          m = AttachEvent ev (newMonitor True (newTimerBasedDebouncer anyPassing));
          m' = snd (Monitor_Offer m)
      in initCallbacks m m' (dm\<lparr> dmMonitor := Some (timeBased, m') \<rparr>))"

section \<open>Callbacks and the loop\<close>

definition startConverter :: "DoipLib \<Rightarrow> bool \<Rightarrow> string \<times> u16 \<Rightarrow> Converter res" where
  "startConverter lib connects endpoint =
     (if connects then bindR (newDoipClient lib 2) (\<lambda>client. Inr (fst endpoint, snd endpoint, client)) else Inl Runtime_error)"

definition discoveredText :: string where
  "discoveredText = ''Telematic Control Module (Extended Vehicle AA) is discovered.''"

definition startFailedText :: string where
  "startFailedText = ''Starting OBD-II emulator failed (no CAN hardware). Running without OBD-II bridge.''"

text \<open>
  \<open>connects\<close>: the DoIP client reaches the endpoint; \<open>starts\<close>: the emulator starts. The pointers are overwritten
  without a look at what they point to.
\<close>

definition bridgeService :: "DoipLib \<Rightarrow> bool \<Rightarrow> bool \<Rightarrow> DiagnosticManager \<Rightarrow> unit res \<times> DiagnosticManager" where
  "bridgeService lib connects starts dm =
     (let dm = dmLogText kInfo discoveredText dm in
      case dmSdClient dm of
        None \<Rightarrow> (Inl Undefined, dm)
      | Some c \<Rightarrow>
          (case TryGetOfferedEndpoint c of
             Inl e \<Rightarrow> (Inl e, dm)
           | Inr None \<Rightarrow> (Inl Runtime_error, dm)
           | Inr (Some endpoint) \<Rightarrow>
               (case startConverter lib connects endpoint of
                  Inl e \<Rightarrow> (Inl e, dm)
                | Inr converter \<Rightarrow>
                    (let dm = dm\<lparr> dmAbandoned := dmAbandoned dm @
                            (case mObdToDoipConverter dm of Some old \<Rightarrow> [old] | None \<Rightarrow> []),
                          mObdToDoipConverter := Some converter, mObdEmulator := True \<rparr>
                     in (Inr (),
                         if starts then dm
                         else (dmLogText kInfo startFailedText dm)\<lparr> mObdToDoipConverter := None, mObdEmulator := False \<rparr>)))))"

definition dmOnEventStatusChanged ::
    "DoipLib \<Rightarrow> bool \<Rightarrow> bool \<Rightarrow> Event \<Rightarrow> DiagnosticManager \<Rightarrow> unit res \<times> DiagnosticManager" where
  "dmOnEventStatusChanged lib connects starts ev dm =
     (case GetDebouncingStatus ev of
        kFinallyHealed \<Rightarrow> bridgeService lib connects starts dm
      | kFinallyDefective \<Rightarrow>
          (case GetDTCNumber ev kDTCFormatUDS of
             Inl e \<Rightarrow> (Inl e, dm)
           | Inr dtc \<Rightarrow> (Inr (), dmLogText kError (mEventSpecifier dm @ '' is failed with DTC '' @ to_string (unat dtc)) dm))
      | _ \<Rightarrow> (Inr (), dm))"

text \<open>The state as \<open>GetState\<close> reports it: the repetitions are one state.\<close>

fun reportedState :: "SdClientState \<Rightarrow> SdClientState" where
  "reportedState (ClientRepetition i) = ClientRepetition 0"
| "reportedState s = s"

definition offering :: "SdClientState \<Rightarrow> bool" where
  "offering s \<longleftrightarrow> s = ServiceReady \<or> s = ServiceSeen"

text \<open>Without an offered endpoint the address stays empty and the port zero.\<close>

definition endpointText :: "(string \<times> u16) option \<Rightarrow> string" where
  "endpointText endpoint =
     (case endpoint of Some (ip, port) \<Rightarrow> ip @ '':'' @ to_string (unat port) | None \<Rightarrow> '':0'')"

definition reportSdState :: "SdClient \<Rightarrow> DiagnosticManager \<Rightarrow> unit res \<times> DiagnosticManager" where
  "reportSdState c dm =
     (let state = reportedState (scState c) in
      if state = mLastSdState dm then (Inr (), dm)
      else if offering state
      then (case TryGetOfferedEndpoint c of
              Inl e \<Rightarrow> (Inl e, dm)
            | Inr endpoint \<Rightarrow>
                (Inr (), (dmLogText kInfo (''[SD-Client] Service 5 discovered at '' @ endpointText endpoint) dm)
                   \<lparr> mLastSdState := state \<rparr>))
      else if state = ServiceNotSeen
      then (Inr (), (dmLogText kInfo ''[SD-Client] Service 5 lost (not seen)'' dm)\<lparr> mLastSdState := state \<rparr>)
      else (Inr (), dm\<lparr> mLastSdState := state \<rparr>))"

text \<open>A preliminary report calls nobody back (\<open>prereport_silent\<close>), so that only the monitor changes.\<close>

definition checkServiceDiscovery :: "u32 \<Rightarrow> DiagnosticManager \<Rightarrow> unit res \<times> DiagnosticManager" where
  "checkServiceDiscovery measured dm =
     (case (dmSdClient dm, dmMonitor dm) of
        (Some c, Some (t, m)) \<Rightarrow>
          (case reportSdState c dm of
             (Inl e, dm) \<Rightarrow> (Inl e, dm)
           | (Inr _, dm) \<Rightarrow>
               (let state = reportedState (scState c);
                    report = (\<lambda>action. case ReportMonitorAction (timerCall t measured) action m of
                       (r, m) \<Rightarrow> (r, dm\<lparr> dmMonitor := Some (t, m) \<rparr>))
                in if offering state then report kPrepassed
                   else if state = Stopped \<or> state = ServiceNotSeen then report kPrefailed
                   else (Inr (), dm)))
      | _ \<Rightarrow> (Inl Undefined, dm))"

definition dmHeartbeat :: "DiagnosticManager \<Rightarrow> unit res \<times> DiagnosticManager" where
  "dmHeartbeat dm =
     (case dmSdClient dm of
        None \<Rightarrow> (Inl Undefined, dm)
      | Some c \<Rightarrow>
          (let text = ''[Heartbeat] DiagnosticManager alive | SD state: '' in
           if scState c = ServiceReady
           then (case TryGetOfferedEndpoint c of
                   Inl e \<Rightarrow> (Inl e, dm)
                 | Inr endpoint \<Rightarrow> (Inr (), dmLogText kInfo (text @ ''ServiceReady endpoint '' @ endpointText endpoint) dm))
           else if scState c = ServiceSeen then (Inr (), dmLogText kInfo (text @ ''ServiceSeen'') dm)
           else (Inr (), dmLogText kInfo (text @ ''ServiceNotSeen'') dm)))"

text \<open>The part of a round after the activation.\<close>

definition dmCycle :: "u32 \<Rightarrow> DiagnosticManager \<Rightarrow> unit res \<times> DiagnosticManager" where
  "dmCycle measured dm =
     (case checkServiceDiscovery measured dm of
        (Inl e, dm) \<Rightarrow> (Inl e, dm)
      | (Inr _, dm) \<Rightarrow>
          (let dm = dm\<lparr> dmHeartbeatCounter := dmHeartbeatCounter dm + 1 \<rparr>
           in if dmHeartbeatCounter dm mod 500 = 0 then dmHeartbeat dm else (Inr (), dm)))"

text \<open>The end of the debouncer's wait. An exception that leaves its thread ends the process.\<close>

definition debounceTimeout :: "DoipLib \<Rightarrow> bool \<Rightarrow> bool \<Rightarrow> DiagnosticManager \<Rightarrow> unit res \<times> DiagnosticManager" where
  "debounceTimeout lib connects starts dm =
     (case dmMonitor dm of
        None \<Rightarrow> (Inr (), dm)
      | Some (t, m) \<Rightarrow>
          (let m' = monitorStep (timerCall t 0) ThreadTimeout m; dm = dm\<lparr> dmMonitor := Some (t, m') \<rparr>
           in case (mEvent m, mEvent m') of
                (Some ev, Some ev') \<Rightarrow>
                  if length (eventNotified ev) < length (eventNotified ev')
                  then (case dmOnEventStatusChanged lib connects starts ev' dm of
                          (Inl e, dm) \<Rightarrow> (Inl (if e = Undefined then Undefined else Terminated), dm)
                        | (Inr _, dm) \<Rightarrow> (Inr (), dm))
                  else (Inr (), dm)
              | _ \<Rightarrow> (Inr (), dm)))"

datatype DmStep = DmDiscovery ClientEvent | DmTimeout bool bool | DmCycle u32

fun dmStep :: "DoipLib \<Rightarrow> DmStep \<Rightarrow> DiagnosticManager \<Rightarrow> unit res \<times> DiagnosticManager" where
  "dmStep lib (DmDiscovery e) dm = (Inr (), dm\<lparr> dmSdClient := map_option (clientEvent e) (dmSdClient dm) \<rparr>)"
| "dmStep lib (DmTimeout connects starts) dm = debounceTimeout lib connects starts dm"
| "dmStep lib (DmCycle measured) dm = dmCycle measured dm"

fun dmSteps :: "DoipLib \<Rightarrow> DmStep list \<Rightarrow> DiagnosticManager \<Rightarrow> unit res \<times> DiagnosticManager" where
  "dmSteps lib [] dm = (Inr (), dm)"
| "dmSteps lib (s # ss) dm =
     (case dmStep lib s dm of (Inl e, dm) \<Rightarrow> (Inl e, dm) | (Inr _, dm) \<Rightarrow> dmSteps lib ss dm)"

section \<open>The main function\<close>

definition dmConfigure ::
    "XmlLib \<Rightarrow> bool \<Rightarrow> bool \<Rightarrow> bool \<Rightarrow> ArxmlReader \<Rightarrow> DiagnosticManager \<Rightarrow> unit res \<times> DiagnosticManager" where
  "dmConfigure lib socketSetup anyFlag anyPassing reader dm =
     (case configureNetworkLayer lib socketSetup reader dm of
        Inl e \<Rightarrow> (Inl e, dm)
      | Inr dm \<Rightarrow>
          (case configureSdClient anyFlag reader dm of
             Inl e \<Rightarrow> (Inl e, dm)
           | Inr dm \<Rightarrow>
               (case configureEvent reader of
                  (specifier, ev) \<Rightarrow>
                    (let dm = configureMonitor anyPassing reader ev (dm\<lparr> mEventSpecifier := specifier \<rparr>);
                         dm = dmLogText kInfo ''Diagnostic Manager has been initialized.'' (dm\<lparr> dmHeartbeatCounter := 0 \<rparr>)
                     in case dmSdClient dm of
                          None \<Rightarrow> (Inl Undefined, dm)
                        | Some c \<Rightarrow> (case Client_Start False c of (r, c) \<Rightarrow> (r, dm\<lparr> dmSdClient := Some c \<rparr>))))))"

text \<open>\<open>env i\<close>: the steps of the other threads before the \<open>i\<close>-th activation, and the time a wait measures that it interrupts.\<close>

partial_function (option) dmLoop ::
    "DoipLib \<Rightarrow> (nat \<Rightarrow> bool) \<Rightarrow> (nat \<Rightarrow> DmStep list \<times> u32) \<Rightarrow> nat \<Rightarrow> DiagnosticManager \<Rightarrow>
     (unit res \<times> DiagnosticManager) option" where
  "dmLoop lib cancelled env i dm =
     (if cancelled i then Some (Inr (), dm)
      else case Mp_WaitForActivation of
             Inl e \<Rightarrow> Some (Inl e, dm)
           | Inr running \<Rightarrow>
               (case dmSteps lib (fst (env i) @ [DmCycle (snd (env i))]) dm of
                  (Inl e, dm) \<Rightarrow> Some (Inl e, dm)
                | (Inr _, dm) \<Rightarrow> if running then dmLoop lib cancelled env (i + 1) dm else Some (Inr (), dm)))"

text \<open>The client is destroyed.\<close>

definition dmFinish :: "DiagnosticManager \<Rightarrow> DiagnosticManager" where
  "dmFinish dm = dmLogText kInfo ''Diagnostic Manager has been terminated.'' (dm\<lparr> dmSdClient := None \<rparr>)"

definition dmCatch :: "(exn \<Rightarrow> string) \<Rightarrow> exn \<Rightarrow> DiagnosticManager \<Rightarrow> int res \<times> DiagnosticManager" where
  "dmCatch what e dm = (if e = Runtime_error then (Inr 1, dmLogText kError (what e) dm) else (Inl e, dm))"

definition dmMain ::
    "XmlLib \<Rightarrow> DoipLib \<Rightarrow> (exn \<Rightarrow> string) \<Rightarrow> bool \<Rightarrow> bool \<Rightarrow> bool \<Rightarrow> arguments \<Rightarrow> (nat \<Rightarrow> bool) \<Rightarrow>
     (nat \<Rightarrow> DmStep list \<times> u32) \<Rightarrow> DiagnosticManager \<Rightarrow> (int res \<times> DiagnosticManager) option" where
  "dmMain xml lib what socketSetup anyFlag anyPassing arguments cancelled env dm =
     (case arguments cDmConfigArgument of
        None \<Rightarrow> Some (Inl Out_of_range, dm)
      | Some configFilepath \<Rightarrow>
          (case ArxmlReader_file xml configFilepath of
             Inl e \<Rightarrow> Some (Inl e, dm)
           | Inr reader \<Rightarrow>
               (case dmConfigure xml socketSetup anyFlag anyPassing reader dm of
                  (Inl e, dm) \<Rightarrow> Some (dmCatch what e dm)
                | (Inr _, dm) \<Rightarrow>
                    (case dmLoop lib cancelled env 0 dm of
                       None \<Rightarrow> None
                     | Some (Inl e, dm) \<Rightarrow> Some (dmCatch what e dm)
                     | Some (Inr _, dm) \<Rightarrow> Some (Inr 0, dmFinish dm)))))"

definition dmDestroy :: "DiagnosticManager \<Rightarrow> DiagnosticManager" where
  "dmDestroy dm =
     (let dm = dm\<lparr> mObdEmulator := False, mObdToDoipConverter := None \<rparr>;
          dm = (case dmMonitor dm of
                  None \<Rightarrow> dm
                | Some (t, m) \<Rightarrow> (initCallbacks m (Monitor_StopOffer m) dm)\<lparr> dmMonitor := None \<rparr>)
      in dm\<lparr> dmSdClient := None, dmNetworkLayer := None \<rparr>)"

section \<open>Debouncer and event\<close>

text \<open>The directions and times of the debouncer, as only preliminary reports use it.\<close>

definition timerInv :: "TimerBasedDebouncer \<Rightarrow> bool" where
  "timerInv d \<longleftrightarrow>
     (case tbWaiting d of
        Some (w, passing) \<Rightarrow> passing = mIsPassing d \<and> tbJoinable d
      | None \<Rightarrow> mElapsedMs d = 0 \<or> tbStatus d = (if mIsPassing d then kPassed else kFailed))"

lemma timerInv_calls:
  assumes "timerInv d"
  shows "timerInv (fst (timerCall t measured ReportPrepassed d))" "timerInv (fst (timerCall t measured ReportPrefailed d))"
    "timerInv (fst (timerCall t measured Timeout d))"
  using assms by (auto simp: timerInv_def tbFreeze_def start_def tick_timeout_def Let_def split: option.splits)

lemma prereport_silent:
  "snd (timerCall t measured ReportPrepassed d) = None" "snd (timerCall t measured ReportPrefailed d) = None"
  "tbStatus (fst (timerCall t measured ReportPrepassed d)) = tbStatus d"
  "tbStatus (fst (timerCall t measured ReportPrefailed d)) = tbStatus d"
  by (simp_all add: tbFreeze_def start_def Let_def)

text \<open>A passed preliminary report and the end of the wait lead to the passed status.\<close>

lemma prepassed_timeout:
  assumes "timerInv d" "passedMs t \<noteq> 0"
  shows "tbStatus (fst (timerCall t n Timeout (fst (timerCall t measured ReportPrepassed d)))) = kPassed"
  using assms by (auto simp: timerInv_def tbFreeze_def start_def tick_timeout_def Let_def split: option.splits)

definition monitorInv :: "TimerBasedDebouncer Monitor \<Rightarrow> bool" where
  "monitorInv m \<longleftrightarrow> mOffered m \<and> timerInv (mDebouncer m) \<and>
     (\<exists>ev. mEvent m = Some ev \<and> mEventNotifier ev \<and> eventAgrees (tbStatus (mDebouncer m)) False ev \<and>
        (tbStatus (mDebouncer m) = kPending \<longrightarrow> bit (mEventStatusByte ev) 1))"

lemma monitorInv_prereport:
  assumes "monitorInv m" "action = kPrepassed \<and> c = ReportPrepassed \<or> action = kPrefailed \<and> c = ReportPrefailed"
  shows "ReportMonitorAction (timerCall t measured) action m =
      (Inr (), m\<lparr> mDebouncer := fst (timerCall t measured c (mDebouncer m)) \<rparr>)"
    "monitorInv (m\<lparr> mDebouncer := fst (timerCall t measured c (mDebouncer m)) \<rparr>)"
proof -
  obtain d where d: "timerCall t measured c (mDebouncer m) = (d, None)"
    using assms(2) prereport_silent by (metis prod.collapse)
  then show "ReportMonitorAction (timerCall t measured) action m =
      (Inr (), m\<lparr> mDebouncer := fst (timerCall t measured c (mDebouncer m)) \<rparr>)"
    using assms by (auto simp: ReportMonitorAction_def monitorInv_def debounce_def)
  have "tbStatus d = tbStatus (mDebouncer m)" "timerInv d"
    using assms prereport_silent timerInv_calls d unfolding monitorInv_def by (metis fst_conv)+
  then show "monitorInv (m\<lparr> mDebouncer := fst (timerCall t measured c (mDebouncer m)) \<rparr>)"
    using assms(1) d by (simp add: monitorInv_def)
qed

lemma bits_changed:
  assumes "eventAgrees s False ev" "s = kPending \<longrightarrow> bit (mEventStatusByte ev) 1" "s \<noteq> (if passed then kPassed else kFailed)"
  shows "setStatusBits [(kTestFailed, \<not> passed), (kTestNotCompletedThisOperationCycle, False)] (mEventStatusByte ev) \<noteq>
    mEventStatusByte ev"
proof
  let ?bs = "[(kTestFailed, \<not> passed), (kTestNotCompletedThisOperationCycle, False)]"
  assume "setStatusBits ?bs (mEventStatusByte ev) = mEventStatusByte ev"
  then have "mEventStatusByte (SetEventStatusBits ?bs ev) = mEventStatusByte ev"
    by (simp add: SetEventStatusBits_def Let_def)
  then have b: "bit (mEventStatusByte ev) 7 = (\<not> passed)" "\<not> bit (mEventStatusByte ev) 1"
    using bits_of_callback(1,3) [of "\<not> passed" False ev] by simp_all
  show False using assms b by (cases s) (auto simp: eventAgrees_def split: if_splits)
qed

lemma timeout_event:
  assumes "monitorInv m" and m': "m' = monitorStep (timerCall t n) ThreadTimeout m"
  shows "\<exists>ev ev'. mEvent m = Some ev \<and> mEvent m' = Some ev' \<and> monitorInv m' \<and>
    tbStatus (mDebouncer m') = tbStatus (fst (timerCall t n Timeout (mDebouncer m))) \<and>
    (length (eventNotified ev) < length (eventNotified ev') \<longleftrightarrow> tbStatus (mDebouncer m') \<noteq> tbStatus (mDebouncer m))"
proof -
  obtain ev where ev: "mEvent m = Some ev" "mEventNotifier ev" "eventAgrees (tbStatus (mDebouncer m)) False ev"
    "tbStatus (mDebouncer m) = kPending \<longrightarrow> bit (mEventStatusByte ev) 1" "mOffered m" "timerInv (mDebouncer m)"
    using assms(1) by (auto simp: monitorInv_def)
  obtain d cb where d: "timerCall t n Timeout (mDebouncer m) = (d, cb)" by fastforce
  have inv: "timerInv d" using timerInv_calls(3) [OF ev(6), of t n] d by simp
  have cb: "cb = statusCallback (tbStatus (mDebouncer m)) (tbStatus d)"
    using timer.calls_back [of t n Timeout "mDebouncer m"] d by simp
  show ?thesis
  proof (cases "tbStatus d = tbStatus (mDebouncer m)")
    case True
    then have "m' = m\<lparr> mDebouncer := d \<rparr>"
      using d cb by (simp add: m' monitorStep_def debounce_def statusCallback.simps)
    then show ?thesis using ev inv True d by (simp add: monitorInv_def)
  next
    case False
    then have "tbStatus d \<noteq> kPending" using d by (auto simp: tick_timeout_def split: option.splits if_splits)
    then obtain passed where s: "tbStatus d = (if passed then kPassed else kFailed)" "cb = Some passed"
      using False cb by (cases "tbStatus d") (auto simp: statusCallback.simps)
    let ?ev = "SetFaultDetectionCounter (if passed then -128 else 127) ev"
    let ?bs = "[(kTestFailed, \<not> passed), (kTestNotCompletedThisOperationCycle, False)]"
    have e: "mEvent m' = Some (SetEventStatusBits ?bs ?ev)" "mDebouncer m' = d" "mOffered m'"
      using d s ev by (simp_all add: m' monitorStep_def debounce_def onEventStatusChanged_def)
    have ch: "setStatusBits ?bs (mEventStatusByte ev) \<noteq> mEventStatusByte ev"
      using bits_changed [OF ev(3,4)] False s(1) by metis
    have "eventAgrees (tbStatus d) False (SetEventStatusBits ?bs ?ev)"
      unfolding s(1) by (rule eventAgrees_callback [OF ev(3)])
    moreover have "mEventNotifier (SetEventStatusBits ?bs ?ev)" using ev(2) by (simp add: SetEventStatusBits_def SetFaultDetectionCounter_def Let_def)
    moreover have "length (eventNotified ev) < length (eventNotified (SetEventStatusBits ?bs ?ev))"
      using ch ev(2) by (simp add: SetEventStatusBits_def SetFaultDetectionCounter_def Let_def)
    ultimately show ?thesis using e ev inv False d s by (auto simp: monitorInv_def)
  qed
qed

section \<open>What the manager keeps\<close>

definition dmInv :: "DiagnosticManager \<Rightarrow> bool" where
  "dmInv dm \<longleftrightarrow> (\<exists>t m. dmMonitor dm = Some (t, m) \<and> monitorInv m)"

lemma dmLogText_keeps [simp]:
  "dmSdClient (dmLogText l s dm) = dmSdClient dm" "dmMonitor (dmLogText l s dm) = dmMonitor dm"
  "mObdToDoipConverter (dmLogText l s dm) = mObdToDoipConverter dm" "mObdEmulator (dmLogText l s dm) = mObdEmulator dm"
  "dmAbandoned (dmLogText l s dm) = dmAbandoned dm" "dmHeartbeatCounter (dmLogText l s dm) = dmHeartbeatCounter dm"
  "mLastSdState (dmLogText l s dm) = mLastSdState dm" "mEventSpecifier (dmLogText l s dm) = mEventSpecifier dm"
  by (simp_all add: dmLogText_def)

lemma callbacks_keep:
  "dmMonitor (snd (bridgeService lib connects starts dm)) = dmMonitor dm"
  "dmMonitor (snd (dmOnEventStatusChanged lib connects starts ev dm)) = dmMonitor dm"
  "dmMonitor (snd (reportSdState c dm)) = dmMonitor dm" "dmMonitor (snd (dmHeartbeat dm)) = dmMonitor dm"
proof -
  show b: "dmMonitor (snd (bridgeService lib connects starts dm)) = dmMonitor dm"
    by (auto simp: bridgeService_def Let_def split: option.splits sum.splits)
  then show "dmMonitor (snd (dmOnEventStatusChanged lib connects starts ev dm)) = dmMonitor dm"
    by (auto simp: dmOnEventStatusChanged_def split: DebouncingState.splits sum.splits)
qed (auto simp: reportSdState_def dmHeartbeat_def Let_def split: option.splits sum.splits)

text \<open>The report of a round, once the state of service discovery was reported.\<close>

definition prereport :: "SdClientState \<Rightarrow> DebouncerCall option" where
  "prereport s =
     (if offering s then Some ReportPrepassed else if s = Stopped \<or> s = ServiceNotSeen then Some ReportPrefailed else None)"

lemma checkServiceDiscovery_result:
  assumes "dmSdClient dm = Some c" "dmMonitor dm = Some (t, m)" "monitorInv m" "reportSdState c dm = (Inr (), dm1)"
  shows "checkServiceDiscovery measured dm =
    (Inr (), case prereport (reportedState (scState c)) of
       None \<Rightarrow> dm1
     | Some call \<Rightarrow> dm1\<lparr> dmMonitor := Some (t, m\<lparr> mDebouncer := fst (timerCall t measured call (mDebouncer m)) \<rparr>) \<rparr>)"
proof -
  have r: "ReportMonitorAction (timerCall t measured) kPrepassed m =
      (Inr (), m\<lparr> mDebouncer := fst (timerCall t measured ReportPrepassed (mDebouncer m)) \<rparr>)"
    "ReportMonitorAction (timerCall t measured) kPrefailed m =
      (Inr (), m\<lparr> mDebouncer := fst (timerCall t measured ReportPrefailed (mDebouncer m)) \<rparr>)"
    by (rule monitorInv_prereport(1) [OF assms(3)]; simp)+
  show ?thesis
    using assms(1,2,4) by (simp add: checkServiceDiscovery_def prereport_def r Let_def del: timerCall.simps)
qed

lemma checkServiceDiscovery_inv:
  assumes "dmInv dm"
  shows "dmInv (snd (checkServiceDiscovery measured dm))"
proof (cases "dmSdClient dm")
  case (Some c)
  obtain t m where m: "dmMonitor dm = Some (t, m)" "monitorInv m" using assms by (auto simp: dmInv_def)
  obtain r dm1 where r: "reportSdState c dm = (r, dm1)" by fastforce
  have m1: "dmMonitor dm1 = Some (t, m)" using callbacks_keep(3) [of c dm] r m by simp
  show ?thesis
  proof (cases r)
    case (Inl e)
    then show ?thesis using Some m r m1 by (auto simp: checkServiceDiscovery_def dmInv_def)
  next
    case (Inr u)
    then have r': "reportSdState c dm = (Inr (), dm1)" using r by simp
    have "monitorInv (m\<lparr> mDebouncer := fst (timerCall t measured ReportPrepassed (mDebouncer m)) \<rparr>)"
      "monitorInv (m\<lparr> mDebouncer := fst (timerCall t measured ReportPrefailed (mDebouncer m)) \<rparr>)"
      by (rule monitorInv_prereport(2) [OF m(2)]; simp)+
    then show ?thesis
      unfolding checkServiceDiscovery_result [OF Some m r'] using m m1
      by (auto simp: dmInv_def prereport_def simp del: timerCall.simps)
  qed
qed (use assms in \<open>simp add: checkServiceDiscovery_def\<close>)

lemma dmCycle_inv: "dmInv dm \<Longrightarrow> dmInv (snd (dmCycle measured dm))"
proof -
  assume "dmInv dm"
  then have i: "dmInv (snd (checkServiceDiscovery measured dm))" by (rule checkServiceDiscovery_inv)
  obtain r dm1 where r: "checkServiceDiscovery measured dm = (r, dm1)" by fastforce
  show ?thesis
    using i r callbacks_keep(4) [of "dm1\<lparr> dmHeartbeatCounter := dmHeartbeatCounter dm1 + 1 \<rparr>"]
    by (auto simp: dmCycle_def dmInv_def Let_def split: sum.splits)
qed

text \<open>The end of a wait: the monitor, and whether the callback is made.\<close>

lemma debounceTimeout_result:
  assumes "dmMonitor dm = Some (t, m)" "monitorInv m" "m' = monitorStep (timerCall t 0) ThreadTimeout m" "mEvent m' = Some ev'"
  shows "debounceTimeout lib connects starts dm =
    (if tbStatus (mDebouncer m') = tbStatus (mDebouncer m) then (Inr (), dm\<lparr> dmMonitor := Some (t, m') \<rparr>)
     else case dmOnEventStatusChanged lib connects starts ev' (dm\<lparr> dmMonitor := Some (t, m') \<rparr>) of
            (Inl e, dm) \<Rightarrow> (Inl (if e = Undefined then Undefined else Terminated), dm)
          | (Inr _, dm) \<Rightarrow> (Inr (), dm))"
proof -
  obtain ev where e: "mEvent m = Some ev"
    "length (eventNotified ev) < length (eventNotified ev') \<longleftrightarrow> tbStatus (mDebouncer m') \<noteq> tbStatus (mDebouncer m)"
    using timeout_event [OF assms(2,3)] assms(4) by auto
  then show ?thesis
    using assms(1,4) by (simp add: debounceTimeout_def Let_def assms(3) [symmetric] del: timerCall.simps)
qed

lemma dmStep_inv: "dmInv dm \<Longrightarrow> dmInv (snd (dmStep lib s dm))"
proof (cases s)
  case (DmTimeout connects starts)
  assume "dmInv dm"
  then obtain t m where m: "dmMonitor dm = Some (t, m)" "monitorInv m" by (auto simp: dmInv_def)
  let ?m = "monitorStep (timerCall t 0) ThreadTimeout m"
  obtain ev' where ev: "mEvent ?m = Some ev'" "monitorInv ?m" using timeout_event [OF m(2) refl] by blast
  have "dmMonitor (snd (debounceTimeout lib connects starts dm)) = Some (t, ?m)"
    unfolding debounceTimeout_result [OF m refl ev(1)]
    using callbacks_keep(2) [of lib connects starts ev' "dm\<lparr> dmMonitor := Some (t, ?m) \<rparr>"]
    by (auto split: prod.splits sum.splits simp del: timerCall.simps)
  then show ?thesis using ev(2) DmTimeout by (simp add: dmInv_def)
qed (use dmCycle_inv in \<open>auto simp: dmInv_def\<close>)

lemma dmSteps_inv: "dmInv dm \<Longrightarrow> dmInv (snd (dmSteps lib ss dm))"
proof (induction ss arbitrary: dm)
  case (Cons s ss)
  have "dmInv (snd (dmStep lib s dm))" by (rule dmStep_inv [OF Cons.prems])
  then show ?case using Cons.IH by (auto split: prod.splits sum.splits)
qed simp

lemma initCallbacks_keep [simp]:
  "dmMonitor (initCallbacks m m' dm) = dmMonitor dm" "dmSdClient (initCallbacks m m' dm) = dmSdClient dm"
proof -
  have "dmMonitor (fold onInitMonitor rs dm) = dmMonitor dm \<and> dmSdClient (fold onInitMonitor rs dm) = dmSdClient dm" for rs
    by (induction rs arbitrary: dm) (simp_all add: onInitMonitor_def)
  then show "dmMonitor (initCallbacks m m' dm) = dmMonitor dm" "dmSdClient (initCallbacks m m' dm) = dmSdClient dm"
    by (simp_all add: initCallbacks_def)
qed

lemma dmConfigure_inv:
  assumes "dmConfigure lib socketSetup anyFlag anyPassing reader dm = (Inr (), dm')"
  shows "dmInv dm'"
proof -
  obtain dm1 where d1: "configureNetworkLayer lib socketSetup reader dm = Inr dm1"
    using assms by (cases "configureNetworkLayer lib socketSetup reader dm") (simp_all add: dmConfigure_def)
  obtain dm2 where d2: "configureSdClient anyFlag reader dm1 = Inr dm2"
    using assms d1 by (cases "configureSdClient anyFlag reader dm1") (simp_all add: dmConfigure_def)
  obtain specifier ev where e: "configureEvent reader = (specifier, ev)" by fastforce
  let ?m = "snd (Monitor_Offer (AttachEvent ev (newMonitor True (newTimerBasedDebouncer anyPassing))))"
  have ev: "mEventNotifier ev" "mEventStatusByte ev = 2" "mEventFdc ev = 0"
    using e by (auto simp: configureEvent_def SetDTCNumber_def newEvent_def)
  have "eventAgrees kPending False ev" "bit (mEventStatusByte ev) 1"
    by (simp_all add: eventAgrees_def GetTestComplete_def ev)
  then have "monitorInv ?m"
    using ev(1) by (simp add: monitorInv_def Monitor_Offer_def AttachEvent_def newMonitor_def initMonitor_def timerInv_def
        newTimerBasedDebouncer_def)
  moreover have "\<exists>t. dmMonitor dm' = Some (t, ?m)"
    using assms by (auto simp: dmConfigure_def d1 d2 e configureMonitor_def Let_def split: option.splits prod.splits)
  ultimately show ?thesis by (auto simp: dmInv_def)
qed

section \<open>From the offer to the bridge\<close>

lemma dmHeartbeat_ok:
  assumes "dmSdClient dm = Some c" "TryGetOfferedEndpoint c = Inr endpoint"
  shows "\<exists>msg. dmHeartbeat dm = (Inr (), dmLogText kInfo msg dm)"
  using assms by (auto simp: dmHeartbeat_def Let_def)

lemma startConverter_ok: "\<exists>client. startConverter lib True endpoint = Inr (fst endpoint, snd endpoint, client)"
  by (simp add: startConverter_def newDoipClient_def TryEnqueue_def newQueue_def)

text \<open>What the callback of a healed event does, by how the connection and the emulator turn out.\<close>

lemma bridgeService_result:
  assumes "dmSdClient dm = Some c" "TryGetOfferedEndpoint c = Inr (Some endpoint)"
  shows "\<exists>r dm'. bridgeService lib connects starts dm = (r, dm') \<and> dmMonitor dm' = dmMonitor dm \<and>
    (if connects
     then r = Inr () \<and>
       dmAbandoned dm' = dmAbandoned dm @ (case mObdToDoipConverter dm of Some old \<Rightarrow> [old] | None \<Rightarrow> []) \<and>
       (if starts then (\<exists>client. mObdToDoipConverter dm' = Some (fst endpoint, snd endpoint, client)) \<and> mObdEmulator dm'
        else mObdToDoipConverter dm' = None \<and> \<not> mObdEmulator dm')
     else r = Inl Runtime_error)"
proof (cases connects)
  case True
  obtain client where "startConverter lib True endpoint = Inr (fst endpoint, snd endpoint, client)"
    using startConverter_ok by blast
  then show ?thesis using assms True by (simp add: bridgeService_def Let_def)
qed (use assms in \<open>simp add: bridgeService_def startConverter_def Let_def\<close>)

text \<open>A round of the loop while the service is seen: a passed preliminary report, nothing else for the bridge.\<close>

lemma seen_round:
  assumes "dmSdClient dm = Some c" "offering (scState c)" "TryGetOfferedEndpoint c = Inr (Some endpoint)"
    and "dmMonitor dm = Some (t, m)" "monitorInv m"
  obtains dm2 where "dmCycle measured dm = (Inr (), dm2)"
    "dmMonitor dm2 = Some (t, m\<lparr> mDebouncer := fst (timerCall t measured ReportPrepassed (mDebouncer m)) \<rparr>)"
    "dmSdClient dm2 = Some c" "mObdToDoipConverter dm2 = mObdToDoipConverter dm" "mObdEmulator dm2 = mObdEmulator dm"
    "dmAbandoned dm2 = dmAbandoned dm"
proof -
  have off: "reportedState (scState c) = scState c" "prereport (scState c) = Some ReportPrepassed"
    using assms(2) by (auto simp: offering_def prereport_def)
  obtain dm1 where r: "reportSdState c dm = (Inr (), dm1)" "dmSdClient dm1 = Some c"
    "mObdToDoipConverter dm1 = mObdToDoipConverter dm" "mObdEmulator dm1 = mObdEmulator dm" "dmAbandoned dm1 = dmAbandoned dm"
    using assms(1-3) off(1) by (cases "scState c = mLastSdState dm") (simp_all add: reportSdState_def Let_def)
  let ?m = "m\<lparr> mDebouncer := fst (timerCall t measured ReportPrepassed (mDebouncer m)) \<rparr>"
  have check: "checkServiceDiscovery measured dm = (Inr (), dm1\<lparr> dmMonitor := Some (t, ?m) \<rparr>)"
    using checkServiceDiscovery_result [OF assms(1,4,5) r(1)] off by simp
  let ?dm = "dm1\<lparr> dmMonitor := Some (t, ?m), dmHeartbeatCounter := dmHeartbeatCounter dm1 + 1 \<rparr>"
  have e: "dmCycle measured dm = (if (dmHeartbeatCounter dm1 + 1) mod 500 = 0 then dmHeartbeat ?dm else (Inr (), ?dm))"
    by (simp add: dmCycle_def check Let_def del: timerCall.simps)
  obtain msg where h: "dmHeartbeat ?dm = (Inr (), dmLogText kInfo msg ?dm)"
    using dmHeartbeat_ok [of ?dm c "Some endpoint"] r(2) assms(3) by auto
  show thesis
  proof (cases "(dmHeartbeatCounter dm1 + 1) mod 500 = 0")
    case True
    show thesis by (rule that [of "dmLogText kInfo msg ?dm"]) (use e True h r in simp_all)
  next
    case False
    show thesis by (rule that [of ?dm]) (use e False r in simp_all)
  qed
qed

text \<open>C11: a discovered service heals its event and is bridged once per healing: whatever happened since the diagnostic
  manager was configured, when its client sees the service and knows the endpoint, one round and the end of the
  debouncer's wait, whose threshold is not zero, make the diagnostic event finally healed. If the debouncer was not
  already in the passed status, the bridge is set up anew: a converter is connected to that endpoint and its emulator
  runs, when the service accepts the connection and the emulator starts; there is no bridge when the emulator does not
  start; the process ends when the connection is refused. A converter that was there before is abandoned while its
  emulator goes on running. If the debouncer was passed already nothing is bridged: the old bridge stays, also when the
  endpoint has changed, and after an emulator that did not start there is none.\<close>

theorem dm_service_bridged:
  assumes "dmConfigure xml socketSetup anyFlag anyPassing reader newDiagnosticManager = (Inr (), dm0)"
    and "dmSteps lib steps dm0 = (Inr (), dm)" "dmSdClient dm = Some c" "offering (scState c)"
    and "TryGetOfferedEndpoint c = Inr (Some endpoint)" "dmMonitor dm = Some (t, m)" "passedMs t \<noteq> 0"
  shows "\<exists>r dm' m' ev. dmSteps lib [DmCycle measured, DmTimeout connects starts] dm = (r, dm') \<and>
    dmMonitor dm' = Some (t, m') \<and> mEvent m' = Some ev \<and> GetDebouncingStatus ev = kFinallyHealed \<and>
    (if tbStatus (mDebouncer m) = kPassed
     then r = Inr () \<and> mObdToDoipConverter dm' = mObdToDoipConverter dm \<and> mObdEmulator dm' = mObdEmulator dm \<and>
       dmAbandoned dm' = dmAbandoned dm
     else if \<not> connects then r = Inl Terminated
     else r = Inr () \<and>
       dmAbandoned dm' = dmAbandoned dm @ (case mObdToDoipConverter dm of Some old \<Rightarrow> [old] | None \<Rightarrow> []) \<and>
       (if starts then (\<exists>client. mObdToDoipConverter dm' = Some (fst endpoint, snd endpoint, client)) \<and> mObdEmulator dm'
        else mObdToDoipConverter dm' = None \<and> \<not> mObdEmulator dm'))"
proof -
  have "dmInv dm" using dmSteps_inv [OF dmConfigure_inv [OF assms(1)], of lib steps] assms(2) by simp
  then have m: "monitorInv m" using assms(6) by (auto simp: dmInv_def)
  let ?m = "m\<lparr> mDebouncer := fst (timerCall t measured ReportPrepassed (mDebouncer m)) \<rparr>"
  let ?same = "\<lambda>d. mObdToDoipConverter d = mObdToDoipConverter dm \<and> mObdEmulator d = mObdEmulator dm \<and> dmAbandoned d = dmAbandoned dm"
  obtain dm2 where c2: "dmCycle measured dm = (Inr (), dm2)" "dmMonitor dm2 = Some (t, ?m)" "dmSdClient dm2 = Some c" "?same dm2"
    by (rule seen_round [OF assms(3-6) m]) blast
  have m2: "monitorInv ?m" by (rule monitorInv_prereport(2) [OF m]) simp
  let ?m3 = "monitorStep (timerCall t 0) ThreadTimeout ?m" and ?dm3 = "\<lambda>m3. dm2\<lparr> dmMonitor := Some (t, m3) \<rparr>"
  obtain ev where ev: "mEvent ?m3 = Some ev" "monitorInv ?m3"
    "tbStatus (mDebouncer ?m3) = tbStatus (fst (timerCall t 0 Timeout (mDebouncer ?m)))"
    using timeout_event [OF m2 refl, of t 0] by blast
  have "timerInv (mDebouncer m)" using m by (simp add: monitorInv_def)
  then have p: "tbStatus (mDebouncer ?m3) = kPassed"
    using ev(3) prepassed_timeout [OF _ assms(7)] by (simp del: timerCall.simps)
  have healed: "GetDebouncingStatus ev = kFinallyHealed" using ev p by (auto simp: monitorInv_def eventAgrees_def)
  have st: "tbStatus (mDebouncer ?m) = tbStatus (mDebouncer m)" using prereport_silent(3) by simp
  obtain rb dmb where b: "bridgeService lib connects starts (?dm3 ?m3) = (rb, dmb)" "dmMonitor dmb = Some (t, ?m3)"
    "if connects
     then rb = Inr () \<and>
       dmAbandoned dmb = dmAbandoned dm @ (case mObdToDoipConverter dm of Some old \<Rightarrow> [old] | None \<Rightarrow> []) \<and>
       (if starts then (\<exists>client. mObdToDoipConverter dmb = Some (fst endpoint, snd endpoint, client)) \<and> mObdEmulator dmb
        else mObdToDoipConverter dmb = None \<and> \<not> mObdEmulator dmb)
     else rb = Inl Runtime_error"
    using bridgeService_result [of "?dm3 ?m3" c endpoint lib connects starts] c2(3,4) assms(5) by auto
  have "debounceTimeout lib connects starts dm2 =
      (if tbStatus (mDebouncer m) = kPassed then (Inr (), ?dm3 ?m3) else (if connects then Inr () else Inl Terminated, dmb))"
    using debounceTimeout_result [OF c2(2) m2 refl ev(1), of lib connects starts] p st healed b(1,3)
    by (simp add: dmOnEventStatusChanged_def del: timerCall.simps)
  then have "dmSteps lib [DmCycle measured, DmTimeout connects starts] dm =
      (if tbStatus (mDebouncer m) = kPassed then (Inr (), ?dm3 ?m3) else (if connects then Inr () else Inl Terminated, dmb))"
    using c2(1) by simp
  then show ?thesis
    using ev(1) healed b(2,3) c2(4) by (cases "tbStatus (mDebouncer m) = kPassed") auto
qed

definition dmEndpoint :: XmlNode where
  "dmEndpoint = XmlElement ''NETWORK-ENDPOINT'' []
     [textElement ''SHORT-NAME'' ''DiagnosticManagerEP'',
      foldr (\<lambda>name node. XmlElement name [] [node]) [''NETWORK-ENDPOINT-ADDRESSES'', ''IPV-4-CONFIGURATION'']
        (textElement ''IPV-4-ADDRESS'' ''239.0.0.1'')]"

definition dmApplicationEndpoint :: XmlNode where
  "dmApplicationEndpoint = XmlElement ''AP-APPLICATION-ENDPOINT'' []
     [textElement ''SHORT-NAME'' ''MulticastUdp'',
      foldr (\<lambda>name node. XmlElement name [] [node]) [''TP-CONFIGURATION'', ''UDP-TP'', ''UDP-TP-PORT'']
        (textElement ''PORT-NUMBER'' ''5555'')]"

definition dmDocument :: "XmlNode list" where
  "dmDocument = [foldr (\<lambda>name node. XmlElement name [] [node]) [''AUTOSAR'', ''AR-PACKAGES'', ''AR-PACKAGE'']
     (XmlElement ''ELEMENTS'' []
       [foldr (\<lambda>name node. XmlElement name [] [node])
          [''COMMUNICATION-CLUSTER'', ''ETHERNET-PHYSICAL-CHANNEL'', ''NETWORK-ENDPOINTS''] dmEndpoint,
        foldr (\<lambda>name node. XmlElement name [] [node])
          [''ETHERNET-COMMUNICATION-CONNECTOR'', ''AP-APPLICATION-ENDPOINTS''] dmApplicationEndpoint,
        foldr (\<lambda>name node. XmlElement name [] [node])
          [''REQUIRED-SOMEIP-SERVICE-INSTANCE'', ''SERVICE-INTERFACE-DEPLOYMENT''] (textElement ''SERVICE-INTERFACE-ID'' ''5''),
        XmlElement ''DIAGNOSTIC-EVENT-INTERFACE'' [] [textElement ''SHORT-NAME'' ''Tcm'', textElement ''DTC-NUMBER'' ''9''],
        XmlElement ''DIAGNOSTIC-MONITOR-INTERFACE'' []
          [textElement ''SHORT-NAME'' ''TcmMonitor'',
           XmlElement ''DIAG-EVENT-DEBOUNCE-TIME-BASED'' []
             [textElement ''TIME-PASSED-THRESHOLD'' ''5000'', textElement ''TIME-FAILED-THRESHOLD'' ''3000'']]])]"

definition configuredDm :: "unit res \<times> DiagnosticManager" where
  "configuredDm = dmConfigure (instanceLib dmDocument [dmEndpoint, dmApplicationEndpoint]) True False False
     (xmlDocument dmDocument) newDiagnosticManager"

definition telematicOffer :: SomeIpSdMessage where
  "telematicOffer = emptyMessage\<lparr> mEntries := [ServiceEntry ((mkEntryBase Offering 5 1 3 1)
     \<lparr> mFirstOptions := [Ipv4EndpointOption IPv4Endpoint False (mkIpv4 127 0 0 1) Tcp 8081] \<rparr>) 0] \<rparr>"

definition offeredDm :: "unit res \<times> DiagnosticManager" where
  "offeredDm = dmSteps plainLib [DmCycle 0, DmDiscovery (Receive telematicOffer), DmDiscovery (Proceed True)] (snd configuredDm)"

lemma offeredDm_ok:
  "fst configuredDm = Inr ()" "fst offeredDm = Inr ()"
  "map_option (\<lambda>c. (scState c, TryGetOfferedEndpoint c)) (dmSdClient (snd offeredDm)) =
     Some (ServiceReady, Inr (Some (''127.0.0.1'', 8081)))"
  "map_option (\<lambda>(t, m). (passedMs t, tbStatus (mDebouncer m))) (dmMonitor (snd offeredDm)) = Some (5000, kPending)"
  by code_simp+

theorem dm_service_bridged_witness:
  "\<exists>dm' client. dmSteps plainLib [DmCycle 10, DmTimeout True True] (snd offeredDm) = (Inr (), dm') \<and>
     mObdToDoipConverter dm' = Some (''127.0.0.1'', 8081, client) \<and> mObdEmulator dm'"
proof -
  have o: "offeredDm = (Inr (), snd offeredDm)" "configuredDm = (Inr (), snd configuredDm)"
    using offeredDm_ok(1,2) by (simp_all add: prod_eq_iff)
  obtain c where c: "dmSdClient (snd offeredDm) = Some c" "scState c = ServiceReady"
    "TryGetOfferedEndpoint c = Inr (Some (''127.0.0.1'', 8081))"
    using offeredDm_ok(3) by auto
  obtain t m where m: "dmMonitor (snd offeredDm) = Some (t, m)" "passedMs t \<noteq> 0" "tbStatus (mDebouncer m) \<noteq> kPassed"
    using offeredDm_ok(4) by auto
  have "offering (scState c)" using c(2) by (simp add: offering_def)
  from dm_service_bridged [OF o(2) [unfolded configuredDm_def] o(1) [unfolded offeredDm_def configuredDm_def] _ this c(3), of t m 10 True True]
    c m show ?thesis by (auto simp: offeredDm_def configuredDm_def simp del: dmSteps.simps)
qed

text \<open>The bridge stays when the service is lost: only a further discovery changes it.\<close>

lemma lost_service_still_bridged:
  assumes "GetDebouncingStatus ev \<noteq> kFinallyHealed"
  shows "mObdToDoipConverter (snd (dmOnEventStatusChanged lib connects starts ev dm)) = mObdToDoipConverter dm"
  using assms by (auto simp: dmOnEventStatusChanged_def GetDTCNumber_def split: DebouncingState.splits)

text \<open>A service that is discovered but does not accept the connection ends the process, and so does a service that is
  discovered after the client was destroyed at the end of \<open>Main\<close>.\<close>

lemma refused_connection_terminates:
  assumes "dmMonitor dm = Some (t, m)" "monitorInv m" "dmSdClient dm = Some c" "TryGetOfferedEndpoint c = Inr (Some endpoint)"
    and "tbWaiting (mDebouncer m) = Some (w, True)" "tbStatus (mDebouncer m) \<noteq> kPassed"
  shows "fst (debounceTimeout lib False starts dm) = Inl Terminated"
    "fst (debounceTimeout lib connects starts (dmFinish dm)) = Inl Undefined"
proof -
  let ?m = "monitorStep (timerCall t 0) ThreadTimeout m"
  obtain ev where ev: "mEvent ?m = Some ev" "monitorInv ?m"
    "tbStatus (mDebouncer ?m) = tbStatus (fst (timerCall t 0 Timeout (mDebouncer m)))"
    using timeout_event [OF assms(2) refl, of t 0] by blast
  then have p: "tbStatus (mDebouncer ?m) = kPassed" using assms(5) by (simp add: tick_timeout_def)
  then have h: "GetDebouncingStatus ev = kFinallyHealed" using ev by (auto simp: monitorInv_def eventAgrees_def)
  have "fst (bridgeService lib False starts (dm\<lparr> dmMonitor := Some (t, ?m) \<rparr>)) = Inl Runtime_error"
    using assms(3,4) by (simp add: bridgeService_def startConverter_def Let_def)
  then show "fst (debounceTimeout lib False starts dm) = Inl Terminated"
    using debounceTimeout_result [OF assms(1,2) refl ev(1), of lib False starts] p h assms(6)
    by (auto simp: dmOnEventStatusChanged_def split: prod.splits simp del: timerCall.simps)
  have f: "dmMonitor (dmFinish dm) = Some (t, m)" using assms(1) by (simp add: dmFinish_def)
  have "fst (bridgeService lib connects starts ((dmFinish dm)\<lparr> dmMonitor := Some (t, ?m) \<rparr>)) = Inl Undefined"
    by (simp add: bridgeService_def dmFinish_def dmLogText_def Let_def)
  then show "fst (debounceTimeout lib connects starts (dmFinish dm)) = Inl Undefined"
    using debounceTimeout_result [OF f assms(2) refl ev(1), of lib connects starts] p h assms(6)
    by (auto simp: dmOnEventStatusChanged_def split: prod.splits simp del: timerCall.simps)
qed

end
