(* ===== verification/PugiText.thy ===== *)
theory PugiText
  imports Arxml
begin

text \<open>
  \<open>src/arxml/pugixml.cpp\<close>, character level: the character classes, the conversion of text, attributes, comments and
  CDATA sections while they are parsed, and the escaping of text while it is printed. The parser converts in place:
  a \<open>gap\<close> moves what follows an escape or a line end over it. The model returns the converted text and the rest of the
  input instead. A string of the parser ends at its first NUL.
\<close>

section \<open>Character classes\<close>

definition ct_parse_pcdata :: nat where "ct_parse_pcdata = 1"
definition ct_parse_attr :: nat where "ct_parse_attr = 2"
definition ct_parse_attr_ws :: nat where "ct_parse_attr_ws = 4"
definition ct_space :: nat where "ct_space = 8"
definition ct_parse_cdata :: nat where "ct_parse_cdata = 16"
definition ct_parse_comment :: nat where "ct_parse_comment = 32"
definition ct_symbol :: nat where "ct_symbol = 64"
definition ct_start_symbol :: nat where "ct_start_symbol = 128"

definition chartype_table :: "nat list" where
  "chartype_table =
    [55, 0, 0, 0, 0, 0, 0, 0, 0, 12, 12, 0, 0, 63, 0, 0,
     0, 0, 0, 0, 0, 0, 0, 0, 0, 0, 0, 0, 0, 0, 0, 0,
     8, 0, 6, 0, 0, 0, 7, 6, 0, 0, 0, 0, 0, 96, 64, 0,
     64, 64, 64, 64, 64, 64, 64, 64, 64, 64, 192, 0, 1, 0, 48, 0,
     0, 192, 192, 192, 192, 192, 192, 192, 192, 192, 192, 192, 192, 192, 192, 192,
     192, 192, 192, 192, 192, 192, 192, 192, 192, 192, 192, 0, 0, 16, 0, 192,
     0, 192, 192, 192, 192, 192, 192, 192, 192, 192, 192, 192, 192, 192, 192, 192,
     192, 192, 192, 192, 192, 192, 192, 192, 192, 192, 192, 0, 0, 0, 0, 0] @ replicate 128 192"

definition IS_CHARTYPE :: "char \<Rightarrow> nat \<Rightarrow> bool" where
  "IS_CHARTYPE c ct \<longleftrightarrow> (chartype_table ! charCode c) AND ct \<noteq> 0"

definition ctx_special_pcdata :: nat where "ctx_special_pcdata = 1"
definition ctx_special_attr :: nat where "ctx_special_attr = 2"

definition chartypex_table :: "nat list" where
  "chartypex_table =
    [3, 3, 3, 3, 3, 3, 3, 3, 3, 2, 2, 3, 3, 2, 3, 3,
     3, 3, 3, 3, 3, 3, 3, 3, 3, 3, 3, 3, 3, 3, 3, 3,
     0, 0, 2, 0, 0, 0, 3, 2, 0, 0, 0, 0, 0, 16, 16, 0,
     24, 24, 24, 24, 24, 24, 24, 24, 24, 24, 0, 0, 3, 0, 1, 0,
     0, 20, 20, 20, 20, 20, 20, 20, 20, 20, 20, 20, 20, 20, 20, 20,
     20, 20, 20, 20, 20, 20, 20, 20, 20, 20, 20, 0, 0, 0, 0, 20,
     0, 20, 20, 20, 20, 20, 20, 20, 20, 20, 20, 20, 20, 20, 20, 20,
     20, 20, 20, 20, 20, 20, 20, 20, 20, 20, 20, 0, 0, 0, 0, 0] @ replicate 128 20"

definition IS_CHARTYPEX :: "char \<Rightarrow> nat \<Rightarrow> bool" where
  "IS_CHARTYPEX c ct \<longleftrightarrow> (chartypex_table ! charCode c) AND ct \<noteq> 0"

definition isBlank :: "char \<Rightarrow> bool" where
  "isBlank c \<longleftrightarrow> IS_CHARTYPE c ct_space"

definition isSymbol :: "char \<Rightarrow> bool" where
  "isSymbol c \<longleftrightarrow> IS_CHARTYPE c ct_symbol"

definition isStartSymbol :: "char \<Rightarrow> bool" where
  "isStartSymbol c \<longleftrightarrow> IS_CHARTYPE c ct_start_symbol"

section \<open>Escapes\<close>

text \<open>The characters of a code point; larger values are cut to four bytes as the shifts do.\<close>

definition byteChar :: "u32 \<Rightarrow> char" where
  "byteChar w = char_of (unat (w AND 0xFF))"

definition utf8_low :: "u32 \<Rightarrow> string" where
  "utf8_low ch =
     (if ch < 0x80 then [byteChar ch]
      else if ch < 0x800 then [byteChar (0xC0 OR drop_bit 6 ch), byteChar (0x80 OR (ch AND 0x3F))]
      else [byteChar (0xE0 OR drop_bit 12 ch), byteChar (0x80 OR (drop_bit 6 ch AND 0x3F)),
            byteChar (0x80 OR (ch AND 0x3F))])"

definition utf8_high :: "u32 \<Rightarrow> string" where
  "utf8_high ch =
     [byteChar (0xF0 OR drop_bit 18 ch), byteChar (0x80 OR (drop_bit 12 ch AND 0x3F)),
      byteChar (0x80 OR (drop_bit 6 ch AND 0x3F)), byteChar (0x80 OR (ch AND 0x3F))]"

definition utf8_any :: "u32 \<Rightarrow> string" where
  "utf8_any ch = (if ch < 0x10000 then utf8_low ch else utf8_high ch)"

text \<open>
  \<open>strconv_escape\<close> on the input after the ampersand: the text it stands for and the rest. What is no escape is kept
  up to the character that breaks it, which is looked at again.
\<close>

definition numericEscape :: "string \<Rightarrow> (char \<Rightarrow> bool) \<Rightarrow> nat \<Rightarrow> (char \<Rightarrow> nat) \<Rightarrow> string \<Rightarrow> string \<times> string" where
  "numericEscape intro accept radix digit s =
     (let digits = takeWhile accept s; rest = dropWhile accept s
      in if digits \<noteq> [] \<and> rest \<noteq> [] \<and> hd rest = CHR '';''
         then (utf8_any (digitsOf radix digit digits), tl rest)
         else (intro @ digits, rest))"

fun commonPrefix :: "string \<Rightarrow> string \<Rightarrow> string" where
  "commonPrefix (c # cs) (d # ds) = (if c = d then c # commonPrefix cs ds else [])"
| "commonPrefix _ _ = []"

text \<open>A named escape: the letters that match are skipped one by one.\<close>

definition namedEscape :: "string \<Rightarrow> char \<Rightarrow> string \<Rightarrow> string \<times> string" where
  "namedEscape name value s =
     (let p = commonPrefix name s
      in if p = name then ([value], drop (length name) s) else (CHR ''&'' # p, drop (length p) s))"

definition strconv_escape :: "string \<Rightarrow> string \<times> string" where
  "strconv_escape s =
     (case s of
        [] \<Rightarrow> (''&'', [])
      | c # t \<Rightarrow>
          if c = CHR ''#'' then
            (if t \<noteq> [] \<and> hd t = CHR ''x''
             then numericEscape ''&#x'' (\<lambda>c. isDecimal c \<or> isHexLetter c) 16 hexDigit (tl t)
             else numericEscape ''&#'' isDecimal 10 (\<lambda>c. charCode c - 48) t)
          else if c = CHR ''a'' then
            (if t \<noteq> [] \<and> hd t = CHR ''p'' then namedEscape ''apos;'' (CHR 0x27) s else namedEscape ''amp;'' (CHR ''&'') s)
          else if c = CHR ''g'' then namedEscape ''gt;'' (CHR ''>'') s
          else if c = CHR ''l'' then namedEscape ''lt;'' (CHR ''<'') s
          else if c = CHR ''q'' then namedEscape ''quot;'' (CHR 0x22) s
          else (''&'', s))"

section \<open>Conversion of parsed text\<close>

text \<open>
  The conversions of \<open>strconv_pcdata_impl\<close>, \<open>strconv_attribute_impl\<close>, \<open>strconv_comment\<close> and \<open>strconv_cdata\<close>: line ends
  kept or normalised, white space converted or collapsed. A step takes one character and what follows; the unrolled
  scan of the code skips the characters that no branch below it tests.
\<close>

datatype strconv_mode = Simple | Eol | Wconv | Wnorm

definition skipNewline :: "string \<Rightarrow> string" where
  "skipNewline s = (if s \<noteq> [] \<and> hd s = CHR ''\<newline>'' then tl s else s)"

definition strconvStep :: "strconv_mode \<Rightarrow> bool \<Rightarrow> char \<Rightarrow> string \<Rightarrow> string \<times> string" where
  "strconvStep mode escape c s =
     (if mode = Wnorm \<and> isBlank c then ('' '', dropWhile isBlank s)
      else if mode = Wconv \<and> isBlank c then ('' '', if c = CHR 0x0D then skipNewline s else s)
      else if mode = Eol \<and> c = CHR 0x0D then (''\<newline>'', skipNewline s)
      else if escape \<and> c = CHR ''&'' then strconv_escape s
      else ([c], s))"

lemma numericEscape_shorter: "length (snd (numericEscape i d r f t)) \<le> length t"
  using length_dropWhile_le [of d t] by (auto simp: numericEscape_def Let_def)

lemma namedEscape_shorter: "length (snd (namedEscape name value s)) \<le> length s"
  by (simp add: namedEscape_def Let_def)

lemma if_shorter: "\<lbrakk> length (snd x) \<le> n; length (snd y) \<le> n \<rbrakk> \<Longrightarrow> length (snd (if b then x else y)) \<le> n"
  by simp

lemma strconv_escape_shorter [simp]: "length (snd (strconv_escape s)) \<le> length s"
proof (cases s)
  case (Cons c t)
  have "length (snd (numericEscape i d r f t)) \<le> length (c # t)" for i d r f
    using numericEscape_shorter [of i d r f t] by simp
  moreover have "length (snd (numericEscape i d r f (tl t))) \<le> length (c # t)" for i d r f
    using numericEscape_shorter [of i d r f "tl t"] by simp
  ultimately show ?thesis
    unfolding strconv_escape_def Cons list.case by (intro if_shorter namedEscape_shorter) simp_all
qed (simp add: strconv_escape_def)

lemma skipNewline_shorter [simp]: "length (skipNewline s) \<le> length s"
  by (simp add: skipNewline_def)

lemma strconvStep_shorter [simp]: "length (snd (strconvStep mode escape c s)) \<le> length s"
  by (auto simp: strconvStep_def length_dropWhile_le)

text \<open>Up to where \<open>stop\<close> holds of what follows, or to the end: the converted text and the rest.\<close>

function strconv :: "(string \<Rightarrow> bool) \<Rightarrow> strconv_mode \<Rightarrow> bool \<Rightarrow> string \<Rightarrow> string \<times> string" where
  "strconv stop mode escape s =
     (if s = [] \<or> stop s then ([], s)
      else (let (v, rest) = strconvStep mode escape (hd s) (tl s); (w, r) = strconv stop mode escape rest
            in (v @ w, r)))"
  by pat_completeness auto
termination
proof (relation "measure (\<lambda>(stop, mode, escape, s). length s)", goal_cases)
  case (2 stop mode escape s p v rest)
  then have "length rest \<le> length (tl s)" using strconvStep_shorter [of mode escape "hd s" "tl s"] by (metis snd_conv)
  with 2 show ?case by (cases s) auto
qed simp

declare strconv.simps [simp del]

lemma strconv_shorter: "length (snd (strconv stop mode escape s)) \<le> length s"
proof (induction stop mode escape s rule: strconv.induct)
  case (1 stop mode escape s)
  show ?case
  proof (cases "s = [] \<or> stop s")
    case False
    then have "length (snd (strconvStep mode escape (hd s) (tl s))) < length s"
      using strconvStep_shorter [of mode escape "hd s" "tl s"] by (cases s) (auto simp: less_Suc_eq_le)
    then show ?thesis
      using 1 [OF False refl] False by (subst strconv.simps) (auto simp: split_beta Let_def prod_eq_iff)
  qed (subst strconv.simps, simp)
qed

lemma strconv_stops: "strconv stop mode escape s = (v, rest) \<Longrightarrow> rest = [] \<or> stop rest"
proof (induction stop mode escape s arbitrary: v rule: strconv.induct)
  case (1 stop mode escape s)
  show ?case
  proof (cases "s = [] \<or> stop s")
    case False
    then show ?thesis
      using 1(1) [OF False refl] 1(2)
      by (subst (asm) strconv.simps) (auto simp: split_beta Let_def prod_eq_iff)
  qed (use 1(2) in \<open>subst (asm) strconv.simps, auto\<close>)
qed

section \<open>Escaping of printed text\<close>

definition format_indent :: nat where "format_indent = 0x01"
definition format_raw :: nat where "format_raw = 0x04"
definition format_no_declaration :: nat where "format_no_declaration = 0x08"
definition format_no_escapes :: nat where "format_no_escapes = 0x10"
definition format_indent_attributes :: nat where "format_indent_attributes = 0x40"
definition format_no_empty_element_tags :: nat where "format_no_empty_element_tags = 0x80"
definition format_skip_control_chars :: nat where "format_skip_control_chars = 0x100"
definition format_attribute_single_quote :: nat where "format_attribute_single_quote = 0x200"
definition format_default :: nat where "format_default = format_indent"

definition has_flag :: "nat \<Rightarrow> nat \<Rightarrow> bool" where
  "has_flag flags f \<longleftrightarrow> flags AND f \<noteq> 0"

definition escapeChar :: "nat \<Rightarrow> char \<Rightarrow> string" where
  "escapeChar flags c =
     (if c = CHR ''&'' then ''&amp;''
      else if c = CHR ''<'' then ''&lt;''
      else if c = CHR ''>'' then ''&gt;''
      else if c = CHR 0x22 then (if has_flag flags format_attribute_single_quote then [c] else ''&quot;'')
      else if c = CHR 0x27 then (if has_flag flags format_attribute_single_quote then ''&apos;'' else [c])
      else if has_flag flags format_skip_control_chars then []
      else ''&#'' @ [char_of (charCode c div 10 + 48), char_of (charCode c mod 10 + 48), CHR '';''])"

definition text_output_escaped :: "nat \<Rightarrow> nat \<Rightarrow> string \<Rightarrow> string" where
  "text_output_escaped ct flags s = concat (map (\<lambda>c. if IS_CHARTYPEX c ct then escapeChar flags c else [c]) s)"

definition text_output :: "nat \<Rightarrow> nat \<Rightarrow> string \<Rightarrow> string" where
  "text_output ct flags s = (if has_flag flags format_no_escapes then s else text_output_escaped ct flags s)"

section \<open>Facts about the classes\<close>

lemma charCode_less: "charCode c < 256"
  by (simp add: charCode_def)

lemma charCode_inject: "charCode c = charCode d \<longleftrightarrow> c = d"
  by (simp add: charCode_def)

fun entries :: "(nat \<Rightarrow> nat \<Rightarrow> bool) \<Rightarrow> nat \<Rightarrow> nat list \<Rightarrow> bool" where
  "entries P n [] \<longleftrightarrow> True"
| "entries P n (t # ts) \<longleftrightarrow> P n t \<and> entries P (Suc n) ts"

lemma entries_nth: "\<lbrakk> entries P n ts; i < length ts \<rbrakk> \<Longrightarrow> P (n + i) (ts ! i)"
  by (induction P n ts arbitrary: i rule: entries.induct) (auto simp: nth_Cons split: nat.splits)

lemma by_table:
  assumes "entries P 0 xs" "length xs = 128" "\<And>n. \<lbrakk> 128 \<le> n; n < 256 \<rbrakk> \<Longrightarrow> P n d"
  shows "P (charCode c) ((xs @ replicate 128 d) ! charCode c)"
  using entries_nth [OF assms(1), of "charCode c"] assms(2,3) charCode_less [of c]
  by (auto simp: nth_append)

lemma space_code: "isBlank c \<longleftrightarrow> charCode c \<in> {32, 9, 10, 13}"
  unfolding isBlank_def IS_CHARTYPE_def chartype_table_def ct_space_def
  by (rule by_table) simp_all

lemma symbol_code:
  "isSymbol c \<longrightarrow> charCode c \<notin> {60, 62, 47, 61, 63, 33, 34, 39, 38, 0} \<and> charCode c \<notin> {32, 9, 10, 13}"
  unfolding isSymbol_def IS_CHARTYPE_def chartype_table_def ct_symbol_def
  by (rule by_table) simp_all

lemma start_symbol_code: "isStartSymbol c \<longrightarrow> isSymbol c"
  unfolding isSymbol_def isStartSymbol_def IS_CHARTYPE_def chartype_table_def ct_symbol_def ct_start_symbol_def
  by (rule by_table) simp_all

lemma letter_symbol:
  "48 \<le> charCode c \<and> charCode c \<le> 58 \<or> 65 \<le> charCode c \<and> charCode c \<le> 90 \<or>
   97 \<le> charCode c \<and> charCode c \<le> 122 \<or> charCode c = 45 \<or> charCode c = 46 \<or> charCode c = 95 \<longrightarrow> isSymbol c"
  unfolding isSymbol_def IS_CHARTYPE_def chartype_table_def ct_symbol_def
  by (rule by_table) simp_all

lemma letter_start:
  "65 \<le> charCode c \<and> charCode c \<le> 90 \<or> 97 \<le> charCode c \<and> charCode c \<le> 122 \<longrightarrow> isStartSymbol c"
  unfolding isStartSymbol_def IS_CHARTYPE_def chartype_table_def ct_start_symbol_def
  by (rule by_table) simp_all

lemma special_pcdata_code:
  "IS_CHARTYPEX c ctx_special_pcdata \<longleftrightarrow>
     charCode c \<in> {38, 60, 62} \<or> charCode c < 32 \<and> charCode c \<notin> {9, 10, 13}"
  unfolding IS_CHARTYPEX_def chartypex_table_def ctx_special_pcdata_def
  by (rule by_table) simp_all

lemma special_attr_code:
  "IS_CHARTYPEX c ctx_special_attr \<longleftrightarrow> charCode c \<in> {38, 60, 34, 39} \<or> charCode c < 32"
  unfolding IS_CHARTYPEX_def chartypex_table_def ctx_special_attr_def
  by (rule by_table) simp_all

text \<open>The same with characters.\<close>

lemma charCode_chars:
  "charCode c = 38 \<longleftrightarrow> c = CHR ''&''" "charCode c = 60 \<longleftrightarrow> c = CHR ''<''" "charCode c = 62 \<longleftrightarrow> c = CHR ''>''"
  "charCode c = 47 \<longleftrightarrow> c = CHR ''/''" "charCode c = 61 \<longleftrightarrow> c = CHR ''=''" "charCode c = 63 \<longleftrightarrow> c = CHR ''?''"
  "charCode c = 33 \<longleftrightarrow> c = CHR ''!''" "charCode c = 34 \<longleftrightarrow> c = CHR 0x22" "charCode c = 39 \<longleftrightarrow> c = CHR 0x27"
  "charCode c = 32 \<longleftrightarrow> c = CHR '' ''" "charCode c = 9 \<longleftrightarrow> c = CHR 0x09" "charCode c = 10 \<longleftrightarrow> c = CHR 0x0A"
  "charCode c = 13 \<longleftrightarrow> c = CHR 0x0D" "charCode c = 0 \<longleftrightarrow> c = CHR 0x00"
  by (simp_all add: charCode_inject [symmetric]) (simp_all add: charCode_def)

lemmas space_iff = space_code [simplified charCode_chars insert_iff empty_iff simp_thms]
lemmas symbol_iff = symbol_code [simplified charCode_chars insert_iff empty_iff simp_thms, THEN mp]
lemmas start_symbol_symbol = start_symbol_code [THEN mp]
lemmas special_pcdata_iff = special_pcdata_code [simplified charCode_chars insert_iff empty_iff simp_thms]
lemmas special_attr_iff = special_attr_code [simplified charCode_chars insert_iff empty_iff simp_thms]

section \<open>Printed text is read back\<close>

lemma digit_char:
  assumes "d < 10"
  shows "charCode (char_of (d + 48)) = d + 48" "isDecimal (char_of (d + 48))"
  using assms by (simp_all add: charCode_def isDecimal_def)

lemma utf8_ascii:
  assumes "n < 128"
  shows "utf8_any (word_of_nat n) = [char_of n]"
proof -
  have m: "(0xFF :: u32) = mask 8" by (simp add: mask_eq_exp_minus_1)
  have "unat (word_of_nat n AND (0xFF :: u32)) = n"
    using assms by (simp only: m take_bit_eq_mask [symmetric])
      (simp add: unsigned_take_bit_eq unsigned_of_nat take_bit_nat_eq_self)
  moreover have "word_of_nat n < (0x80 :: u32)"
    using assms by (simp add: word_less_nat_alt unsigned_of_nat take_bit_nat_eq_self)
  moreover have "word_of_nat n < (0x10000 :: u32)"
    using assms by (simp add: word_less_nat_alt unsigned_of_nat take_bit_nat_eq_self)
  ultimately show ?thesis
    by (simp add: utf8_any_def utf8_low_def byteChar_def)
qed

lemma control_escape:
  fixes n :: nat
  assumes "n < 100"
  shows "strconv_escape (CHR ''#'' # char_of (n div 10 + 48) # char_of (n mod 10 + 48) # CHR '';'' # r) = ([char_of n], r)"
proof -
  have d: "n div 10 < 10" "n mod 10 < 10" using assms by auto
  have semi: "\<not> isDecimal (CHR '';'')" by (simp add: isDecimal_def charCode_def)
  have x: "char_of (n div 10 + 48) \<noteq> CHR ''x''"
  proof
    assume "char_of (n div 10 + 48) = CHR ''x''"
    then have "charCode (char_of (n div 10 + 48)) = charCode (CHR ''x'')" by simp
    then show False using digit_char(1) [OF d(1)] d(1) by (simp add: charCode_def)
  qed
  have "digitsOf 10 (\<lambda>c. charCode c - 48) [char_of (n div 10 + 48), char_of (n mod 10 + 48)] =
      word_of_nat (n div 10) * word_of_nat 10 + word_of_nat (n mod 10)"
    by (simp only: digitsOf_def fold.simps id_apply comp_apply digit_char(1) [OF d(1)] digit_char(1) [OF d(2)]) simp
  also have "\<dots> = word_of_nat (n div 10 * 10 + n mod 10)" by (simp only: of_nat_add of_nat_mult)
  finally have v: "digitsOf 10 (\<lambda>c. charCode c - 48) [char_of (n div 10 + 48), char_of (n mod 10 + 48)] = word_of_nat n"
    by (simp only: div_mult_mod_eq)
  have t: "takeWhile isDecimal (char_of (n div 10 + 48) # char_of (n mod 10 + 48) # CHR '';'' # r) =
      [char_of (n div 10 + 48), char_of (n mod 10 + 48)]"
    "dropWhile isDecimal (char_of (n div 10 + 48) # char_of (n mod 10 + 48) # CHR '';'' # r) = CHR '';'' # r"
    using digit_char(2) [OF d(1)] digit_char(2) [OF d(2)] semi by simp_all
  have u: "utf8_any (word_of_nat n) = [char_of n]" using assms by (intro utf8_ascii) simp
  show ?thesis
    unfolding strconv_escape_def list.case numericEscape_def Let_def t v u using x by simp
qed

lemma escape_read:
  assumes "c \<in> {CHR ''&'', CHR ''<'', CHR ''>'', CHR 0x22} \<or> charCode c < 32"
  shows "\<exists>t. escapeChar format_default c = CHR ''&'' # t \<and> strconv_escape (t @ r) = ([c], r)"
proof -
  have f: "\<not> has_flag format_default format_attribute_single_quote" "\<not> has_flag format_default format_skip_control_chars"
    by (simp_all add: has_flag_def format_default_def format_indent_def format_attribute_single_quote_def format_skip_control_chars_def)
  show ?thesis
  proof (cases "c \<in> {CHR ''&'', CHR ''<'', CHR ''>'', CHR 0x22}")
    case True
    then show ?thesis
      by (auto simp: escapeChar_def f strconv_escape_def namedEscape_def Let_def)
  next
    case False
    then have n: "charCode c < 32" using assms by simp
    then have "c \<noteq> CHR 0x27" by (auto simp: charCode_def)
    moreover have "char_of (charCode c) = c" by (simp add: charCode_def)
    ultimately show ?thesis
      using False control_escape [of "charCode c" r] n by (simp add: escapeChar_def f)
  qed
qed

text \<open>A piece of text that is read as the character \<open>c\<close>.\<close>

definition readsAs :: "char \<Rightarrow> strconv_mode \<Rightarrow> bool \<Rightarrow> char \<Rightarrow> string \<Rightarrow> bool" where
  "readsAs q mode escape c p \<longleftrightarrow>
     (\<exists>h t. p = h # t \<and> h \<noteq> q \<and> (\<forall>r. strconvStep mode escape h (t @ r) = ([c], r)))"

lemma strconv_pieces:
  assumes "\<forall>c\<in>set v. readsAs q mode escape c (f c)" "rest = [] \<or> hd rest = q"
  shows "strconv (\<lambda>s. hd s = q) mode escape (concat (map f v) @ rest) = (v, rest)"
  using assms
proof (induction v)
  case Nil
  then show ?case by (subst strconv.simps) auto
next
  case (Cons c v)
  then obtain h t where p: "f c = h # t" "h \<noteq> q"
    "\<And>r. strconvStep mode escape h (t @ r) = ([c], r)"
    by (auto simp: readsAs_def)
  then show ?case
    using Cons by (subst strconv.simps) simp
qed

abbreviation printedAs :: "nat \<Rightarrow> char \<Rightarrow> string" where
  "printedAs ct c \<equiv> (if IS_CHARTYPEX c ct then escapeChar format_default c else [c])"

text \<open>With escapes every character is read back from what is printed; without them those that are not escaped.\<close>

lemma escaped_readsAs:
  assumes "c \<in> {CHR ''&'', CHR ''<'', CHR ''>'', CHR 0x22} \<or> charCode c < 32" "q \<noteq> CHR ''&''"
  shows "readsAs q mode True c (escapeChar format_default c)"
proof -
  have "\<not> isBlank (CHR ''&'')" by (simp add: space_iff)
  then have "strconvStep mode True (CHR ''&'') s = strconv_escape s" for s
    by (simp add: strconvStep_def)
  moreover obtain t where "escapeChar format_default c = CHR ''&'' # t" "\<And>r. strconv_escape (t @ r) = ([c], r)"
    using escape_read [OF assms(1)] by (metis list.inject)
  ultimately show ?thesis using assms(2) by (auto simp: readsAs_def)
qed

lemma plain_readsAs:
  assumes "c \<noteq> q" "c \<noteq> CHR ''&''" "mode \<noteq> Wnorm" "mode = Eol \<longrightarrow> c \<noteq> CHR 0x0D"
    and "mode = Wconv \<longrightarrow> isBlank c \<longrightarrow> c = CHR '' ''"
  shows "readsAs q mode escape c [c]"
  using assms by (auto simp: readsAs_def strconvStep_def)

lemma pcdata_readsAs:
  assumes "mode \<in> {Simple, Eol}" "mode = Eol \<longrightarrow> c \<noteq> CHR 0x0D" "\<not> escape \<longrightarrow> \<not> IS_CHARTYPEX c ctx_special_pcdata"
  shows "readsAs (CHR ''<'') mode escape c (printedAs ctx_special_pcdata c)"
proof (cases "IS_CHARTYPEX c ctx_special_pcdata")
  case True
  then have "c \<in> {CHR ''&'', CHR ''<'', CHR ''>'', CHR 0x22} \<or> charCode c < 32" by (auto simp: special_pcdata_iff)
  from escaped_readsAs [OF this, of "CHR ''<''" mode] show ?thesis using True assms(3) by simp
next
  case False
  then have "c \<noteq> CHR ''<''" "c \<noteq> CHR ''&''" by (auto simp: special_pcdata_iff)
  with False assms(1,2) show ?thesis by (auto intro!: plain_readsAs)
qed

lemma attribute_readsAs:
  assumes "mode \<noteq> Wnorm" "\<not> escape \<longrightarrow> c = CHR 0x27 \<or> \<not> IS_CHARTYPEX c ctx_special_attr"
  shows "readsAs (CHR 0x22) mode escape c (printedAs ctx_special_attr c)"
proof (cases "IS_CHARTYPEX c ctx_special_attr \<and> c \<noteq> CHR 0x27")
  case True
  then have "c \<in> {CHR ''&'', CHR ''<'', CHR ''>'', CHR 0x22} \<or> charCode c < 32" by (auto simp: special_attr_iff)
  from escaped_readsAs [OF this, of "CHR 0x22" mode] show ?thesis using True assms(2) by simp
next
  case False
  have q: "escapeChar format_default (CHR 0x27) = [CHR 0x27]"
    by (simp add: escapeChar_def has_flag_def format_default_def format_indent_def format_attribute_single_quote_def)
  have z: "charCode (CHR 0x09) < 32" "charCode (CHR 0x0A) < 32" "charCode (CHR 0x0D) < 32"
    by (simp_all add: charCode_def)
  have "c \<noteq> CHR 0x22" "c \<noteq> CHR ''&''" "isBlank c \<longrightarrow> c = CHR '' ''" "c \<noteq> CHR 0x0D"
    using False z by (auto simp: special_attr_iff space_iff)
  then have "readsAs (CHR 0x22) mode escape c [c]" using assms(1) by (intro plain_readsAs) auto
  then show ?thesis using False q by auto
qed

lemma text_read:
  assumes "mode \<in> {Simple, Eol}" "rest = [] \<or> hd rest = CHR ''<''"
    and "\<forall>c\<in>set v. (mode = Eol \<longrightarrow> c \<noteq> CHR 0x0D) \<and> (escape \<or> \<not> IS_CHARTYPEX c ctx_special_pcdata)"
  shows "strconv (\<lambda>s. hd s = CHR ''<'') mode escape (text_output_escaped ctx_special_pcdata format_default v @ rest) = (v, rest)"
  unfolding text_output_escaped_def
proof (intro strconv_pieces ballI pcdata_readsAs)
  fix c assume "c \<in> set v"
  then show "mode = Eol \<longrightarrow> c \<noteq> CHR 0x0D" "\<not> escape \<longrightarrow> \<not> IS_CHARTYPEX c ctx_special_pcdata"
    using assms(3) by blast+
qed (use assms(1,2) in blast)+

lemma attribute_read:
  assumes "mode \<noteq> Wnorm"
    and "\<forall>c\<in>set v. escape \<or> c = CHR 0x27 \<or> \<not> IS_CHARTYPEX c ctx_special_attr"
  shows "strconv (\<lambda>s. hd s = CHR 0x22) mode escape (text_output_escaped ctx_special_attr format_default v @ CHR 0x22 # rest) =
    (v, CHR 0x22 # rest)"
  unfolding text_output_escaped_def
proof (intro strconv_pieces ballI attribute_readsAs)
  fix c assume "c \<in> set v"
  then show "\<not> escape \<longrightarrow> c = CHR 0x27 \<or> \<not> IS_CHARTYPEX c ctx_special_attr"
    using assms(2) by blast
qed (use assms(1) in simp_all)

end
