(* ===== verification/PugiParser.thy ===== *)
theory PugiParser
  imports PugiText
begin

text \<open>
  \<open>src/arxml/pugixml.cpp\<close>, class \<open>xml_parser\<close>: document types, comments, CDATA sections, processing instructions,
  declarations, tags with attributes and text, under every combination of parse flags. The cursor of the parser and
  the nodes around it are a stack of open nodes; a node is added to its parent when it is closed. The input is the
  buffer up to its first NUL, \<open>endch\<close> the last character of the buffer, which the parser overwrites. When parsing fails
  only the status is kept, not its offset and not the nodes parsed so far.
\<close>

section \<open>Nodes, flags and statuses\<close>

datatype xml_node_type =
    node_null | node_document | node_element | node_pcdata | node_cdata | node_comment | node_pi
  | node_declaration | node_doctype

datatype xml_node =
  Node (node_type: xml_node_type) (node_name: "string option") (node_value: "string option")
    (first_attribute: "(string \<times> string) list") (first_child: "xml_node list")

datatype xml_parse_status =
    status_ok | status_file_not_found | status_io_error | status_out_of_memory | status_internal_error
  | status_unrecognized_tag | status_bad_pi | status_bad_comment | status_bad_cdata | status_bad_doctype
  | status_bad_pcdata | status_bad_start_element | status_bad_attribute | status_bad_end_element
  | status_end_element_mismatch | status_append_invalid_root | status_no_document_element

definition parse_pi :: nat where "parse_pi = 0x0001"
definition parse_comments :: nat where "parse_comments = 0x0002"
definition parse_cdata :: nat where "parse_cdata = 0x0004"
definition parse_ws_pcdata :: nat where "parse_ws_pcdata = 0x0008"
definition parse_escapes :: nat where "parse_escapes = 0x0010"
definition parse_eol :: nat where "parse_eol = 0x0020"
definition parse_wconv_attribute :: nat where "parse_wconv_attribute = 0x0040"
definition parse_wnorm_attribute :: nat where "parse_wnorm_attribute = 0x0080"
definition parse_declaration :: nat where "parse_declaration = 0x0100"
definition parse_doctype :: nat where "parse_doctype = 0x0200"
definition parse_ws_pcdata_single :: nat where "parse_ws_pcdata_single = 0x0400"
definition parse_trim_pcdata :: nat where "parse_trim_pcdata = 0x0800"
definition parse_fragment :: nat where "parse_fragment = 0x1000"
definition parse_embed_pcdata :: nat where "parse_embed_pcdata = 0x2000"

definition parse_default :: nat where
  "parse_default = parse_cdata OR parse_escapes OR parse_wconv_attribute OR parse_eol"

lemmas parse_flags = parse_pi_def parse_comments_def parse_cdata_def parse_ws_pcdata_def parse_escapes_def parse_eol_def
  parse_wconv_attribute_def parse_wnorm_attribute_def parse_declaration_def parse_doctype_def parse_ws_pcdata_single_def
  parse_trim_pcdata_def parse_fragment_def parse_embed_pcdata_def

section \<open>The stack of open nodes\<close>

definition newNode :: "xml_node_type \<Rightarrow> xml_node" where
  "newNode type = Node type None None [] []"

fun append_node :: "xml_node \<Rightarrow> xml_node \<Rightarrow> xml_node" where
  "append_node child (Node t n v as cs) = Node t n v as (cs @ [child])"

fun append_attribute :: "string \<times> string \<Rightarrow> xml_node \<Rightarrow> xml_node" where
  "append_attribute a (Node t n v as cs) = Node t n v (as @ [a]) cs"

fun with_value :: "string \<Rightarrow> xml_node \<Rightarrow> xml_node" where
  "with_value v (Node t n _ as cs) = Node t n (Some v) as cs"

fun with_name :: "string \<Rightarrow> xml_node \<Rightarrow> xml_node" where
  "with_name n (Node t _ v as cs) = Node t (Some n) v as cs"

text \<open>The cursor is the first node of the stack; the root has no parent.\<close>

fun atCursor :: "(xml_node \<Rightarrow> xml_node) \<Rightarrow> xml_node list \<Rightarrow> xml_node list" where
  "atCursor f (c # st) = f c # st"
| "atCursor f [] = []"

fun pop_node :: "xml_node list \<Rightarrow> xml_node list" where
  "pop_node (c # p # st) = append_node c p # st"
| "pop_node st = st"

definition has_parent :: "xml_node list \<Rightarrow> bool" where
  "has_parent st \<longleftrightarrow> length st > 1"

section \<open>Scanning\<close>

definition peek :: "nat \<Rightarrow> string \<Rightarrow> char" where
  "peek k s = (if k < length s then s ! k else CHR 0x00)"

definition starts :: "string \<Rightarrow> string \<Rightarrow> bool" where
  "starts p s \<longleftrightarrow> take (length p) s = p"

definition ENDSWITH :: "char \<Rightarrow> char \<Rightarrow> char \<Rightarrow> bool" where
  "ENDSWITH endch c e \<longleftrightarrow> c = e \<or> c = CHR 0x00 \<and> endch = e"

fun scanFor :: "(string \<Rightarrow> bool) \<Rightarrow> string \<Rightarrow> string" where
  "scanFor stop [] = []"
| "scanFor stop (c # s) = (if stop (c # s) then c # s else scanFor stop s)"

lemma scanFor_shorter [simp]: "length (scanFor stop s) \<le> length s"
  by (induction s) auto

lemma scanFor_Cons: "scanFor stop s = c # r \<Longrightarrow> length r < length s"
  using scanFor_shorter [of stop s] by simp

text \<open>What was scanned over, as a string of the parser.\<close>

definition scanned :: "string \<Rightarrow> string \<Rightarrow> string" where
  "scanned s rest = take (length s - length rest) s"

definition c_str :: "string \<Rightarrow> string" where
  "c_str s = takeWhile (\<lambda>c. c \<noteq> CHR 0x00) s"

definition trimRight :: "string \<Rightarrow> string" where
  "trimRight s = rev (dropWhile isBlank (rev s))"

section \<open>Document types\<close>

definition parse_doctype_primitive :: "string \<Rightarrow> xml_parse_status + string" where
  "parse_doctype_primitive s =
     (let quoted = (\<lambda>n stop k t. let r = scanFor stop (drop n t)
                                 in if r = [] then Inl status_bad_doctype else Inr (drop k r))
      in if peek 0 s = CHR 0x22 \<or> peek 0 s = CHR 0x27 then quoted 1 (\<lambda>t. hd t = hd s) 1 s
         else if starts ''<?'' s then quoted 2 (starts ''?>'') 2 s
         else if starts ''<!--'' s then quoted 4 (starts ''-->'') 3 s
         else Inl status_bad_doctype)"

function ignoreLoop :: "nat \<Rightarrow> string \<Rightarrow> xml_parse_status + string" where
  "ignoreLoop depth s =
     (if s = [] then Inl status_bad_doctype
      else if starts ''<!['' s then ignoreLoop (depth + 1) (drop 3 s)
      else if starts '']]>'' s then (if depth = 0 then Inr (drop 3 s) else ignoreLoop (depth - 1) (drop 3 s))
      else ignoreLoop depth (tl s))"
  by pat_completeness auto
termination by (relation "measure (length \<circ> snd)") (auto simp: neq_Nil_conv)

declare ignoreLoop.simps [simp del]

definition parse_doctype_ignore :: "string \<Rightarrow> xml_parse_status + string" where
  "parse_doctype_ignore s = ignoreLoop 0 (drop 3 s)"

lemma ignoreLoop_shorter: "ignoreLoop depth s = Inr r \<Longrightarrow> length r \<le> length s"
proof (induction depth s rule: ignoreLoop.induct)
  case (1 depth s)
  show ?case
    using 1(4) 1(1-3)
    by (subst (asm) (1) ignoreLoop.simps) (fastforce split: if_splits)
qed

lemma parse_doctype_primitive_shorter:
  "parse_doctype_primitive s = Inr r \<Longrightarrow> s \<noteq> [] \<Longrightarrow> length r < length s"
  by (fastforce simp: parse_doctype_primitive_def Let_def neq_Nil_conv dest: scanFor_Cons split: if_splits)

function groupLoop :: "char \<Rightarrow> nat \<Rightarrow> string \<Rightarrow> xml_parse_status + string" where
  "groupLoop endch depth s =
     (if s = [] then (if depth \<noteq> 0 \<or> endch \<noteq> CHR ''>'' then Inl status_bad_doctype else Inr s)
      else if starts ''<!'' s \<and> peek 2 s \<noteq> CHR ''-'' then
        (if peek 2 s = CHR ''['' then
           (case parse_doctype_ignore s of Inl e \<Rightarrow> Inl e | Inr r \<Rightarrow> groupLoop endch depth r)
         else groupLoop endch (depth + 1) (drop 2 s))
      else if peek 0 s = CHR ''<'' \<or> peek 0 s = CHR 0x22 \<or> peek 0 s = CHR 0x27 then
        (case parse_doctype_primitive s of Inl e \<Rightarrow> Inl e | Inr r \<Rightarrow> groupLoop endch depth r)
      else if peek 0 s = CHR ''>'' then (if depth = 0 then Inr s else groupLoop endch (depth - 1) (tl s))
      else groupLoop endch depth (tl s))"
  by pat_completeness auto
termination
  by (relation "measure (length \<circ> snd \<circ> snd)")
    (auto simp: parse_doctype_ignore_def neq_Nil_conv dest!: ignoreLoop_shorter parse_doctype_primitive_shorter)

declare groupLoop.simps [simp del]

definition parse_doctype_group :: "char \<Rightarrow> string \<Rightarrow> xml_parse_status + string" where
  "parse_doctype_group endch s = groupLoop endch 0 (drop 2 s)"

lemma groupLoop_shorter: "groupLoop endch depth s = Inr r \<Longrightarrow> length r \<le> length s"
proof (induction endch depth s rule: groupLoop.induct)
  case (1 endch depth s)
  note g = "1.prems" [unfolded groupLoop.simps [of endch depth s]]
  have t: "length (tl s) \<le> length s" "length (drop n s) \<le> length s" for n by simp_all
  have i: "length u \<le> length s" if "parse_doctype_ignore s = Inr u" for u
    using ignoreLoop_shorter [OF that [unfolded parse_doctype_ignore_def]] by simp
  have p: "length u \<le> length s" if "parse_doctype_primitive s = Inr u" "s \<noteq> []" for u
    using parse_doctype_primitive_shorter [OF that] by simp
  consider "s = []"
    | "s \<noteq> []" "starts ''<!'' s \<and> peek 2 s \<noteq> CHR ''-''" "peek 2 s = CHR ''[''"
    | "s \<noteq> []" "starts ''<!'' s \<and> peek 2 s \<noteq> CHR ''-''" "peek 2 s \<noteq> CHR ''[''"
    | "s \<noteq> []" "\<not> (starts ''<!'' s \<and> peek 2 s \<noteq> CHR ''-'')"
      "peek 0 s = CHR ''<'' \<or> peek 0 s = CHR 0x22 \<or> peek 0 s = CHR 0x27"
    | "s \<noteq> []" "\<not> (starts ''<!'' s \<and> peek 2 s \<noteq> CHR ''-'')"
      "\<not> (peek 0 s = CHR ''<'' \<or> peek 0 s = CHR 0x22 \<or> peek 0 s = CHR 0x27)" "peek 0 s = CHR ''>''"
    | "s \<noteq> []" "\<not> (starts ''<!'' s \<and> peek 2 s \<noteq> CHR ''-'')"
      "\<not> (peek 0 s = CHR ''<'' \<or> peek 0 s = CHR 0x22 \<or> peek 0 s = CHR 0x27)" "peek 0 s \<noteq> CHR ''>''"
    by blast
  then show ?case
  proof cases
    case 1
    then show ?thesis using g by (simp split: if_splits)
  next
    case 2
    then obtain u where "parse_doctype_ignore s = Inr u" "groupLoop endch depth u = Inr r"
      using g by (auto split: sum.splits)
    with 2 show ?thesis using "1.IH"(1) [of u] i [of u] by simp
  next
    case 3
    then have "groupLoop endch (depth + 1) (drop 2 s) = Inr r"
      using g by auto
    with 3 show ?thesis using "1.IH"(2) t(2) [of 2] by simp
  next
    case 4
    then obtain u where "parse_doctype_primitive s = Inr u" "groupLoop endch depth u = Inr r"
      using g by (auto split: sum.splits if_splits)
    with 4 show ?thesis using "1.IH"(3) [of u] p [of u] by simp
  next
    case 5
    then have "r = s \<or> depth \<noteq> 0 \<and> groupLoop endch (depth - 1) (tl s) = Inr r"
      using g by (auto split: if_splits)
    with 5 show ?thesis using "1.IH"(4) t(1) by auto
  next
    case 6
    then have "groupLoop endch depth (tl s) = Inr r"
      using g by (auto split: if_splits)
    with 6 show ?thesis using "1.IH"(5) t(1) by simp
  qed
qed

section \<open>Comments, CDATA sections and document types\<close>

type_synonym parser_state = "string \<times> xml_node list"

definition skipspace :: "string \<Rightarrow> string" where
  "skipspace s = dropWhile isBlank s"

text \<open>A node without children is added to the cursor.\<close>

definition append_leaf :: "xml_node_type \<Rightarrow> string \<Rightarrow> xml_node list \<Rightarrow> xml_node list" where
  "append_leaf type v st = atCursor (append_node (with_value v (newNode type))) st"

definition eolMode :: "nat \<Rightarrow> strconv_mode" where
  "eolMode optmsk = (if has_flag optmsk parse_eol then Eol else Simple)"

definition commentEnd :: "char \<Rightarrow> string \<Rightarrow> bool" where
  "commentEnd endch s \<longleftrightarrow> starts ''--'' s \<and> ENDSWITH endch (peek 2 s) (CHR ''>'')"

definition cdataEnd :: "char \<Rightarrow> string \<Rightarrow> bool" where
  "cdataEnd endch s \<longleftrightarrow> starts '']]'' s \<and> ENDSWITH endch (peek 2 s) (CHR ''>'')"

text \<open>\<open>s\<close> is behind the exclamation mark.\<close>

definition parse_exclamation :: "nat \<Rightarrow> char \<Rightarrow> string \<Rightarrow> xml_node list \<Rightarrow> xml_parse_status + parser_state" where
  "parse_exclamation optmsk endch s st =
     (if peek 0 s = CHR ''-'' then
        (if peek 1 s = CHR ''-'' then
           (let (v, r) = strconv (commentEnd endch) (eolMode optmsk) False (drop 2 s)
            in if r = [] then Inl status_bad_comment
               else Inr (drop (if peek 2 r = CHR ''>'' then 3 else 2) r,
                         if has_flag optmsk parse_comments then append_leaf node_comment v st else st))
         else Inl status_bad_comment)
      else if peek 0 s = CHR ''['' then
        (if starts ''[CDATA['' s then
           (let (v, r) = strconv (cdataEnd endch) (eolMode optmsk) False (drop 7 s)
            in if r = [] then Inl status_bad_cdata
               else Inr (drop (if peek 2 r = CHR ''>'' then 3 else 2) r,
                         if has_flag optmsk parse_cdata then append_leaf node_cdata v st else st))
         else Inl status_bad_cdata)
      else if starts ''DOCTYP'' s \<and> ENDSWITH endch (peek 6 s) (CHR ''E'') then
        (if has_parent st then Inl status_bad_doctype
         else (case parse_doctype_group endch (''<!'' @ s) of
                 Inl e \<Rightarrow> Inl e
               | Inr r \<Rightarrow> Inr (drop 1 r,
                   if has_flag optmsk parse_doctype
                   then append_leaf node_doctype (skipspace (scanned (drop 7 s) r)) st else st)))
      else if s = [] \<and> endch = CHR ''-'' then Inl status_bad_comment
      else if s = [] \<and> endch = CHR ''['' then Inl status_bad_cdata
      else Inl status_unrecognized_tag)"

lemma strconv_rest_shorter: "strconv stop mode escape s = (v, r) \<Longrightarrow> length r \<le> length s"
  using strconv_shorter [of stop mode escape s] by simp

lemma parse_exclamation_shorter:
  assumes "parse_exclamation optmsk endch s st = Inr (r, st')"
  shows "length r \<le> length s"
proof -
  have "length r' \<le> length s" if "parse_doctype_group endch (''<!'' @ s) = Inr r'" for r'
    using groupLoop_shorter [of endch 0 s r'] that by (simp add: parse_doctype_group_def)
  then show ?thesis
    using assms by (fastforce simp: parse_exclamation_def split: if_splits prod.splits sum.splits
        dest: strconv_rest_shorter)
qed

section \<open>Processing instructions and declarations\<close>

definition piEnd :: "char \<Rightarrow> string \<Rightarrow> bool" where
  "piEnd endch s \<longleftrightarrow> peek 0 s = CHR ''?'' \<and> ENDSWITH endch (peek 1 s) (CHR ''>'')"

definition isDeclarationName :: "string \<Rightarrow> bool" where
  "isDeclarationName target \<longleftrightarrow> map lowerCode target = map charCode ''xml''"

text \<open>
  \<open>s\<close> is behind the question mark. A declaration stays open: its attributes are parsed next, up to its end, which is
  made to look like the end of an empty element.
\<close>

definition parse_question :: "nat \<Rightarrow> char \<Rightarrow> string \<Rightarrow> xml_node list \<Rightarrow> xml_parse_status + parser_state" where
  "parse_question optmsk endch s st =
     (if \<not> isStartSymbol (peek 0 s) then Inl status_bad_pi
      else (let target = takeWhile isSymbol s; r = dropWhile isSymbol s; declaration = isDeclarationName target
            in if r = [] then Inl status_bad_pi
               else if has_flag optmsk (if declaration then parse_declaration else parse_pi) then
                 (if declaration \<and> has_parent st then Inl status_bad_pi
                  else (let opened = with_name target (newNode (if declaration then node_declaration else node_pi)) # st;
                            u = tl r
                        in if hd r = CHR ''?'' then
                             (if ENDSWITH endch (peek 0 u) (CHR ''>'')
                              then Inr (if peek 0 u = CHR ''>'' then tl u else u, pop_node opened)
                              else Inl status_bad_pi)
                           else if isBlank (hd r) then
                             (let v = skipspace u; e = scanFor (piEnd endch) v
                              in if e = [] then Inl status_bad_pi
                                 else if declaration then Inr (scanned v e @ CHR ''/'' # tl e, opened)
                                 else Inr (drop (if peek 1 e = CHR ''>'' then 2 else 1) e,
                                           pop_node (atCursor (with_value (scanned v e)) opened)))
                           else Inl status_bad_pi))
               else (let e = scanFor (piEnd endch) r
                     in if e = [] then Inl status_bad_pi
                        else Inr (drop (if peek 1 e = CHR ''>'' then 2 else 1) e, st))))"

lemma skipspace_shorter [simp]: "length (skipspace s) \<le> length s"
  by (simp add: skipspace_def length_dropWhile_le)

lemma parse_question_shorter:
  assumes "parse_question optmsk endch s st = Inr (r, st')"
  shows "length r \<le> length s"
proof -
  let ?r = "dropWhile isSymbol s"
  let ?v = "skipspace (tl ?r)" let ?e = "scanFor (piEnd endch) ?v"
  have v: "length ?v \<le> length s" "length (tl ?r) \<le> length s" "length ?r \<le> length s"
    using skipspace_shorter [of "tl ?r"] length_dropWhile_le [of isSymbol s] by simp_all
  have e: "length ?e \<le> length ?v" "length (scanFor (piEnd endch) ?r) \<le> length s"
    using le_trans [OF scanFor_shorter v(3)] by simp_all
  then have "length (scanned ?v ?e @ CHR ''/'' # tl ?e) \<le> length s" if "?e \<noteq> []"
    using that v(1) by (cases ?e) (simp_all add: scanned_def)
  moreover have "length (drop n ?e) \<le> length s" "length (drop n (scanFor (piEnd endch) ?r)) \<le> length s" "length (tl (tl ?r)) \<le> length s" for n
    using v e le_trans [OF e(1) v(1)] by (simp_all add: le_diff_conv)
  ultimately show ?thesis
    using assms v unfolding parse_question_def Let_def by (auto split: if_splits)
qed

section \<open>Tags\<close>

definition attributeMode :: "nat \<Rightarrow> strconv_mode" where
  "attributeMode optmsk =
     (if has_flag optmsk parse_wnorm_attribute then Wnorm
      else if has_flag optmsk parse_wconv_attribute then Wconv
      else if has_flag optmsk parse_eol then Eol else Simple)"

definition strconv_attribute :: "nat \<Rightarrow> char \<Rightarrow> string \<Rightarrow> (string \<times> string) option" where
  "strconv_attribute optmsk end_quote s =
     (let mode = attributeMode optmsk;
          (v, r) = strconv (\<lambda>s. hd s = end_quote) mode (has_flag optmsk parse_escapes)
            (if mode = Wnorm then skipspace s else s)
      in if r = [] then None else Some (c_str (if mode = Wnorm then trimRight v else v), tl r))"

definition parse_attribute :: "nat \<Rightarrow> string \<Rightarrow> xml_parse_status + (string \<times> string) \<times> string" where
  "parse_attribute optmsk s =
     (let name = takeWhile isSymbol s; r = dropWhile isSymbol s;
          r = (if isBlank (peek 0 r) then skipspace (drop 1 r) else r)
      in if peek 0 r = CHR ''='' then
           (let v = skipspace (drop 1 r)
            in if peek 0 v = CHR 0x22 \<or> peek 0 v = CHR 0x27 then
                 (case strconv_attribute optmsk (peek 0 v) (drop 1 v) of
                    None \<Rightarrow> Inl status_bad_attribute
                  | Some (value, rest) \<Rightarrow>
                      if isStartSymbol (peek 0 rest) then Inl status_bad_attribute else Inr ((name, value), rest))
               else Inl status_bad_attribute)
         else Inl status_bad_attribute)"

lemma strconv_attribute_shorter:
  assumes "strconv_attribute optmsk q s = Some (v, r)"
  shows "length r \<le> length s"
proof -
  define t where "t = (if attributeMode optmsk = Wnorm then skipspace s else s)"
  obtain w u where u: "strconv (\<lambda>s. hd s = q) (attributeMode optmsk) (has_flag optmsk parse_escapes) t = (w, u)"
    by (cases "strconv (\<lambda>s. hd s = q) (attributeMode optmsk) (has_flag optmsk parse_escapes) t")
  then have "r = tl u" using assms by (simp add: strconv_attribute_def Let_def flip: t_def split: if_splits)
  moreover have "length t \<le> length s" by (simp add: t_def)
  ultimately show ?thesis using strconv_rest_shorter [OF u] by simp
qed

lemma parse_attribute_shorter:
  assumes "parse_attribute optmsk s = Inr (a, r)"
  shows "length r < length s"
proof -
  define q where "q = dropWhile isSymbol s"
  define u where "u = (if isBlank (peek 0 q) then skipspace (drop 1 q) else q)"
  define v where "v = skipspace (drop 1 u)"
  have "length (skipspace (drop 1 q)) \<le> length q" using skipspace_shorter [of "drop 1 q"] by simp
  then have "length u \<le> length q" by (simp add: u_def)
  moreover have "length q \<le> length s" by (simp add: q_def length_dropWhile_le)
  moreover have "length v \<le> length u - 1" using skipspace_shorter [of "drop 1 u"] by (simp add: v_def)
  ultimately have l: "length q \<le> length s" "length u \<le> length q" "length v \<le> length u - 1" by simp_all
  obtain w where "peek 0 u = CHR ''=''" "strconv_attribute optmsk (peek 0 v) (drop 1 v) = Some (w, r)"
    using assms that unfolding parse_attribute_def Let_def q_def [symmetric] u_def [symmetric] v_def [symmetric]
    by (auto split: if_splits option.splits)
  then show ?thesis using l strconv_attribute_shorter [of optmsk "peek 0 v" "drop 1 v" w r]
    by (cases u) (auto simp: peek_def)
qed

text \<open>Attributes up to the end of the tag, which closes an empty element.\<close>

function parse_attributes :: "nat \<Rightarrow> char \<Rightarrow> string \<Rightarrow> xml_node list \<Rightarrow> xml_parse_status + parser_state" where
  "parse_attributes optmsk endch s0 st =
     (let s = skipspace s0
      in if isStartSymbol (peek 0 s) then
           (case parse_attribute optmsk s of
              Inl e \<Rightarrow> Inl e
            | Inr (a, r) \<Rightarrow> parse_attributes optmsk endch r (atCursor (append_attribute a) st))
         else if peek 0 s = CHR ''/'' then
           (if peek 1 s = CHR ''>'' then Inr (drop 2 s, pop_node st)
            else if tl s = [] \<and> endch = CHR ''>'' then Inr ([], pop_node st)
            else Inl status_bad_start_element)
         else if peek 0 s = CHR ''>'' then Inr (tl s, st)
         else if s = [] \<and> endch = CHR ''>'' then Inr ([], st)
         else Inl status_bad_start_element)"
  by pat_completeness auto
termination
  by (relation "measure (\<lambda>(optmsk, endch, s, st). length s)")
    (auto dest!: parse_attribute_shorter intro: less_le_trans)

declare parse_attributes.simps [simp del]

lemma parse_attributes_shorter: "parse_attributes optmsk endch s st = Inr (r, st') \<Longrightarrow> length r \<le> length s"
proof (induction optmsk endch s st rule: parse_attributes.induct)
  case (1 optmsk endch s0 st)
  note g = "1.prems" [unfolded parse_attributes.simps [of optmsk endch s0 st] Let_def]
  define s where "s = skipspace s0"
  have s: "length s \<le> length s0" by (simp add: s_def)
  show ?case
  proof (cases "isStartSymbol (peek 0 s)")
    case True
    then obtain a u where u: "parse_attribute optmsk s = Inr (a, u)"
      "parse_attributes optmsk endch u (atCursor (append_attribute a) st) = Inr (r, st')"
      using g by (auto simp: s_def split: sum.splits)
    have "length r \<le> length u" using "1.IH" [OF s_def True u(1) refl u(2)] .
    then show ?thesis using parse_attribute_shorter [OF u(1)] s by simp
  next
    case False
    then have "length r \<le> length s"
      using g unfolding s_def [symmetric] by (auto split: if_splits)
    then show ?thesis using s by simp
  qed
qed

definition parse_end_element :: "char \<Rightarrow> string \<Rightarrow> xml_node list \<Rightarrow> xml_parse_status + parser_state" where
  "parse_end_element endch s st =
     (case node_name (hd st) of
        None \<Rightarrow> Inl status_end_element_mismatch
      | Some name \<Rightarrow>
          (let n = takeWhile isSymbol s; r = dropWhile isSymbol s; u = skipspace r
           in if n \<noteq> name then
                (if starts n name \<and> r = [] \<and> drop (length n) name = [endch] then Inl status_bad_end_element
                 else Inl status_end_element_mismatch)
              else if u = [] then (if endch \<noteq> CHR ''>'' then Inl status_bad_end_element else Inr ([], pop_node st))
              else if hd u \<noteq> CHR ''>'' then Inl status_bad_end_element
              else Inr (tl u, pop_node st)))"

text \<open>\<open>s\<close> is behind the opening bracket.\<close>

definition parse_tag :: "nat \<Rightarrow> char \<Rightarrow> string \<Rightarrow> xml_node list \<Rightarrow> xml_parse_status + parser_state" where
  "parse_tag optmsk endch s st =
     (if isStartSymbol (peek 0 s) then
        (let opened = with_name (takeWhile isSymbol s) (newNode node_element) # st;
             r = dropWhile isSymbol s; ch = peek 0 r; u = drop 1 r
         in if ch = CHR ''>'' then Inr (u, opened)
            else if isBlank ch then parse_attributes optmsk endch u opened
            else if ch = CHR ''/'' then
              (if ENDSWITH endch (peek 0 u) (CHR ''>'')
               then Inr (if peek 0 u = CHR ''>'' then tl u else u, pop_node opened)
               else Inl status_bad_start_element)
            else if r = [] then (if endch \<noteq> CHR ''>'' then Inl status_bad_start_element else Inr ([], opened))
            else Inl status_bad_start_element)
      else if peek 0 s = CHR ''/'' then parse_end_element endch (tl s) st
      else if peek 0 s = CHR ''?'' then
        (case parse_question optmsk endch (tl s) st of
           Inl e \<Rightarrow> Inl e
         | Inr (r, st') \<Rightarrow>
             if node_type (hd st') = node_declaration then parse_attributes optmsk endch r st' else Inr (r, st'))
      else if peek 0 s = CHR ''!'' then parse_exclamation optmsk endch (tl s) st
      else if s = [] \<and> endch = CHR ''?'' then Inl status_bad_pi
      else Inl status_unrecognized_tag)"

lemma parse_end_element_shorter:
  assumes "parse_end_element endch s st = Inr (r, st')"
  shows "length r \<le> length s"
proof -
  have "length (skipspace (dropWhile isSymbol s)) \<le> length s"
    by (rule le_trans [OF skipspace_shorter length_dropWhile_le])
  then show ?thesis
    using assms by (auto simp: parse_end_element_def Let_def split: option.splits if_splits)
qed

lemma parse_tag_shorter:
  assumes "parse_tag optmsk endch s st = Inr (r, st')"
  shows "length r \<le> length s"
proof -
  have t: "length (tl s) \<le> length s" by simp
  have d: "length (drop n (dropWhile isSymbol s)) \<le> length s" for n
    using length_dropWhile_le [of isSymbol s] by simp
  consider (start) "isStartSymbol (peek 0 s)" | (other) "\<not> isStartSymbol (peek 0 s)" by blast
  then show ?thesis
  proof cases
    case start
    then have "length r \<le> length (drop 1 (dropWhile isSymbol s)) \<or> length r \<le> length (drop 1 (drop 1 (dropWhile isSymbol s)))"
      using assms by (auto simp: parse_tag_def Let_def drop_Suc split: if_splits dest: parse_attributes_shorter)
    then show ?thesis using d [of 1] by auto
  next
    case other
    then consider "parse_end_element endch (tl s) st = Inr (r, st')"
      | "parse_exclamation optmsk endch (tl s) st = Inr (r, st')"
      | u st2 where "parse_question optmsk endch (tl s) st = Inr (u, st2)"
          "parse_attributes optmsk endch u st2 = Inr (r, st') \<or> u = r"
      using assms by (auto simp: parse_tag_def split: if_splits sum.splits)
    then show ?thesis
      using t parse_end_element_shorter parse_exclamation_shorter parse_question_shorter parse_attributes_shorter
      by cases (meson le_trans | blast)+
  qed
qed

section \<open>The tree\<close>

text \<open>Text between tags: its converted value, and what follows from the next bracket on.\<close>

definition strconv_pcdata :: "nat \<Rightarrow> string \<Rightarrow> string \<times> string" where
  "strconv_pcdata optmsk s =
     (let (v, r) = strconv (\<lambda>s. hd s = CHR ''<'') (eolMode optmsk) (has_flag optmsk parse_escapes) s
      in (c_str (if has_flag optmsk parse_trim_pcdata then trimRight v else v), r))"

definition skips_whitespace :: "nat \<Rightarrow> string \<Rightarrow> xml_node list \<Rightarrow> bool" where
  "skips_whitespace optmsk w st \<longleftrightarrow>
     (w = [] \<or> hd w = CHR ''<'') \<and>
     (\<not> (has_flag optmsk parse_ws_pcdata \<or> has_flag optmsk parse_ws_pcdata_single) \<or>
      has_flag optmsk parse_trim_pcdata \<or>
      has_flag optmsk parse_ws_pcdata_single \<and> (\<not> starts ''</'' w \<or> first_child (hd st) \<noteq> []))"

definition parse_pcdata :: "nat \<Rightarrow> string \<Rightarrow> xml_node list \<Rightarrow> parser_state" where
  "parse_pcdata optmsk s st =
     (if has_parent st \<or> has_flag optmsk parse_fragment then
        (let (v, r) = strconv_pcdata optmsk s
         in (r, if has_flag optmsk parse_embed_pcdata \<and> has_parent st \<and> first_child (hd st) = [] \<and> node_value (hd st) = None
                then atCursor (with_value v) st else append_leaf node_pcdata v st))
      else (scanFor (\<lambda>s. hd s = CHR ''<'') s, st))"

definition finish :: "xml_node list \<Rightarrow> xml_parse_status + xml_node" where
  "finish st = (if has_parent st then Inl status_end_element_mismatch else Inr (hd st))"

lemma parse_pcdata_shorter:
  assumes "parse_pcdata optmsk s st = (r, st')"
  shows "length r \<le> length s"
  using assms scanFor_shorter [of "\<lambda>s. hd s = CHR ''<''" s]
  by (auto simp: parse_pcdata_def strconv_pcdata_def Let_def split: if_splits prod.splits dest: strconv_rest_shorter)

function parse_tree :: "nat \<Rightarrow> char \<Rightarrow> string \<Rightarrow> xml_node list \<Rightarrow> xml_parse_status + xml_node" where
  "parse_tree optmsk endch s st =
     (if s = [] then finish st
      else if hd s = CHR ''<'' then
        (case parse_tag optmsk endch (tl s) st of
           Inl e \<Rightarrow> Inl e
         | Inr (r, st') \<Rightarrow> parse_tree optmsk endch r st')
      else (let w = skipspace s
            in if skips_whitespace optmsk w st then parse_tree optmsk endch w st
               else (let (r, st') = parse_pcdata optmsk (if has_flag optmsk parse_trim_pcdata then w else s) st
                     in if r = [] \<or> tl r = [] \<and> (has_parent st \<or> has_flag optmsk parse_fragment) then finish st'
                        else (case parse_tag optmsk endch (tl r) st' of
                                Inl e \<Rightarrow> Inl e
                              | Inr (u, st'') \<Rightarrow> parse_tree optmsk endch u st''))))"
  by pat_completeness auto

termination
proof (relation "measure (\<lambda>(optmsk, endch, s, st). length s)", goal_cases)
  case (2 optmsk endch s st x r st')
  then have "length r \<le> length (tl s)" by (auto dest: parse_tag_shorter)
  with 2 show ?case by (cases s) auto
next
  case (3 optmsk endch s st w)
  then have "w \<noteq> s" by (auto simp: skips_whitespace_def)
  then have "isBlank (hd s)" using 3 by (cases s) (auto simp: skipspace_def split: if_splits)
  then have "length w \<le> length (tl s)"
    using 3 skipspace_shorter [of "tl s"] by (cases s) (auto simp: skipspace_def)
  with 3 show ?case by (cases s) auto
next
  case (4 optmsk endch s st w x r st' y u st'')
  have "length (if has_flag optmsk parse_trim_pcdata then w else s) \<le> length s" using 4 by simp
  then have "length r \<le> length s"
    using 4 parse_pcdata_shorter [of optmsk "if has_flag optmsk parse_trim_pcdata then w else s" st r st'] by simp
  moreover have "length u \<le> length (tl r)" using 4 by (auto dest: parse_tag_shorter)
  moreover have "r \<noteq> []" using 4 by auto
  ultimately show ?case using 4 by (cases r) auto
qed simp

declare parse_tree.simps [simp del]

section \<open>Parsing a buffer\<close>

definition parse_skip_bom :: "string \<Rightarrow> string" where
  "parse_skip_bom s = (if starts [CHR 0xEF, CHR 0xBB, CHR 0xBF] s then drop 3 s else s)"

definition has_element_node_siblings :: "xml_node list \<Rightarrow> bool" where
  "has_element_node_siblings nodes \<longleftrightarrow> list_ex (\<lambda>n. node_type n = node_element) nodes"

text \<open>\<open>xml_parser::parse\<close> into an empty document.\<close>

definition parse :: "nat \<Rightarrow> string \<Rightarrow> xml_parse_status + xml_node" where
  "parse optmsk buffer =
     (if buffer = [] then
        (if has_flag optmsk parse_fragment then Inr (newNode node_document) else Inl status_no_document_element)
      else (let endch = last buffer
            in case parse_tree optmsk endch (parse_skip_bom (c_str (butlast buffer))) [newNode node_document] of
                 Inl e \<Rightarrow> Inl e
               | Inr doc \<Rightarrow>
                   if endch = CHR ''<'' then Inl status_unrecognized_tag
                   else if \<not> has_flag optmsk parse_fragment \<and> \<not> has_element_node_siblings (first_child doc)
                   then Inl status_no_document_element
                   else Inr doc))"

end
