(* ===== verification/PugiPrinter.thy ===== *)
theory PugiPrinter
  imports PugiParser
begin

text \<open>
  \<open>src/arxml/pugixml.cpp\<close>, printing: attributes, tags, text, CDATA sections, comments and instructions, and the
  indentation of \<open>node_output\<close>, under every combination of format flags; saving a document. The output is written in
  UTF-8, the encoding the strings have, so that the buffered writer passes them through. Then printed trees are shown to be
  parsed back.
\<close>

section \<open>Printing\<close>

function text_output_cdata :: "string \<Rightarrow> string" where
  "text_output_cdata s =
     (let e = scanFor (starts '']]>'') s
      in if e = [] then ''<![CDATA['' @ s @ '']]>''
         else ''<![CDATA['' @ scanned s e @ '']]'' @ '']]>'' @ text_output_cdata (drop 2 e))"
  by pat_completeness auto
termination
proof (relation "measure length", goal_cases)
  case (2 s e)
  have "length e \<le> length s" using 2(1) by simp
  moreover have "length (drop 2 e) < length e" using 2(2) by simp
  ultimately show ?case by simp
qed simp

declare text_output_cdata.simps [simp del]

fun comment_text :: "string \<Rightarrow> string" where
  "comment_text [] = []"
| "comment_text (c # s) =
     (if c = CHR ''-'' \<and> (s = [] \<or> hd s = CHR ''-'') then ''- '' @ comment_text s else c # comment_text s)"

definition node_output_comment :: "string \<Rightarrow> string" where
  "node_output_comment s = ''<!--'' @ comment_text s @ ''-->''"

fun node_output_pi_value :: "string \<Rightarrow> string" where
  "node_output_pi_value [] = []"
| "node_output_pi_value [c] = [c]"
| "node_output_pi_value (c # d # s) =
     (if c = CHR ''?'' \<and> d = CHR ''>'' then ''? >'' @ node_output_pi_value s else c # node_output_pi_value (d # s))"

definition text_output_indent :: "string \<Rightarrow> nat \<Rightarrow> string" where
  "text_output_indent indent depth = concat (replicate depth indent)"

definition nameOf :: "xml_node \<Rightarrow> string" where
  "nameOf node = (case node_name node of Some n \<Rightarrow> n | None \<Rightarrow> '':anonymous'')"

definition node_output_attributes :: "nat \<Rightarrow> string \<Rightarrow> nat \<Rightarrow> (string \<times> string) list \<Rightarrow> string" where
  "node_output_attributes flags indent depth attributes =
     (let quote = (if has_flag flags format_attribute_single_quote then [CHR 0x27] else [CHR 0x22])
      in concat (map (\<lambda>(name, value).
           (if has_flag flags format_indent_attributes \<and> \<not> has_flag flags format_raw
            then ''\<newline>'' @ text_output_indent indent (depth + 1) else '' '') @
           name @ ''='' @ quote @ text_output ctx_special_attr flags value @ quote) attributes))"

definition valueOf :: "xml_node \<Rightarrow> string" where
  "valueOf node = (case node_value node of Some v \<Rightarrow> v | None \<Rightarrow> [])"

definition node_output_simple :: "nat \<Rightarrow> xml_node \<Rightarrow> string" where
  "node_output_simple flags node =
     (case node_type node of
        node_pcdata \<Rightarrow> text_output ctx_special_pcdata flags (valueOf node)
      | node_cdata \<Rightarrow> text_output_cdata (valueOf node)
      | node_comment \<Rightarrow> node_output_comment (valueOf node)
      | node_pi \<Rightarrow> ''<?'' @ nameOf node @
          (case node_value node of None \<Rightarrow> [] | Some v \<Rightarrow> '' '' @ node_output_pi_value v) @ ''?>''
      | node_declaration \<Rightarrow> ''<?'' @ nameOf node @
          node_output_attributes (flags OR format_raw) [] 0 (first_attribute node) @ ''?>''
      | node_doctype \<Rightarrow> ''<!DOCTYPE'' @ (case node_value node of None \<Rightarrow> [] | Some v \<Rightarrow> '' '' @ v) @ ''>''
      | _ \<Rightarrow> [])"

text \<open>The start of an element, up to its children if it has any.\<close>

definition node_output_start :: "nat \<Rightarrow> string \<Rightarrow> nat \<Rightarrow> xml_node \<Rightarrow> string" where
  "node_output_start flags indent depth node =
     ''<'' @ nameOf node @ node_output_attributes flags indent depth (first_attribute node) @
     (case node_value node of
        None \<Rightarrow>
          if first_child node \<noteq> [] then ''>''
          else if has_flag flags format_no_empty_element_tags then ''></'' @ nameOf node @ ''>''
          else (if has_flag flags format_raw then [] else '' '') @ ''/>''
      | Some v \<Rightarrow>
          ''>'' @ text_output ctx_special_pcdata flags v @
          (if first_child node \<noteq> [] then [] else ''</'' @ nameOf node @ ''>''))"

definition node_output_end :: "xml_node \<Rightarrow> string" where
  "node_output_end node = ''</'' @ nameOf node @ ''>''"

text \<open>The flags \<open>indent_newline\<close> and \<open>indent_indent\<close>, and what they write before a tag.\<close>

type_synonym indent_flags = "bool \<times> bool"

definition lead :: "nat \<Rightarrow> string \<Rightarrow> nat \<Rightarrow> indent_flags \<Rightarrow> string" where
  "lead flags indent depth f =
     (if fst f \<and> \<not> has_flag flags format_raw then ''\<newline>'' else []) @
     (if snd f \<and> (has_flag flags format_indent \<or> has_flag flags format_indent_attributes) \<and> \<not> has_flag flags format_raw
      then text_output_indent indent depth else [])"

fun nodeOutput :: "nat \<Rightarrow> string \<Rightarrow> nat \<Rightarrow> indent_flags \<Rightarrow> xml_node \<Rightarrow> string \<times> indent_flags"
and nodesOutput :: "nat \<Rightarrow> string \<Rightarrow> nat \<Rightarrow> indent_flags \<Rightarrow> xml_node list \<Rightarrow> string \<times> indent_flags"
where
  "nodeOutput flags indent depth f (Node t n v as cs) =
     (let node = Node t n v as cs
      in if t = node_pcdata \<or> t = node_cdata then (node_output_simple flags node, (False, False))
         else if t = node_element then
           (if cs = [] then (lead flags indent depth f @ node_output_start flags indent depth node, (True, True))
            else (let (inner, g) = nodesOutput flags indent (depth + 1) (if v = None then (True, True) else (False, False)) cs
                  in (lead flags indent depth f @ node_output_start flags indent depth node @ inner @
                      lead flags indent depth g @ node_output_end node, (True, True))))
         else if t = node_document then
           (let (inner, g) = nodesOutput flags indent depth (False, True) cs in (lead flags indent depth f @ inner, g))
         else (lead flags indent depth f @ node_output_simple flags node, (True, True)))"
| "nodesOutput flags indent depth f [] = ([], f)"
| "nodesOutput flags indent depth f (c # cs) =
     (let (s, g) = nodeOutput flags indent depth f c; (r, h) = nodesOutput flags indent depth g cs in (s @ r, h))"

definition node_output :: "nat \<Rightarrow> string \<Rightarrow> nat \<Rightarrow> xml_node \<Rightarrow> string" where
  "node_output flags indent depth root =
     (let (s, g) = nodeOutput flags indent depth (False, True) root
      in s @ (if fst g \<and> \<not> has_flag flags format_raw then ''\<newline>'' else []))"

text \<open>\<open>xml_node::print\<close> and \<open>xml_document::save\<close> with their default arguments.\<close>

definition xml_print :: "xml_node \<Rightarrow> string" where
  "xml_print node = node_output format_default [CHR 0x09] 0 node"

section \<open>What is read back\<close>

text \<open>
  A tree a parser with flags \<open>optmsk\<close> can read back from its print: without escapes (the manifest reader) no character
  of it may need one. Text of white space only is not kept by the parser, and neighbouring texts become one.
\<close>

definition name_ok :: "string \<Rightarrow> bool" where
  "name_ok n \<longleftrightarrow> n \<noteq> [] \<and> isStartSymbol (hd n) \<and> list_all isSymbol n"

definition text_ok :: "nat \<Rightarrow> string \<Rightarrow> bool" where
  "text_ok optmsk v \<longleftrightarrow>
     list_ex (\<lambda>c. \<not> isBlank c) v \<and>
     list_all (\<lambda>c. c \<noteq> CHR 0x00 \<and> (has_flag optmsk parse_eol \<longrightarrow> c \<noteq> CHR 0x0D) \<and>
                   (has_flag optmsk parse_escapes \<or> \<not> IS_CHARTYPEX c ctx_special_pcdata)) v"

definition attribute_ok :: "nat \<Rightarrow> string \<times> string \<Rightarrow> bool" where
  "attribute_ok optmsk a \<longleftrightarrow>
     name_ok (fst a) \<and>
     list_all (\<lambda>c. c \<noteq> CHR 0x00 \<and> (has_flag optmsk parse_escapes \<or> c = CHR 0x27 \<or> \<not> IS_CHARTYPEX c ctx_special_attr)) (snd a)"

definition cdata_ok :: "nat \<Rightarrow> string \<Rightarrow> bool" where
  "cdata_ok optmsk v \<longleftrightarrow>
     has_flag optmsk parse_cdata \<and> scanFor (starts '']]>'') v = [] \<and> CHR 0x00 \<notin> set v \<and> (has_flag optmsk parse_eol \<longrightarrow> CHR 0x0D \<notin> set v)"

definition is_pcdata :: "xml_node \<Rightarrow> bool" where
  "is_pcdata node \<longleftrightarrow> node_type node = node_pcdata"

fun readable :: "nat \<Rightarrow> xml_node \<Rightarrow> bool" where
  "readable optmsk (Node t n v as cs) \<longleftrightarrow>
     (case t of
        node_element \<Rightarrow>
          (case n of Some x \<Rightarrow> name_ok x | None \<Rightarrow> False) \<and> v = None \<and> list_all (attribute_ok optmsk) as \<and>
          list_all (readable optmsk) cs \<and> successively (\<lambda>a b. \<not> (is_pcdata a \<and> is_pcdata b)) cs
      | node_pcdata \<Rightarrow> n = None \<and> (case v of Some x \<Rightarrow> text_ok optmsk x | None \<Rightarrow> False) \<and> as = [] \<and> cs = []
      | node_cdata \<Rightarrow> n = None \<and> (case v of Some x \<Rightarrow> cdata_ok optmsk x | None \<Rightarrow> False) \<and> as = [] \<and> cs = []
      | _ \<Rightarrow> False)"

definition plain_options :: "nat \<Rightarrow> bool" where
  "plain_options optmsk \<longleftrightarrow>
     \<not> has_flag optmsk parse_trim_pcdata \<and> \<not> has_flag optmsk parse_embed_pcdata \<and> \<not> has_flag optmsk parse_ws_pcdata \<and>
     \<not> has_flag optmsk parse_ws_pcdata_single \<and> \<not> has_flag optmsk parse_wnorm_attribute"

lemma plain_parse_declaration: "plain_options parse_declaration"
  by (simp add: plain_options_def has_flag_def parse_flags)

lemma plain_parse_default: "plain_options parse_default"
  by (simp add: plain_options_def has_flag_def parse_flags parse_default_def)

lemma default_flags [simp]:
  "has_flag format_default format_indent" "\<not> has_flag format_default format_raw"
  "\<not> has_flag format_default format_no_escapes" "\<not> has_flag format_default format_indent_attributes"
  "\<not> has_flag format_default format_attribute_single_quote" "\<not> has_flag format_default format_no_empty_element_tags"
  "\<not> has_flag format_default format_no_declaration"
  by (simp_all add: has_flag_def format_default_def format_indent_def format_raw_def format_no_escapes_def
      format_indent_attributes_def format_attribute_single_quote_def format_no_empty_element_tags_def
      format_no_declaration_def)

subsection \<open>White space, text and CDATA sections\<close>

lemma skipspace_blanks: "list_all isBlank ws \<Longrightarrow> skipspace (ws @ r) = skipspace r"
  by (induction ws) (simp_all add: skipspace_def)

lemma not_blank [simp]:
  "\<not> isBlank (CHR ''<'')" "\<not> isBlank (CHR ''/'')" "\<not> isBlank (CHR ''>'')" "\<not> isBlank (CHR ''='')" "\<not> isBlank (CHR 0x22)"
  "isBlank (CHR '' '')" "isBlank (CHR 0x0A)" "isBlank (CHR 0x09)"
  by (simp_all add: space_iff)

lemma not_symbol [simp]:
  "\<not> isSymbol (CHR ''<'')" "\<not> isSymbol (CHR ''/'')" "\<not> isSymbol (CHR ''>'')" "\<not> isSymbol (CHR ''='')" "\<not> isSymbol (CHR 0x22)"
  "\<not> isSymbol (CHR '' '')" "\<not> isSymbol (CHR ''?'')" "\<not> isSymbol (CHR ''!'')" "\<not> isSymbol (CHR 0x00)"
  by (rule notI, drule symbol_iff, simp)+

lemma no_start: "\<not> isSymbol c \<Longrightarrow> \<not> isStartSymbol c"
  using start_symbol_symbol by blast

lemma not_start [simp]:
  "\<not> isStartSymbol (CHR ''<'')" "\<not> isStartSymbol (CHR ''/'')" "\<not> isStartSymbol (CHR ''>'')" "\<not> isStartSymbol (CHR '' '')"
  "\<not> isStartSymbol (CHR ''?'')" "\<not> isStartSymbol (CHR ''!'')" "\<not> isStartSymbol (CHR 0x00)"
  by (simp_all add: no_start)

lemma parse_tree_open:
  "parse_tree optmsk endch (CHR ''<'' # s) st =
    (case parse_tag optmsk endch s st of Inl e \<Rightarrow> Inl e | Inr (r, st') \<Rightarrow> parse_tree optmsk endch r st')"
  by (subst parse_tree.simps) simp

lemma parse_tree_blanks:
  assumes "list_all isBlank ws" "plain_options optmsk" "r = [] \<or> hd r = CHR ''<''"
  shows "parse_tree optmsk endch (ws @ r) st = parse_tree optmsk endch r st"
proof (cases ws)
  case (Cons c cs)
  have "skipspace r = r" using assms(3) by (cases r) (auto simp: skipspace_def)
  then have "skipspace (ws @ r) = r" using skipspace_blanks [OF assms(1), of r] by simp
  moreover have "skips_whitespace optmsk r st"
    using assms(2,3) by (simp add: skips_whitespace_def plain_options_def)
  moreover have "c \<noteq> CHR ''<''" using assms(1) Cons by auto
  ultimately show ?thesis
    using Cons by (subst parse_tree.simps) simp
qed simp

lemma c_str_id: "list_all (\<lambda>c. c \<noteq> CHR 0x00) v \<Longrightarrow> c_str v = v"
  by (simp add: c_str_def list_all_iff)

lemma printed_not_open:
  assumes "list_ex (\<lambda>c. \<not> isBlank c) v"
  shows "skipspace (text_output_escaped ctx_special_pcdata format_default v @ r) \<noteq> [] \<and>
    hd (skipspace (text_output_escaped ctx_special_pcdata format_default v @ r)) \<noteq> CHR ''<''"
  using assms
proof (induction v)
  case (Cons c v)
  show ?case
  proof (cases "IS_CHARTYPEX c ctx_special_pcdata")
    case True
    then have "c \<in> {CHR ''&'', CHR ''<'', CHR ''>'', CHR 0x22} \<or> charCode c < 32" by (auto simp: special_pcdata_iff)
    then obtain t where "escapeChar format_default c = CHR ''&'' # t" using escape_read by blast
    then show ?thesis using True by (simp add: text_output_escaped_def skipspace_def space_iff)
  next
    case False
    then have "c \<noteq> CHR ''<''" by (auto simp: special_pcdata_iff)
    then show ?thesis
      using Cons False by (cases "isBlank c") (auto simp: text_output_escaped_def skipspace_def)
  qed
qed simp

definition textNode :: "string \<Rightarrow> xml_node" where
  "textNode v = Node node_pcdata None (Some v) [] []"

lemma parse_tree_text_step:
  assumes "strconv (\<lambda>s. hd s = CHR ''<'') (eolMode optmsk) (has_flag optmsk parse_escapes) s = (v, CHR ''<'' # t)"
    and "list_all (\<lambda>c. c \<noteq> CHR 0x00) v" "skipspace s \<noteq> []" "hd (skipspace s) \<noteq> CHR ''<''"
    and "plain_options optmsk" "has_parent st" "t \<noteq> []"
  shows "parse_tree optmsk endch s st = parse_tree optmsk endch (CHR ''<'' # t) (atCursor (append_node (textNode v)) st)"
proof -
  have "\<not> skips_whitespace optmsk (skipspace s) st" using assms(3,4) by (simp add: skips_whitespace_def)
  moreover have "s \<noteq> []" using assms(3) by (auto simp: skipspace_def)
  moreover have "hd s \<noteq> CHR ''<''"
  proof
    assume "hd s = CHR ''<''"
    then have "skipspace s = s" by (cases s) (auto simp: skipspace_def)
    then show False using assms(4) \<open>hd s = CHR ''<''\<close> by simp
  qed
  moreover have "parse_pcdata optmsk s st = (CHR ''<'' # t, append_leaf node_pcdata v st)"
    using assms(1,5,6) c_str_id [OF assms(2)] by (simp add: parse_pcdata_def strconv_pcdata_def plain_options_def)
  ultimately show ?thesis
    using assms(5,7) by (subst parse_tree.simps)
      (simp add: plain_options_def append_leaf_def newNode_def textNode_def parse_tree_open)
qed

lemma parse_tree_text:
  assumes "text_ok optmsk v" "plain_options optmsk" "has_parent st" "t \<noteq> []"
  shows "parse_tree optmsk endch (text_output_escaped ctx_special_pcdata format_default v @ CHR ''<'' # t) st =
    parse_tree optmsk endch (CHR ''<'' # t) (atCursor (append_node (textNode v)) st)"
proof (rule parse_tree_text_step)
  have ex: "list_ex (\<lambda>c. \<not> isBlank c) v" using assms(1) by (simp add: text_ok_def)
  from printed_not_open [OF ex, of "CHR ''<'' # t"]
  show "skipspace (text_output_escaped ctx_special_pcdata format_default v @ CHR ''<'' # t) \<noteq> []"
    "hd (skipspace (text_output_escaped ctx_special_pcdata format_default v @ CHR ''<'' # t)) \<noteq> CHR ''<''"
    by blast+
  show "list_all (\<lambda>c. c \<noteq> CHR 0x00) v" using assms(1) by (auto simp: text_ok_def list_all_iff)
  show "strconv (\<lambda>s. hd s = CHR ''<'') (eolMode optmsk) (has_flag optmsk parse_escapes)
      (text_output_escaped ctx_special_pcdata format_default v @ CHR ''<'' # t) = (v, CHR ''<'' # t)"
    by (rule text_read) (use assms(1) in \<open>auto simp: text_ok_def eolMode_def list_all_iff split: if_splits\<close>)
qed (use assms in auto)

definition cdataNode :: "string \<Rightarrow> xml_node" where
  "cdataNode v = Node node_cdata None (Some v) [] []"

lemma peek_simps [simp]: "peek 0 (c # s) = c" "peek (Suc n) (c # s) = peek n s" "peek n [] = CHR 0x00"
  "peek 1 (c # s) = peek 0 s" "peek 2 (c # d # s) = peek 0 s"
  by (simp_all add: peek_def numeral_2_eq_2)

lemma cdata_read:
  assumes "scanFor (starts '']]>'') v = []" "CHR 0x00 \<notin> set v" "mode = Simple \<or> mode = Eol \<and> CHR 0x0D \<notin> set v"
  shows "strconv (cdataEnd endch) mode False (v @ '']]>'' @ r) = (v, '']]>'' @ r)"
  using assms
proof (induction v)
  case Nil
  then show ?case
    by (subst strconv.simps) (simp add: cdataEnd_def starts_def ENDSWITH_def)
next
  case (Cons c v)
  have n: "\<not> starts '']]>'' (c # v)" "scanFor (starts '']]>'') v = []"
    using Cons.prems(1) by (auto split: if_splits)
  have "\<not> cdataEnd endch ((c # v) @ '']]>'' @ r)"
  proof
    assume e: "cdataEnd endch ((c # v) @ '']]>'' @ r)"
    then have a: "c = CHR '']''" "peek 0 (v @ '']]>'' @ r) = CHR '']''"
      "peek 1 (v @ '']]>'' @ r) \<in> {CHR ''>'', CHR 0x00}"
      by (cases v; auto simp: cdataEnd_def starts_def ENDSWITH_def)+
    then obtain d w where v: "v = d # w" by (cases v) auto
    with a obtain f u where "w = f # u" by (cases w) auto
    with a v n(1) Cons.prems(2) show False by (auto simp: starts_def)
  qed
  moreover have "strconvStep mode False c s = ([c], s)" for s
    using Cons.prems(3) by (auto simp: strconvStep_def)
  ultimately show ?case
    using Cons n(2) by (subst strconv.simps) auto
qed

lemma parse_tree_cdata:
  assumes "cdata_ok optmsk v"
  shows "parse_tree optmsk endch (text_output_cdata v @ r) st =
    parse_tree optmsk endch r (atCursor (append_node (cdataNode v)) st)"
proof -
  have t: "text_output_cdata v = ''<![CDATA['' @ v @ '']]>''"
    using assms by (subst text_output_cdata.simps) (simp add: cdata_ok_def)
  have "strconv (cdataEnd endch) (eolMode optmsk) False (v @ '']]>'' @ r) = (v, '']]>'' @ r)"
    by (rule cdata_read) (use assms in \<open>auto simp: cdata_ok_def eolMode_def\<close>)
  then have "parse_exclamation optmsk endch (''[CDATA['' @ v @ '']]>'' @ r) st = Inr (r, append_leaf node_cdata v st)"
    using assms by (simp add: parse_exclamation_def starts_def cdata_ok_def)
  then show ?thesis
    by (simp add: t parse_tree_open parse_tag_def append_leaf_def newNode_def cdataNode_def)
qed

subsection \<open>Attributes\<close>

lemma takeWhile_symbols: "list_all isSymbol n \<Longrightarrow> \<not> isSymbol c \<Longrightarrow> takeWhile isSymbol (n @ c # r) = n"
  by (induction n) auto

lemma dropWhile_symbols: "list_all isSymbol n \<Longrightarrow> \<not> isSymbol c \<Longrightarrow> dropWhile isSymbol (n @ c # r) = c # r"
  by (induction n) auto

lemma parse_attribute_printed:
  assumes "attribute_ok optmsk (n, v)" "plain_options optmsk" "\<not> isStartSymbol (peek 0 rest)"
  shows "parse_attribute optmsk (n @ CHR ''='' # CHR 0x22 # text_output_escaped ctx_special_attr format_default v @ CHR 0x22 # rest) =
    Inr ((n, v), rest)"
proof -
  have n: "list_all isSymbol n" using assms(1) by (simp add: attribute_ok_def name_ok_def)
  have m: "attributeMode optmsk \<noteq> Wnorm" using assms(2) by (simp add: plain_options_def attributeMode_def)
  have "strconv (\<lambda>s. hd s = CHR 0x22) (attributeMode optmsk) (has_flag optmsk parse_escapes)
      (text_output_escaped ctx_special_attr format_default v @ CHR 0x22 # rest) = (v, CHR 0x22 # rest)"
    by (rule attribute_read [OF m]) (use assms(1) in \<open>auto simp: attribute_ok_def list_all_iff\<close>)
  moreover have "c_str v = v" by (rule c_str_id) (use assms(1) in \<open>auto simp: attribute_ok_def list_all_iff\<close>)
  ultimately have "strconv_attribute optmsk (CHR 0x22)
      (text_output_escaped ctx_special_attr format_default v @ CHR 0x22 # rest) = Some (v, rest)"
    using m by (simp add: strconv_attribute_def)
  then show ?thesis
    using assms(3) by (simp add: parse_attribute_def takeWhile_symbols [OF n] dropWhile_symbols [OF n] skipspace_def)
qed

lemma node_output_attributes_default:
  "node_output_attributes format_default indent depth [] = []"
  "node_output_attributes format_default indent depth ((n, v) # as) =
     CHR '' '' # n @ CHR ''='' # CHR 0x22 # text_output_escaped ctx_special_attr format_default v @ CHR 0x22 #
     node_output_attributes format_default indent depth as"
  by (simp_all add: node_output_attributes_def text_output_def)

lemma parse_attributes_blank: "parse_attributes optmsk endch (CHR '' '' # s) st = parse_attributes optmsk endch s st"
  by (subst (1 2) parse_attributes.simps) (simp add: skipspace_def)

fun with_attributes :: "(string \<times> string) list \<Rightarrow> xml_node \<Rightarrow> xml_node" where
  "with_attributes as (Node t n v bs cs) = Node t n v (bs @ as) cs"

lemma parse_attributes_printed:
  assumes "list_all (attribute_ok optmsk) as" "plain_options optmsk" "\<not> isStartSymbol (peek 0 rest)"
  shows "parse_attributes optmsk endch (node_output_attributes format_default indent depth as @ rest) (c # st) =
    parse_attributes optmsk endch rest (with_attributes as c # st)"
  using assms(1)
proof (induction as arbitrary: c)
  case Nil
  then show ?case by (cases c) (simp add: node_output_attributes_default)
next
  case (Cons a as)
  obtain n v where a: "a = (n, v)" by (cases a)
  let ?rest = "node_output_attributes format_default indent depth as @ rest"
  let ?s = "n @ CHR ''='' # CHR 0x22 # text_output_escaped ctx_special_attr format_default v @ CHR 0x22 # ?rest"
  have ok: "attribute_ok optmsk (n, v)" using Cons.prems a by simp
  have r: "\<not> isStartSymbol (peek 0 ?rest)"
    using assms(3) by (cases as) (auto simp: node_output_attributes_default split: prod.splits)
  obtain h t where n: "n = h # t" "isStartSymbol h" using ok by (cases n) (auto simp: attribute_ok_def name_ok_def)
  then have "\<not> isBlank h" using start_symbol_symbol symbol_iff by (auto simp: space_iff)
  then have "skipspace ?s = ?s" by (simp add: n skipspace_def)
  then have "parse_attributes optmsk endch ?s (c # st) =
      parse_attributes optmsk endch ?rest (append_attribute (n, v) c # st)"
    using parse_attribute_printed [OF ok assms(2) r] n
    by (subst parse_attributes.simps) simp
  also have "\<dots> = parse_attributes optmsk endch rest (with_attributes as (append_attribute (n, v) c) # st)"
    using Cons by simp
  also have "with_attributes as (append_attribute (n, v) c) = with_attributes (a # as) c"
    by (cases c) (simp add: a)
  finally show ?case
    by (simp add: a node_output_attributes_default parse_attributes_blank)
qed

subsection \<open>Elements\<close>

definition elementNode :: "string \<Rightarrow> (string \<times> string) list \<Rightarrow> xml_node list \<Rightarrow> xml_node" where
  "elementNode x as cs = Node node_element (Some x) None as cs"

lemma parse_tag_start:
  assumes "name_ok x" "list_all (attribute_ok optmsk) as" "plain_options optmsk"
  shows "parse_tag optmsk endch (x @ node_output_attributes format_default indent depth as @ CHR ''>'' # r) st =
      Inr (r, elementNode x as [] # st)"
    "parse_tag optmsk endch (x @ node_output_attributes format_default indent depth as @ '' />'' @ r) st =
      Inr (r, pop_node (elementNode x as [] # st))"
proof -
  obtain h t where x: "x = h # t" "isStartSymbol h" "list_all isSymbol (h # t)"
    using assms(1) by (cases x) (auto simp: name_ok_def)
  have start: "isStartSymbol (peek 0 (x @ y))" for y using x by simp
  have opened: "with_attributes as (with_name x (newNode node_element)) = elementNode x as []"
    by (simp add: newNode_def elementNode_def)
  have gt: "parse_attributes optmsk endch (CHR ''>'' # u) st' = Inr (u, st')" for u st'
    by (subst parse_attributes.simps) (simp add: skipspace_def)
  have slash: "parse_attributes optmsk endch (''/>'' @ u) st' = Inr (u, pop_node st')" for u st'
    by (subst parse_attributes.simps) (simp add: skipspace_def)
  have sp: "parse_attributes optmsk endch ('' />'' @ u) st' = Inr (u, pop_node st')" for u st'
    using slash by (simp add: parse_attributes_blank)
  note attrs = parse_attributes_printed [OF assms(2,3), of _ endch indent depth "with_name x (newNode node_element)" st]
  note sym = takeWhile_symbols [OF x(3)] dropWhile_symbols [OF x(3)]
  have body: "parse_tag optmsk endch (x @ CHR '' '' # u) st =
      parse_attributes optmsk endch (CHR '' '' # u) (with_name x (newNode node_element) # st)" for u
    using start sym by (simp add: parse_tag_def parse_attributes_blank x(1) Let_def)
  show "parse_tag optmsk endch (x @ node_output_attributes format_default indent depth as @ CHR ''>'' # r) st =
      Inr (r, elementNode x as [] # st)"
  proof (cases as)
    case Nil
    then show ?thesis
      using start sym opened by (simp add: parse_tag_def node_output_attributes_default x(1) Let_def newNode_def elementNode_def)
  next
    case (Cons a as')
    then obtain u where "node_output_attributes format_default indent depth as = CHR '' '' # u"
      by (cases a) (simp add: node_output_attributes_default)
    then show ?thesis
      using body [of "u @ CHR ''>'' # r"] attrs [of "CHR ''>'' # r"] gt opened by simp
  qed
  show "parse_tag optmsk endch (x @ node_output_attributes format_default indent depth as @ '' />'' @ r) st =
      Inr (r, pop_node (elementNode x as [] # st))"
  proof (cases as)
    case Nil
    then show ?thesis
      using body [of "''/>'' @ r"] sp opened by (simp add: node_output_attributes_default newNode_def elementNode_def)
  next
    case (Cons a as')
    then obtain u where "node_output_attributes format_default indent depth as = CHR '' '' # u"
      by (cases a) (simp add: node_output_attributes_default)
    then show ?thesis
      using body [of "u @ '' />'' @ r"] attrs [of "'' />'' @ r"] sp opened by simp
  qed
qed

lemma parse_tag_end:
  assumes "name_ok x"
  shows "parse_tag optmsk endch (CHR ''/'' # x @ CHR ''>'' # r) (elementNode x as cs # st) =
    Inr (r, pop_node (elementNode x as cs # st))"
proof -
  have "list_all isSymbol x" using assms by (simp add: name_ok_def)
  then show ?thesis
    by (simp add: parse_tag_def parse_end_element_def elementNode_def takeWhile_symbols dropWhile_symbols skipspace_def)
qed

lemma lead_blank: "list_all isBlank indent \<Longrightarrow> list_all isBlank (lead format_default indent depth f)"
  by (induction depth) (auto simp: lead_def text_output_indent_def list_all_iff)

section \<open>Printed trees are read back\<close>

text \<open>What may follow a printed text: the next tag.\<close>

definition follows :: "xml_node \<Rightarrow> string \<Rightarrow> bool" where
  "follows node r \<longleftrightarrow> (is_pcdata node \<longrightarrow> (\<exists>t. r = CHR ''<'' # t \<and> t \<noteq> []))"

lemma readable_cases:
  assumes "readable optmsk node"
  obtains (element) x as cs where "node = elementNode x as cs" "name_ok x" "list_all (attribute_ok optmsk) as"
      "list_all (readable optmsk) cs" "successively (\<lambda>a b. \<not> (is_pcdata a \<and> is_pcdata b)) cs"
    | (pcdata) v where "node = textNode v" "text_ok optmsk v"
    | (cdata) v where "node = cdataNode v" "cdata_ok optmsk v"
  using assms
  by (cases node) (auto simp: elementNode_def textNode_def cdataNode_def split: xml_node_type.splits option.splits)

lemma nodeOutput_simps:
  "nodeOutput format_default indent depth f (textNode v) =
     (text_output_escaped ctx_special_pcdata format_default v, (False, False))"
  "nodeOutput format_default indent depth f (cdataNode v) = (text_output_cdata v, (False, False))"
  "nodeOutput format_default indent depth f (elementNode x as []) =
     (lead format_default indent depth f @ CHR ''<'' # x @ node_output_attributes format_default indent depth as @ '' />'',
      (True, True))"
  "cs \<noteq> [] \<Longrightarrow> nodeOutput format_default indent depth f (elementNode x as cs) =
     (lead format_default indent depth f @ CHR ''<'' # x @ node_output_attributes format_default indent depth as @ CHR ''>'' #
      fst (nodesOutput format_default indent (depth + 1) (True, True) cs) @
      lead format_default indent depth (snd (nodesOutput format_default indent (depth + 1) (True, True) cs)) @
      CHR ''<'' # CHR ''/'' # x @ ''>'', (True, True))"
  by (auto simp: textNode_def cdataNode_def elementNode_def node_output_simple_def node_output_start_def nameOf_def valueOf_def
      node_output_end_def text_output_def split: prod.splits)

text \<open>A printed node is parsed into a child of the cursor.\<close>

definition reads :: "nat \<Rightarrow> char \<Rightarrow> string \<Rightarrow> xml_node \<Rightarrow> bool" where
  "reads optmsk endch indent node \<longleftrightarrow>
     (\<forall>depth f p st r. (is_pcdata node \<longrightarrow> st \<noteq> []) \<longrightarrow> follows node r \<longrightarrow>
        parse_tree optmsk endch (fst (nodeOutput format_default indent depth f node) @ r) (p # st) =
        parse_tree optmsk endch r (append_node node p # st))"

lemma readsD:
  "\<lbrakk> reads optmsk endch indent node; is_pcdata node \<longrightarrow> st \<noteq> []; follows node r \<rbrakk> \<Longrightarrow>
     parse_tree optmsk endch (fst (nodeOutput format_default indent depth f node) @ r) (p # st) =
     parse_tree optmsk endch r (append_node node p # st)"
  unfolding reads_def by blast

lemma lead_none [simp]: "lead format_default indent depth (False, False) = []"
  by (simp add: lead_def)

lemma printed_open:
  assumes "readable optmsk node" "\<not> is_pcdata node"
  shows "\<exists>t. t \<noteq> [] \<and> fst (nodeOutput format_default indent depth (False, False) node) = CHR ''<'' # t"
  using assms(1)
proof (cases rule: readable_cases)
  case (element x as cs)
  then show ?thesis by (cases "cs = []") (simp_all add: nodeOutput_simps)
next
  case (pcdata v)
  with assms(2) show ?thesis by (simp add: is_pcdata_def textNode_def)
next
  case (cdata v)
  then show ?thesis
    by (subst cdata(1)) (simp add: nodeOutput_simps(2), subst text_output_cdata.simps, simp add: cdata_ok_def)
qed

lemma pcdata_flags: "is_pcdata node \<Longrightarrow> snd (nodeOutput flags indent depth f node) = (False, False)"
  by (cases node) (simp add: is_pcdata_def)

lemma nodes_read:
  assumes "list_all (reads optmsk endch indent) nodes" "list_all (readable optmsk) nodes"
    and "successively (\<lambda>a b. \<not> (is_pcdata a \<and> is_pcdata b)) nodes"
    and "st \<noteq> [] \<or> list_all (\<lambda>n. \<not> is_pcdata n) nodes" "nodes \<noteq> [] \<longrightarrow> follows (last nodes) r"
  shows "parse_tree optmsk endch (fst (nodesOutput format_default indent depth f nodes) @ r) (p # st) =
    parse_tree optmsk endch r (fold append_node nodes p # st)"
  using assms
proof (induction nodes arbitrary: f p)
  case (Cons c cs)
  let ?g = "snd (nodeOutput format_default indent depth f c)"
  let ?rest = "fst (nodesOutput format_default indent depth ?g cs) @ r"
  have "follows c ?rest"
  proof (cases cs)
    case Nil
    then show ?thesis using Cons.prems(5) by simp
  next
    case (Cons d ds)
    show ?thesis
    proof (cases "is_pcdata c")
      case True
      then have "\<not> is_pcdata d" using Cons.prems(3) \<open>cs = d # ds\<close> by simp
      then obtain t where "t \<noteq> []" "fst (nodeOutput format_default indent depth (False, False) d) = CHR ''<'' # t"
        using printed_open [of optmsk d indent depth] Cons.prems(2) \<open>cs = d # ds\<close> by auto
      then show ?thesis using pcdata_flags [OF True] \<open>cs = d # ds\<close> by (simp add: follows_def split_beta)
    qed (simp add: follows_def)
  qed
  then have "parse_tree optmsk endch (fst (nodeOutput format_default indent depth f c) @ ?rest) (p # st) =
      parse_tree optmsk endch ?rest (append_node c p # st)"
    using Cons.prems(1,4) by (intro readsD) auto
  moreover have "parse_tree optmsk endch ?rest (append_node c p # st) =
      parse_tree optmsk endch r (fold append_node cs (append_node c p) # st)"
    using Cons.prems by (intro Cons.IH) (auto simp: successively_Cons)
  ultimately show ?case by (simp add: split_beta)
qed simp

lemma is_textNode: "is_pcdata (textNode v)"
  by (simp add: is_pcdata_def textNode_def)

lemma nodesOutput_flags:
  "nodes \<noteq> [] \<Longrightarrow> is_pcdata (last nodes) \<Longrightarrow> snd (nodesOutput flags indent depth f nodes) = (False, False)"
proof (induction nodes arbitrary: f)
  case (Cons c cs)
  then show ?case by (cases "cs = []") (simp_all add: split_beta pcdata_flags del: split_paired_All)
qed simp

lemma fold_append_node: "fold append_node cs (elementNode x as ds) = elementNode x as (ds @ cs)"
  by (induction cs arbitrary: ds) (simp_all add: elementNode_def)

lemma parse_tree_lead:
  assumes "list_all isBlank indent" "plain_options optmsk"
  shows "parse_tree optmsk endch (lead format_default indent depth f @ CHR ''<'' # s) st =
    parse_tree optmsk endch (CHR ''<'' # s) st"
  by (rule parse_tree_blanks [OF lead_blank [OF assms(1)] assms(2)]) simp

lemma node_read:
  assumes "plain_options optmsk" "list_all isBlank indent"
  shows "readable optmsk node \<Longrightarrow> reads optmsk endch indent node"
proof (induction node)
  case (Node t n v bs ds)
  from Node.prems show ?case
  proof (cases rule: readable_cases)
    case (pcdata w)
    show ?thesis
      using parse_tree_text [OF pcdata(2) assms(1)]
      unfolding reads_def pcdata(1) nodeOutput_simps follows_def
      by (auto simp: is_textNode has_parent_def)
  next
    case (cdata w)
    show ?thesis
      using parse_tree_cdata [OF cdata(2)] by (simp add: reads_def cdata(1) nodeOutput_simps)
  next
    case (element x as cs)
    note lead = parse_tree_lead [OF assms(2,1)]
    note start = parse_tag_start [OF element(2,3) assms(1)]
    show ?thesis
    proof (cases "cs = []")
      case True
      then show ?thesis
        using start(2) by (simp add: reads_def element(1) nodeOutput_simps lead parse_tree_open)
    next
      case False
      have ds: "ds = cs" using element(1) by (simp add: elementNode_def)
      have "list_all (reads optmsk endch indent) cs"
        using Node.IH element(4) by (simp add: ds list_all_iff)
      then have inner: "parse_tree optmsk endch (fst (nodesOutput format_default indent d (True, True) cs) @ r) (elementNode x as [] # p # st) =
          parse_tree optmsk endch r (elementNode x as cs # p # st)" if "follows (last cs) r" for d r p st
        using nodes_read [of optmsk endch indent cs "p # st" r] element(4,5) that by (simp add: fold_append_node)
      have f: "follows (last cs) (lead format_default indent d (snd (nodesOutput format_default indent (d + 1) (True, True) cs)) @
          CHR ''<'' # CHR ''/'' # u)" for d u
        using nodesOutput_flags [OF False] by (auto simp: follows_def)
      show ?thesis
        using start(1) inner [OF f] parse_tag_end [OF element(2)] False
        by (simp add: reads_def element(1) nodeOutput_simps lead parse_tree_open)
    qed
  qed
qed

end
