(* ===== verification/PugiLoad.thy ===== *)
theory PugiLoad
  imports PugiPrinter
begin

text \<open>
  \<open>src/arxml/pugixml.cpp\<close>, loading and saving of documents: the encoding of a buffer and its conversion to UTF-8,
  \<open>load_buffer\<close>, \<open>load_file\<close>, \<open>print\<close> and \<open>save_file\<close>. With them the library the manifest reader of \<open>Arxml\<close> is given
  from outside is instantiated, and what it relies on is proved. Bytes are characters; allocation does not fail.
\<close>

section \<open>Encodings\<close>

datatype xml_encoding =
    encoding_auto | encoding_utf8 | encoding_utf16_le | encoding_utf16_be | encoding_utf16
  | encoding_utf32_le | encoding_utf32_be | encoding_utf32 | encoding_wchar | encoding_latin1

text \<open>The value of the encoding field, from its name on.\<close>

definition encodingField :: "string \<Rightarrow> string option" where
  "encodingField s =
     (if starts ''encoding'' s then
        (let u = skipspace (drop 8 s)
         in if starts ''='' u then
              (let v = skipspace (tl u);
                   delimiter = (if peek 0 v = CHR 0x22 then CHR 0x22 else CHR 0x27)
               in if v \<noteq> [] \<and> hd v = delimiter then
                    (let name = takeWhile isSymbol (tl v); r = dropWhile isSymbol (tl v)
                     in if r \<noteq> [] \<and> hd r = delimiter then Some name else None)
                  else None)
            else None)
      else None)"

fun findEncoding :: "string \<Rightarrow> string option" where
  "findEncoding (c # d # s) =
     (if c = CHR ''?'' then None
      else if c = CHR ''e'' \<and> d = CHR ''n'' then encodingField (c # d # s)
      else findEncoding (d # s))"
| "findEncoding _ = None"

definition parse_declaration_encoding :: "string \<Rightarrow> string option" where
  "parse_declaration_encoding data =
     (if length data < 6 \<or> \<not> (starts ''<?xml'' data \<and> isBlank (data ! 5)) then None else findEncoding (drop 6 data))"

definition isLatin1Name :: "string \<Rightarrow> bool" where
  "isLatin1Name enc \<longleftrightarrow>
     length enc = 10 \<and> map lowerCode (take 3 enc) = map charCode ''iso'' \<and> drop 3 enc = ''-8859-1'' \<or>
     length enc = 6 \<and> map lowerCode (take 5 enc) = map charCode ''latin'' \<and> drop 5 enc = ''1''"

definition guess_buffer_encoding :: "string \<Rightarrow> xml_encoding" where
  "guess_buffer_encoding data =
     (if length data < 4 then encoding_utf8
      else (let d0 = charCode (data ! 0); d1 = charCode (data ! 1); d2 = charCode (data ! 2); d3 = charCode (data ! 3)
            in if d0 = 0 \<and> d1 = 0 \<and> d2 = 0xfe \<and> d3 = 0xff then encoding_utf32_be
               else if d0 = 0xff \<and> d1 = 0xfe \<and> d2 = 0 \<and> d3 = 0 then encoding_utf32_le
               else if d0 = 0xfe \<and> d1 = 0xff then encoding_utf16_be
               else if d0 = 0xff \<and> d1 = 0xfe then encoding_utf16_le
               else if d0 = 0xef \<and> d1 = 0xbb \<and> d2 = 0xbf then encoding_utf8
               else if d0 = 0 \<and> d1 = 0 \<and> d2 = 0 \<and> d3 = 0x3c then encoding_utf32_be
               else if d0 = 0x3c \<and> d1 = 0 \<and> d2 = 0 \<and> d3 = 0 then encoding_utf32_le
               else if d0 = 0 \<and> d1 = 0x3c \<and> d2 = 0 \<and> d3 = 0x3f then encoding_utf16_be
               else if d0 = 0x3c \<and> d1 = 0 \<and> d2 = 0x3f \<and> d3 = 0 then encoding_utf16_le
               else if d0 = 0 \<and> d1 = 0x3c then encoding_utf16_be
               else if d0 = 0x3c \<and> d1 = 0 then encoding_utf16_le
               else if d0 = 0x3c \<and> d1 = 0x3f \<and> d2 = 0x78 \<and> d3 = 0x6d then
                 (case parse_declaration_encoding data of
                    Some enc \<Rightarrow> if isLatin1Name enc then encoding_latin1 else encoding_utf8
                  | None \<Rightarrow> encoding_utf8)
               else encoding_utf8))"

text \<open>The machine is little-endian and its wide characters have four bytes.\<close>

definition get_buffer_encoding :: "xml_encoding \<Rightarrow> string \<Rightarrow> xml_encoding" where
  "get_buffer_encoding encoding data =
     (case encoding of
        encoding_wchar \<Rightarrow> encoding_utf32_le
      | encoding_utf16 \<Rightarrow> encoding_utf16_le
      | encoding_utf32 \<Rightarrow> encoding_utf32_le
      | encoding_auto \<Rightarrow> guess_buffer_encoding data
      | e \<Rightarrow> e)"

section \<open>Conversion to UTF-8\<close>

fun units16 :: "bool \<Rightarrow> string \<Rightarrow> u32 list" where
  "units16 little (a # b # s) =
     word_of_nat (if little then charCode a + 256 * charCode b else 256 * charCode a + charCode b) # units16 little s"
| "units16 little _ = []"

fun units32 :: "bool \<Rightarrow> string \<Rightarrow> u32 list" where
  "units32 little (a # b # c # d # s) =
     word_of_nat (if little then charCode a + 256 * (charCode b + 256 * (charCode c + 256 * charCode d))
                  else charCode d + 256 * (charCode c + 256 * (charCode b + 256 * charCode a))) # units32 little s"
| "units32 little _ = []"

text \<open>An unpaired surrogate is dropped.\<close>

fun utf16_decoder :: "u32 list \<Rightarrow> string" where
  "utf16_decoder [] = []"
| "utf16_decoder (unit # s) =
     (if unit < 0xD800 \<or> unit - 0xE000 < 0x2000 then utf8_low unit @ utf16_decoder s
      else if unit - 0xD800 < 0x400 then
        (case s of
           trail # r \<Rightarrow>
             if trail - 0xDC00 < 0x400
             then utf8_high (0x10000 + push_bit 10 (unit AND 0x3ff) + (trail AND 0x3ff)) @ utf16_decoder r
             else utf16_decoder s
         | [] \<Rightarrow> utf16_decoder s)
      else utf16_decoder s)"

definition utf32_decoder :: "u32 list \<Rightarrow> string" where
  "utf32_decoder units = concat (map (\<lambda>unit. if unit < 0x10000 then utf8_low unit else utf8_high unit) units)"

definition latin1_decoder :: "string \<Rightarrow> string" where
  "latin1_decoder data = concat (map (\<lambda>c. utf8_low (word_of_nat (charCode c))) data)"

definition get_mutable_buffer :: "bool \<Rightarrow> string \<Rightarrow> string" where
  "get_mutable_buffer is_mutable data = (if is_mutable then data else data @ [CHR 0x00])"

definition convert_buffer_latin1 :: "bool \<Rightarrow> string \<Rightarrow> string" where
  "convert_buffer_latin1 is_mutable data =
     (let prefix = takeWhile (\<lambda>c. charCode c \<le> 127) data; postfix = dropWhile (\<lambda>c. charCode c \<le> 127) data
      in if postfix = [] then get_mutable_buffer is_mutable data else prefix @ latin1_decoder postfix @ [CHR 0x00])"

definition convert_buffer :: "bool \<Rightarrow> xml_encoding \<Rightarrow> string \<Rightarrow> string" where
  "convert_buffer is_mutable encoding data =
     (case encoding of
        encoding_utf16_be \<Rightarrow> utf16_decoder (units16 False data) @ [CHR 0x00]
      | encoding_utf16_le \<Rightarrow> utf16_decoder (units16 True data) @ [CHR 0x00]
      | encoding_utf32_be \<Rightarrow> utf32_decoder (units32 False data) @ [CHR 0x00]
      | encoding_utf32_le \<Rightarrow> utf32_decoder (units32 True data) @ [CHR 0x00]
      | encoding_latin1 \<Rightarrow> convert_buffer_latin1 is_mutable data
      | _ \<Rightarrow> get_mutable_buffer is_mutable data)"

section \<open>Loading and saving\<close>

text \<open>The result of a load: its status, the encoding and the document.\<close>

record xml_load =
  load_status :: xml_parse_status
  load_encoding :: xml_encoding
  load_document :: xml_node

definition load_buffer_impl :: "bool \<Rightarrow> nat \<Rightarrow> xml_encoding \<Rightarrow> string \<Rightarrow> xml_load" where
  "load_buffer_impl is_mutable optmsk encoding contents =
     (let buffer_encoding = get_buffer_encoding encoding contents
      in case parse optmsk (convert_buffer is_mutable buffer_encoding contents) of
           Inl e \<Rightarrow> \<lparr> load_status = e, load_encoding = buffer_encoding, load_document = newNode node_document \<rparr>
         | Inr doc \<Rightarrow> \<lparr> load_status = status_ok, load_encoding = buffer_encoding, load_document = doc \<rparr>)"

definition xml_load_buffer :: "nat \<Rightarrow> string \<Rightarrow> xml_load" where
  "xml_load_buffer optmsk contents = load_buffer_impl False optmsk encoding_auto contents"

definition zero_terminate_buffer :: "xml_encoding \<Rightarrow> string \<Rightarrow> string" where
  "zero_terminate_buffer encoding data = (if encoding = encoding_utf8 then data @ [CHR 0x00] else data)"

text \<open>A file that cannot be opened has no contents; one that opens can be read.\<close>

definition xml_load_file :: "nat \<Rightarrow> string option \<Rightarrow> xml_load" where
  "xml_load_file optmsk file =
     (case file of
        None \<Rightarrow> \<lparr> load_status = status_file_not_found, load_encoding = encoding_auto, load_document = newNode node_document \<rparr>
      | Some contents \<Rightarrow>
          (let real_encoding = get_buffer_encoding encoding_auto contents
           in load_buffer_impl True optmsk real_encoding (zero_terminate_buffer real_encoding contents)))"

fun has_declaration :: "xml_node list \<Rightarrow> bool" where
  "has_declaration [] \<longleftrightarrow> False"
| "has_declaration (n # ns) \<longleftrightarrow>
     (if node_type n = node_declaration then True else if node_type n = node_element then False else has_declaration ns)"

definition xml_save :: "nat \<Rightarrow> xml_node \<Rightarrow> string" where
  "xml_save flags doc =
     (if \<not> has_flag flags format_no_declaration \<and> \<not> has_declaration (first_child doc)
      then ''<?xml version='' @ [CHR 0x22] @ ''1.0'' @ [CHR 0x22] @ ''?>'' @ (if has_flag flags format_raw then [] else ''\<newline>'')
      else []) @
     node_output flags [CHR 0x09] 0 doc"

definition document_element :: "xml_node \<Rightarrow> xml_node option" where
  "document_element doc = find (\<lambda>n. node_type n = node_element) (first_child doc)"

section \<open>Printed text has no NUL\<close>

abbreviation no_nul :: "string \<Rightarrow> bool" where
  "no_nul s \<equiv> list_all (\<lambda>c. c \<noteq> CHR 0x00) s"

lemma char_of_not_nul: "0 < n \<Longrightarrow> n < 256 \<Longrightarrow> char_of (n :: nat) \<noteq> CHR 0x00"
proof
  assume a: "0 < n" "n < 256" "char_of n = CHR 0x00"
  then have "charCode (char_of n) = charCode (CHR 0x00)" by simp
  moreover have "charCode (CHR 0x00) = 0" by (simp add: charCode_chars)
  ultimately show False using a(1,2) by (simp add: charCode_def)
qed

lemma escapeChar_no_nul: "c \<noteq> CHR 0x00 \<Longrightarrow> no_nul (escapeChar flags c)"
proof -
  have "char_of (charCode c div 10 + 48) \<noteq> CHR 0x00" "char_of (charCode c mod 10 + 48) \<noteq> CHR 0x00"
    using charCode_less [of c] by (intro char_of_not_nul; simp)+
  then show "c \<noteq> CHR 0x00 \<Longrightarrow> no_nul (escapeChar flags c)" by (simp add: escapeChar_def)
qed

lemma text_output_no_nul: "no_nul v \<Longrightarrow> no_nul (text_output_escaped ct flags v)"
  by (induction v) (auto simp: text_output_escaped_def escapeChar_no_nul)

lemma symbols_no_nul: "list_all isSymbol n \<Longrightarrow> no_nul n"
  by (induction n) auto

lemma attributes_no_nul:
  "list_all (attribute_ok optmsk) as \<Longrightarrow> no_nul (node_output_attributes format_default indent depth as)"
proof (induction as)
  case (Cons a as)
  then have "no_nul (fst a)" "no_nul (snd a)"
    using symbols_no_nul [of "fst a"] by (auto simp: attribute_ok_def name_ok_def list_all_iff)
  then show ?case
    using Cons by (cases a) (simp add: node_output_attributes_default text_output_no_nul)
qed (simp add: node_output_attributes_default)

lemma lead_no_nul: "list_all isBlank indent \<Longrightarrow> no_nul (lead format_default indent depth f)"
  by (rule list.pred_mono_strong [OF lead_blank]) (auto simp: space_iff)

definition prints_no_nul :: "string \<Rightarrow> xml_node \<Rightarrow> bool" where
  "prints_no_nul indent node \<longleftrightarrow> (\<forall>depth f. no_nul (fst (nodeOutput format_default indent depth f node)))"

lemma prints_no_nulD: "prints_no_nul indent node \<Longrightarrow> no_nul (fst (nodeOutput format_default indent depth f node))"
  unfolding prints_no_nul_def by blast

lemma nodes_no_nul:
  "list_all (prints_no_nul indent) nodes \<Longrightarrow> no_nul (fst (nodesOutput format_default indent depth f nodes))"
proof (induction nodes arbitrary: f)
  case (Cons c cs)
  then have "prints_no_nul indent c" "list_all (prints_no_nul indent) cs" by simp_all
  then show ?case
    using prints_no_nulD [of indent c depth f] Cons.IH [of "snd (nodeOutput format_default indent depth f c)"]
    by (simp add: split_beta)
qed simp

lemma node_no_nul:
  assumes "list_all isBlank indent"
  shows "readable optmsk node \<Longrightarrow> prints_no_nul indent node"
proof (induction node)
  case (Node t n v bs ds)
  from Node.prems show ?case
  proof (cases rule: readable_cases)
    case (pcdata w)
    then have "no_nul w" by (auto simp: text_ok_def list_all_iff)
    then show ?thesis by (simp add: prints_no_nul_def pcdata(1) nodeOutput_simps text_output_no_nul)
  next
    case (cdata w)
    then have "no_nul w" "text_output_cdata w = ''<![CDATA['' @ w @ '']]>''"
      by (auto simp: cdata_ok_def list_all_iff text_output_cdata.simps [of w])
    then show ?thesis by (simp add: prints_no_nul_def cdata(1) nodeOutput_simps)
  next
    case (element x as cs)
    have x: "no_nul x" using element(2) symbols_no_nul by (simp add: name_ok_def)
    have "ds = cs" using element(1) by (simp add: elementNode_def)
    then have "list_all (prints_no_nul indent) cs" using Node.IH element(4) by (simp add: list_all_iff)
    then have "no_nul (fst (nodesOutput format_default indent d f cs))" for d f by (rule nodes_no_nul)
    then show ?thesis
      unfolding prints_no_nul_def element(1)
      using x attributes_no_nul [OF element(3)] lead_no_nul [OF assms]
      by (cases "cs = []") (simp_all add: nodeOutput_simps)
  qed
qed

section \<open>A printed document is loaded again\<close>

definition documentNode :: "xml_node list \<Rightarrow> xml_node" where
  "documentNode cs = Node node_document None None [] cs"

abbreviation cTab :: string where "cTab \<equiv> [CHR 0x09]"

lemma tab_blank: "list_all isBlank cTab" by simp

definition is_element :: "xml_node \<Rightarrow> bool" where
  "is_element node \<longleftrightarrow> node_type node = node_element"

lemma element_cases:
  assumes "readable optmsk node" "is_element node"
  obtains x as cs where "node = elementNode x as cs" "name_ok x"
  using assms by (cases rule: readable_cases) (auto simp: is_element_def textNode_def cdataNode_def)

lemma printed_element_start:
  assumes "readable optmsk node" "is_element node"
  shows "\<exists>h t. isStartSymbol h \<and>
    fst (nodeOutput format_default indent depth f node) = lead format_default indent depth f @ CHR ''<'' # h # t"
proof -
  obtain x as cs where e: "node = elementNode x as cs" "name_ok x" using element_cases [OF assms] .
  then obtain h t where "x = h # t" "isStartSymbol h" by (cases x) (auto simp: name_ok_def)
  then show ?thesis by (cases "cs = []") (auto simp: e(1) nodeOutput_simps)
qed

text \<open>The parser over a print of elements, up to the final line end.\<close>

lemma parse_tree_elements:
  assumes "plain_options optmsk" "list_all (readable optmsk) nodes" "list_all is_element nodes" "list_all isBlank indent"
  shows "parse_tree optmsk endch (fst (nodesOutput format_default indent 0 f nodes) @ ''\<newline>'') [documentNode ds] =
    Inr (documentNode (ds @ nodes))"
proof -
  have np: "list_all (\<lambda>n. \<not> is_pcdata n) nodes"
    using assms(3) by (auto simp: list_all_iff is_pcdata_def is_element_def)
  then have "successively (\<lambda>a b. \<not> (is_pcdata a \<and> is_pcdata b)) nodes"
    by (induction nodes) (auto simp: successively_Cons)
  moreover have "list_all (reads optmsk endch indent) nodes"
    using assms(2) node_read [OF assms(1,4)] by (auto simp: list_all_iff)
  moreover have "nodes \<noteq> [] \<longrightarrow> follows (last nodes) ''\<newline>''"
    using np by (auto simp: follows_def list_all_iff)
  ultimately have "parse_tree optmsk endch (fst (nodesOutput format_default indent 0 f nodes) @ ''\<newline>'') [documentNode ds] =
      parse_tree optmsk endch ''\<newline>'' [fold append_node nodes (documentNode ds)]"
    using np assms(2) by (intro nodes_read) auto
  also have "\<dots> = Inr (fold append_node nodes (documentNode ds))"
    using parse_tree_blanks [of "''\<newline>''" optmsk "[]" endch] assms(1)
    by (simp add: parse_tree.simps [of _ _ "[]"] finish_def has_parent_def)
  also have "fold append_node nodes (documentNode ds) = documentNode (ds @ nodes)"
    by (induction nodes arbitrary: ds) (simp_all add: documentNode_def)
  finally show ?thesis .
qed

lemma guess_utf8:
  assumes "isStartSymbol h"
  shows "guess_buffer_encoding (CHR ''<'' # h # t) = encoding_utf8"
proof -
  have "charCode h \<noteq> 0" "charCode h \<noteq> 63"
    using symbol_code [of h] start_symbol_symbol [OF assms] by auto
  moreover have "charCode (CHR ''<'') = 60" by (simp add: charCode_chars)
  ultimately show ?thesis by (simp add: guess_buffer_encoding_def Let_def)
qed

lemma print_element:
  "xml_print node = fst (nodesOutput format_default cTab 0 (False, True) [node]) @
     (if fst (snd (nodeOutput format_default cTab 0 (False, True) node)) then ''\<newline>'' else [])"
  by (simp add: xml_print_def node_output_def split_beta)

lemma element_flags: "is_element node \<Longrightarrow> snd (nodeOutput flags indent depth f node) = (True, True)"
  by (cases node) (simp add: is_element_def split_beta Let_def)

lemma skip_bom: "parse_skip_bom (CHR ''<'' # s) = CHR ''<'' # s"
  by (simp add: parse_skip_bom_def starts_def)

lemma load_utf8:
  assumes "get_buffer_encoding encoding_auto s = encoding_utf8"
  shows "xml_load_buffer optmsk s = load_buffer_impl True optmsk encoding_utf8 (s @ [CHR 0x00])"
    "xml_load_file optmsk (Some s) = xml_load_buffer optmsk s"
  using assms by (simp_all add: xml_load_buffer_def load_buffer_impl_def xml_load_file_def zero_terminate_buffer_def
      convert_buffer_def get_mutable_buffer_def get_buffer_encoding_def)

lemma parse_terminated:
  assumes "no_nul s" "parse_tree optmsk (CHR 0x00) s [newNode node_document] = Inr doc"
    "s = CHR ''<'' # s'" "has_element_node_siblings (first_child doc)"
  shows "parse optmsk (s @ [CHR 0x00]) = Inr doc"
  using assms by (simp add: parse_def c_str_id skip_bom)

lemma print_load:
  assumes "readable optmsk node" "is_element node" "plain_options optmsk"
  shows "xml_load_buffer optmsk (xml_print node) =
    \<lparr> load_status = status_ok, load_encoding = encoding_utf8, load_document = documentNode [node] \<rparr>"
proof -
  have p: "xml_print node = fst (nodesOutput format_default cTab 0 (False, True) [node]) @ ''\<newline>''"
    using element_flags [OF assms(2)] by (simp add: print_element)
  obtain h t where h: "isStartSymbol h" "fst (nodeOutput format_default cTab 0 (False, True) node) = CHR ''<'' # h # t"
    using printed_element_start [OF assms(1,2), of cTab 0 "(False, True)"] by (auto simp: lead_def text_output_indent_def)
  then have s: "xml_print node = CHR ''<'' # h # t @ ''\<newline>''" by (simp add: p split_beta)
  have "no_nul (xml_print node)"
    using prints_no_nulD [OF node_no_nul [OF tab_blank assms(1)]] by (simp add: p split_beta)
  moreover have "parse_tree optmsk (CHR 0x00) (xml_print node) [newNode node_document] = Inr (documentNode [node])"
    using parse_tree_elements [of optmsk "[node]" cTab "CHR 0x00" "(False, True)" "[]"] assms tab_blank
    by (simp add: p documentNode_def newNode_def)
  moreover have "has_element_node_siblings (first_child (documentNode [node]))"
    using assms(2) by (simp add: has_element_node_siblings_def documentNode_def is_element_def)
  ultimately have "parse optmsk (xml_print node @ [CHR 0x00]) = Inr (documentNode [node])"
    using s by (intro parse_terminated) auto
  moreover have "get_buffer_encoding encoding_auto (xml_print node) = encoding_utf8"
    using guess_utf8 [OF h(1)] by (simp add: get_buffer_encoding_def s)
  ultimately show ?thesis
    by (simp add: load_utf8 load_buffer_impl_def get_buffer_encoding_def convert_buffer_def get_mutable_buffer_def)
qed

text \<open>The declaration a saved document starts with.\<close>

definition cDeclaration :: string where
  "cDeclaration = ''<?xml version='' @ [CHR 0x22] @ ''1.0'' @ [CHR 0x22] @ ''?>''"

definition declarationNode :: xml_node where
  "declarationNode = Node node_declaration (Some ''xml'') None [(''version'', ''1.0'')] []"

lemma declaration_names:
  "isStartSymbol (CHR ''x'')" "list_all isSymbol ''xml''" "attribute_ok optmsk (''version'', ''1.0'')" "isDeclarationName ''xml''"
proof -
  have "name_ok ''version''" "list_all (\<lambda>c. c \<noteq> CHR 0x00 \<and> \<not> IS_CHARTYPEX c ctx_special_attr) ''1.0''" by code_simp+
  then show "attribute_ok optmsk (''version'', ''1.0'')" by (auto simp: attribute_ok_def list_all_iff)
  show "isStartSymbol (CHR ''x'')" "list_all isSymbol ''xml''" "isDeclarationName ''xml''" by code_simp+
qed

lemma scan_declaration:
  "CHR ''?'' \<notin> set v \<Longrightarrow> scanFor (piEnd endch) (v @ ''?>'' @ u) = ''?>'' @ u"
  by (induction v) (auto simp: piEnd_def ENDSWITH_def)

text \<open>A declaration with any attributes that have no question mark in them.\<close>

lemma parse_declaration_tag:
  assumes "plain_options optmsk" "list_all (attribute_ok optmsk) as" "as \<noteq> []"
    and "CHR ''?'' \<notin> set (node_output_attributes format_default [] 0 as)"
  shows "parse_tree optmsk endch (''<?xml'' @ node_output_attributes format_default [] 0 as @ ''?>'' @ r) [documentNode ds] =
    parse_tree optmsk endch r
      [documentNode (ds @ (if has_flag optmsk parse_declaration then [Node node_declaration (Some ''xml'') None as []] else []))]"
proof -
  obtain n v as' where a: "as = (n, v) # as'" using assms(3) by (cases as) auto
  obtain h t where n: "n = h # t" "isStartSymbol h" using assms(2) a by (cases n) (auto simp: attribute_ok_def name_ok_def)
  define w where "w = n @ CHR ''='' # CHR 0x22 # text_output_escaped ctx_special_attr format_default v @ CHR 0x22 #
    node_output_attributes format_default [] 0 as'"
  have out: "node_output_attributes format_default [] 0 as = CHR '' '' # w"
    by (simp add: a w_def node_output_attributes_default)
  have "\<not> isBlank h" using n(2) start_symbol_symbol symbol_iff by (auto simp: space_iff)
  then have v: "skipspace (w @ u) = w @ u" for u by (simp add: w_def n(1) skipspace_def)
  have sym: "takeWhile isSymbol (''xml'' @ CHR '' '' # u) = ''xml''" "dropWhile isSymbol (''xml'' @ CHR '' '' # u) = CHR '' '' # u" for u
    using declaration_names(2) takeWhile_symbols [of "''xml''" "CHR '' ''" u] dropWhile_symbols [of "''xml''" "CHR '' ''" u] by auto
  have scan: "scanFor (piEnd endch) (w @ ''?>'' @ u) = ''?>'' @ u"
    "scanFor (piEnd endch) (CHR '' '' # w @ ''?>'' @ u) = ''?>'' @ u" for u
    using scan_declaration [of w endch u] scan_declaration [of "CHR '' '' # w" endch u] assms(4) by (simp_all add: out)
  have question: "parse_question optmsk endch (''xml '' @ w @ ''?>'' @ r) [documentNode ds] =
      (if has_flag optmsk parse_declaration
       then Inr (w @ ''/>'' @ r, [with_name ''xml'' (newNode node_declaration), documentNode ds])
       else Inr (r, [documentNode ds]))"
    using sym [of "w @ ''?>'' @ r"] declaration_names scan [of r] v [of "''?>'' @ r"]
    by (simp add: parse_question_def Let_def has_parent_def scanned_def)
  have slash: "parse_attributes optmsk endch (''/>'' @ r) st = Inr (r, pop_node st)" for st
    by (subst parse_attributes.simps) (simp add: skipspace_def)
  have "parse_attributes optmsk endch (w @ ''/>'' @ r) (c # st) = Inr (r, pop_node (with_attributes as c # st))" for c st
    using parse_attributes_printed [OF assms(2,1), of "''/>'' @ r" endch "[]" 0 c st] slash by (simp add: out parse_attributes_blank)
  with question show ?thesis
    by (simp add: out parse_tree_open parse_tag_def newNode_def documentNode_def)
qed

lemma parse_declaration_line:
  assumes "plain_options optmsk"
  shows "parse_tree optmsk endch (cDeclaration @ r) [documentNode ds] =
    parse_tree optmsk endch r [documentNode (ds @ (if has_flag optmsk parse_declaration then [declarationNode] else []))]"
proof -
  have "node_output_attributes format_default [] 0 [(''version'', ''1.0'')] =
      '' version='' @ [CHR 0x22] @ ''1.0'' @ [CHR 0x22]"
    by (simp add: node_output_attributes_default) code_simp
  then show ?thesis
    using parse_declaration_tag [OF assms, of "[(''version'', ''1.0'')]" endch r ds] declaration_names(3)
    by (simp add: cDeclaration_def declarationNode_def)
qed

lemma saved_document:
  assumes "list_all is_element nodes" "nodes \<noteq> []"
  shows "xml_save format_default (documentNode nodes) =
    cDeclaration @ ''\<newline>'' @ fst (nodesOutput format_default cTab 0 (False, True) nodes) @ ''\<newline>''"
proof -
  have "\<not> has_declaration nodes"
    using assms by (cases nodes) (auto simp: is_element_def)
  moreover have "fst (snd (nodesOutput format_default cTab 0 f nodes))" for f
    using assms
  proof (induction nodes arbitrary: f)
    case (Cons c cs)
    then show ?case by (cases "cs = []") (simp_all add: split_beta element_flags)
  qed simp
  ultimately show ?thesis
    by (simp add: xml_save_def node_output_def documentNode_def split_beta Let_def cDeclaration_def lead_def text_output_indent_def)
qed

lemma declaration_utf8: "guess_buffer_encoding (cDeclaration @ ''\<newline>'' @ s) = encoding_utf8"
  by (simp add: guess_buffer_encoding_def cDeclaration_def parse_declaration_encoding_def starts_def charCode_def)

lemma save_load:
  assumes "list_all (readable optmsk) nodes" "list_all is_element nodes" "nodes \<noteq> []" "plain_options optmsk"
  shows "xml_load_file optmsk (Some (xml_save format_default (documentNode nodes))) =
    \<lparr> load_status = status_ok, load_encoding = encoding_utf8,
      load_document = documentNode ((if has_flag optmsk parse_declaration then [declarationNode] else []) @ nodes) \<rparr>"
proof -
  let ?s = "xml_save format_default (documentNode nodes)"
  let ?ds = "if has_flag optmsk parse_declaration then [declarationNode] else []"
  let ?out = "fst (nodesOutput format_default cTab 0 (False, True) nodes)"
  note s = saved_document [OF assms(2,3)]
  have "list_all (prints_no_nul cTab) nodes"
    using assms(1) node_no_nul [OF tab_blank] by (auto simp: list_all_iff)
  then have "no_nul ?out" by (rule nodes_no_nul)
  then have nul: "no_nul ?s" by (simp add: s cDeclaration_def)
  obtain h t where opened: "?out = CHR ''<'' # h # t"
  proof -
    obtain c cs where "nodes = c # cs" using assms(3) by (cases nodes) auto
    moreover from this obtain h t where "fst (nodeOutput format_default cTab 0 (False, True) c) = CHR ''<'' # h # t"
      using printed_element_start [of optmsk c cTab 0 "(False, True)"] assms(1,2) by (auto simp: lead_def text_output_indent_def)
    ultimately show ?thesis using that by (simp add: split_beta)
  qed
  have new: "newNode node_document = documentNode []" by (simp add: newNode_def documentNode_def)
  have "parse_tree optmsk (CHR 0x00) ?s [newNode node_document] =
      parse_tree optmsk (CHR 0x00) (''\<newline>'' @ ?out @ ''\<newline>'') [documentNode ?ds]"
    using parse_declaration_line [OF assms(4), of "CHR 0x00" "''\<newline>'' @ ?out @ ''\<newline>''" "[]"]
    by (simp only: s new append_Nil)
  also have "\<dots> = parse_tree optmsk (CHR 0x00) (?out @ ''\<newline>'') [documentNode ?ds]"
    using opened assms(4) by (intro parse_tree_blanks) auto
  also have "\<dots> = Inr (documentNode (?ds @ nodes))"
    by (rule parse_tree_elements [OF assms(4,1,2) tab_blank])
  finally have "parse_tree optmsk (CHR 0x00) ?s [newNode node_document] = Inr (documentNode (?ds @ nodes))" .
  moreover note nul
  moreover have "has_element_node_siblings (first_child (documentNode (?ds @ nodes)))"
    using assms(2,3) by (cases nodes) (auto simp: has_element_node_siblings_def documentNode_def is_element_def)
  ultimately have "parse optmsk (?s @ [CHR 0x00]) = Inr (documentNode (?ds @ nodes))"
    by (intro parse_terminated) (auto simp: s cDeclaration_def)
  moreover have "get_buffer_encoding encoding_auto ?s = encoding_utf8"
    using declaration_utf8 by (simp add: get_buffer_encoding_def s)
  ultimately show ?thesis
    by (simp add: load_utf8 load_buffer_impl_def get_buffer_encoding_def convert_buffer_def get_mutable_buffer_def)
qed

section \<open>The nodes the manifest reader gets\<close>

fun reader_tree :: "xml_node \<Rightarrow> bool" where
  "reader_tree (Node t n v as cs) \<longleftrightarrow>
     t \<in> {node_document, node_element, node_pcdata, node_declaration} \<and> list_all reader_tree cs"

lemma reader_flags [simp]:
  "\<not> has_flag parse_declaration parse_comments" "\<not> has_flag parse_declaration parse_cdata"
  "\<not> has_flag parse_declaration parse_doctype" "\<not> has_flag parse_declaration parse_pi" "has_flag parse_declaration parse_declaration"
  by (simp_all add: has_flag_def parse_flags)

lemma reader_tree_updates:
  "reader_tree (newNode t) \<longleftrightarrow> t \<in> {node_document, node_element, node_pcdata, node_declaration}"
  "reader_tree (with_name x n) = reader_tree n" "reader_tree (with_value x n) = reader_tree n"
  "reader_tree (append_attribute a n) = reader_tree n" "reader_tree (append_node c n) \<longleftrightarrow> reader_tree n \<and> reader_tree c"
  by (cases n; auto simp: newNode_def)+

definition open_nodes :: "xml_node list \<Rightarrow> bool" where
  "open_nodes st \<longleftrightarrow> st \<noteq> [] \<and> list_all reader_tree st"

lemma reader_stack:
  "open_nodes st \<Longrightarrow> open_nodes (pop_node st)"
  "open_nodes st \<Longrightarrow> open_nodes (atCursor (append_attribute a) st)"
  "open_nodes st \<Longrightarrow> open_nodes (atCursor (with_value v) st)"
  "open_nodes st \<Longrightarrow> open_nodes (append_leaf node_pcdata v st)"
  by (cases st rule: pop_node.cases; simp add: open_nodes_def reader_tree_updates)
    (cases st; simp add: open_nodes_def reader_tree_updates append_leaf_def)+

lemma parse_attributes_reader:
  "parse_attributes optmsk endch s st = Inr (r, st') \<Longrightarrow> open_nodes st \<Longrightarrow> open_nodes st'"
proof (induction optmsk endch s st rule: parse_attributes.induct)
  case (1 optmsk endch s0 st)
  note g = "1.prems"(1) [unfolded parse_attributes.simps [of optmsk endch s0 st] Let_def]
  show ?case
  proof (cases "isStartSymbol (peek 0 (skipspace s0))")
    case True
    then obtain a u where "parse_attribute optmsk (skipspace s0) = Inr (a, u)"
      "parse_attributes optmsk endch u (atCursor (append_attribute a) st) = Inr (r, st')"
      using g by (auto split: sum.splits)
    then show ?thesis using "1.IH" [OF refl True _ refl] reader_stack(2) "1.prems"(2) by blast
  next
    case False
    then show ?thesis using g reader_stack(1) "1.prems"(2) by (auto split: if_splits)
  qed
qed

lemma parse_tag_reader:
  assumes "parse_tag parse_declaration endch s st = Inr (r, st')" "open_nodes st"
  shows "open_nodes st'"
proof -
  have ex: "st2 = st" if "parse_exclamation parse_declaration endch u st = Inr (r2, st2)" for u r2 st2
    using that by (auto simp: parse_exclamation_def split: if_splits prod.splits sum.splits)
  have q: "open_nodes st2" if "parse_question parse_declaration endch u st = Inr (r2, st2)" for u r2 st2
    using that assms(2) reader_stack(1) [of "_ # st"]
    by (auto simp: parse_question_def Let_def open_nodes_def reader_tree_updates split: if_splits)
  have e: "open_nodes st2" if "parse_end_element endch u st = Inr (r2, st2)" for u r2 st2
    using that assms(2) reader_stack(1) by (auto simp: parse_end_element_def Let_def split: option.splits if_splits)
  have opened: "open_nodes (with_name x (newNode node_element) # st)" for x
    using assms(2) by (simp add: open_nodes_def reader_tree_updates)
  show ?thesis
  proof (cases "isStartSymbol (peek 0 s)")
    case True
    then show ?thesis
      using assms(1) opened reader_stack(1) [OF opened] parse_attributes_reader [OF _ opened]
      by (auto simp: parse_tag_def Let_def split: if_splits)
  next
    case False
    then show ?thesis
      using assms ex q e parse_attributes_reader
      by (auto simp: parse_tag_def split: if_splits sum.splits)
  qed
qed

lemma parse_tree_reader:
  "parse_tree optmsk endch s st = Inr doc \<Longrightarrow> optmsk = parse_declaration \<Longrightarrow> open_nodes st \<Longrightarrow> reader_tree doc"
proof (induction optmsk endch s st rule: parse_tree.induct)
  case (1 optmsk endch s st)
  have fin: "reader_tree doc" if "finish st' = Inr doc" "open_nodes st'" for st'
    using that by (cases st') (auto simp: finish_def open_nodes_def split: if_splits)
  consider "s = []" | "s \<noteq> []" "hd s = CHR ''<''"
    | "s \<noteq> []" "hd s \<noteq> CHR ''<''" "skips_whitespace optmsk (skipspace s) st"
    | "s \<noteq> []" "hd s \<noteq> CHR ''<''" "\<not> skips_whitespace optmsk (skipspace s) st"
    by blast
  then show ?case
  proof cases
    case 1
    then have "finish st = Inr doc" using "1.prems"(1) by (subst (asm) parse_tree.simps) simp
    then show ?thesis using fin "1.prems"(3) by blast
  next
    case 2
    then obtain r st' where t: "parse_tag optmsk endch (tl s) st = Inr (r, st')" "parse_tree optmsk endch r st' = Inr doc"
      using "1.prems"(1) by (subst (asm) parse_tree.simps) (auto split: sum.splits)
    then show ?thesis using "1.IH"(1) [OF 2 t(1) refl t(2) "1.prems"(2)] parse_tag_reader "1.prems"(2,3) by blast
  next
    case 3
    then have "parse_tree optmsk endch (skipspace s) st = Inr doc"
      using "1.prems"(1) by (subst (asm) parse_tree.simps) simp
    then show ?thesis using "1.IH"(2) [OF 3(1,2) refl 3(3)] "1.prems"(2,3) by blast
  next
    case 4
    let ?s = "if has_flag optmsk parse_trim_pcdata then skipspace s else s"
    obtain r st' where p: "parse_pcdata optmsk ?s st = (r, st')" by (cases "parse_pcdata optmsk ?s st")
    then have o: "open_nodes st'"
      using "1.prems"(3) reader_stack(3,4) by (auto simp: parse_pcdata_def split: if_splits prod.splits)
    show ?thesis
    proof (cases "r = [] \<or> tl r = [] \<and> (has_parent st \<or> has_flag optmsk parse_fragment)")
      case True
      then show ?thesis using "1.prems"(1) 4 p fin [OF _ o] by (subst (asm) parse_tree.simps) simp
    next
      case False
      then obtain u st2 where t: "parse_tag optmsk endch (tl r) st' = Inr (u, st2)" "parse_tree optmsk endch u st2 = Inr doc"
        using "1.prems"(1) 4 p by (subst (asm) parse_tree.simps) (auto simp: Let_def split: sum.splits)
      then show ?thesis
        using "1.IH"(3) [OF 4(1,2) refl 4(3) p [symmetric] refl False t(1) refl t(2) "1.prems"(2)] parse_tag_reader o "1.prems"(2)
        by blast
    qed
  qed
qed

lemma reader_nodes:
  "parse parse_declaration buffer = Inr doc \<Longrightarrow> reader_tree doc"
proof -
  assume p: "parse parse_declaration buffer = Inr doc"
  have "\<not> has_flag parse_declaration parse_fragment" by (simp add: has_flag_def parse_flags)
  then obtain e s where "parse_tree parse_declaration e s [newNode node_document] = Inr doc"
    using p by (auto simp: parse_def Let_def split: if_splits sum.splits)
  then show "reader_tree doc"
    by (rule parse_tree_reader [OF _ refl]) (simp add: open_nodes_def reader_tree_updates)
qed

section \<open>Documents survive saving and loading\<close>

text \<open>C10: a document of elements that is saved is loaded as the same document, and an element that is printed as a document
  of that element, for all parse flags that neither trim nor embed text, keep no white space and do not normalise
  attributes: every attribute, text and CDATA section is read back with its escapes, provided the flags decode escapes
  or nothing needs one.\<close>

theorem document_roundtrip:
  assumes "plain_options optmsk" "\<not> has_flag optmsk parse_declaration"
    and "list_all (readable optmsk) nodes" "list_all is_element nodes" "nodes \<noteq> []"
  shows "xml_load_file optmsk (Some (xml_save format_default (documentNode nodes))) =
      \<lparr> load_status = status_ok, load_encoding = encoding_utf8, load_document = documentNode nodes \<rparr> \<and>
    list_all (\<lambda>node. xml_load_buffer optmsk (xml_print node) =
      \<lparr> load_status = status_ok, load_encoding = encoding_utf8, load_document = documentNode [node] \<rparr>) nodes"
  using save_load [OF assms(3,4,5,1)] print_load [OF _ _ assms(1)] assms(2,3,4) by (simp add: list_all_iff)

theorem document_roundtrip_witness:
  "load_document (xml_load_file parse_default (Some (xml_save format_default
     (documentNode [elementNode ''a'' [(''k'', ''1<2'')] [textNode ''x & y'', elementNode ''b'' [] [], cdataNode ''<&>'']])))) =
   documentNode [elementNode ''a'' [(''k'', ''1<2'')] [textNode ''x & y'', elementNode ''b'' [] [], cdataNode ''<&>'']]"
proof -
  have "\<not> has_flag parse_default parse_declaration" by (simp add: has_flag_def parse_flags parse_default_def)
  moreover have "readable parse_default (elementNode ''a'' [(''k'', ''1<2'')] [textNode ''x & y'', elementNode ''b'' [] [], cdataNode ''<&>''])"
    by (simp add: elementNode_def textNode_def cdataNode_def name_ok_def attribute_ok_def text_ok_def cdata_ok_def
        letter_symbol [THEN mp] letter_start [THEN mp] space_iff charCode_def is_pcdata_def has_flag_def parse_flags parse_default_def
        starts_def)
  ultimately show ?thesis
    using document_roundtrip [OF plain_parse_default,
        of "[elementNode ''a'' [(''k'', ''1<2'')] [textNode ''x & y'', elementNode ''b'' [] [], cdataNode ''<&>'']]"]
    by (simp add: is_element_def elementNode_def)
qed

end
