(* ===== verification/PugiSource.thy ===== *)
theory PugiSource
  imports PugiLoad
begin

text \<open>
  Texts of manifests as people and scripts write them, and as the repository holds them
  (\<open>configuration/\<close>, \<open>scripts/create_sw_package.sh\<close>): an element in the layout of the printer with any indentation,
  after an optional declaration with any attributes and after comments. They are loaded as the element, with the
  declaration for flags that keep it.
\<close>

section \<open>Comments\<close>

definition comment_ok :: "string \<Rightarrow> bool" where
  "comment_ok v \<longleftrightarrow> scanFor (starts ''--'') v = [] \<and> (v = [] \<or> last v \<noteq> CHR ''-'') \<and> CHR 0x00 \<notin> set v \<and> CHR 0x0D \<notin> set v"

lemma comment_read:
  assumes "comment_ok v" "mode = Simple \<or> mode = Eol"
  shows "strconv (commentEnd endch) mode False (v @ ''-->'' @ r) = (v, ''-->'' @ r)"
  using assms(1)
proof (induction v)
  case Nil
  then show ?case
    by (subst strconv.simps) (simp add: commentEnd_def starts_def ENDSWITH_def)
next
  case (Cons c v)
  have n: "\<not> starts ''--'' (c # v)" "comment_ok v" "c = CHR ''-'' \<longrightarrow> v \<noteq> []" "c \<noteq> CHR 0x0D"
    using Cons.prems by (auto simp: comment_ok_def split: if_splits)
  have "\<not> starts ''--'' ((c # v) @ ''-->'' @ r)"
    using n(1,3) by (cases v) (auto simp: starts_def)
  then have "\<not> commentEnd endch ((c # v) @ ''-->'' @ r)" by (simp add: commentEnd_def)
  moreover have "strconvStep mode False c s = ([c], s)" for s
    using n(4) assms(2) by (auto simp: strconvStep_def)
  ultimately show ?case
    using Cons.IH [OF n(2)] by (subst strconv.simps) auto
qed

lemma parse_tree_comment:
  assumes "comment_ok v" "\<not> has_flag optmsk parse_comments"
  shows "parse_tree optmsk endch (''<!--'' @ v @ ''-->'' @ r) st = parse_tree optmsk endch r st"
proof -
  have "strconv (commentEnd endch) (eolMode optmsk) False (v @ ''-->'' @ r) = (v, ''-->'' @ r)"
    by (rule comment_read [OF assms(1)]) (simp add: eolMode_def)
  then have "parse_exclamation optmsk endch (''--'' @ v @ ''-->'' @ r) st = Inr (r, st)"
    using assms(2) by (simp add: parse_exclamation_def)
  then show ?thesis by (simp add: parse_tree_open parse_tag_def)
qed

section \<open>Source texts\<close>

definition declarationText :: "(string \<times> string) list \<Rightarrow> string" where
  "declarationText as = (if as = [] then [] else ''<?xml'' @ node_output_attributes format_default [] 0 as @ ''?>'' @ ''\<newline>'')"

definition commentsText :: "string list \<Rightarrow> string" where
  "commentsText comments = concat (map (\<lambda>v. ''<!--'' @ v @ ''-->'' @ ''\<newline>'') comments)"

definition sourceText :: "(string \<times> string) list \<Rightarrow> string list \<Rightarrow> string \<Rightarrow> xml_node \<Rightarrow> string" where
  "sourceText as comments indent node = declarationText as @ commentsText comments @ node_output format_default indent 0 node"

definition source_ok :: "nat \<Rightarrow> (string \<times> string) list \<Rightarrow> string list \<Rightarrow> string \<Rightarrow> bool" where
  "source_ok optmsk as comments indent \<longleftrightarrow>
     list_all (attribute_ok optmsk) as \<and> CHR ''?'' \<notin> set (node_output_attributes format_default [] 0 as) \<and>
     list_all comment_ok comments \<and> list_all isBlank indent"

text \<open>What the flags keep of the declaration.\<close>

definition declarationNodes :: "nat \<Rightarrow> (string \<times> string) list \<Rightarrow> xml_node list" where
  "declarationNodes optmsk as =
     (if as \<noteq> [] \<and> has_flag optmsk parse_declaration then [Node node_declaration (Some ''xml'') None as []] else [])"

lemma newline_skipped:
  "plain_options optmsk \<Longrightarrow> parse_tree optmsk endch (''\<newline>'' @ CHR ''<'' # r) st = parse_tree optmsk endch (CHR ''<'' # r) st"
  by (rule parse_tree_blanks) auto

lemma comments_skipped:
  assumes "list_all comment_ok comments" "plain_options optmsk" "\<not> has_flag optmsk parse_comments"
  shows "parse_tree optmsk endch (commentsText comments @ CHR ''<'' # r) st = parse_tree optmsk endch (CHR ''<'' # r) st"
  using assms(1)
proof (induction comments)
  case (Cons v vs)
  let ?rest = "commentsText vs @ CHR ''<'' # r"
  obtain u where u: "?rest = CHR ''<'' # u" by (cases vs) (simp_all add: commentsText_def)
  have "parse_tree optmsk endch (commentsText (v # vs) @ CHR ''<'' # r) st = parse_tree optmsk endch (''\<newline>'' @ ?rest) st"
    using parse_tree_comment [OF _ assms(3), of v endch "''\<newline>'' @ ?rest" st] Cons.prems by (simp add: commentsText_def)
  then show ?case
    using Cons newline_skipped [OF assms(2), of endch u st] unfolding u by simp
qed (simp add: commentsText_def)

lemma source_parsed:
  assumes "source_ok optmsk as comments indent" "plain_options optmsk" "\<not> has_flag optmsk parse_comments"
    and "readable optmsk node" "is_element node"
  shows "parse_tree optmsk endch (sourceText as comments indent node) [newNode node_document] =
    Inr (documentNode (declarationNodes optmsk as @ [node]))"
proof -
  let ?out = "fst (nodesOutput format_default indent 0 (False, True) [node]) @ ''\<newline>''"
  have out: "node_output format_default indent 0 node = ?out"
    using element_flags [OF assms(5)] by (simp add: node_output_def split_beta)
  obtain h where h: "?out = CHR ''<'' # h"
    using printed_element_start [OF assms(4,5), of indent 0 "(False, True)"]
    by (auto simp: split_beta lead_def text_output_indent_def)
  have new: "newNode node_document = documentNode []" by (simp add: newNode_def documentNode_def)
  obtain u where u: "commentsText comments @ ?out = CHR ''<'' # u"
    unfolding h by (cases comments) (simp_all add: commentsText_def)
  have "parse_tree optmsk endch (sourceText as comments indent node) [documentNode []] =
      parse_tree optmsk endch (commentsText comments @ ?out) [documentNode (declarationNodes optmsk as)]"
  proof (cases "as = []")
    case False
    then show ?thesis
      using parse_declaration_tag [OF assms(2) _ False, of endch "''\<newline>'' @ commentsText comments @ ?out" "[]"]
        assms(1) newline_skipped [OF assms(2)] u
      by (simp add: sourceText_def declarationText_def out source_ok_def declarationNodes_def)
  qed (simp add: sourceText_def declarationText_def out declarationNodes_def)
  also have "\<dots> = parse_tree optmsk endch ?out [documentNode (declarationNodes optmsk as)]"
    unfolding h by (rule comments_skipped) (use assms(1-3) in \<open>simp_all add: source_ok_def\<close>)
  also have "\<dots> = Inr (documentNode (declarationNodes optmsk as @ [node]))"
    using assms by (intro parse_tree_elements) (simp_all add: source_ok_def)
  finally show ?thesis by (simp add: new)
qed

lemma source_no_nul:
  assumes "source_ok optmsk as comments indent" "readable optmsk node" "is_element node"
  shows "no_nul (sourceText as comments indent node)"
proof -
  have "no_nul (fst (nodeOutput format_default indent 0 (False, True) node))"
    using node_no_nul [OF _ assms(2)] assms(1) by (intro prints_no_nulD) (simp add: source_ok_def)
  moreover have "no_nul (commentsText comments)"
    using assms(1) by (auto simp: source_ok_def commentsText_def comment_ok_def list_all_iff)
  moreover have "no_nul (declarationText as)"
    using assms(1) attributes_no_nul [of optmsk as "[]" 0] by (simp add: source_ok_def declarationText_def)
  ultimately show ?thesis using element_flags [OF assms(3)] by (simp add: sourceText_def node_output_def split_beta)
qed

text \<open>A source text is loaded as its element; the encoding is that of the declaration.\<close>

lemma source_load:
  assumes "source_ok optmsk as comments indent" "plain_options optmsk" "\<not> has_flag optmsk parse_comments"
    and "readable optmsk node" "is_element node"
    and "guess_buffer_encoding (sourceText as comments indent node) = encoding_utf8"
  shows "xml_load_file optmsk (Some (sourceText as comments indent node)) =
    \<lparr> load_status = status_ok, load_encoding = encoding_utf8,
      load_document = documentNode (declarationNodes optmsk as @ [node]) \<rparr>"
proof -
  let ?s = "sourceText as comments indent node"
  have "\<exists>u. node_output format_default indent 0 node = CHR ''<'' # u"
    using printed_element_start [OF assms(4,5), of indent 0 "(False, True)"]
    by (auto simp: node_output_def split_beta lead_def text_output_indent_def)
  then obtain u where "?s = CHR ''<'' # u"
    by (cases as; cases comments) (auto simp: sourceText_def declarationText_def commentsText_def)
  moreover have "has_element_node_siblings (first_child (documentNode (declarationNodes optmsk as @ [node])))"
    using assms(5) by (simp add: has_element_node_siblings_def documentNode_def is_element_def)
  ultimately have "parse optmsk (?s @ [CHR 0x00]) = Inr (documentNode (declarationNodes optmsk as @ [node]))"
    by (intro parse_terminated source_no_nul [OF assms(1,4,5)] source_parsed [OF assms(1-5)])
  moreover have "get_buffer_encoding encoding_auto ?s = encoding_utf8"
    using assms(6) by (simp add: get_buffer_encoding_def)
  ultimately show ?thesis
    by (simp add: load_utf8 load_buffer_impl_def get_buffer_encoding_def convert_buffer_def get_mutable_buffer_def)
qed

lemma bare_source_utf8:
  assumes "readable optmsk node" "is_element node"
  shows "guess_buffer_encoding (sourceText [] [] indent node) = encoding_utf8"
  using printed_element_start [OF assms, of indent 0 "(False, True)"] guess_utf8
  by (auto simp: sourceText_def declarationText_def commentsText_def node_output_def split_beta lead_def text_output_indent_def)

end
