(* ===== verification/PugiManifest.thy ===== *)
theory PugiManifest
  imports PugiSource Update
begin

text \<open>
  The two users of pugixml on the modelled library: the manifest reader of \<open>Arxml\<close> (\<open>arxml_reader.cpp\<close>,
  \<open>arxml_node.cpp\<close>) and the manifest update of \<open>Ucm\<close> (\<open>package_manager.cpp\<close>). What they were given from outside is
  defined here by parser and printer, and what was assumed of it is proved. The evaluation of the XPath query that
  selects the list of processes and the reading of the version as a floating-point number stay given.
\<close>

section \<open>The library of the manifest reader\<close>

text \<open>
  The nodes the reader sees. Its flags leave elements, texts and the declaration; children of a declaration, which only
  a malformed one has, are not looked at.
\<close>

fun arxmlNode :: "xml_node \<Rightarrow> XmlNode" where
  "arxmlNode (Node t n v as cs) =
     (if t = node_pcdata then XmlText (case v of Some x \<Rightarrow> x | None \<Rightarrow> [])
      else if t = node_declaration \<and> n = Some ''xml'' then XmlDeclaration as
      else XmlElement (case n of Some x \<Rightarrow> x | None \<Rightarrow> []) as (map arxmlNode cs))"

fun pugiNode :: "XmlNode \<Rightarrow> xml_node" where
  "pugiNode (XmlElement n as cs) = elementNode n as (map pugiNode cs)"
| "pugiNode (XmlText v) = textNode v"
| "pugiNode (XmlDeclaration as) = Node node_declaration (Some ''xml'') None as []"

lemma arxml_pugi [simp]: "arxmlNode (pugiNode n) = n"
  by (induction n) (auto simp: elementNode_def textNode_def map_idI)

definition parseResult :: "xml_load \<Rightarrow> XmlParseResult" where
  "parseResult l =
     \<lparr> statusOk = (load_status l = status_ok), encodingUtf8 = (load_encoding l = encoding_utf8),
       parsedNodes = map arxmlNode (first_child (load_document l)) \<rparr>"

definition pugiLib :: "(string \<Rightarrow> string option) \<Rightarrow> (string \<Rightarrow> bool) \<Rightarrow> XmlLib" where
  "pugiLib files isOne =
     \<lparr> load_file = (\<lambda>path. parseResult (xml_load_file parse_declaration (files path))),
       load_buffer = (\<lambda>content. parseResult (xml_load_buffer parse_declaration content)),
       isVersionOne = isOne, printNode = (\<lambda>node. xml_print (pugiNode node)) \<rparr>"

text \<open>Elements the reader can print and read again.\<close>

definition manifestElement :: "XmlNode \<Rightarrow> bool" where
  "manifestElement node \<longleftrightarrow> readable parse_declaration (pugiNode node) \<and> is_element (pugiNode node)"

lemma validate_element:
  "is_element (pugiNode node) \<Longrightarrow>
   Arxml_validate lib \<lparr> statusOk = True, encodingUtf8 = True, parsedNodes = [node] \<rparr>"
  by (cases node) (auto simp: Arxml_validate_def xml_child_def xmlDocument_def is_element_def textNode_def)

lemma manifest_readsBack:
  assumes "manifestElement node"
  shows "readsBack (pugiLib files isOne) node"
  using assms print_load [of parse_declaration "pugiNode node"] plain_parse_declaration validate_element [of node]
  by (simp add: manifestElement_def readsBack_def ArxmlReader_content_def readerOf_def pugiLib_def parseResult_def documentNode_def)

subsection \<open>The nodes of a manifest\<close>

definition manifestNode :: "XmlNode \<Rightarrow> bool" where
  "manifestNode node \<longleftrightarrow> readable parse_declaration (pugiNode node) \<or> (\<exists>as. node = XmlDeclaration as)"

lemma manifest_children:
  assumes "manifestNode node" "child \<in> set (xml_children (Some node))"
  shows "manifestNode child"
  using assms by (cases node) (auto simp: manifestNode_def elementNode_def list_all_iff)

lemma manifest_child:
  assumes "list_all manifestNode (xml_children node)"
  shows "list_all manifestNode (xml_children (xml_child name node))"
proof (cases "xml_child name node")
  case (Some c)
  then have "c \<in> set (xml_children node)" by (auto simp: xml_child_def find_Some_iff)
  then have "manifestNode c" using assms by (simp add: list_all_iff)
  then show ?thesis using manifest_children Some by (auto simp: list_all_iff)
qed simp

lemma manifest_nodes:
  "list_all manifestNode (xml_children (Some reader)) \<Longrightarrow> list_all manifestNode (GetNodes path reader)"
  unfolding GetNodes_def
  by (rule fold_invariant [where P = "\<lambda>n. list_all manifestNode (xml_children n)" and Q = "\<lambda>_. True"])
    (auto simp: manifest_child)

text \<open>A reader on the file a document was saved to.\<close>

definition savedManifest :: "XmlNode \<Rightarrow> ArxmlReader" where
  "savedManifest manifest = xmlDocument [XmlDeclaration [(''version'', ''1.0'')], manifest]"

lemma loaded_reader:
  assumes "xml_load_file parse_declaration (files path) =
      \<lparr> load_status = status_ok, load_encoding = encoding_utf8, load_document = documentNode nodes \<rparr>"
    and "Arxml_validate (pugiLib files isOne)
      \<lparr> statusOk = True, encodingUtf8 = True, parsedNodes = map arxmlNode nodes \<rparr>"
  shows "ArxmlReader_file (pugiLib files isOne) path = Inr (xmlDocument (map arxmlNode nodes))"
  using assms by (simp add: ArxmlReader_file_def readerOf_def pugiLib_def parseResult_def documentNode_def)

lemma declared_valid:
  assumes "map_of as ''version'' = Some v" "isOne v"
  shows "Arxml_validate (pugiLib files isOne)
    \<lparr> statusOk = True, encodingUtf8 = True, parsedNodes = [XmlDeclaration as, node] \<rparr>"
  using assms by (simp add: Arxml_validate_def xml_child_def xmlDocument_def pugiLib_def)

lemma saved_tree_read:
  assumes "readable parse_declaration node" "is_element node" "isOne ''1.0''"
    and "files path = Some (xml_save format_default (documentNode [node]))"
  shows "ArxmlReader_file (pugiLib files isOne) path = Inr (savedManifest (arxmlNode node))"
proof -
  have "has_flag parse_declaration parse_declaration" by (simp add: has_flag_def parse_declaration_def)
  then have "xml_load_file parse_declaration (files path) =
      \<lparr> load_status = status_ok, load_encoding = encoding_utf8, load_document = documentNode [declarationNode, node] \<rparr>"
    using assms save_load [of parse_declaration "[node]"] plain_parse_declaration by simp
  from loaded_reader [of files path, OF this] show ?thesis
    using declared_valid [of "[(''version'', ''1.0'')]" "''1.0''" isOne files "arxmlNode node"] assms(3)
    by (simp add: savedManifest_def declarationNode_def)
qed

lemma manifest_containers:
  assumes "list_all manifestNode (xml_children (Some reader))" "list_all (\<lambda>n. is_element (pugiNode n)) (GetNodes path reader)"
  shows "list_all (readsBack (pugiLib files isOne)) (GetNodes path reader)"
proof -
  have "manifestElement n" if "manifestNode n" "is_element (pugiNode n)" for n
    using that by (auto simp: manifestNode_def manifestElement_def is_element_def)
  then have "list_all manifestElement (GetNodes path reader)"
    using manifest_nodes [OF assms(1), of path] assms(2) by (simp add: list_all_iff)
  then show ?thesis using manifest_readsBack by (auto simp: list_all_iff)
qed

text \<open>C9: from the text of a manifest file, whatever its layout, declaration and comments, a network configuration is
  reported as found exactly when both endpoints are in it by name and the protocol is TCP or UDP; it then has the
  address of the one and the port of the other under that protocol. An endpoint that is there without an address or
  without such a port counts as found all the same, with an empty address or port 0, although the header says that the
  result is true when the configuration is filled properly. The text is any text the reader accepts, provided that
  no string in it needs an escape, no text is interrupted by a comment, and the two endpoint containers hold only
  elements; every endpoint up to the one that matches is printed and parsed once more on the way.\<close>

theorem configuration_from_text:
  assumes "ArxmlReader_file (pugiLib files isOne) path = Inr reader" "list_all manifestNode (xml_children (Some reader))"
    and "networkEndpoint \<noteq> []" "applicationEndpoint \<noteq> []"
    and "list_all (\<lambda>n. is_element (pugiNode n)) (GetNodes cIpAddressShallowChildren reader)"
    and "list_all (\<lambda>n. is_element (pugiNode n)) (GetNodes cPortNumberShallowChildren reader)"
  shows "TryGetNetworkConfiguration_file (pugiLib files isOne) path networkEndpoint applicationEndpoint protocol configuration =
    Inr (case (find (endpointNamed networkEndpoint) (GetNodes cIpAddressShallowChildren reader),
               find (endpointNamed applicationEndpoint) (GetNodes cPortNumberShallowChildren reader), portPath protocol) of
           (Some n, Some a, Some deep) \<Rightarrow>
             (True, configuration\<lparr> ipAddress := Arxml_GetString (GetRootNode cIpAddressDeepChildren (xmlDocument [n])),
                                   portNumber := Arxml_GetValue (GetRootNode deep (xmlDocument [a])) \<rparr>)
         | _ \<Rightarrow> (False, configuration))"
  using assms(1) network_configuration
    [OF assms(3,4) manifest_containers [OF assms(2,5)] manifest_containers [OF assms(2,6)]]
  by (simp add: TryGetNetworkConfiguration_file_def)

text \<open>
  A manifest as the repository's are written: a declaration with an encoding, a comment, four blanks of indentation.
  One application endpoint has a TCP port, another has none.
\<close>

definition sampleManifest :: XmlNode where
  "sampleManifest =
     foldr (\<lambda>name node. XmlElement name [] [node]) [''AUTOSAR'', ''AR-PACKAGES'', ''AR-PACKAGE'']
       (XmlElement ''ELEMENTS'' []
         [foldr (\<lambda>name node. XmlElement name [] [node]) [''COMMUNICATION-CLUSTER'', ''ETHERNET-PHYSICAL-CHANNEL'', ''NETWORK-ENDPOINTS'']
            (XmlElement ''NETWORK-ENDPOINT'' []
              [textElement ''SHORT-NAME'' ''Host'',
               foldr (\<lambda>name node. XmlElement name [] [node]) [''NETWORK-ENDPOINT-ADDRESSES'', ''IPV-4-CONFIGURATION'']
                 (textElement ''IPV-4-ADDRESS'' ''127.0.0.1'')]),
          XmlElement ''ETHERNET-COMMUNICATION-CONNECTOR'' []
            [XmlElement ''AP-APPLICATION-ENDPOINTS'' []
              [XmlElement ''AP-APPLICATION-ENDPOINT'' []
                [textElement ''SHORT-NAME'' ''ExecutionServerTCP'',
                 foldr (\<lambda>name node. XmlElement name [] [node]) [''TP-CONFIGURATION'', ''TCP-TP'', ''TCP-TP-PORT'']
                   (textElement ''PORT-NUMBER'' ''8080'')],
               XmlElement ''AP-APPLICATION-ENDPOINT'' [] [textElement ''SHORT-NAME'' ''NoPort'']]]])"

lemmas readable_eval = name_ok_def text_ok_def letter_symbol [THEN mp] letter_start [THEN mp] space_iff special_pcdata_iff
  charCode_def is_pcdata_def elementNode_def textNode_def has_flag_def parse_flags

lemma sampleManifest_element: "manifestElement sampleManifest"
  by (simp add: manifestElement_def sampleManifest_def textElement_def is_element_def readable_eval)

definition sampleDeclaration :: "(string \<times> string) list" where
  "sampleDeclaration = [(''version'', ''1.0''), (''encoding'', ''UTF-8'')]"

definition sampleComments :: "string list" where
  "sampleComments = ['' Machine A - local configuration '']"

lemma sample_attributes:
  "node_output_attributes format_default [] 0 sampleDeclaration =
     '' version='' @ [CHR 0x22] @ ''1.0'' @ [CHR 0x22] @ '' encoding='' @ [CHR 0x22] @ ''UTF-8'' @ [CHR 0x22]"
  by (simp add: sampleDeclaration_def node_output_attributes_default text_output_escaped_def special_attr_iff charCode_def)

lemma sample_source_ok: "source_ok optmsk sampleDeclaration sampleComments ''    ''"
proof -
  have "list_all (attribute_ok optmsk) sampleDeclaration"
    by (simp add: sampleDeclaration_def attribute_ok_def readable_eval special_attr_iff)
  moreover have "list_all comment_ok sampleComments" by (simp add: sampleComments_def comment_ok_def starts_def)
  ultimately show ?thesis by (simp add: source_ok_def sample_attributes)
qed

lemma sample_source_utf8: "guess_buffer_encoding (sourceText sampleDeclaration sampleComments indent node) = encoding_utf8"
proof -
  have "sampleDeclaration \<noteq> []" by (simp add: sampleDeclaration_def)
  then show ?thesis
    by (simp add: guess_buffer_encoding_def sourceText_def declarationText_def sample_attributes parse_declaration_encoding_def
        starts_def charCode_def encodingField_def skipspace_def space_iff letter_symbol [THEN mp] isLatin1Name_def)
qed

lemma sample_source_read:
  assumes "readable parse_declaration (pugiNode node)" "is_element (pugiNode node)"
    and "files path = Some (sourceText sampleDeclaration sampleComments ''    '' (pugiNode node))"
  shows "ArxmlReader_file (pugiLib files (\<lambda>v. v = ''1.0'')) path = Inr (xmlDocument [XmlDeclaration sampleDeclaration, node])"
proof -
  have flags: "\<not> has_flag parse_declaration parse_comments" "has_flag parse_declaration parse_declaration"
    by (simp_all add: has_flag_def parse_flags)
  have "declarationNodes parse_declaration sampleDeclaration @ [pugiNode node] =
      [Node node_declaration (Some ''xml'') None sampleDeclaration [], pugiNode node]"
    using flags(2) by (simp add: declarationNodes_def sampleDeclaration_def)
  then have "xml_load_file parse_declaration (files path) =
      \<lparr> load_status = status_ok, load_encoding = encoding_utf8,
        load_document = documentNode [Node node_declaration (Some ''xml'') None sampleDeclaration [], pugiNode node] \<rparr>"
    using source_load [OF sample_source_ok plain_parse_declaration flags(1) assms(1,2) sample_source_utf8] assms(3) by simp
  from loaded_reader [of files path, OF this] show ?thesis
    using declared_valid [of sampleDeclaration "''1.0''" "\<lambda>v. v = ''1.0''" files node] by (simp add: sampleDeclaration_def)
qed

theorem configuration_from_text_witness:
  "ArxmlReader_file (pugiLib [''m.arxml'' \<mapsto> sourceText sampleDeclaration sampleComments ''    '' (pugiNode sampleManifest)]
     (\<lambda>v. v = ''1.0'')) ''m.arxml'' = Inr (xmlDocument [XmlDeclaration sampleDeclaration, sampleManifest]) \<and>
   TryGetNetworkConfiguration_file
     (pugiLib [''m.arxml'' \<mapsto> sourceText sampleDeclaration sampleComments ''    '' (pugiNode sampleManifest)] (\<lambda>v. v = ''1.0''))
     ''m.arxml'' ''Host'' ''ExecutionServerTCP'' Tcp \<lparr> ipAddress = [], portNumber = 0 \<rparr> =
   Inr (True, \<lparr> ipAddress = ''127.0.0.1'', portNumber = 8080 \<rparr>) \<and>
   TryGetNetworkConfiguration_file
     (pugiLib [''m.arxml'' \<mapsto> sourceText sampleDeclaration sampleComments ''    '' (pugiNode sampleManifest)] (\<lambda>v. v = ''1.0''))
     ''m.arxml'' ''Host'' ''NoPort'' Udp \<lparr> ipAddress = [], portNumber = 0 \<rparr> =
   Inr (True, \<lparr> ipAddress = ''127.0.0.1'', portNumber = 0 \<rparr>)"
proof -
  let ?reader = "xmlDocument [XmlDeclaration sampleDeclaration, sampleManifest]"
  let ?files = "[''m.arxml'' \<mapsto> sourceText sampleDeclaration sampleComments ''    '' (pugiNode sampleManifest)]"
  have r: "ArxmlReader_file (pugiLib ?files (\<lambda>v. v = ''1.0'')) ''m.arxml'' = Inr ?reader"
    using sampleManifest_element by (intro sample_source_read) (simp_all add: manifestElement_def)
  have n: "list_all manifestNode (xml_children (Some ?reader))"
    using sampleManifest_element by (simp add: xmlDocument_def manifestNode_def manifestElement_def)
  have e: "list_all (\<lambda>n. is_element (pugiNode n)) (GetNodes cIpAddressShallowChildren ?reader)"
    "list_all (\<lambda>n. is_element (pugiNode n)) (GetNodes cPortNumberShallowChildren ?reader)"
    by code_simp+
  have p: "get_value_uint ''8080'' = 8080" "get_value_uint [] = 0"
    by (simp_all add: get_value_uint_def string_to_integer_def isHexPrefix_def isDecimal_def digitsOf_def charCode_def isXmlSpace_def
        decimalOverflow_def Let_def)
  note found = configuration_from_text [OF r n _ _ e]
  note eval = sampleManifest_def GetNodes_def cIpAddressShallowChildren_def cPortNumberShallowChildren_def
    cElementsPath_def xml_child_def xmlDocument_def endpointNamed_def GetShortName_def textElement_def xml_as_string_def
    xml_text_data_def GetRootNode_def cIpAddressDeepChildren_def cTcpPortNumberDeepChildren_def cUdpPortNumberDeepChildren_def
    Arxml_GetString_def Arxml_GetValue_def xml_as_uint_def p
  show ?thesis
    by (intro conjI; (rule r | subst found)) (simp_all add: eval)
qed

section \<open>Escapes\<close>

lemma raw_read:
  "CHR ''<'' \<notin> set s \<Longrightarrow> strconv (\<lambda>s. hd s = CHR ''<'') Simple False (s @ CHR ''<'' # t) = (s, CHR ''<'' # t)"
  using strconv_pieces [of s "CHR ''<''" Simple False "\<lambda>c. [c]" "CHR ''<'' # t"]
  by (auto simp: readsAs_def strconvStep_def)

lemma digit_not_open: "d < 10 \<Longrightarrow> char_of (d + 48 :: nat) \<noteq> CHR ''<''"
  using digit_char(1) [of d] charCode_chars(2) [of "char_of (d + 48)"] by auto

lemma escapes_open: "CHR ''<'' \<notin> set (text_output_escaped ctx_special_pcdata format_default v)"
proof -
  have "CHR ''<'' \<notin> set (escapeChar format_default c)" if special: "IS_CHARTYPEX c ctx_special_pcdata" for c
  proof -
    consider "c \<in> {CHR ''&'', CHR ''<'', CHR ''>''}" | "charCode c < 32"
      using special by (auto simp: special_pcdata_iff)
    then show ?thesis
    proof cases
      case 2
      have "charCode (CHR ''<'') = 60" "charCode (CHR 0x27) = 39" "charCode (CHR 0x22) = 34"
        by (simp_all add: charCode_def)
      then have "c \<noteq> CHR ''<''" "c \<noteq> CHR 0x27" "c \<noteq> CHR 0x22" using 2 by auto
      moreover have "char_of (charCode c div 10 + 48) \<noteq> CHR ''<''" "char_of (charCode c mod 10 + 48) \<noteq> CHR ''<''"
        using 2 by (intro digit_not_open; simp)+
      ultimately show ?thesis by (simp add: escapeChar_def)
    qed (auto simp: escapeChar_def)
  qed
  then show ?thesis by (induction v) (auto simp: text_output_escaped_def special_pcdata_iff)
qed

text \<open>
  A text as the update writes it and the manifest reader reads it: the reader does not ask for escapes to be decoded.
\<close>

text \<open>C26: the manifest reader does not decode escapes: a text that was written with its special characters escaped is
  read as the escaped text, so that a name with an ampersand in it is another name for the reader.\<close>

theorem escapes_not_decoded:
  assumes "name_ok x" "text_ok parse_default v" "isOne ''1.0''"
    and "files path = Some (xml_save format_default (documentNode [elementNode x [] [textNode v]]))"
  shows "ArxmlReader_file (pugiLib files isOne) path =
    Inr (savedManifest (XmlElement x [] [XmlText (text_output_escaped ctx_special_pcdata format_default v)]))"
proof -
  let ?o = parse_declaration and ?v = "text_output_escaped ctx_special_pcdata format_default v"
  let ?node = "elementNode x [] [textNode v]" and ?read = "elementNode x [] [textNode ?v]"
  let ?s = "xml_save format_default (documentNode [?node])" and ?close = "''/'' @ x @ ''>'' @ ''\<newline>''"
  have flags: "has_flag ?o ?o" "eolMode ?o = Simple" "\<not> has_flag ?o parse_escapes"
    by (simp_all add: has_flag_def parse_flags eolMode_def)
  have ok: "readable parse_default ?node" "is_element ?node" "is_element ?read"
    using assms(1,2) by (simp_all add: elementNode_def textNode_def is_element_def)
  have printed: "?s = cDeclaration @ ''\<newline>'' @ CHR ''<'' # x @ CHR ''>'' # ?v @ CHR ''<'' # ?close"
    using saved_document [of "[?node]"] ok(2)
    by (simp add: split_beta nodeOutput_simps node_output_attributes_default lead_def text_output_indent_def)
  have new: "newNode node_document = documentNode []" by (simp add: newNode_def documentNode_def)
  have nul: "no_nul v" "no_nul x"
    using assms(1,2) symbols_no_nul by (auto simp: text_ok_def name_ok_def list_all_iff)
  have body: "parse_tree ?o e (?v @ CHR ''<'' # ?close) st =
      parse_tree ?o e (CHR ''<'' # ?close) (atCursor (append_node (textNode ?v)) st)" if "has_parent st" for e st
  proof (rule parse_tree_text_step [OF _ _ _ _ plain_parse_declaration that])
    show "strconv (\<lambda>s. hd s = CHR ''<'') (eolMode ?o) (has_flag ?o parse_escapes) (?v @ CHR ''<'' # ?close) = (?v, CHR ''<'' # ?close)"
      using raw_read [OF escapes_open] flags by simp
    show "no_nul ?v" by (rule text_output_no_nul [OF nul(1)])
    have "list_ex (\<lambda>c. \<not> isBlank c) v" using assms(2) by (simp add: text_ok_def)
    from printed_not_open [OF this, of "CHR ''<'' # ?close"]
    show "skipspace (?v @ CHR ''<'' # ?close) \<noteq> []" "hd (skipspace (?v @ CHR ''<'' # ?close)) \<noteq> CHR ''<''" by blast+
  qed simp
  have start: "parse_tag ?o e (x @ CHR ''>'' # r) st = Inr (r, elementNode x [] [] # st)" for e r st
    using parse_tag_start(1) [OF assms(1) _ plain_parse_declaration, of "[]" e "[]" 0 r st]
    by (simp add: node_output_attributes_default)
  have close: "parse_tree ?o e (CHR ''<'' # ?close) (elementNode x [] [textNode ?v] # st) =
      parse_tree ?o e ''\<newline>'' (pop_node (elementNode x [] [textNode ?v] # st))" for e st
    using parse_tag_end [OF assms(1), of ?o e "''\<newline>''" "[]" "[textNode ?v]" st] by (simp add: parse_tree_open)
  have "parse_tree ?o e (CHR ''<'' # x @ CHR ''>'' # ?v @ CHR ''<'' # ?close) [documentNode ds] =
      parse_tree ?o e ''\<newline>'' [documentNode (ds @ [?read])]" for e ds
    using body [of "elementNode x [] [] # [documentNode ds]" e] close [of e "[documentNode ds]"]
    by (simp add: parse_tree_open start has_parent_def) (simp add: elementNode_def documentNode_def)
  moreover have "parse_tree ?o e ''\<newline>'' [d] = Inr d" for e d
    using parse_tree_blanks [of "''\<newline>''" ?o "[]" e "[d]"] plain_parse_declaration
    by (simp add: parse_tree.simps [of _ _ "[]"] finish_def has_parent_def)
  moreover have "parse_tree ?o e (''\<newline>'' @ CHR ''<'' # r) st = parse_tree ?o e (CHR ''<'' # r) st" for e r st
    using plain_parse_declaration by (intro parse_tree_blanks) auto
  ultimately have "parse_tree ?o (CHR 0x00) ?s [newNode node_document] = Inr (documentNode [declarationNode, ?read])"
    using parse_declaration_line [OF plain_parse_declaration, of "CHR 0x00" _ "[]"] flags(1)
    unfolding printed new by simp
  moreover have "no_nul ?s" using nul text_output_no_nul [OF nul(1)] by (simp add: printed cDeclaration_def)
  moreover obtain s' where "?s = CHR ''<'' # s'" by (simp add: printed cDeclaration_def)
  moreover have "has_element_node_siblings (first_child (documentNode [declarationNode, ?read]))"
    by (simp add: has_element_node_siblings_def documentNode_def elementNode_def)
  ultimately have "parse ?o (?s @ [CHR 0x00]) = Inr (documentNode [declarationNode, ?read])"
    using parse_terminated by blast
  moreover have "get_buffer_encoding encoding_auto ?s = encoding_utf8"
    using declaration_utf8 by (simp add: get_buffer_encoding_def printed)
  ultimately have "xml_load_file ?o (Some ?s) =
      \<lparr> load_status = status_ok, load_encoding = encoding_utf8, load_document = documentNode [declarationNode, ?read] \<rparr>"
    by (simp add: load_utf8 load_buffer_impl_def get_buffer_encoding_def convert_buffer_def get_mutable_buffer_def)
  then show ?thesis
    using assms(3,4)
    by (simp add: ArxmlReader_file_def readerOf_def Arxml_validate_def pugiLib_def parseResult_def xml_child_def xmlDocument_def
        savedManifest_def) (simp add: documentNode_def declarationNode_def elementNode_def textNode_def)
qed

text \<open>The name of an application with an ampersand.\<close>

theorem escapes_not_decoded_witness:
  "ArxmlReader_file
     (pugiLib [''m'' \<mapsto> xml_save format_default (documentNode [elementNode ''SHORT-NAME'' [] [textNode ''A&B'']])] (\<lambda>v. v = ''1.0''))
     ''m'' = Inr (savedManifest (XmlElement ''SHORT-NAME'' [] [XmlText ''A&amp;B'']))"
proof -
  have "name_ok ''SHORT-NAME''" "text_ok parse_default ''A&B''"
    by (simp_all add: readable_eval parse_default_def)
  moreover have "text_output_escaped ctx_special_pcdata format_default ''A&B'' = ''A&amp;B''"
    by (simp add: text_output_escaped_def escapeChar_def special_pcdata_iff charCode_def)
  ultimately show ?thesis
    using escapes_not_decoded [of "''SHORT-NAME''" "''A&B''" "\<lambda>v. v = ''1.0''"
        "[''m'' \<mapsto> xml_save format_default (documentNode [elementNode ''SHORT-NAME'' [] [textNode ''A&B'']])]" "''m''"]
    by simp
qed

section \<open>The library of the manifest update\<close>

text \<open>Files of \<open>Per\<close> are bytes, the parser's are characters.\<close>

definition charsOf :: "bytes \<Rightarrow> string" where
  "charsOf b = map (\<lambda>w. char_of (unat w)) b"

definition bytesOf :: "string \<Rightarrow> bytes" where
  "bytesOf s = map (\<lambda>c. word_of_nat (charCode c)) s"

lemma chars_bytes [simp]: "charsOf (bytesOf s) = s"
proof -
  have "unat (word_of_nat (charCode c) :: u8) = charCode c" for c
    using charCode_less [of c] by (simp add: unsigned_of_nat take_bit_nat_eq_self)
  then show ?thesis unfolding charsOf_def bytesOf_def by (simp add: comp_def) (simp add: charCode_def)
qed

fun nodeAt :: "nat list \<Rightarrow> xml_node \<Rightarrow> xml_node" where
  "nodeAt [] n = n"
| "nodeAt (i # p) n = nodeAt p (first_child n ! i)"

fun updateAt :: "nat list \<Rightarrow> (xml_node \<Rightarrow> xml_node) \<Rightarrow> xml_node \<Rightarrow> xml_node" where
  "updateAt [] f n = f n"
| "updateAt (i # p) f (Node t n v as cs) = Node t n v as (cs[i := updateAt p f (cs ! i)])"

definition is_text_data :: "xml_node \<Rightarrow> bool" where
  "is_text_data node \<longleftrightarrow> node_type node = node_pcdata \<or> node_type node = node_cdata"

definition text_as_string :: "xml_node \<Rightarrow> string" where
  "text_as_string node =
     (if is_text_data node \<or> node_type node = node_element \<and> node_value node \<noteq> None then valueOf node
      else (case find is_text_data (first_child node) of Some d \<Rightarrow> valueOf d | None \<Rightarrow> []))"

definition child_named :: "string \<Rightarrow> xml_node \<Rightarrow> xml_node option" where
  "child_named name node = find (\<lambda>c. node_name c = Some name) (first_child node)"

text \<open>The text of the child SHORT-NAME.\<close>

definition shortNameText :: "xml_node \<Rightarrow> string" where
  "shortNameText node = (case child_named ''SHORT-NAME'' node of Some c \<Rightarrow> text_as_string c | None \<Rightarrow> [])"

definition allow_insert_child :: "xml_node_type \<Rightarrow> xml_node_type \<Rightarrow> bool" where
  "allow_insert_child parent child \<longleftrightarrow>
     (parent = node_document \<or> parent = node_element) \<and> child \<noteq> node_document \<and> child \<noteq> node_null \<and>
     (parent = node_document \<or> child \<noteq> node_declaration \<and> child \<noteq> node_doctype)"

definition append_copy :: "xml_node \<Rightarrow> xml_node \<Rightarrow> xml_node" where
  "append_copy proto node =
     (if allow_insert_child (node_type node) (node_type proto) then append_node proto node else node)"

definition loadedDocument :: "bytes \<Rightarrow> xml_node option" where
  "loadedDocument content =
     (let l = xml_load_file parse_default (Some (charsOf content))
      in if load_status l = status_ok then Some (load_document l) else None)"

text \<open>\<open>select\<close> is the query for the list of processes; a document that was loaded has an element.\<close>

definition pugiXml :: "(xml_node \<Rightarrow> nat list option) \<Rightarrow> (xml_node, xml_node) XmlLibrary" where
  "pugiXml select =
     \<lparr> loadProcess = (\<lambda>content. Option.bind (loadedDocument content) (\<lambda>doc.
         map_option (\<lambda>e. (shortNameText e, e)) (document_element doc))),
       loadManifest = loadedDocument,
       processesOf = (\<lambda>doc. map_option (\<lambda>p. map (\<lambda>c. (shortNameText c, c))
         (filter (\<lambda>c. node_name c = Some ''PROCESS'') (first_child (nodeAt p doc)))) (select doc)),
       appendCopy = (\<lambda>(_, process) doc. case select doc of Some p \<Rightarrow> updateAt p (append_copy process) doc | None \<Rightarrow> doc),
       renderManifest = (\<lambda>doc. bytesOf (xml_save format_default doc)) \<rparr>"

text \<open>A tree both the update and the reader can read.\<close>

definition manifestTree :: "xml_node \<Rightarrow> bool" where
  "manifestTree node \<longleftrightarrow> readable parse_declaration node \<and> readable parse_default node \<and> is_element node"

lemma loaded_tree: "manifestTree node \<Longrightarrow> loadedDocument (bytesOf (xml_save format_default (documentNode [node]))) = Some (documentNode [node])"
proof -
  have "\<not> has_flag parse_default parse_declaration" by (simp add: has_flag_def parse_flags parse_default_def)
  then show "manifestTree node \<Longrightarrow> loadedDocument (bytesOf (xml_save format_default (documentNode [node]))) = Some (documentNode [node])"
    using save_load [of parse_default "[node]"] plain_parse_default
    by (simp add: loadedDocument_def manifestTree_def Let_def)
qed

text \<open>Appending an element to an element of a readable tree.\<close>

fun elementPath :: "nat list \<Rightarrow> xml_node \<Rightarrow> bool" where
  "elementPath [] n \<longleftrightarrow> is_element n"
| "elementPath (i # p) n \<longleftrightarrow> i < length (first_child n) \<and> elementPath p (first_child n ! i)"

lemma element_type: "elementPath (i # p) n \<Longrightarrow> readable optmsk n \<Longrightarrow> is_element n"
  by (cases n) (auto simp: is_element_def split: xml_node_type.splits)

lemma successively_snoc: "successively R cs \<Longrightarrow> (cs \<noteq> [] \<Longrightarrow> R (last cs) x) \<Longrightarrow> successively R (cs @ [x])"
  by (cases "cs = []") (auto simp: successively_append_iff)

lemma successively_update:
  assumes "successively (\<lambda>a b. \<not> (P a \<and> P b)) cs" "P x \<longrightarrow> P (cs ! i)" "i < length cs"
  shows "successively (\<lambda>a b. \<not> (P a \<and> P b)) (cs[i := x])"
  using assms by (auto simp: successively_conv_nth nth_list_update)

lemma updateAt_type:
  "elementPath p node \<Longrightarrow> node_type (updateAt p (append_copy process) node) = node_type node"
  by (cases "(p, append_copy process, node)" rule: updateAt.cases) (auto simp: append_copy_def, metis append_node.simps xml_node.exhaust_sel xml_node.sel(1))

lemma updateAt_readable:
  assumes "readable optmsk process" "is_element process"
  shows "readable optmsk node \<Longrightarrow> elementPath p node \<Longrightarrow>
    readable optmsk (updateAt p (append_copy process) node)"
proof (induction p arbitrary: node)
  case Nil
  obtain t n v as cs where node: "node = Node t n v as cs" by (cases node)
  have "t = node_element" using Nil(2) by (simp add: node is_element_def)
  moreover have "\<not> is_pcdata process" using assms(2) by (simp add: is_pcdata_def is_element_def)
  ultimately show ?case
    using Nil(1) assms by (auto simp: node append_copy_def allow_insert_child_def is_element_def intro: successively_snoc)
next
  case (Cons i p)
  obtain t n v as cs where node: "node = Node t n v as cs" by (cases node)
  have t: "t = node_element" using element_type [OF Cons.prems(2,1)] by (simp add: node is_element_def)
  have i: "i < length cs" "elementPath p (cs ! i)" using Cons.prems(2) by (simp_all add: node)
  have cs: "list_all (readable optmsk) cs" "successively (\<lambda>a b. \<not> (is_pcdata a \<and> is_pcdata b)) cs"
    using Cons.prems(1) by (simp_all add: node t)
  let ?c = "updateAt p (append_copy process) (cs ! i)"
  have "readable optmsk ?c" using Cons.IH [OF _ i(2)] cs(1) i(1) by (simp add: list_all_length)
  then have "list_all (readable optmsk) (cs[i := ?c])"
    using cs(1) set_update_subset_insert [of cs i ?c] by (auto simp: list_all_iff)
  moreover have "is_pcdata ?c \<longrightarrow> is_pcdata (cs ! i)" using updateAt_type [OF i(2)] by (simp add: is_pcdata_def)
  then have "successively (\<lambda>a b. \<not> (is_pcdata a \<and> is_pcdata b)) (cs[i := ?c])"
    by (rule successively_update [OF cs(2) _ i(1)])
  ultimately show ?case using Cons.prems(1) by (simp add: node t)
qed

lemma updateAt_element:
  assumes "manifestTree process" "manifestTree node" "elementPath p node"
  shows "manifestTree (updateAt p (append_copy process) node)"
  using assms updateAt_readable updateAt_type [OF assms(3), of process] by (auto simp: manifestTree_def is_element_def)

lemma nodeAt_updateAt: "elementPath p node \<Longrightarrow> nodeAt p (updateAt p f node) = f (nodeAt p node)"
proof (induction p arbitrary: node)
  case (Cons i p)
  then show ?case by (cases node) simp
qed simp

lemma appended_children:
  "elementPath p node \<Longrightarrow> is_element process \<Longrightarrow>
   first_child (nodeAt p (updateAt p (append_copy process) node)) = first_child (nodeAt p node) @ [process]"
proof -
  assume a: "elementPath p node" "is_element process"
  have "elementPath p node \<Longrightarrow> is_element (nodeAt p node)" by (induction p arbitrary: node) auto
  then have "is_element (nodeAt p node)" using a(1) by simp
  then show ?thesis
    using a(2) by (cases "nodeAt p node") (simp add: nodeAt_updateAt [OF a(1)] append_copy_def allow_insert_child_def is_element_def)
qed

definition processNames :: "nat list \<Rightarrow> xml_node \<Rightarrow> string list" where
  "processNames p node = map shortNameText (filter (\<lambda>c. node_name c = Some ''PROCESS'') (first_child (nodeAt p node)))"

text \<open>Injection into whatever texts the library loads: the layout, the declaration and the comments do not matter.\<close>

lemma pugi_inject:
  assumes "loadedDocument text = Some (documentNode [manifest])"
    and "Option.bind (loadedDocument entry) document_element = Some process"
    and "select (documentNode [manifest]) = Some (0 # p)"
  shows "injectProcess (pugiXml select) (Some entry) (Some text) =
    Some (documentNode [if shortNameText process \<in> set (processNames p manifest) then manifest
                        else updateAt p (append_copy process) manifest])"
proof -
  have "loadProcess (pugiXml select) entry = Some (shortNameText process, process)"
    using assms(2) by (auto simp: pugiXml_def bind_eq_Some_conv)
  moreover have "loadManifest (pugiXml select) text = Some (documentNode [manifest])"
    using assms(1) by (simp add: pugiXml_def)
  ultimately show ?thesis
    using assms(3) by (simp add: injectProcess_def pugiXml_def processNames_def image_image) (simp add: documentNode_def)
qed

text \<open>C8: after an update the manifest is a manifest again, for the reader of execution management as for the next
  update: both read the old tree with the new process appended to its list of processes, or the old tree when a
  process of that name was in the list, and the name of the process is in the list either way. The manifest before may
  have any layout, declaration and comments, and so may the process entry of the package, which need not have a
  declaration, provided that both are loaded, that no string in them needs an escape, that no text is interrupted by a
  comment, that the manifest has one root element, that the entry is a PROCESS element, and that the installed binary,
  the manifest and the registry are different files. The query finds the list of processes at \<open>p\<close> below the root.\<close>

theorem updated_manifest_read:
  assumes "Activate faults (pugiXml select) render installRoot manifestPath pm fs = (Inr (), pm', fs')"
    and "separatePaths installRoot manifestPath pm (mStagedBinaryName pm)"
    and "fs manifestPath = Some text" "loadedDocument text = Some (documentNode [manifest])" "manifestTree manifest"
    and "fs (extractDir pm @ ''/manifest/process_entry.xml'') = Some entry"
    and "Option.bind (loadedDocument entry) document_element = Some process"
    and "manifestTree process" "node_name process = Some ''PROCESS''"
    and "select (documentNode [manifest]) = Some (0 # p)" "elementPath p manifest" "isOne ''1.0''"
  shows "\<exists>updated text'. manifestTree updated \<and>
    updated = (if shortNameText process \<in> set (processNames p manifest) then manifest
               else updateAt p (append_copy process) manifest) \<and>
    shortNameText process \<in> set (processNames p updated) \<and>
    ArxmlReader_file (pugiLib (\<lambda>path. map_option charsOf (fs' path)) isOne) manifestPath =
      Inr (savedManifest (arxmlNode updated)) \<and>
    fs' manifestPath = Some text' \<and> loadedDocument text' = Some (documentNode [updated])"
proof -
  let ?updated = "if shortNameText process \<in> set (processNames p manifest) then manifest
    else updateAt p (append_copy process) manifest"
  let ?text = "bytesOf (xml_save format_default (documentNode [?updated]))"
  obtain binary doc where "injectProcess (pugiXml select) (fs (extractDir pm @ ''/manifest/process_entry.xml''))
      (fs manifestPath) = Some doc" "fs' manifestPath = Some (renderManifest (pugiXml select) doc)"
    by (rule activated [OF assms(1,2)])
  then have saved: "fs' manifestPath = Some ?text"
    using pugi_inject [where select = select, OF assms(4,7,10)] assms(3,6) by (simp add: pugiXml_def)
  have tree: "manifestTree ?updated"
    using updateAt_element [OF assms(8,5,11)] assms(5) by simp
  then have "ArxmlReader_file (pugiLib (\<lambda>path. map_option charsOf (fs' path)) isOne) manifestPath =
      Inr (savedManifest (arxmlNode ?updated))"
    using assms(12) saved by (intro saved_tree_read) (auto simp: manifestTree_def)
  moreover have "shortNameText process \<in> set (processNames p ?updated)"
    using appended_children [OF assms(11), of process] assms(8,9)
    by (simp add: processNames_def manifestTree_def)
  ultimately show ?thesis using tree saved loaded_tree [OF tree] by blast
qed

text \<open>
  The process entry that \<open>scripts/create_sw_package.sh\<close> writes, a bare fragment, and a manifest with a declaration, a
  comment and one process.
\<close>

definition line :: "nat \<Rightarrow> string \<Rightarrow> string" where
  "line indent s = concat (replicate indent ''    '') @ s @ ''\<newline>''"

definition scriptEntry :: string where
  "scriptEntry =
     line 0 ''<PROCESS>'' @
     line 1 ''<SHORT-NAME>TimeSynchronization</SHORT-NAME>'' @
     line 1 ''<EXECUTABLE-PATH>./deploy/bin/time_synchronization</EXECUTABLE-PATH>'' @
     line 1 ''<BOOTSTRAP>false</BOOTSTRAP>'' @
     line 1 ''<FUNCTION-GROUP-STATE-IREFS>'' @
     line 2 ''<FUNCTION-GROUP-STATE-IREF>'' @
     line 3 ''<FUNCTION-GROUP-REF>MachineFG</FUNCTION-GROUP-REF>'' @
     line 3 ''<FUNCTION-GROUP-STATE-REF>StartUp</FUNCTION-GROUP-STATE-REF>'' @
     line 2 ''</FUNCTION-GROUP-STATE-IREF>'' @
     line 1 ''</FUNCTION-GROUP-STATE-IREFS>'' @
     line 0 ''</PROCESS>''"

definition scriptProcess :: xml_node where
  "scriptProcess = pugiNode (XmlElement ''PROCESS'' []
     [textElement ''SHORT-NAME'' ''TimeSynchronization'',
      textElement ''EXECUTABLE-PATH'' ''./deploy/bin/time_synchronization'',
      textElement ''BOOTSTRAP'' ''false'',
      XmlElement ''FUNCTION-GROUP-STATE-IREFS'' []
        [XmlElement ''FUNCTION-GROUP-STATE-IREF'' []
          [textElement ''FUNCTION-GROUP-REF'' ''MachineFG'', textElement ''FUNCTION-GROUP-STATE-REF'' ''StartUp'']]])"

definition sampleProcesses :: xml_node where
  "sampleProcesses = pugiNode (XmlElement ''AUTOSAR'' []
     [XmlElement ''PROCESSES'' [] [XmlElement ''PROCESS'' [] [textElement ''SHORT-NAME'' ''old'']]])"

definition sampleSelect :: "xml_node \<Rightarrow> nat list option" where
  "sampleSelect doc = Some [0, 0]"

definition activatingManager :: PackageManager where
  "activatingManager = emptyManager\<lparr> mStagedBinaryName := ''app'', mPendingTransfers := [(1, samplePackage ''app'' 1)] \<rparr>"

definition activatingFiles :: FileSystem where
  "activatingFiles =
     [''/m'' \<mapsto> bytesOf (sourceText sampleDeclaration sampleComments ''    '' sampleProcesses),
      ''/u/staging/manifest/process_entry.xml'' \<mapsto> bytesOf scriptEntry, ''/u/staging/bin/app'' \<mapsto> [7]]"

lemma scriptEntry_source: "scriptEntry = sourceText [] [] ''    '' scriptProcess"
  by (simp add: scriptEntry_def line_def sourceText_def declarationText_def commentsText_def scriptProcess_def textElement_def
      node_output_def nodeOutput_simps node_output_attributes_default lead_def text_output_indent_def elementNode_def [symmetric]
      text_output_escaped_def special_pcdata_iff charCode_def eval_nat_numeral)

lemma sample_trees: "manifestTree sampleProcesses" "manifestTree scriptProcess"
  by (simp_all add: manifestTree_def sampleProcesses_def scriptProcess_def textElement_def is_element_def readable_eval
      parse_default_def)

lemma sample_names: "processNames [0] sampleProcesses = [''old'']" "shortNameText scriptProcess = ''TimeSynchronization''"
  by (simp_all add: processNames_def sampleProcesses_def scriptProcess_def textElement_def shortNameText_def child_named_def
      text_as_string_def is_text_data_def elementNode_def textNode_def valueOf_def)

lemma sample_loaded:
  "loadedDocument (bytesOf (sourceText sampleDeclaration sampleComments ''    '' sampleProcesses)) = Some (documentNode [sampleProcesses])"
  "loadedDocument (bytesOf scriptEntry) = Some (documentNode [scriptProcess])"
proof -
  have flags: "\<not> has_flag parse_default parse_comments" "\<not> has_flag parse_default parse_declaration"
    by (simp_all add: has_flag_def parse_flags parse_default_def)
  have bare: "source_ok parse_default [] [] ''    ''" by (simp add: source_ok_def node_output_attributes_default)
  have t: "readable parse_default sampleProcesses" "is_element sampleProcesses" "readable parse_default scriptProcess" "is_element scriptProcess"
    using sample_trees by (simp_all add: manifestTree_def)
  show "loadedDocument (bytesOf (sourceText sampleDeclaration sampleComments ''    '' sampleProcesses)) = Some (documentNode [sampleProcesses])"
    using source_load [OF sample_source_ok plain_parse_default flags(1) t(1,2) sample_source_utf8] flags(2)
    by (simp add: loadedDocument_def declarationNodes_def)
  show "loadedDocument (bytesOf scriptEntry) = Some (documentNode [scriptProcess])"
    using source_load [OF bare plain_parse_default flags(1) t(3,4) bare_source_utf8 [OF t(3,4)]]
    by (simp add: loadedDocument_def declarationNodes_def scriptEntry_source)
qed

theorem updated_manifest_read_witness:
  "\<exists>pm' fs' updated.
     Activate noFaults (pugiXml sampleSelect) (\<lambda>_. []) ''/b'' ''/m'' activatingManager activatingFiles = (Inr (), pm', fs') \<and>
     processNames [0] updated = [''old'', ''TimeSynchronization''] \<and>
     ArxmlReader_file (pugiLib (\<lambda>path. map_option charsOf (fs' path)) (\<lambda>v. v = ''1.0'')) ''/m'' =
       Inr (savedManifest (arxmlNode updated))"
proof -
  have pm: "mStagedBinaryName activatingManager = ''app''" "extractDir activatingManager = ''/u/staging''"
    "separatePaths ''/b'' ''/m'' activatingManager ''app''"
    by (simp_all add: activatingManager_def emptyManager_def newPackageManager_def extractDir_def separatePaths_def tmpPath_def)
  have fs: "activatingFiles ''/m'' = Some (bytesOf (sourceText sampleDeclaration sampleComments ''    '' sampleProcesses))"
    "activatingFiles ''/u/staging/manifest/process_entry.xml'' = Some (bytesOf scriptEntry)"
    by (simp_all add: activatingFiles_def)
  have sel: "sampleSelect (documentNode [sampleProcesses]) = Some (0 # [0])" by (simp add: sampleSelect_def)
  have entry: "Option.bind (loadedDocument (bytesOf scriptEntry)) document_element = Some scriptProcess"
    using sample_trees(2) by (simp add: sample_loaded document_element_def documentNode_def manifestTree_def is_element_def)
  obtain fs1 where i: "installBinary NoFault ''/b'' activatingManager activatingFiles = (True, fs1)"
    "fs1 ''/m'' = activatingFiles ''/m''"
    "fs1 ''/u/staging/manifest/process_entry.xml'' = activatingFiles ''/u/staging/manifest/process_entry.xml''"
    by (simp add: installBinary_def pm replaceVia_def activatingFiles_def Let_def)
  have kvs: "mRegistry activatingManager = Some \<lparr> mStoragePath = ''/u/r'', mRoot = [] \<rparr>"
    "mPendingTransfers activatingManager = [(1, samplePackage ''app'' 1)]"
    by (simp_all add: activatingManager_def emptyManager_def newPackageManager_def)
  obtain pm' fs' where a: "Activate noFaults (pugiXml sampleSelect) (\<lambda>_. []) ''/b'' ''/m'' activatingManager activatingFiles = (Inr (), pm', fs')"
    using pugi_inject [where select = sampleSelect, OF sample_loaded(1) entry sel] i by (simp add: Activate_def pm kvs noFaults_def fs Let_def)
  have path: "elementPath [0] sampleProcesses" "node_name scriptProcess = Some ''PROCESS''"
    by (simp_all add: sampleProcesses_def scriptProcess_def elementNode_def is_element_def)
  obtain updated where u: "updated = updateAt [0] (append_copy scriptProcess) sampleProcesses"
    "ArxmlReader_file (pugiLib (\<lambda>path. map_option charsOf (fs' path)) (\<lambda>v. v = ''1.0'')) ''/m'' =
       Inr (savedManifest (arxmlNode updated))"
    using updated_manifest_read [OF a _ fs(1) sample_loaded(1) sample_trees(1) _ entry sample_trees(2) path(2) sel path(1), of "\<lambda>v. v = ''1.0''"]
      pm fs(2) sample_names by auto
  have "processNames [0] updated = [''old'', ''TimeSynchronization'']"
    using sample_names appended_children [OF path(1), of scriptProcess] sample_trees(2) path(2)
    by (simp add: processNames_def u(1) manifestTree_def)
  then show ?thesis using a u(2) by blast
qed

end
