(* ===== verification/Spec2Isabelle.thy ===== *)
theory Spec2Isabelle
  imports Result Payload E2E SdMessage Rpc PubSub SdServer UdsRouting UdsServices DiagEvents Exec Phm SdClient Ucm Discovery PackageService VehicleStatus Doip Health Platform Update Log Deterministic Watchdog ExtendedVehicle DiagManager PugiManifest
begin

text \<open>
  Verification of the Adaptive AUTOSAR platform of this repository (C++14): the functional clusters under
  \<open>src/ara\<close>, the applications under \<open>src/application\<close> and the services under \<open>src-gen\<close>. Paths below are
  relative to the repository, \<open>ara/\<close> stands for \<open>src/ara/\<close> and \<open>com/\<close> for \<open>src/ara/com/\<close>. The definitions carry the names of the functions they translate,
  with the name of the class in front where two classes have a function of that name.

  The program and its parts.

  The platform starts as one process, execution management. It reads a manifest, spawns the processes of the machine
  state and offers two RPC servers: the execution server, to which processes report that they are running, and the
  state server, through which state management requests the start-up state. Further processes are platform health
  management, which supervises checkpoints the applications send over FIFOs and calls recovery actions, the
  diagnostic manager, the update manager and its master, the extended vehicle and the watchdog. Applications find
  each other by SOME/IP service discovery, subscribe to event groups, exchange events protected end to end, and call
  each other by SOME/IP RPC. Diagnostic requests arrive over DoIP and are routed to services by their identifier.
  Storage is a directory of files and key-value stores.

  The theories, from the bottom up.

  \<open>Prelude\<close>: machine integers as words, exceptions as values (\<open>Inl\<close> an exception, \<open>Inr\<close> a result; \<open>Undefined\<close> is the
  exception value of undefined behaviour, so that a theorem that excludes it is a statement of memory safety), checked
  byte access, big-endian splitting, the collections of lemmas, and the interfaces of wire formats
  (\<open>wire_format\<close>, \<open>codec\<close>, \<open>fixed_codec\<close>, \<open>message_format\<close>).

  \<open>Core\<close>, \<open>Result\<close> (\<open>ara/core/optional.h\<close>, \<open>result.h\<close>): Optional owns a pointer, so its model is a heap of objects and
  the pointer of each Optional; Result is two Optionals. Both are shown to refine the HOL types \<open>option\<close> and
  sum, which is what entitles the other theories to use those types in their place.

  \<open>Payload\<close>, \<open>SdOption\<close>, \<open>SdEntry\<close>, \<open>SomeIp\<close>, \<open>SdMessage\<close> (\<open>ara/com/helper\<close>, \<open>com/option\<close>, \<open>com/entry\<close>,
  \<open>com/someip\<close>): the message formats. Integers and addresses interpret \<open>fixed_codec\<close> (\<open>byte\<close>, \<open>short\<close>, \<open>integer\<close>,
  \<open>ipv4\<close>), options interpret \<open>codec\<close> (\<open>opt\<close>), entries \<open>wire_format\<close> (\<open>entry\<close>), RPC and discovery messages
  \<open>message_format\<close> (\<open>rpc\<close>, \<open>sd\<close>); the two option runs of an entry share the locale \<open>option_run\<close> (\<open>first\<close>, \<open>second\<close>).
  The lemmas give round trips, lengths, and every error branch of the parsers.

  \<open>E2E\<close> (\<open>ara/com/e2e\<close>): profile 11. \<open>table_crc\<close> (\<open>crc11\<close>) relates the table computed by the code's loop to the
  detection of changed bytes, \<open>e2e_profile\<close> (\<open>profile11\<close>) states what sender and receiver rely on.

  \<open>ConcurrentQueue\<close>, \<open>Rpc\<close> (\<open>com/helper/concurrent_queue.h\<close>, \<open>com/someip/rpc\<close>): the queue between threads
  (\<open>fifo\<close>, \<open>cq\<close>), the dispatch of requests, sessions, and the reassembly of messages from a byte stream.

  \<open>PubSub\<close>, \<open>SdServer\<close>, \<open>SdClient\<close>, \<open>SdNetwork\<close>, \<open>Discovery\<close> (\<open>com/helper\<close> state machine, \<open>com/someip/pubsub\<close>,
  \<open>com/someip/sd\<close>): publisher, discovery agents and their state machines, the network layer, and their composition
  (\<open>sd_transport\<close>, \<open>udp\<close>). Each agent is a step function over events with reachability and invariants.

  \<open>UdsRouting\<close>, \<open>UdsServices\<close>, \<open>DiagEvents\<close> (\<open>ara/diag\<close>): the router and its services (\<open>uds_service\<close>,
  interpreted for transfer data, download, upload, transfer exit and ECU reset), security access, the generic routine,
  and events, debouncers (\<open>debouncer\<close>: \<open>counter\<close>, \<open>timer\<close>), monitors, conditions, operation cycles and conversations.

  \<open>Exec\<close>, \<open>Deterministic\<close>, \<open>Phm\<close>, \<open>Per\<close>, \<open>Ucm\<close>, \<open>Log\<close> (\<open>ara/exec\<close>, \<open>ara/phm\<close>, \<open>ara/per\<close>, \<open>ara/ucm\<close>, \<open>ara/log\<close>,
  \<open>ara/sm\<close>): execution and state servers and clients, the deterministic client with its worker threads, notifiers and
  triggers, supervisions (\<open>supervision\<close>: \<open>alive\<close>, \<open>deadline\<close>), storage, the package manager, streams, loggers and
  sinks. \<open>LogLevel\<close> and \<open>SupervisionStatus\<close> are instances of \<open>linorder\<close>.

  \<open>Arxml\<close>, \<open>VehicleStatus\<close>, \<open>PackageService\<close> (\<open>src/arxml\<close>, \<open>src-gen/vehicle_status\<close>, \<open>src-gen/package_management\<close>):
  manifests and the two services; the serialised arguments of the package service interpret the codecs once more
  (\<open>wire32\<close>, \<open>wire64\<close>, \<open>wireStr\<close>, \<open>wireVec\<close>, \<open>wireInf\<close>).

  \<open>PugiText\<close>, \<open>PugiParser\<close>, \<open>PugiPrinter\<close>, \<open>PugiLoad\<close>, \<open>PugiSource\<close>, \<open>PugiManifest\<close> (\<open>src/arxml/pugixml.cpp\<close>):
  the XML library in the repository. Character classes, entities and escaping; the parser under all its flags, a stack
  of open nodes over the rest of the text; the printer under all its flags; encodings, loading and saving. \<open>PugiSource\<close>
  loads texts as they are written by hand, with a declaration, comments and any indentation. \<open>PugiManifest\<close> puts it in
  for the library the reader of \<open>Arxml\<close> (\<open>pugiLib\<close>) and the update of \<open>Ucm\<close> (\<open>pugiXml\<close>) are given from outside, and
  proves what those assume of it.

  \<open>Doip\<close>, \<open>Health\<close>, \<open>Platform\<close>, \<open>Update\<close>, \<open>Journal\<close>, \<open>Watchdog\<close>, \<open>ExtendedVehicle\<close>, \<open>DiagManager\<close>
  (\<open>src/application\<close>): the applications. \<open>expiring_store\<close> (\<open>cache\<close>) is the cache of vehicle data, \<open>link_refinement\<close>
  (\<open>connection\<close>) replaces a package manager by a proxy of it: what is proved of the update master on the manager holds
  for the master on the connection.

  What the lemmas show.

  Each component has an invariant or well-formedness predicate that its operations preserve, equations for the branches
  of its operations, and one or more properties, which are preceded by a text block with a number. The properties that
  compose components are: a discovery message and an RPC message survive the wire (\<open>SdMessage\<close>, \<open>SomeIp\<close>); a request
  stream in any chunks is answered in order (\<open>Rpc\<close>); a service is found and subscribed to (\<open>Discovery\<close>); a status
  reaches the handler of a subscriber (\<open>VehicleStatus\<close>); the machine starts up (\<open>Platform\<close>); an application that falls
  silent is recovered (\<open>Health\<close>); a vehicle is updated once (\<open>Update\<close>); a saved document is loaded again
  (\<open>PugiLoad\<close>), a configuration is found in the text of a manifest, and the manifest an update has written is read by
  the next start (\<open>PugiManifest\<close>); a parameter is read over DoIP (\<open>Doip\<close>); the
  applications end, or cannot, and keep the journal their specification gives (\<open>ExtendedVehicle\<close>, \<open>Watchdog\<close>); a
  discovered service heals its event and is bridged (\<open>DiagManager\<close>). Programs over Results and Optionals refine
  programs over sums and options (\<open>Result\<close>, \<open>Core\<close>).
\<close>

text \<open>
  How the code is modelled.

  A class is a record of its members; a method takes the object and returns it updated, with the value, the messages
  or the calls it produces. An exception keeps the state the code had reached where a caller can see it. Unsigned
  integers are words of their width, also \<open>size_t\<close> (64 bits); where signed or unbounded values cannot overflow within
  the stated bounds they are \<open>int\<close> or \<open>nat\<close>. Unchecked subscripts, iterator ranges past the end, dereferenced
  null pointers and freed objects are \<open>Undefined\<close>.

  Threads are interleavings of atomic steps: each step is what one thread does between two points at which it waits or
  releases a lock. A \<open>try_lock\<close> that fails is an input. Time is given from outside: the end of a sleep or of a wait is an
  event, and a measured time or a reading of the clock is an argument. Memory allocation does not fail.

  What is not in the repository is an argument: sockets and poller
  (AsyncBsdSocketLib), the DoIP library, jsoncpp, the HTTP client, tar, the emulator of the vehicle
  bus, the random engine, the operating system's results of calls on files and processes. What a theorem needs of them
  is a named hypothesis (a written JSON object is read back, for example), and a witness gives an instance.

  Termination and bounds.

  Loops over data are structural or have a measure. Loops that can run for ever are partial functions into
  \<open>option\<close>, where \<open>None\<close> means that they do not return: \<open>drainQueue\<close>, \<open>sendPackets\<close> and \<open>SdNet_onSend\<close> (they drain a queue another
  thread may refill or lock), \<open>wdLoop\<close>, \<open>evLoop\<close> and \<open>dmLoop\<close> (the loops of the applications). That they return is
  stated as such: the extended vehicle returns when it is cancelled, the watchdog never does. No model uses fuel.
  Lengths are bounded where the wire bounds them: 16 bits for strings and options, 32 bits for payloads, 256 bytes for
  a discovery datagram; the journal is bounded by the 32-bit number of its next entry.

  Not modelled.

  Of pugixml (\<open>src/arxml/pugixml.cpp\<close>, vendored): the XPath engine, of which the program uses one fixed query (the
  argument \<open>select\<close> of \<open>pugiXml\<close>); the conversion of text to floating-point numbers (\<open>isVersionOne\<close>); the allocator and
  compact mode; wide-character mode; streams, output in other encodings than UTF-8, and the editing functions the
  program does not call; error offsets and the partial tree of a failed parse. Strings are converted in place by the
  code; the model returns the converted text.

  Further: the program entry points, which start the applications; the application HTTP helper, which
  only calls the HTTP library; the time synchronisation application, which prints a line every second; the abstract
  state machine interface, the enumerations of \<open>ara/sm\<close> that no code uses and the structure \<open>ExecutionErrorEvent\<close>,
  which have no behaviour; socket set-up and registration with the poller; the move assignment of \<open>Result<void>\<close>, which
  names a member that does not exist and cannot be instantiated. Durations of waits, floating-point arithmetic and the
  data races of unsynchronised members are outside the models; the manifest's entries list them by component.
\<close>

end
